(* ===== verification/Prelude.thy ===== *)
theory Prelude
  imports Complex_Main "HOL-Library.AList" "HOL-Library.Char_ord" "HOL-Library.List_Lexorder"
    "HOL-Library.Product_Lexorder"
begin

text \<open>
  Shared vocabulary of the development: the JavaScript containers the sources use and the
  lemmas every component needs about them.

  \<^item> A \<open>Map\<close> (or a plain object used as a record) is an association list in insertion order:
    \<open>m.get(k)\<close> is \<open>map_of m k\<close>, \<open>m.set(k, v)\<close> is \<open>AList.update k v m\<close> (in place when the
    key exists, appended otherwise, as JavaScript does), \<open>m.delete(k)\<close> is
    \<open>AList.delete k m\<close>. The keys of a container built by these operations are distinct.
  \<^item> A \<open>Set\<close> is a distinct list in insertion order; \<open>sadd\<close> is \<open>add\<close>.
  \<^item> \<open>Date.now()\<close>, random identifiers and the answers of remote services are arguments.
  \<^item> An exception is the \<open>Inl\<close> of a sum.
\<close>

named_theorems container_simps \<open>lookup and membership facts of the container operations\<close>

type_synonym ('k, 'v) jsmap = "('k \<times> 'v) list"

abbreviation jget :: "('k, 'v) jsmap \<Rightarrow> 'k \<Rightarrow> 'v option" where
  "jget m k \<equiv> map_of m k"

abbreviation jset :: "'k \<Rightarrow> 'v \<Rightarrow> ('k, 'v) jsmap \<Rightarrow> ('k, 'v) jsmap" where
  "jset k v m \<equiv> AList.update k v m"

abbreviation jdel :: "'k \<Rightarrow> ('k, 'v) jsmap \<Rightarrow> ('k, 'v) jsmap" where
  "jdel k m \<equiv> AList.delete k m"

abbreviation jkeys :: "('k, 'v) jsmap \<Rightarrow> 'k list" where
  "jkeys m \<equiv> map fst m"

abbreviation jvals :: "('k, 'v) jsmap \<Rightarrow> 'v list" where
  "jvals m \<equiv> map snd m"

abbreviation jwf :: "('k, 'v) jsmap \<Rightarrow> bool" where
  "jwf m \<equiv> distinct (map fst m)"

definition jhas :: "('k, 'v) jsmap \<Rightarrow> 'k \<Rightarrow> bool" where
  "jhas m k = (case map_of m k of None \<Rightarrow> False | Some _ \<Rightarrow> True)"

definition get_or :: "'v \<Rightarrow> ('k, 'v) jsmap \<Rightarrow> 'k \<Rightarrow> 'v" where
  "get_or d m k = (case map_of m k of None \<Rightarrow> d | Some v \<Rightarrow> v)"

definition sadd :: "'a \<Rightarrow> 'a list \<Rightarrow> 'a list" where
  "sadd x s = (if x \<in> set s then s else s @ [x])"

definition sadds :: "'a list \<Rightarrow> 'a list \<Rightarrow> 'a list" where
  "sadds xs s = foldl (\<lambda>acc x. sadd x acc) s xs"

definition sdel :: "'a \<Rightarrow> 'a list \<Rightarrow> 'a list" where
  "sdel x s = filter (\<lambda>y. y \<noteq> x) s"

section \<open>Association lists as maps\<close>

declare map_of_eq_Some_iff [simp del] Some_eq_map_of_iff [simp del]

lemma jget_jset [simp, container_simps]:
  "jget (jset k v m) k' = (if k' = k then Some v else jget m k')"
  by (simp add: update_conv')

lemma jget_jdel [simp, container_simps]:
  "jget (jdel k m) k' = (if k' = k then None else jget m k')"
  by (simp add: delete_conv')

lemma jwf_jset [simp, intro]: "jwf m \<Longrightarrow> jwf (jset k v m)"
  by (rule distinct_update)

lemma jwf_jdel [simp, intro]: "jwf m \<Longrightarrow> jwf (jdel k m)"
  by (rule distinct_delete)

lemma jkeys_jset [simp]: "fst ` set (jset k v m) = insert k (fst ` set m)"
  by (induction m) auto

lemma length_jset: "length (jset k v m) \<le> Suc (length m)"
  by (induction m) auto

lemma jkeys_jdel [simp]: "fst ` set (jdel k m) = fst ` set m - {k}"
  by (auto simp: AList.delete_eq)

lemma jhas_iff [container_simps]: "jhas m k \<longleftrightarrow> k \<in> set (jkeys m)"
  by (auto simp: jhas_def split: option.splits)
    (metis map_of_eq_None_iff option.distinct(1) image_eqI fst_conv)+

lemma jget_None_iff: "jget m k = None \<longleftrightarrow> k \<notin> set (jkeys m)"
  by (simp add: map_of_eq_None_iff)

lemma jget_in: "jget m k = Some v \<Longrightarrow> (k, v) \<in> set m"
  by (rule map_of_SomeD)

lemma jwf_in_get: "jwf m \<Longrightarrow> (k, v) \<in> set m \<longleftrightarrow> jget m k = Some v"
  by (auto intro: map_of_is_SomeI dest: map_of_SomeD)

lemma get_or_jset [simp, container_simps]:
  "get_or d (jset k v m) k' = (if k' = k then v else get_or d m k')"
  by (simp add: get_or_def)

lemma get_or_jdel [simp, container_simps]:
  "get_or d (jdel k m) k' = (if k' = k then d else get_or d m k')"
  by (simp add: get_or_def)

lemma get_or_Nil [simp]: "get_or d [] k = d"
  by (simp add: get_or_def)

lemma get_or_Cons [simp]: "get_or d ((a, v) # m) k = (if k = a then v else get_or d m k)"
  by (simp add: get_or_def)

lemma get_or_map_entries: "f d = d \<Longrightarrow> get_or d (map (\<lambda>(k, r). (k, f r)) m) k = f (get_or d m k)"
  by (induction m) auto

lemma get_or_absent: "k \<notin> set (jkeys m) \<Longrightarrow> get_or d m k = d"
  by (simp add: get_or_def jget_None_iff [THEN iffD2])

lemma get_or_present: "jget m k = Some v \<Longrightarrow> get_or d m k = v"
  by (simp add: get_or_def)

lemma list_all_jset: "list_all P m \<Longrightarrow> P (k, v) \<Longrightarrow> list_all P (jset k v m)"
  by (induction m) auto

lemma list_all_jdel: "list_all P m \<Longrightarrow> list_all P (jdel k m)"
  by (auto simp: AList.delete_eq list_all_iff)

lemma list_all_jget: "list_all P m \<Longrightarrow> jget m k = Some v \<Longrightarrow> P (k, v)"
  by (auto simp: list_all_iff dest!: jget_in)

lemma jget_map_entries: "jget (map (\<lambda>(k, r). (k, f r)) m) k = map_option f (jget m k)"
  by (induction m) auto

lemma jkeys_map_entries [simp]: "map fst (map (\<lambda>(k, r). (k, f r)) m) = map fst m"
  by (induction m) auto

lemma jkeys_map_entries_comp [simp]: "map (fst \<circ> (\<lambda>(k, r). (k, f r))) m = map fst m"
  by (induction m) auto

lemma get_or_filter:
  "jwf m \<Longrightarrow> get_or d (filter (\<lambda>(k, v). P v) m) k = (if P (get_or d m k) then get_or d m k else d)"
proof (induction m)
  case (Cons p m)
  obtain a v where p: "p = (a, v)" by force
  with Cons.prems have "a \<notin> set (jkeys m)" and m: "jwf m" by auto
  then have "get_or d m a = d" by (simp add: get_or_absent)
  with Cons.IH [OF m] p show ?case by (cases "k = a") auto
qed simp

lemma jwf_filter: "jwf m \<Longrightarrow> jwf (filter P m)"
  by (induction m) auto

lemma jvals_jset_absent: "k \<notin> set (jkeys m) \<Longrightarrow> jset k v m = m @ [(k, v)]"
  by (induction m) auto

lemma find_SomeD: "find P xs = Some x \<Longrightarrow> x \<in> set xs \<and> P x"
  by (induction xs) (auto split: if_splits)

section \<open>Insertion-ordered sets\<close>

lemma set_sadd [simp, container_simps]: "set (sadd x s) = insert x (set s)"
  by (auto simp: sadd_def)

lemma distinct_sadd [simp, intro]: "distinct s \<Longrightarrow> distinct (sadd x s)"
  by (auto simp: sadd_def)

lemma set_sadds [simp, container_simps]: "set (sadds xs s) = set s \<union> set xs"
  unfolding sadds_def by (induction xs arbitrary: s) auto

lemma distinct_sadds [simp, intro]: "distinct s \<Longrightarrow> distinct (sadds xs s)"
  unfolding sadds_def by (induction xs arbitrary: s) auto

lemma set_sdel [simp, container_simps]: "set (sdel x s) = set s - {x}"
  by (auto simp: sdel_def)

lemma distinct_sdel [simp, intro]: "distinct s \<Longrightarrow> distinct (sdel x s)"
  by (simp add: sdel_def)

section \<open>Decimal text of numbers\<close>

fun show_nat :: "nat \<Rightarrow> string" where
  "show_nat n =
     (if n < 10 then [char_of (48 + n)]
      else show_nat (n div 10) @ [char_of (48 + n mod 10)])"

declare show_nat.simps [simp del]

definition show_int :: "int \<Rightarrow> string" where
  "show_int i = (if i < 0 then ''-'' @ show_nat (nat (- i)) else show_nat (nat i))"

end
