(* ===== verification/Crdt_Interface.thy ===== *)
theory Crdt_Interface
  imports Prelude
begin

text \<open>
  The contract of the state-based replicated types of \<open>server/federation/crdt\<close>: a local
  instance \<open>'c\<close> merges the transportable state \<open>'s\<close> of another instance. What replicas
  must agree on is the observation \<open>obs\<close>, on which merging is a join. The headers of the
  sources promise that merging is commutative, associative and idempotent; the locale derives
  those three laws and convergence once, for every type that provides its laws.
\<close>

locale state_crdt =
  fixes mrg :: "'c \<Rightarrow> 's \<Rightarrow> 'c"
    and st :: "'c \<Rightarrow> 's"
    and obs :: "'c \<Rightarrow> 'o"
    and jn :: "'o \<Rightarrow> 'o \<Rightarrow> 'o"
    and wf :: "'c \<Rightarrow> bool"
  assumes obs_mrg: "wf c \<Longrightarrow> wf d \<Longrightarrow> obs (mrg c (st d)) = jn (obs c) (obs d)"
    and wf_mrg: "wf c \<Longrightarrow> wf d \<Longrightarrow> wf (mrg c (st d))"
    and jn_comm: "jn x y = jn y x"
    and jn_assoc: "jn (jn x y) z = jn x (jn y z)"
    and jn_idem: "wf c \<Longrightarrow> jn (obs c) (obs c) = obs c"
begin

lemma mrg_comm: "wf c \<Longrightarrow> wf d \<Longrightarrow> obs (mrg c (st d)) = obs (mrg d (st c))"
  by (simp add: obs_mrg jn_comm)

lemma mrg_assoc:
  "wf c \<Longrightarrow> wf d \<Longrightarrow> wf e \<Longrightarrow>
   obs (mrg (mrg c (st d)) (st e)) = obs (mrg c (st (mrg d (st e))))"
  by (simp add: obs_mrg wf_mrg jn_assoc)

lemma mrg_idem: "wf c \<Longrightarrow> obs (mrg c (st c)) = obs c"
  by (simp add: obs_mrg jn_idem)

lemma mrg_twice:
  "wf c \<Longrightarrow> wf d \<Longrightarrow> obs (mrg (mrg c (st d)) (st d)) = obs (mrg c (st d))"
  by (simp add: obs_mrg wf_mrg jn_assoc jn_idem)

text \<open>A replica that receives the states of a list of instances, one after the other.\<close>

lemma deliver_obs:
  "wf c \<Longrightarrow> list_all wf ds \<Longrightarrow>
   wf (foldl (\<lambda>a d. mrg a (st d)) c ds) \<and>
   obs (foldl (\<lambda>a d. mrg a (st d)) c ds) = foldl (\<lambda>o1 d. jn o1 (obs d)) (obs c) ds"
  by (induction ds arbitrary: c) (auto simp: obs_mrg wf_mrg)

lemma fold_jn_out: "foldl (\<lambda>o1 d. jn o1 (obs d)) (jn x y) ds = jn x (foldl (\<lambda>o1 d. jn o1 (obs d)) y ds)"
  by (induction ds arbitrary: y) (auto simp: jn_assoc)

lemma fold_jn_absorb:
  "d \<in> set ds \<Longrightarrow> list_all wf ds \<Longrightarrow>
   jn (foldl (\<lambda>o1 d. jn o1 (obs d)) x ds) (obs d) = foldl (\<lambda>o1 d. jn o1 (obs d)) x ds"
proof (induction ds arbitrary: x)
  case Nil
  then show ?case by simp
next
  case (Cons e es)
  show ?case
  proof (cases "d \<in> set es")
    case True
    with Cons show ?thesis by simp
  next
    case False
    with Cons.prems have "d = e" "wf d" by auto
    have "jn (foldl (\<lambda>o1 d. jn o1 (obs d)) (jn x (obs d)) es) (obs d) =
        foldl (\<lambda>o1 d. jn o1 (obs d)) (jn (obs d) (jn x (obs d))) es"
      by (metis fold_jn_out jn_comm)
    also have "jn (obs d) (jn x (obs d)) = jn x (obs d)"
      using jn_idem [OF \<open>wf d\<close>] by (metis jn_comm jn_assoc)
    finally show ?thesis using \<open>d = e\<close> by simp
  qed
qed

lemma fold_jn_absorb_all:
  "set es \<subseteq> set ds \<Longrightarrow> list_all wf ds \<Longrightarrow>
   foldl (\<lambda>o1 d. jn o1 (obs d)) (foldl (\<lambda>o1 d. jn o1 (obs d)) x ds) es =
   foldl (\<lambda>o1 d. jn o1 (obs d)) x ds"
  by (induction es) (auto simp: fold_jn_absorb)

lemma fold_jn_swap:
  "foldl (\<lambda>o1 d. jn o1 (obs d)) (foldl (\<lambda>o1 d. jn o1 (obs d)) x ds) es =
   foldl (\<lambda>o1 d. jn o1 (obs d)) (foldl (\<lambda>o1 d. jn o1 (obs d)) x es) ds"
proof (induction es arbitrary: x)
  case Nil
  then show ?case by simp
next
  case (Cons e es)
  have "jn (foldl (\<lambda>o1 d. jn o1 (obs d)) x ds) (obs e) = foldl (\<lambda>o1 d. jn o1 (obs d)) (jn x (obs e)) ds"
    by (metis fold_jn_out jn_comm)
  then show ?case using Cons.IH [of "jn x (obs e)"] by simp
qed

text \<open>
  Strong convergence: two replicas that start alike and receive the same states, in any
  order and with any repetitions, observe the same.
\<close>

lemma convergence:
  assumes "wf c" and "list_all wf ds" and "list_all wf es" and "set ds = set es"
  shows "obs (foldl (\<lambda>a d. mrg a (st d)) c ds) = obs (foldl (\<lambda>a d. mrg a (st d)) c es)"
proof -
  have "foldl (\<lambda>o1 d. jn o1 (obs d)) (obs c) ds = foldl (\<lambda>o1 d. jn o1 (obs d)) (obs c) es"
    using fold_jn_absorb_all [of es ds "obs c"] fold_jn_absorb_all [of ds es "obs c"]
      fold_jn_swap [of "obs c" ds es] assms by simp
  with assms show ?thesis by (simp add: deliver_obs)
qed

text \<open>An exchange in both directions leaves both replicas with the same observation.\<close>

lemma exchange_agrees:
  "wf c \<Longrightarrow> wf d \<Longrightarrow> obs (mrg c (st d)) = obs (mrg d (st (mrg c (st d))))"
  using jn_idem [of d] by (simp add: obs_mrg wf_mrg) (metis jn_comm jn_assoc)

end

end
