(* ===== verification/Counters.thy ===== *)
theory Counters
  imports Crdt_Interface
begin

text \<open>
  Grow-only and positive-negative counters: \<open>server/federation/crdt/g-counter.ts\<close> and
  \<open>pn-counter.ts\<close>. A counter is an instance with its node id and one slot per node; the
  merged value is the sum of the per-node maxima. Counts are integers (the sources use
  JavaScript numbers, exact up to \<open>2^53\<close>).
\<close>

datatype crdt_error = RangeError string | DifferentSessions string string

section \<open>The per-node maximum\<close>

text \<open>The loop both \<open>GCounter.merge\<close> and \<open>VectorClock.merge\<close> run over the remote entries.\<close>

fun max_merge :: "(string, int) jsmap \<Rightarrow> (string, int) jsmap \<Rightarrow> (string, int) jsmap" where
  "max_merge m [] = m"
| "max_merge m ((nid, remoteCount) # rs) =
     (let local = get_or 0 m nid
      in max_merge (if remoteCount > local then jset nid remoteCount m else m) rs)"

definition nonneg :: "(string, int) jsmap \<Rightarrow> bool" where
  "nonneg m \<longleftrightarrow> list_all (\<lambda>v. 0 \<le> v) (jvals m)"

definition slots_ok :: "(string, int) jsmap \<Rightarrow> bool" where
  "slots_ok m \<longleftrightarrow> jwf m \<and> nonneg m"

lemma nonneg_get: "nonneg m \<Longrightarrow> 0 \<le> get_or 0 m k"
  by (auto simp: nonneg_def get_or_def list_all_iff split: option.splits dest!: jget_in)

lemma nonneg_jset [simp, intro]: "nonneg m \<Longrightarrow> 0 \<le> v \<Longrightarrow> nonneg (jset k v m)"
  unfolding nonneg_def by (induction m) auto

lemma slots_ok_jset [simp, intro]: "slots_ok m \<Longrightarrow> 0 \<le> v \<Longrightarrow> slots_ok (jset k v m)"
  by (simp add: slots_ok_def)

lemma slots_ok_Nil [simp]: "slots_ok []"
  by (simp add: slots_ok_def nonneg_def)

lemma slots_ok_Cons: "slots_ok ((k, v) # m) \<longleftrightarrow> k \<notin> set (jkeys m) \<and> 0 \<le> v \<and> slots_ok m"
  by (auto simp: slots_ok_def nonneg_def)

lemma slots_ok_max_merge [simp]: "slots_ok m \<Longrightarrow> slots_ok r \<Longrightarrow> slots_ok (max_merge m r)"
proof (induction m r rule: max_merge.induct)
  case (2 m nid c rs)
  then have "slots_ok (if c > get_or 0 m nid then jset nid c m else m)" "slots_ok rs"
    by (auto simp: slots_ok_Cons)
  with "2.IH" show ?case by (simp add: Let_def)
qed simp

lemma max_merge_keys: "fst ` set (max_merge m r) \<subseteq> fst ` set m \<union> fst ` set r"
proof (induction m r rule: max_merge.induct)
  case (2 m nid c rs)
  let ?m = "if c > get_or 0 m nid then jset nid c m else m"
  have "fst ` set ?m \<subseteq> insert nid (fst ` set m)" by (simp add: subset_insertI)
  then have "fst ` set ?m \<union> fst ` set rs \<subseteq> fst ` set m \<union> fst ` set ((nid, c) # rs)" by force
  with "2.IH" [OF refl] show ?case by (simp only: max_merge.simps Let_def subset_trans)
qed simp

lemma max_merge_keeps_keys: "k \<in> set (jkeys m) \<Longrightarrow> k \<in> set (jkeys (max_merge m r))"
  by (induction m r rule: max_merge.induct) (simp_all add: Let_def)

lemma get_max_merge:
  "slots_ok m \<Longrightarrow> slots_ok r \<Longrightarrow> get_or 0 (max_merge m r) k = max (get_or 0 m k) (get_or 0 r k)"
proof (induction m r rule: max_merge.induct)
  case (1 m)
  then show ?case by (simp add: nonneg_get slots_ok_def max_absorb1)
next
  case (2 m nid c rs)
  let ?m = "if c > get_or 0 m nid then jset nid c m else m"
  from "2.prems" have ok: "slots_ok ?m" "slots_ok rs" and new: "nid \<notin> set (jkeys rs)"
    by (auto simp: slots_ok_Cons)
  from "2.IH" [OF refl] ok
  have "get_or 0 (max_merge m ((nid, c) # rs)) k = max (get_or 0 ?m k) (get_or 0 rs k)"
    by (simp add: Let_def)
  also have "\<dots> = max (get_or 0 m k) (get_or 0 ((nid, c) # rs) k)"
    using get_or_absent [OF new, of 0] nonneg_get [of m k] "2.prems"(1)
    by (auto simp: get_or_def slots_ok_def split: if_splits)
  finally show ?case .
qed

lemma foldl_plus_sum: "foldl (+) (a :: int) xs = a + sum_list xs"
  by (induction xs arbitrary: a) auto

text \<open>The sum of the slots depends only on what a lookup returns.\<close>

lemma sum_slots: "jwf m \<Longrightarrow> sum_list (jvals m) = (\<Sum>k\<in>set (jkeys m). get_or (0 :: int) m k)"
proof (induction m)
  case (Cons p m)
  obtain k v where p: "p = (k, v)" by force
  with Cons.prems have new: "k \<notin> set (jkeys m)" and m: "jwf m" by auto
  have "(\<Sum>x\<in>set (jkeys m). get_or 0 (p # m) x) = (\<Sum>x\<in>set (jkeys m). get_or 0 m x)"
    by (rule sum.cong) (use new p in \<open>auto simp: get_or_def\<close>)
  then show ?case
    using Cons.IH [OF m] new p by (simp add: get_or_def)
qed simp

lemma sum_slots_superset:
  assumes "jwf m" and "set (jkeys m) \<subseteq> S" and "finite S"
  shows "sum_list (jvals m) = (\<Sum>k\<in>S. get_or (0 :: int) m k)"
  unfolding sum_slots [OF assms(1)]
  by (rule sum.mono_neutral_left) (use assms in \<open>auto intro!: get_or_absent\<close>)

lemma sum_slots_cong:
  assumes "jwf m" and "jwf r" and "\<And>k. get_or (0 :: int) m k = get_or 0 r k"
  shows "sum_list (jvals m) = sum_list (jvals r)"
proof -
  let ?S = "set (jkeys m) \<union> set (jkeys r)"
  have "sum_list (jvals m) = (\<Sum>k\<in>?S. get_or 0 m k)"
    by (rule sum_slots_superset) (use assms in auto)
  also have "\<dots> = (\<Sum>k\<in>?S. get_or 0 r k)" by (simp add: assms(3))
  also have "\<dots> = sum_list (jvals r)"
    by (rule sum_slots_superset [symmetric]) (use assms in auto)
  finally show ?thesis .
qed

section \<open>GCounter\<close>

record g_counter =
  gc_node :: string
  gc_counters :: "(string, int) jsmap"

definition new_g_counter :: "string \<Rightarrow> (string, int) jsmap \<Rightarrow> g_counter" where
  "new_g_counter nid counters =
     \<lparr>gc_node = nid,
      gc_counters = (if jhas counters nid then counters else jset nid 0 counters)\<rparr>"

definition g_increment :: "int \<Rightarrow> g_counter \<Rightarrow> crdt_error + g_counter" where
  "g_increment delta g =
     (if delta \<le> 0 then Inl (RangeError ''GCounter delta must be positive'')
      else let current = get_or 0 (gc_counters g) (gc_node g)
           in Inr (g\<lparr>gc_counters := jset (gc_node g) (current + delta) (gc_counters g)\<rparr>))"

definition g_value :: "g_counter \<Rightarrow> int" where
  "g_value g = foldl (+) 0 (jvals (gc_counters g))"

definition g_merge :: "g_counter \<Rightarrow> (string, int) jsmap \<Rightarrow> g_counter" where
  "g_merge g remote = g\<lparr>gc_counters := max_merge (gc_counters g) remote\<rparr>"

definition g_toState :: "g_counter \<Rightarrow> (string, int) jsmap" where
  "g_toState g = gc_counters g"

definition g_fromState :: "string \<Rightarrow> (string, int) jsmap \<Rightarrow> g_counter" where
  "g_fromState nid state = new_g_counter nid state"

definition g_wf :: "g_counter \<Rightarrow> bool" where
  "g_wf g \<longleftrightarrow> slots_ok (gc_counters g)"

abbreviation g_obs :: "g_counter \<Rightarrow> string \<Rightarrow> int" where
  "g_obs g \<equiv> get_or 0 (gc_counters g)"

definition fun_max :: "(string \<Rightarrow> int) \<Rightarrow> (string \<Rightarrow> int) \<Rightarrow> string \<Rightarrow> int" where
  "fun_max f h = (\<lambda>k. max (f k) (h k))"

lemma fun_max_comm: "fun_max f h = fun_max h f"
  by (simp add: fun_max_def max.commute)

lemma fun_max_assoc: "fun_max (fun_max f h) u = fun_max f (fun_max h u)"
  by (simp add: fun_max_def max.assoc)

lemma fun_max_idem: "fun_max f f = f"
  by (simp add: fun_max_def)

lemma g_value_sum: "g_value g = sum_list (jvals (gc_counters g))"
  by (simp add: g_value_def foldl_plus_sum)

interpretation gcrdt: state_crdt g_merge g_toState g_obs fun_max g_wf
  by unfold_locales
    (auto simp: g_merge_def g_toState_def g_wf_def fun_max_def fun_eq_iff get_max_merge max.assoc
       max.commute)

lemma g_obs_value: "g_wf g \<Longrightarrow> g_wf h \<Longrightarrow> g_obs g = g_obs h \<Longrightarrow> g_value g = g_value h"
  unfolding g_value_sum by (rule sum_slots_cong) (auto simp: g_wf_def slots_ok_def)

lemma g_wf_new [simp]: "slots_ok cs \<Longrightarrow> g_wf (new_g_counter nid cs)"
  by (simp add: g_wf_def new_g_counter_def)

lemma g_obs_new [simp]: "g_obs (new_g_counter nid cs) = get_or 0 cs"
  by (simp add: new_g_counter_def fun_eq_iff jhas_iff get_or_absent)

lemma g_obs_increment:
  "g_increment delta g = Inr g' \<Longrightarrow>
   0 < delta \<and> g_obs g' = (g_obs g)(gc_node g := g_obs g (gc_node g) + delta) \<and>
   gc_node g' = gc_node g"
  by (auto simp: g_increment_def Let_def fun_eq_iff split: if_splits)

lemma g_wf_increment: "g_wf g \<Longrightarrow> g_increment delta g = Inr g' \<Longrightarrow> g_wf g'"
  by (auto simp: g_increment_def Let_def g_wf_def slots_ok_def intro!: nonneg_jset add_nonneg_nonneg nonneg_get
      split: if_splits)

lemma g_value_bump:
  assumes "g_wf g"
  shows "g_value (g\<lparr>gc_counters := jset k (g_obs g k + d) (gc_counters g)\<rparr>) = g_value g + d"
proof -
  let ?m = "gc_counters g" and ?m' = "jset k (g_obs g k + d) (gc_counters g)"
  let ?S = "insert k (set (jkeys ?m))"
  from assms have wf: "jwf ?m" by (simp add: g_wf_def slots_ok_def)
  have "sum_list (jvals ?m') = (\<Sum>x\<in>?S. get_or 0 ?m' x)"
    by (rule sum_slots_superset) (use wf in auto)
  also have "\<dots> = (\<Sum>x\<in>?S. get_or 0 ?m x) + d"
    by (simp add: sum.insert_remove)
  also have "(\<Sum>x\<in>?S. get_or 0 ?m x) = sum_list (jvals ?m)"
    by (rule sum_slots_superset [symmetric]) (use wf in auto)
  finally show ?thesis by (simp add: g_value_sum)
qed

section \<open>PNCounter\<close>

record pn_counter =
  pn_node :: string
  pn_positive :: g_counter
  pn_negative :: g_counter

type_synonym pn_state = "(string, int) jsmap \<times> (string, int) jsmap"

definition new_pn_counter :: "string \<Rightarrow> (string, int) jsmap \<Rightarrow> (string, int) jsmap \<Rightarrow> pn_counter" where
  "new_pn_counter nid pos neg =
     \<lparr>pn_node = nid, pn_positive = new_g_counter nid pos, pn_negative = new_g_counter nid neg\<rparr>"

definition pn_increment :: "int \<Rightarrow> pn_counter \<Rightarrow> crdt_error + pn_counter" where
  "pn_increment delta c =
     (if delta \<le> 0 then Inl (RangeError ''PNCounter increment delta must be positive'')
      else case g_increment delta (pn_positive c) of
        Inl e \<Rightarrow> Inl e
      | Inr p \<Rightarrow> Inr (c\<lparr>pn_positive := p\<rparr>))"

definition pn_decrement :: "int \<Rightarrow> pn_counter \<Rightarrow> crdt_error + pn_counter" where
  "pn_decrement delta c =
     (if delta \<le> 0 then Inl (RangeError ''PNCounter decrement delta must be positive'')
      else case g_increment delta (pn_negative c) of
        Inl e \<Rightarrow> Inl e
      | Inr n \<Rightarrow> Inr (c\<lparr>pn_negative := n\<rparr>))"

definition pn_value :: "pn_counter \<Rightarrow> int" where
  "pn_value c = g_value (pn_positive c) - g_value (pn_negative c)"

definition pn_merge :: "pn_counter \<Rightarrow> pn_state \<Rightarrow> pn_counter" where
  "pn_merge c remote =
     c\<lparr>pn_positive := g_merge (pn_positive c) (fst remote),
       pn_negative := g_merge (pn_negative c) (snd remote)\<rparr>"

definition pn_toState :: "pn_counter \<Rightarrow> pn_state" where
  "pn_toState c = (g_toState (pn_positive c), g_toState (pn_negative c))"

definition pn_fromState :: "string \<Rightarrow> pn_state \<Rightarrow> pn_counter" where
  "pn_fromState nid state = new_pn_counter nid (fst state) (snd state)"

definition pn_wf :: "pn_counter \<Rightarrow> bool" where
  "pn_wf c \<longleftrightarrow> g_wf (pn_positive c) \<and> g_wf (pn_negative c)"

definition pn_obs :: "pn_counter \<Rightarrow> (string \<Rightarrow> int) \<times> (string \<Rightarrow> int)" where
  "pn_obs c = (g_obs (pn_positive c), g_obs (pn_negative c))"

definition pair_max ::
  "(string \<Rightarrow> int) \<times> (string \<Rightarrow> int) \<Rightarrow> (string \<Rightarrow> int) \<times> (string \<Rightarrow> int) \<Rightarrow>
   (string \<Rightarrow> int) \<times> (string \<Rightarrow> int)" where
  "pair_max x y = (fun_max (fst x) (fst y), fun_max (snd x) (snd y))"

interpretation pncrdt: state_crdt pn_merge pn_toState pn_obs pair_max pn_wf
  by unfold_locales
    (auto simp: pn_merge_def pn_toState_def pn_obs_def pair_max_def pn_wf_def
       gcrdt.obs_mrg gcrdt.wf_mrg fun_max_idem fun_max_assoc intro: fun_max_comm)

lemma pn_obs_value: "pn_wf c \<Longrightarrow> pn_wf d \<Longrightarrow> pn_obs c = pn_obs d \<Longrightarrow> pn_value c = pn_value d"
  unfolding pn_value_def pn_obs_def pn_wf_def using g_obs_value by (metis prod.inject)

section \<open>What the counters promise\<close>

lemma g_increment_value_gen:
  "g_wf g \<Longrightarrow> g_increment delta g = Inr g' \<Longrightarrow> g_value g' = g_value g + delta \<and> g_wf g'"
  using g_value_bump [of g "gc_node g" delta] g_wf_increment [of g delta g']
  by (auto simp: g_increment_def Let_def split: if_splits)

text \<open>Counters over disjoint sets of nodes lose nothing: the merge counts every increment.\<close>

lemma g_merge_disjoint:
  assumes "g_wf g" and "g_wf h" and "\<And>k. g_obs g k = 0 \<or> g_obs h k = 0"
  shows "g_value (g_merge g (g_toState h)) = g_value g + g_value h"
proof -
  let ?G = "gc_counters g" and ?H = "gc_counters h"
  let ?M = "max_merge ?G ?H"
  let ?S = "set (jkeys ?G) \<union> set (jkeys ?H)"
  have ok: "slots_ok ?G" "slots_ok ?H" "slots_ok ?M" using assms by (auto simp: g_wf_def)
  then have wf: "jwf ?G" "jwf ?H" "jwf ?M" by (auto simp: slots_ok_def)
  have pos: "0 \<le> g_obs g k" "0 \<le> g_obs h k" for k
    using ok nonneg_get by (auto simp: slots_ok_def)
  have "g_value (g_merge g (g_toState h)) = (\<Sum>k\<in>?S. get_or 0 ?M k)"
    unfolding g_value_sum g_merge_def g_toState_def
    using sum_slots_superset [of ?M ?S] wf max_merge_keys [of ?G ?H] by simp
  also have "\<dots> = (\<Sum>k\<in>?S. g_obs g k + g_obs h k)"
  proof (rule sum.cong [OF refl])
    fix k
    show "get_or 0 ?M k = g_obs g k + g_obs h k"
      using assms(3) [of k] pos [of k] ok by (auto simp: get_max_merge)
  qed
  also have "\<dots> = g_value g + g_value h"
    unfolding g_value_sum sum.distrib using wf by (simp add: sum_slots_superset [of _ ?S])
  finally show ?thesis .
qed

text \<open>
  two replicas of a vote counter that start alike and receive the states of the same
  instances, in any order and with any repetitions, report the same number of votes.
\<close>

theorem g_counter_convergence:
  assumes "g_wf c" and "list_all g_wf ds" and "list_all g_wf es" and "set ds = set es"
  shows "g_value (foldl (\<lambda>a d. g_merge a (g_toState d)) c ds) =
         g_value (foldl (\<lambda>a d. g_merge a (g_toState d)) c es)"
  using gcrdt.convergence [OF assms] gcrdt.deliver_obs [OF assms(1,2)]
    gcrdt.deliver_obs [OF assms(1,3)] by (intro g_obs_value) auto

theorem g_counter_convergence_witness:
  "let a = new_g_counter ''a'' [(''a'', 2)]; b = new_g_counter ''b'' [(''b'', 3)];
       c = new_g_counter ''c'' []
   in g_value (foldl (\<lambda>x d. g_merge x (g_toState d)) c [a, b, a]) =
      g_value (foldl (\<lambda>x d. g_merge x (g_toState d)) c [b, a])"
  unfolding Let_def
  by (rule g_counter_convergence) (auto simp: slots_ok_Cons insert_commute)

end
