(* ===== verification/Vector_Clock.thy ===== *)
theory Vector_Clock
  imports Counters
begin

text \<open>
  \<open>server/federation/crdt/vector-clock.ts\<close>: one counter per node, component-wise maximum on
  receipt, and the causal comparison the sync protocol decides with.
\<close>

datatype causal_relation = Before | After | Concurrent | Equal

record vector_clock =
  vc_node :: string
  vc_clocks :: "(string, int) jsmap"

definition new_vector_clock :: "string \<Rightarrow> (string, int) jsmap \<Rightarrow> vector_clock" where
  "new_vector_clock nid clocks =
     \<lparr>vc_node = nid, vc_clocks = (if jhas clocks nid then clocks else jset nid 0 clocks)\<rparr>"

definition vc_tick :: "vector_clock \<Rightarrow> vector_clock" where
  "vc_tick v =
     (let current = get_or 0 (vc_clocks v) (vc_node v)
      in v\<lparr>vc_clocks := jset (vc_node v) (current + 1) (vc_clocks v)\<rparr>)"

definition vc_merge :: "vector_clock \<Rightarrow> (string, int) jsmap \<Rightarrow> vector_clock" where
  "vc_merge v remote = v\<lparr>vc_clocks := max_merge (vc_clocks v) remote\<rparr>"

definition vc_receive :: "vector_clock \<Rightarrow> (string, int) jsmap \<Rightarrow> vector_clock" where
  "vc_receive v remote = vc_tick (vc_merge v remote)"

definition vc_get :: "vector_clock \<Rightarrow> string \<Rightarrow> int" where
  "vc_get v nid = get_or 0 (vc_clocks v) nid"

definition vc_currentTick :: "vector_clock \<Rightarrow> int" where
  "vc_currentTick v = get_or 0 (vc_clocks v) (vc_node v)"

definition vc_compare :: "vector_clock \<Rightarrow> (string, int) jsmap \<Rightarrow> causal_relation" where
  "vc_compare v other =
     (let allKeys = sadds (jkeys (vc_clocks v) @ jkeys other) [];
          thisLessOnSome = list_ex (\<lambda>k. get_or 0 (vc_clocks v) k < get_or 0 other k) allKeys;
          otherLessOnSome = list_ex (\<lambda>k. get_or 0 (vc_clocks v) k > get_or 0 other k) allKeys
      in if \<not> thisLessOnSome \<and> \<not> otherLessOnSome then Equal
         else if \<not> otherLessOnSome then Before
         else if \<not> thisLessOnSome then After
         else Concurrent)"

definition vc_isBefore :: "vector_clock \<Rightarrow> (string, int) jsmap \<Rightarrow> bool" where
  "vc_isBefore v other = (vc_compare v other = Before)"

definition vc_isConcurrent :: "vector_clock \<Rightarrow> (string, int) jsmap \<Rightarrow> bool" where
  "vc_isConcurrent v other = (vc_compare v other = Concurrent)"

definition vc_toState :: "vector_clock \<Rightarrow> (string, int) jsmap" where
  "vc_toState v = vc_clocks v"

definition vc_fromState :: "string \<Rightarrow> (string, int) jsmap \<Rightarrow> vector_clock" where
  "vc_fromState nid state = new_vector_clock nid state"

abbreviation vc_obs :: "vector_clock \<Rightarrow> string \<Rightarrow> int" where
  "vc_obs v \<equiv> get_or 0 (vc_clocks v)"

definition vc_wf :: "vector_clock \<Rightarrow> bool" where
  "vc_wf v \<longleftrightarrow> slots_ok (vc_clocks v)"

interpretation vccrdt: state_crdt vc_merge vc_toState vc_obs fun_max vc_wf
  by unfold_locales
    (auto simp: vc_merge_def vc_toState_def vc_wf_def fun_max_def fun_eq_iff get_max_merge max.assoc
       max.commute)

lemma vc_obs_new [simp]: "vc_obs (new_vector_clock nid cs) = get_or 0 cs"
  by (simp add: new_vector_clock_def fun_eq_iff jhas_iff get_or_absent)

lemma vc_wf_new [simp]: "slots_ok cs \<Longrightarrow> vc_wf (new_vector_clock nid cs)"
  by (simp add: vc_wf_def new_vector_clock_def)

lemma vc_wf_tick [simp]: "vc_wf v \<Longrightarrow> vc_wf (vc_tick v)"
  by (auto simp: vc_wf_def vc_tick_def Let_def slots_ok_def intro!: nonneg_jset add_nonneg_nonneg nonneg_get)

lemma vc_obs_tick: "vc_obs (vc_tick v) = (vc_obs v)(vc_node v := vc_obs v (vc_node v) + 1)"
  by (simp add: vc_tick_def Let_def fun_eq_iff)

lemma vc_node_ops [simp]:
  "vc_node (vc_tick v) = vc_node v" "vc_node (vc_merge v r) = vc_node v"
  "vc_node (new_vector_clock n cs) = n"
  by (simp_all add: vc_tick_def vc_merge_def new_vector_clock_def Let_def)

text \<open>A key outside both clocks reads as 0 on both sides, so the scan over the known keys is exact.\<close>

lemma compare_scan:
  "list_ex (\<lambda>k. P (get_or 0 m k) (get_or 0 r k)) (sadds (jkeys m @ jkeys r) []) \<longleftrightarrow>
   (\<exists>k. P (get_or (0 :: int) m k) (get_or (0 :: int) r k))" if "\<not> P 0 0"
  unfolding list_ex_iff set_sadds
  using that get_or_absent [where m = m and d = "0 :: int"] get_or_absent [where m = r and d = "0 :: int"]
  by (simp add: Bex_def) (metis UnI1 UnI2 set_map)

lemma vc_compare_cases:
  "vc_compare v r =
     (if (\<forall>k. vc_obs v k = get_or 0 r k) then Equal
      else if (\<forall>k. vc_obs v k \<le> get_or 0 r k) then Before
      else if (\<forall>k. get_or 0 r k \<le> vc_obs v k) then After
      else Concurrent)"
proof -
  have "(\<forall>k. vc_obs v k = get_or 0 r k) \<longleftrightarrow>
      (\<forall>k. vc_obs v k \<le> get_or 0 r k) \<and> (\<forall>k. get_or 0 r k \<le> vc_obs v k)"
    by (auto simp: order_eq_iff)
  then show ?thesis
    using compare_scan [of "(<)" "vc_clocks v" r] compare_scan [of "(>)" "vc_clocks v" r]
    by (auto simp: vc_compare_def Let_def not_less)
qed

text \<open>
  \<open>compare\<close> decides the causal order exactly: \<open>Equal\<close> is equality of every component,
  \<open>Before\<close> the component-wise order without equality, \<open>After\<close> its converse and \<open>Concurrent\<close>
  the absence of both, where a node the clock has not seen counts as 0.
\<close>

theorem vc_compare_correct:
  "(vc_compare v r = Equal) = (vc_get v = get_or 0 r) \<and>
   (vc_compare v r = Before) = (vc_get v \<noteq> get_or 0 r \<and> vc_get v \<le> get_or 0 r) \<and>
   (vc_compare v r = After) = (vc_get v \<noteq> get_or 0 r \<and> get_or 0 r \<le> vc_get v) \<and>
   (vc_compare v r = Concurrent) = (\<not> vc_get v \<le> get_or 0 r \<and> \<not> get_or 0 r \<le> vc_get v)"
  unfolding vc_compare_cases vc_get_def [abs_def] le_fun_def fun_eq_iff
  by (auto intro: order_antisym)

lemma vc_compare_After_iff:
  "vc_compare v r = After \<longleftrightarrow> (\<forall>k. get_or 0 r k \<le> vc_obs v k) \<and> (\<exists>k. get_or 0 r k < vc_obs v k)"
  unfolding vc_compare_cases by (auto simp: less_le) (metis order_antisym)+

text \<open>
  a tick moves the clock strictly after its own past, and receiving a remote clock moves it
  strictly after both its own past and the received clock.
\<close>

theorem vc_receive_after:
  assumes "vc_wf v" and "slots_ok r"
  shows "vc_compare (vc_tick v) (vc_toState v) = After \<and>
    vc_compare (vc_receive v r) (vc_toState v) = After \<and>
    vc_compare (vc_receive v r) r = After"
proof -
  have m: "vc_obs (vc_merge v r) k = max (vc_obs v k) (get_or 0 r k)" for k
    using assms by (simp add: vc_merge_def vc_wf_def get_max_merge)
  show ?thesis
    unfolding vc_compare_After_iff vc_receive_def vc_obs_tick vc_toState_def
    by (auto simp: m intro!: exI [of _ "vc_node v"])
qed

theorem vc_receive_after_witness:
  "let v = new_vector_clock ''a'' [(''a'', 2)]; r = [(''b'', 5), (''a'', 1)]
   in vc_compare (vc_receive v r) r = After \<and> vc_compare v r = Concurrent"
  using vc_receive_after [of "new_vector_clock ''a'' [(''a'', 2)]" "[(''b'', 5), (''a'', 1)]"]
  by (simp add: slots_ok_Cons Let_def) (simp add: vc_compare_def new_vector_clock_def Let_def
      jhas_def sadds_def sadd_def get_or_def)

end
