(* ===== verification/Lww.thy ===== *)
theory Lww
  imports Crdt_Interface
begin

text \<open>
  \<open>server/federation/crdt/lww-register.ts\<close> and \<open>lww-map.ts\<close>: last-writer-wins cells. A write
  carries the tag (timestamp, node id); merging keeps the cell with the greater tag, in the
  lexicographic order of timestamp, then node id as a string. \<open>null\<close> is \<open>None\<close>.
\<close>

section \<open>LWWRegister\<close>

record 'a lww_state =
  ls_value :: "'a option"
  ls_timestamp :: int
  ls_nodeId :: string

record 'a lww_register =
  lr_value :: "'a option"
  lr_timestamp :: int
  lr_nodeId :: string

definition new_lww_register :: "string \<Rightarrow> 'a option \<Rightarrow> int \<Rightarrow> 'a lww_register" where
  "new_lww_register nid value timestamp =
     \<lparr>lr_value = value, lr_timestamp = timestamp, lr_nodeId = nid\<rparr>"

definition lr_set :: "'a \<Rightarrow> int option \<Rightarrow> int \<Rightarrow> 'a lww_register \<Rightarrow> 'a lww_register" where
  "lr_set value timestamp now r =
     (let ts = (case timestamp of None \<Rightarrow> now | Some t \<Rightarrow> t)
      in if ts > lr_timestamp r \<or> (ts = lr_timestamp r \<and> lr_nodeId r \<ge> lr_nodeId r)
         then r\<lparr>lr_value := Some value, lr_timestamp := ts\<rparr> else r)"

definition lr_merge :: "'a lww_register \<Rightarrow> 'a lww_state \<Rightarrow> 'a lww_register" where
  "lr_merge r remote =
     (if ls_timestamp remote > lr_timestamp r \<or>
         (ls_timestamp remote = lr_timestamp r \<and> ls_nodeId remote > lr_nodeId r)
      then r\<lparr>lr_value := ls_value remote, lr_timestamp := ls_timestamp remote,
             lr_nodeId := ls_nodeId remote\<rparr>
      else r)"

definition lr_toState :: "'a lww_register \<Rightarrow> 'a lww_state" where
  "lr_toState r =
     \<lparr>ls_value = lr_value r, ls_timestamp = lr_timestamp r, ls_nodeId = lr_nodeId r\<rparr>"

definition lr_fromState :: "string \<Rightarrow> 'a lww_state \<Rightarrow> 'a lww_register" where
  "lr_fromState nid state = new_lww_register nid (ls_value state) (ls_timestamp state)"

definition lr_tag :: "'a lww_register \<Rightarrow> int \<times> string" where
  "lr_tag r = (lr_timestamp r, lr_nodeId r)"

definition ls_tag :: "'a lww_state \<Rightarrow> int \<times> string" where
  "ls_tag s = (ls_timestamp s, ls_nodeId s)"

text \<open>
  The registers agree with a single assignment \<open>W\<close> of written values to tags: no tag was used
  for two different values.
\<close>

definition lr_ok :: "(int \<times> string \<Rightarrow> 'a option) \<Rightarrow> 'a lww_register \<Rightarrow> bool" where
  "lr_ok W r \<longleftrightarrow> lr_value r = W (lr_tag r)"

lemma ls_tag_toState [simp]: "ls_tag (lr_toState r) = lr_tag r"
  by (simp add: ls_tag_def lr_tag_def lr_toState_def)

lemma ls_timestamp_toState [simp]: "ls_timestamp (lr_toState r) = lr_timestamp r"
  by (simp add: lr_toState_def)

lemma lr_merge_tag: "lr_merge r s = (if lr_tag r < ls_tag s then
    r\<lparr>lr_value := ls_value s, lr_timestamp := ls_timestamp s, lr_nodeId := ls_nodeId s\<rparr> else r)"
  by (auto simp: lr_merge_def lr_tag_def ls_tag_def less_prod_simp)

lemma lr_tag_merge: "lr_tag (lr_merge r s) = max (lr_tag r) (ls_tag s)"
  by (auto simp: lr_merge_tag max_def lr_tag_def ls_tag_def)

lemma lr_ok_merge: "lr_ok W r \<Longrightarrow> ls_value s = W (ls_tag s) \<Longrightarrow> lr_ok W (lr_merge r s)"
  by (auto simp: lr_merge_tag lr_ok_def lr_tag_def ls_tag_def)

lemma lr_ok_toState: "lr_ok W r \<Longrightarrow> ls_value (lr_toState r) = W (ls_tag (lr_toState r))"
  by (simp add: lr_ok_def lr_toState_def ls_tag_def lr_tag_def)

interpretation lwwcrdt: state_crdt lr_merge lr_toState lr_tag max "lr_ok W" for W
  by unfold_locales
    (auto simp: lr_tag_merge lr_ok_merge lr_ok_toState max.commute max.left_commute)

text \<open>
  replicas of a register that receive the same states, in any order and with repetitions,
  hold the same value, provided no two different values were written under one tag
  (\<open>lr_ok W\<close>).
\<close>

theorem lww_register_convergence:
  assumes "lr_ok W c" and "list_all (lr_ok W) ds" and "list_all (lr_ok W) es" and "set ds = set es"
  shows "lr_value (foldl (\<lambda>a d. lr_merge a (lr_toState d)) c ds) =
         lr_value (foldl (\<lambda>a d. lr_merge a (lr_toState d)) c es)"
  using lwwcrdt.convergence [OF assms] lwwcrdt.deliver_obs [OF assms(1,2)]
    lwwcrdt.deliver_obs [OF assms(1,3)] by (simp add: lr_ok_def)

theorem lww_register_convergence_witness:
  "let c = new_lww_register ''c'' None 0; a = new_lww_register ''a'' (Some (1 :: int)) 5;
       b = new_lww_register ''b'' (Some 2) 5
   in lr_value (foldl (\<lambda>x d. lr_merge x (lr_toState d)) c [a, b]) =
      lr_value (foldl (\<lambda>x d. lr_merge x (lr_toState d)) c [b, a, b])"
  unfolding Let_def
  by (rule lww_register_convergence [where W = "\<lambda>t. if t = (5, ''a'') then Some 1
        else if t = (5, ''b'') then Some 2 else None"])
    (auto simp: lr_ok_def lr_tag_def new_lww_register_def)

text \<open>
  the promise "commutative" of the register fails without that proviso. A node that writes
  twice in the same millisecond keeps its second value, because \<open>set\<close> accepts an equal
  timestamp, but a peer that saw the first write rejects the second, because \<open>merge\<close> does not:
  the two replicas hold different values, and no further exchange repairs them.
\<close>

theorem lww_same_millisecond_diverges:
  assumes "0 < ts" and "v \<noteq> w"
  shows "let r1 = lr_set v (Some ts) now (new_lww_register ''a'' None 0);
             peer = lr_merge (new_lww_register ''b'' None 0) (lr_toState r1);
             r2 = lr_set w (Some ts) now r1;
             peer2 = lr_merge peer (lr_toState r2);
             r3 = lr_merge r2 (lr_toState peer2)
         in lr_value r3 = Some w \<and> lr_value peer2 = Some v \<and>
            lr_merge r3 (lr_toState peer2) = r3 \<and> lr_merge peer2 (lr_toState r3) = peer2"
  using assms by (simp add: lr_set_def lr_merge_def lr_toState_def new_lww_register_def Let_def)

theorem lww_same_millisecond_diverges_witness:
  "(0 :: int) < 100 \<and>
   lr_value (lr_merge (lr_merge (new_lww_register ''b'' None 0)
       (lr_toState (lr_set (1 :: int) (Some 100) 0 (new_lww_register ''a'' None 0))))
     (lr_toState (lr_set 2 (Some 100) 0 (lr_set 1 (Some 100) 0 (new_lww_register ''a'' None 0)))))
   = Some 1"
  using lww_same_millisecond_diverges [of 100 "1 :: int" 2 0] by (simp add: Let_def)

text \<open>
  A merge also hands the remote node id to the local register, so a later local write is tagged
  with the remote node's id: this is how two nodes come to share a tag.
\<close>

lemma lr_merge_adopts_node:
  "lr_tag r < ls_tag s \<Longrightarrow> lr_nodeId (lr_set v ts now (lr_merge r s)) = ls_nodeId s"
  by (simp add: lr_merge_tag lr_set_def Let_def)

section \<open>LWWMap\<close>

record 'a lww_map =
  lm_node :: string
  lm_entries :: "(string, 'a lww_register) jsmap"

type_synonym 'a lww_map_state = "(string, 'a lww_state) jsmap"

definition new_lww_map :: "string \<Rightarrow> 'a lww_map" where
  "new_lww_map nid = \<lparr>lm_node = nid, lm_entries = []\<rparr>"

definition lm_set :: "string \<Rightarrow> 'a \<Rightarrow> int option \<Rightarrow> int \<Rightarrow> 'a lww_map \<Rightarrow> 'a lww_map" where
  "lm_set key value timestamp now m =
     (let reg = (case jget (lm_entries m) key of
                   None \<Rightarrow> new_lww_register (lm_node m) None 0 | Some r \<Rightarrow> r)
      in m\<lparr>lm_entries := jset key (lr_set value timestamp now reg) (lm_entries m)\<rparr>)"

definition lm_get :: "string \<Rightarrow> 'a lww_map \<Rightarrow> 'a option option" where
  "lm_get key m = map_option lr_value (jget (lm_entries m) key)"

definition lm_has :: "string \<Rightarrow> 'a lww_map \<Rightarrow> bool" where
  "lm_has key m =
     (case jget (lm_entries m) key of None \<Rightarrow> False
      | Some r \<Rightarrow> (case lr_value r of None \<Rightarrow> False | Some _ \<Rightarrow> True))"

definition lm_value :: "'a lww_map \<Rightarrow> (string, 'a option) jsmap" where
  "lm_value m = map (\<lambda>(k, reg). (k, lr_value reg)) (lm_entries m)"

definition lm_merge_entry :: "string \<Rightarrow> (string, 'a lww_register) jsmap \<Rightarrow> string \<times> 'a lww_state \<Rightarrow>
    (string, 'a lww_register) jsmap" where
  "lm_merge_entry nid es p =
     (let reg = (case jget es (fst p) of None \<Rightarrow> new_lww_register nid None 0 | Some r \<Rightarrow> r)
      in jset (fst p) (lr_merge reg (snd p)) es)"

definition lm_merge :: "'a lww_map \<Rightarrow> 'a lww_map_state \<Rightarrow> 'a lww_map" where
  "lm_merge m remote = m\<lparr>lm_entries := foldl (lm_merge_entry (lm_node m)) (lm_entries m) remote\<rparr>"

definition lm_toState :: "'a lww_map \<Rightarrow> 'a lww_map_state" where
  "lm_toState m = map (\<lambda>(k, reg). (k, lr_toState reg)) (lm_entries m)"

definition lm_fromState :: "string \<Rightarrow> 'a lww_map_state \<Rightarrow> 'a lww_map" where
  "lm_fromState nid state =
     (new_lww_map nid)\<lparr>lm_entries :=
        foldl (\<lambda>es (k, rs). jset k (lr_fromState nid rs) es) [] state\<rparr>"

text \<open>
  The observation of a map: the tag of each key. Entries written by the program carry positive
  timestamps (\<open>Date.now()\<close>), which is what separates a written entry from the fresh register
  (timestamp 0) that \<open>set\<close> and \<open>merge\<close> start from.
\<close>

definition lm_tags :: "'a lww_map \<Rightarrow> string \<Rightarrow> (int \<times> string) option" where
  "lm_tags m k = map_option lr_tag (jget (lm_entries m) k)"

definition omax :: "('a :: linorder) option \<Rightarrow> 'a option \<Rightarrow> 'a option" where
  "omax x y = (case x of None \<Rightarrow> y | Some a \<Rightarrow> (case y of None \<Rightarrow> x | Some b \<Rightarrow> Some (max a b)))"

definition tag_join :: "(string \<Rightarrow> (int \<times> string) option) \<Rightarrow> (string \<Rightarrow> (int \<times> string) option) \<Rightarrow>
    string \<Rightarrow> (int \<times> string) option" where
  "tag_join f g = (\<lambda>k. omax (f k) (g k))"

definition entries_ok :: "(string \<Rightarrow> int \<times> string \<Rightarrow> 'a option) \<Rightarrow>
    (string, 'a lww_register) jsmap \<Rightarrow> bool" where
  "entries_ok W es \<longleftrightarrow> jwf es \<and> list_all (\<lambda>(k, r). lr_ok (W k) r \<and> 0 < lr_timestamp r) es"

definition lm_ok :: "(string \<Rightarrow> int \<times> string \<Rightarrow> 'a option) \<Rightarrow> 'a lww_map \<Rightarrow> bool" where
  "lm_ok W m \<longleftrightarrow> entries_ok W (lm_entries m)"

definition lms_ok :: "(string \<Rightarrow> int \<times> string \<Rightarrow> 'a option) \<Rightarrow> 'a lww_map_state \<Rightarrow> bool" where
  "lms_ok W s \<longleftrightarrow>
     jwf s \<and> list_all (\<lambda>(k, r). ls_value r = W k (ls_tag r) \<and> 0 < ls_timestamp r) s"

lemma omax_ac: "omax x y = omax y x" "omax (omax x y) z = omax x (omax y z)" "omax x x = x"
  "omax None y = y" "omax x None = x"
  by (auto simp: omax_def max.commute max.left_commute split: option.splits)


lemma jget_lm_toState: "jget (lm_toState m) k = map_option lr_toState (jget (lm_entries m) k)"
  by (simp add: lm_toState_def jget_map_entries)

lemma lms_ok_toState: "lm_ok W m \<Longrightarrow> lms_ok W (lm_toState m)"
  by (auto simp: lms_ok_def lm_ok_def entries_ok_def lm_toState_def list_all_iff lr_ok_toState)

lemma lm_merge_entry_ok:
  assumes "entries_ok W es" and "ls_value r = W k (ls_tag r)" and "0 < ls_timestamp r"
  shows "entries_ok W (lm_merge_entry nid es (k, r))"
    and "map_option lr_tag (jget (lm_merge_entry nid es (k, r)) k') =
         (if k' = k then omax (map_option lr_tag (jget es k)) (Some (ls_tag r))
          else map_option lr_tag (jget es k'))"
proof -
  let ?reg = "case jget es k of None \<Rightarrow> new_lww_register nid None 0 | Some r \<Rightarrow> r"
  have fresh: "jget es k = None \<Longrightarrow> lr_merge ?reg r =
      \<lparr>lr_value = ls_value r, lr_timestamp = ls_timestamp r, lr_nodeId = ls_nodeId r\<rparr>"
    using assms(3) by (simp add: lr_merge_def new_lww_register_def)
  have "lr_ok (W k) (lr_merge ?reg r) \<and> 0 < lr_timestamp (lr_merge ?reg r)"
  proof (cases "jget es k")
    case None
    then show ?thesis using fresh assms(2,3) by (simp add: lr_ok_def lr_tag_def ls_tag_def)
  next
    case (Some q)
    with assms(1) have "lr_ok (W k) q" "0 < lr_timestamp q" by (auto simp: entries_ok_def dest!: list_all_jget)
    with Some assms(2,3) show ?thesis by (auto simp: lr_ok_merge) (auto simp: lr_merge_def)
  qed
  then show "entries_ok W (lm_merge_entry nid es (k, r))"
    using assms(1) by (auto simp: entries_ok_def lm_merge_entry_def Let_def intro!: list_all_jset)
  show "map_option lr_tag (jget (lm_merge_entry nid es (k, r)) k') =
         (if k' = k then omax (map_option lr_tag (jget es k)) (Some (ls_tag r))
          else map_option lr_tag (jget es k'))"
    using assms(3) by (auto simp: lm_merge_entry_def Let_def omax_def lr_tag_merge split: option.splits)
      (simp add: lr_tag_def ls_tag_def new_lww_register_def max_def)
qed

lemma lm_merge_fold_ok:
  assumes "entries_ok W es" and "lms_ok W s"
  shows "entries_ok W (foldl (lm_merge_entry nid) es s) \<and>
    map_option lr_tag (jget (foldl (lm_merge_entry nid) es s) k) =
    omax (map_option lr_tag (jget es k)) (map_option ls_tag (jget s k))"
  using assms
proof (induction s arbitrary: es)
  case Nil
  then show ?case by (simp add: omax_ac)
next
  case (Cons p s)
  obtain k0 r where p: "p = (k0, r)" by force
  from Cons.prems have r: "ls_value r = W k0 (ls_tag r)" "0 < ls_timestamp r"
    and s: "lms_ok W s" and new: "k0 \<notin> fst ` set s" by (auto simp: p lms_ok_def)
  from new have absent: "jget s k0 = None" by (simp add: jget_None_iff)
  note step = lm_merge_entry_ok [OF Cons.prems(1) r, of nid]
  from Cons.IH [OF step(1) s] show ?case
    using absent by (auto simp: p step(2) omax_ac)
qed

interpretation lwwmapcrdt: state_crdt lm_merge lm_toState lm_tags tag_join "lm_ok W" for W
proof unfold_locales
  fix c d :: "'a lww_map"
  assume ok: "lm_ok W c" "lm_ok W d"
  note m = lm_merge_fold_ok [OF ok(1) [unfolded lm_ok_def] lms_ok_toState [OF ok(2)]]
  show "lm_tags (lm_merge c (lm_toState d)) = tag_join (lm_tags c) (lm_tags d)"
    using m by (simp add: fun_eq_iff lm_tags_def lm_merge_def tag_join_def jget_lm_toState
        option.map_comp comp_def)
  show "lm_ok W (lm_merge c (lm_toState d))"
    using m by (simp add: lm_ok_def lm_merge_def)
qed (auto simp: tag_join_def fun_eq_iff omax_ac(2,3) intro: omax_ac(1))

lemma lm_tags_value:
  assumes "lm_ok W c" and "lm_ok W d" and "lm_tags c = lm_tags d"
  shows "lm_get k c = lm_get k d"
proof -
  have get: "lm_get k m = map_option (W k) (lm_tags m k)" if ok: "lm_ok W m" for m
  proof (cases "jget (lm_entries m) k")
    case (Some r)
    with ok have "lr_ok (W k) r"
      by (auto simp: lm_ok_def entries_ok_def simp del: map_of_eq_Some_iff dest!: list_all_jget)
    with Some show ?thesis by (simp add: lm_get_def lm_tags_def lr_ok_def)
  qed (simp add: lm_get_def lm_tags_def)
  with assms show ?thesis by simp
qed

end
