(* ===== verification/Or_Set.thy ===== *)
theory Or_Set
  imports Crdt_Interface
begin

text \<open>
  \<open>server/federation/crdt/or-set.ts\<close>: an add attaches a fresh tag to the element, a remove
  tombstones the tags it has observed. The source keys its map by \<open>JSON.stringify(element)\<close> and
  parses the key back in \<open>value\<close>; that text is injective on the strings stored here, so the
  model keys the map by the element itself. The random part of a tag is an argument of \<open>add\<close>.
\<close>

record 'a or_set =
  os_node :: string
  os_entries :: "('a, string list) jsmap"
  os_tombstones :: "string list"

record 'a or_set_state =
  oss_entries :: "('a, string list) jsmap"
  oss_tombstones :: "string list"

definition new_or_set :: "string \<Rightarrow> 'a or_set" where
  "new_or_set nid = \<lparr>os_node = nid, os_entries = [], os_tombstones = []\<rparr>"

definition os_add :: "'a \<Rightarrow> string \<Rightarrow> 'a or_set \<Rightarrow> 'a or_set" where
  "os_add element uuid s =
     (let tag = os_node s @ '':'' @ uuid;
          tags = get_or [] (os_entries s) element
      in s\<lparr>os_entries := jset element (sadd tag tags) (os_entries s)\<rparr>)"

definition os_remove :: "'a \<Rightarrow> 'a or_set \<Rightarrow> 'a or_set" where
  "os_remove element s =
     (case jget (os_entries s) element of
        None \<Rightarrow> s
      | Some tags \<Rightarrow>
          s\<lparr>os_tombstones := sadds tags (os_tombstones s),
            os_entries := jdel element (os_entries s)\<rparr>)"

definition os_has :: "'a \<Rightarrow> 'a or_set \<Rightarrow> bool" where
  "os_has element s =
     (case jget (os_entries s) element of
        None \<Rightarrow> False
      | Some tags \<Rightarrow> tags \<noteq> [] \<and> list_ex (\<lambda>t. t \<notin> set (os_tombstones s)) tags)"

definition os_value :: "'a or_set \<Rightarrow> 'a list" where
  "os_value s =
     map fst (filter (\<lambda>(k, tags). list_ex (\<lambda>t. t \<notin> set (os_tombstones s)) tags) (os_entries s))"

definition os_import :: "('a, string list) jsmap \<Rightarrow> 'a \<times> string list \<Rightarrow> ('a, string list) jsmap" where
  "os_import es p = jset (fst p) (sadds (snd p) (get_or [] es (fst p))) es"

definition os_merge :: "'a or_set \<Rightarrow> 'a or_set_state \<Rightarrow> 'a or_set" where
  "os_merge s remote =
     (let tombs = sadds (oss_tombstones remote) (os_tombstones s);
          imported = foldl os_import (os_entries s) (oss_entries remote)
      in s\<lparr>os_tombstones := tombs,
           os_entries := filter (\<lambda>(k, tags). \<not> list_all (\<lambda>t. t \<in> set tombs) tags) imported\<rparr>)"

definition os_toState :: "'a or_set \<Rightarrow> 'a or_set_state" where
  "os_toState s =
     \<lparr>oss_entries =
        filter (\<lambda>(k, tags). tags \<noteq> [])
          (map (\<lambda>(k, tags). (k, filter (\<lambda>t. t \<notin> set (os_tombstones s)) tags)) (os_entries s)),
      oss_tombstones = os_tombstones s\<rparr>"

definition os_fromState :: "string \<Rightarrow> 'a or_set_state \<Rightarrow> 'a or_set" where
  "os_fromState nid state =
     \<lparr>os_node = nid,
      os_entries = foldl (\<lambda>es (k, tags). jset k (sadds tags []) es) [] (oss_entries state),
      os_tombstones = sadds (oss_tombstones state) []\<rparr>"

section \<open>Observation: live (element, tag) pairs and tombstones\<close>

definition pairs_of :: "('a, string list) jsmap \<Rightarrow> ('a \<times> string) set" where
  "pairs_of es = {(k, t). t \<in> set (get_or [] es k)}"

definition os_obs :: "'a or_set \<Rightarrow> ('a \<times> string) set \<times> string set" where
  "os_obs s =
     ({p \<in> pairs_of (os_entries s). snd p \<notin> set (os_tombstones s)}, set (os_tombstones s))"

definition os_join :: "('a \<times> string) set \<times> string set \<Rightarrow> ('a \<times> string) set \<times> string set \<Rightarrow>
    ('a \<times> string) set \<times> string set" where
  "os_join x y =
     ({p \<in> fst x \<union> fst y. snd p \<notin> snd x \<union> snd y}, snd x \<union> snd y)"

definition os_wf :: "'a or_set \<Rightarrow> bool" where
  "os_wf s \<longleftrightarrow> jwf (os_entries s)"

lemma pairs_of_iff: "(k, t) \<in> pairs_of es \<longleftrightarrow> t \<in> set (get_or [] es k)"
  by (simp add: pairs_of_def)

lemma get_or_import: "set (get_or [] (os_import es p) k) =
    set (get_or [] es k) \<union> (if k = fst p then set (snd p) else {})"
  by (auto simp: os_import_def)

lemma jwf_import: "jwf es \<Longrightarrow> jwf (os_import es p)"
  by (simp add: os_import_def)

lemma import_all:
  "jwf es \<Longrightarrow> jwf r \<Longrightarrow>
   jwf (foldl os_import es r) \<and>
   set (get_or [] (foldl os_import es r) k) = set (get_or [] es k) \<union> set (get_or [] r k)"
proof (induction r arbitrary: es)
  case (Cons p r)
  from Cons.prems have es: "jwf (os_import es p)" and r: "jwf r" and new: "fst p \<notin> set (jkeys r)"
    by (auto simp: jwf_import)
  have "set (get_or [] (foldl os_import es (p # r)) k) =
      set (get_or [] (os_import es p) k) \<union> set (get_or [] r k)"
    using Cons.IH [OF es r] by simp
  also have "\<dots> = set (get_or [] es k) \<union> set (get_or [] (p # r) k)"
    using get_or_absent [OF new, of "[]"] by (cases p) (auto simp: get_or_import)
  finally show ?case using Cons.IH [OF es r] by simp
qed simp

lemma pairs_toState:
  "jwf (os_entries s) \<Longrightarrow>
   get_or [] (oss_entries (os_toState s)) k =
   filter (\<lambda>t. t \<notin> set (os_tombstones s)) (get_or [] (os_entries s) k)"
  by (simp add: os_toState_def get_or_filter get_or_map_entries)

lemma os_obs_merge:
  assumes "os_wf c" and "os_wf d"
  shows "os_obs (os_merge c (os_toState d)) = os_join (os_obs c) (os_obs d)"
    and "os_wf (os_merge c (os_toState d))"
proof -
  let ?r = "oss_entries (os_toState d)"
  let ?T = "set (os_tombstones c) \<union> set (os_tombstones d)"
  let ?I = "foldl os_import (os_entries c) ?r"
  have r: "jwf ?r" using assms(2) by (simp add: os_toState_def os_wf_def jwf_filter)
  note imp = import_all [OF assms(1) [unfolded os_wf_def] r]
  have I: "t \<in> set (get_or [] ?I k) \<longleftrightarrow>
      t \<in> set (get_or [] (os_entries c) k) \<or>
      t \<in> set (get_or [] (os_entries d) k) \<and> t \<notin> set (os_tombstones d)" for k t
    using imp [of k] pairs_toState [OF assms(2) [unfolded os_wf_def], of k] by auto
  have F: "t \<in> set (get_or [] (os_entries (os_merge c (os_toState d))) k) \<and> t \<notin> ?T \<longleftrightarrow>
      t \<in> set (get_or [] ?I k) \<and> t \<notin> ?T" for k t
    using imp [of k] by (auto simp: os_merge_def Let_def get_or_filter list_all_iff os_toState_def)
  have T: "set (os_tombstones (os_merge c (os_toState d))) = ?T"
    by (auto simp: os_merge_def Let_def os_toState_def)
  show "os_obs (os_merge c (os_toState d)) = os_join (os_obs c) (os_obs d)"
  proof -
    have "p \<in> pairs_of (os_entries (os_merge c (os_toState d))) \<and> snd p \<notin> ?T \<longleftrightarrow>
        p \<in> pairs_of (os_entries c) \<union> pairs_of (os_entries d) \<and> snd p \<notin> ?T" for p
      by (cases p) (use F I in \<open>auto simp: pairs_of_def\<close>)
    then show ?thesis unfolding os_obs_def os_join_def T by auto
  qed
  show "os_wf (os_merge c (os_toState d))"
    using imp by (simp add: os_wf_def os_merge_def Let_def jwf_filter)
qed

interpretation orcrdt: state_crdt os_merge os_toState os_obs os_join os_wf
  by unfold_locales (simp_all add: os_obs_merge, auto simp: os_join_def os_obs_def)

lemma os_has_obs: "os_has e s \<longleftrightarrow> (\<exists>t. (e, t) \<in> fst (os_obs s))"
  by (auto simp: os_has_def os_obs_def pairs_of_def get_or_def list_ex_iff split: option.splits)

lemma os_value_has:
  assumes "os_wf s"
  shows "e \<in> set (os_value s) \<longleftrightarrow> os_has e s"
proof -
  have "e \<in> set (os_value s) \<longleftrightarrow>
      (\<exists>tags. (e, tags) \<in> set (os_entries s) \<and> (\<exists>t\<in>set tags. t \<notin> set (os_tombstones s)))"
    by (force simp: os_value_def list_ex_iff)
  also have "\<dots> \<longleftrightarrow> os_has e s"
    using jwf_in_get [OF assms [unfolded os_wf_def]]
    by (auto simp: os_has_def list_ex_iff split: option.splits)
  finally show ?thesis .
qed

section \<open>What the set promises\<close>

lemma os_wf_new [simp]: "os_wf (new_or_set nid)"
  by (simp add: os_wf_def new_or_set_def)

lemma os_wf_add [simp]: "os_wf s \<Longrightarrow> os_wf (os_add e u s)"
  by (simp add: os_wf_def os_add_def Let_def)

lemma os_wf_remove [simp]: "os_wf s \<Longrightarrow> os_wf (os_remove e s)"
  by (simp add: os_wf_def os_remove_def split: option.splits)

lemma os_obs_add:
  "os_node s @ '':'' @ u \<notin> snd (os_obs s) \<Longrightarrow>
   os_obs (os_add e u s) = (insert (e, os_node s @ '':'' @ u) (fst (os_obs s)), snd (os_obs s))"
  by (auto simp: os_obs_def os_add_def Let_def pairs_of_def split: if_splits)

lemma os_obs_remove:
  "os_obs (os_remove e s) =
   ({p \<in> fst (os_obs s). snd p \<notin> set (get_or [] (os_entries s) e) \<and> fst p \<noteq> e},
    snd (os_obs s) \<union> set (get_or [] (os_entries s) e))"
  by (auto simp: os_obs_def os_remove_def pairs_of_def get_or_def split: option.splits if_splits)

text \<open>
  an add wins over a concurrent remove. A replica \<open>d\<close> adds \<open>e\<close> under a tag the replica
  \<open>c\<close> has not tombstoned; whatever \<open>c\<close> removes (\<open>e\<close> included), both merges contain \<open>e\<close>.
\<close>

theorem or_set_add_wins:
  assumes "os_wf c" and "os_wf d"
    and "os_node d @ '':'' @ u \<notin> set (os_tombstones d)"
    and "os_node d @ '':'' @ u \<notin> set (os_tombstones (os_remove e' c))"
  shows "os_has e (os_merge (os_remove e' c) (os_toState (os_add e u d))) \<and>
         os_has e (os_merge (os_add e u d) (os_toState (os_remove e' c)))"
  using assms os_obs_add [of d u e]
  by (auto simp: os_has_obs os_obs_merge os_join_def) (auto simp: os_obs_def)

theorem or_set_add_wins_witness:
  "let d0 = new_or_set ''b''; c0 = os_add ''x'' ''1'' (new_or_set ''a'');
       d1 = os_merge d0 (os_toState c0)
   in os_has ''x'' (os_merge (os_remove ''x'' c0) (os_toState (os_add ''x'' ''2'' d1)))"
  using or_set_add_wins [of "os_add ''x'' ''1'' (new_or_set ''a'')"
      "os_merge (new_or_set ''b'') (os_toState (os_add ''x'' ''1'' (new_or_set ''a'')))"
      "''2''" "''x''" "''x''"]
  by (simp add: Let_def orcrdt.wf_mrg)
    (simp add: os_merge_def os_toState_def os_add_def os_remove_def new_or_set_def Let_def
      sadds_def sadd_def)

text \<open>
  a remove that has observed every live tag of the element wins: after \<open>c\<close> removes \<open>e\<close>,
  merging with any replica whose live tags for \<open>e\<close> were all present at \<open>c\<close> leaves \<open>e\<close> out,
  on both sides.
\<close>

theorem or_set_observed_remove:
  assumes "os_wf c" and "os_wf d"
    and "set (get_or [] (os_entries d) e) \<subseteq> set (get_or [] (os_entries c) e) \<union> set (os_tombstones d)"
  shows "\<not> os_has e (os_merge (os_remove e c) (os_toState d)) \<and>
         \<not> os_has e (os_merge d (os_toState (os_remove e c)))"
  using assms
  by (auto simp: os_has_obs os_obs_merge os_join_def os_obs_remove) (auto simp: os_obs_def pairs_of_def)

theorem or_set_observed_remove_witness:
  "let c0 = os_add ''x'' ''1'' (new_or_set ''a''); d = os_merge (new_or_set ''b'') (os_toState c0)
   in os_has ''x'' d \<and> \<not> os_has ''x'' (os_merge d (os_toState (os_remove ''x'' c0)))"
  using or_set_observed_remove [of "os_add ''x'' ''1'' (new_or_set ''a'')"
      "os_merge (new_or_set ''b'') (os_toState (os_add ''x'' ''1'' (new_or_set ''a'')))" "''x''"]
  by (simp add: Let_def orcrdt.wf_mrg)
    (simp add: os_merge_def os_toState_def os_add_def os_has_def new_or_set_def Let_def os_import_def
      sadds_def sadd_def)

end
