(* ===== verification/Json.thy ===== *)
theory Json
  imports Prelude
begin

text \<open>
  JSON values as the sources hold them: entity payloads, session metadata and model replies are
  \<open>Record<string, unknown>\<close> values. An object is an association list in insertion order; numbers
  are rationals.
\<close>

datatype json =
    JNull
  | JBool bool
  | JNum rat
  | JStr string
  | JArr "json list"
  | JObj "(string \<times> json) list"

type_synonym payload = "(string, json) jsmap"

text \<open>\<open>{ ...a, ...b }\<close>: the entries of \<open>a\<close>, then those of \<open>b\<close> over them.\<close>

definition jspread :: "('k, 'v) jsmap \<Rightarrow> ('k, 'v) jsmap \<Rightarrow> ('k, 'v) jsmap" where
  "jspread a b = foldl (\<lambda>m (k, v). jset k v m) a b"

lemma jwf_jspread [simp]: "jwf a \<Longrightarrow> jwf (jspread a b)"
  unfolding jspread_def by (induction b arbitrary: a) auto

lemma jget_jspread:
  "jwf b \<Longrightarrow> jget (jspread a b) k = (case jget b k of None \<Rightarrow> jget a k | Some v \<Rightarrow> Some v)"
  unfolding jspread_def
proof (induction b arbitrary: a)
  case (Cons p b)
  obtain k0 v where p: "p = (k0, v)" by force
  with Cons.prems have "jget b k0 = None" and "jwf b" by (auto simp: jget_None_iff)
  with Cons.IH [of "jset k0 v a"] p show ?case by (auto split: option.splits)
qed simp

section \<open>Texts of values\<close>

text \<open>
  A number is the decimal fraction a JSON text denotes and prints as that fraction again; exponent
  notation (magnitudes from 1e21 on and below 1e-6) is not modelled. Forty fractional digits are more
  than a double ever prints.
\<close>

fun frac_digits :: "nat \<Rightarrow> int \<Rightarrow> int \<Rightarrow> string" where
  "frac_digits 0 _ _ = []"
| "frac_digits (Suc fuel) r d =
     (if r = 0 then [] else show_int (10 * r div d) @ frac_digits fuel (10 * r mod d) d)"

definition show_number :: "rat \<Rightarrow> string" where
  "show_number q =
     (let (n, d) = quotient_of \<bar>q\<bar>;
          frac = frac_digits 40 (n mod d) d
      in (if q < 0 then ''-'' else []) @ show_int (n div d) @ (if frac = [] then [] else ''.'' @ frac))"

fun join_with :: "string \<Rightarrow> string list \<Rightarrow> string" where
  "join_with sep [] = []"
| "join_with sep [x] = x"
| "join_with sep (x # xs) = x @ sep @ join_with sep xs"

definition hex_digit :: "nat \<Rightarrow> char" where
  "hex_digit n = (if n < 10 then char_of (48 + n) else char_of (87 + n))"

definition quote_char :: "char \<Rightarrow> string" where
  "quote_char c =
     (let n = of_char c :: nat
      in if n = 34 then [CHR 0x5C, CHR 0x22]
         else if n = 92 then [CHR 0x5C, CHR 0x5C]
         else if n = 10 then CHR 0x5C # ''n''
         else if n = 13 then CHR 0x5C # ''r''
         else if n = 9 then CHR 0x5C # ''t''
         else if n = 8 then CHR 0x5C # ''b''
         else if n = 12 then CHR 0x5C # ''f''
         else if n < 32 then CHR 0x5C # ''u00'' @ [hex_digit (n div 16), hex_digit (n mod 16)]
         else [c])"

definition json_quote :: "string \<Rightarrow> string" where
  "json_quote s = [CHR 0x22] @ concat (map quote_char s) @ [CHR 0x22]"

text \<open>\<open>JSON.stringify\<close>.\<close>

fun json_stringify :: "json \<Rightarrow> string" where
  "json_stringify JNull = ''null''"
| "json_stringify (JBool b) = (if b then ''true'' else ''false'')"
| "json_stringify (JNum q) = show_number q"
| "json_stringify (JStr s) = json_quote s"
| "json_stringify (JArr xs) = ''['' @ join_with '','' (map json_stringify xs) @ '']''"
| "json_stringify (JObj ps) =
     [CHR 0x7B] @ join_with '','' (map (\<lambda>(k, v). json_quote k @ '':'' @ json_stringify v) ps) @ [CHR 0x7D]"

text \<open>\<open>String(v)\<close>: an array is its elements joined by commas, null elements left out.\<close>

fun js_String :: "json \<Rightarrow> string" where
  "js_String JNull = ''null''"
| "js_String (JBool b) = (if b then ''true'' else ''false'')"
| "js_String (JNum q) = show_number q"
| "js_String (JStr s) = s"
| "js_String (JArr xs) = join_with '','' (map (\<lambda>x. if x = JNull then [] else js_String x) xs)"
| "js_String (JObj _) = ''[object Object]''"

text \<open>\<open>item["k"]\<close> on a value that may be an object or an array; only objects have named fields.\<close>

fun json_field :: "json \<Rightarrow> string \<Rightarrow> json option" where
  "json_field (JObj ps) k = jget ps k"
| "json_field _ k = None"

text \<open>\<open>a ?? b\<close>: null and undefined fall through.\<close>

definition nullish :: "json option \<Rightarrow> bool" where
  "nullish v = (v = None \<or> v = Some JNull)"

fun json_str :: "json \<Rightarrow> string option" where
  "json_str (JStr s) = Some s"
| "json_str _ = None"

end
