(* ===== verification/Crdt_Document.thy ===== *)
theory Crdt_Document
  imports Vector_Clock Lww Or_Set Json
begin

text \<open>
  \<open>server/federation/crdt/document.ts\<close>: the collaborative state of a shared session, a product
  of the replicated types. A replica of the session \<open>sid\<close> is well formed relative to the
  assignments of written values to last-writer-wins tags (\<open>doc_writes\<close>, see \<open>Lww\<close>).
\<close>

record crdt_document_state =
  ds_sessionId :: string
  ds_nodeId :: string
  ds_participants :: "string or_set_state"
  ds_stageOutputs :: "string lww_map_state"
  ds_stageStatuses :: "string lww_map_state"
  ds_votes :: "(string, int) jsmap"
  ds_tags :: "string or_set_state"
  ds_metadata :: "payload lww_state"
  ds_vectorClock :: "(string, int) jsmap"

record crdt_document =
  cd_sessionId :: string
  cd_nodeId :: string
  cd_participants :: "string or_set"
  cd_stageOutputs :: "string lww_map"
  cd_stageStatuses :: "string lww_map"
  cd_votes :: g_counter
  cd_tags :: "string or_set"
  cd_metadata :: "payload lww_register"
  cd_vectorClock :: vector_clock

definition new_crdt_document :: "string \<Rightarrow> string \<Rightarrow> crdt_document" where
  "new_crdt_document sid nid =
     \<lparr>cd_sessionId = sid, cd_nodeId = nid,
      cd_participants = new_or_set nid,
      cd_stageOutputs = new_lww_map nid,
      cd_stageStatuses = new_lww_map nid,
      cd_votes = new_g_counter nid [],
      cd_tags = new_or_set nid,
      cd_metadata = new_lww_register nid None 0,
      cd_vectorClock = new_vector_clock nid []\<rparr>"

text \<open>The seven component merges, which \<open>merge\<close> and \<open>fromState\<close> both perform.\<close>

definition cd_absorb :: "crdt_document \<Rightarrow> crdt_document_state \<Rightarrow> crdt_document" where
  "cd_absorb d remote =
     d\<lparr>cd_participants := os_merge (cd_participants d) (ds_participants remote),
       cd_stageOutputs := lm_merge (cd_stageOutputs d) (ds_stageOutputs remote),
       cd_stageStatuses := lm_merge (cd_stageStatuses d) (ds_stageStatuses remote),
       cd_votes := g_merge (cd_votes d) (ds_votes remote),
       cd_tags := os_merge (cd_tags d) (ds_tags remote),
       cd_metadata := lr_merge (cd_metadata d) (ds_metadata remote),
       cd_vectorClock := vc_merge (cd_vectorClock d) (ds_vectorClock remote)\<rparr>"

definition cd_merge :: "crdt_document \<Rightarrow> crdt_document_state \<Rightarrow> crdt_error + crdt_document" where
  "cd_merge d remote =
     (if ds_sessionId remote \<noteq> cd_sessionId d
      then Inl (DifferentSessions (ds_sessionId remote) (cd_sessionId d))
      else Inr (cd_absorb d remote))"

definition cd_tick :: "crdt_document \<Rightarrow> crdt_document" where
  "cd_tick d = d\<lparr>cd_vectorClock := vc_tick (cd_vectorClock d)\<rparr>"

definition cd_toState :: "crdt_document \<Rightarrow> crdt_document_state" where
  "cd_toState d =
     \<lparr>ds_sessionId = cd_sessionId d, ds_nodeId = cd_nodeId d,
      ds_participants = os_toState (cd_participants d),
      ds_stageOutputs = lm_toState (cd_stageOutputs d),
      ds_stageStatuses = lm_toState (cd_stageStatuses d),
      ds_votes = g_toState (cd_votes d),
      ds_tags = os_toState (cd_tags d),
      ds_metadata = lr_toState (cd_metadata d),
      ds_vectorClock = vc_toState (cd_vectorClock d)\<rparr>"

definition cd_fromState :: "crdt_document_state \<Rightarrow> crdt_document" where
  "cd_fromState state = cd_absorb (new_crdt_document (ds_sessionId state) (ds_nodeId state)) state"

record crdt_snapshot =
  sn_participants :: "string list"
  sn_stageOutputs :: "(string, string option) jsmap"
  sn_stageStatuses :: "(string, string option) jsmap"
  sn_votes :: int
  sn_tags :: "string list"
  sn_metadata :: "payload option"
  sn_vectorClock :: "(string, int) jsmap"

definition cd_snapshot :: "crdt_document \<Rightarrow> crdt_snapshot" where
  "cd_snapshot d =
     \<lparr>sn_participants = os_value (cd_participants d),
      sn_stageOutputs = lm_value (cd_stageOutputs d),
      sn_stageStatuses = lm_value (cd_stageStatuses d),
      sn_votes = g_value (cd_votes d),
      sn_tags = os_value (cd_tags d),
      sn_metadata = lr_value (cd_metadata d),
      sn_vectorClock = vc_toState (cd_vectorClock d)\<rparr>"

section \<open>The document is a replicated type\<close>

record doc_writes =
  dw_outputs :: "string \<Rightarrow> int \<times> string \<Rightarrow> string option"
  dw_statuses :: "string \<Rightarrow> int \<times> string \<Rightarrow> string option"
  dw_metadata :: "int \<times> string \<Rightarrow> payload option"

record doc_view =
  dv_participants :: "(string \<times> string) set \<times> string set"
  dv_outputs :: "string \<Rightarrow> (int \<times> string) option"
  dv_statuses :: "string \<Rightarrow> (int \<times> string) option"
  dv_votes :: "string \<Rightarrow> int"
  dv_tags :: "(string \<times> string) set \<times> string set"
  dv_metadata :: "int \<times> string"
  dv_clock :: "string \<Rightarrow> int"

definition cd_view :: "crdt_document \<Rightarrow> doc_view" where
  "cd_view d =
     \<lparr>dv_participants = os_obs (cd_participants d),
      dv_outputs = lm_tags (cd_stageOutputs d),
      dv_statuses = lm_tags (cd_stageStatuses d),
      dv_votes = g_obs (cd_votes d),
      dv_tags = os_obs (cd_tags d),
      dv_metadata = lr_tag (cd_metadata d),
      dv_clock = vc_obs (cd_vectorClock d)\<rparr>"

definition view_join :: "doc_view \<Rightarrow> doc_view \<Rightarrow> doc_view" where
  "view_join x y =
     \<lparr>dv_participants = os_join (dv_participants x) (dv_participants y),
      dv_outputs = tag_join (dv_outputs x) (dv_outputs y),
      dv_statuses = tag_join (dv_statuses x) (dv_statuses y),
      dv_votes = fun_max (dv_votes x) (dv_votes y),
      dv_tags = os_join (dv_tags x) (dv_tags y),
      dv_metadata = max (dv_metadata x) (dv_metadata y),
      dv_clock = fun_max (dv_clock x) (dv_clock y)\<rparr>"

definition cd_ok :: "string \<Rightarrow> doc_writes \<Rightarrow> crdt_document \<Rightarrow> bool" where
  "cd_ok sid W d \<longleftrightarrow>
     cd_sessionId d = sid \<and> os_wf (cd_participants d) \<and>
     lm_ok (dw_outputs W) (cd_stageOutputs d) \<and> lm_ok (dw_statuses W) (cd_stageStatuses d) \<and>
     g_wf (cd_votes d) \<and> os_wf (cd_tags d) \<and> lr_ok (dw_metadata W) (cd_metadata d) \<and>
     vc_wf (cd_vectorClock d)"

lemmas component_merges =
  orcrdt.obs_mrg gcrdt.obs_mrg vccrdt.obs_mrg orcrdt.wf_mrg gcrdt.wf_mrg vccrdt.wf_mrg

interpretation doccrdt: state_crdt cd_absorb cd_toState cd_view view_join "cd_ok sid W" for sid W
proof unfold_locales
  fix c d
  assume "cd_ok sid W c" and "cd_ok sid W d"
  then show "cd_view (cd_absorb c (cd_toState d)) = view_join (cd_view c) (cd_view d)"
    and "cd_ok sid W (cd_absorb c (cd_toState d))"
    by (simp_all add: cd_ok_def cd_view_def view_join_def cd_absorb_def cd_toState_def
        component_merges lwwmapcrdt.obs_mrg [where W = "dw_outputs W"]
        lwwmapcrdt.wf_mrg [where W = "dw_outputs W"] lwwmapcrdt.obs_mrg [where W = "dw_statuses W"]
        lwwmapcrdt.wf_mrg [where W = "dw_statuses W"] lwwcrdt.obs_mrg [where W = "dw_metadata W"]
        lwwcrdt.wf_mrg [where W = "dw_metadata W"])
next
  fix x y z :: doc_view
  show "view_join x y = view_join y x"
    by (simp add: view_join_def orcrdt.jn_comm lwwmapcrdt.jn_comm fun_max_comm max.commute)
  show "view_join (view_join x y) z = view_join x (view_join y z)"
    by (simp add: view_join_def orcrdt.jn_assoc lwwmapcrdt.jn_assoc fun_max_assoc max.assoc)
next
  fix c
  assume "cd_ok sid W c"
  then show "view_join (cd_view c) (cd_view c) = cd_view c"
    by (simp add: cd_ok_def view_join_def cd_view_def orcrdt.jn_idem fun_max_idem
        lwwmapcrdt.jn_idem [where W = "dw_outputs W"] lwwmapcrdt.jn_idem [where W = "dw_statuses W"])
qed

text \<open>What a reader sees of a document is a function of its view.\<close>

lemma cd_view_snapshot:
  assumes "cd_ok sid W c" and "cd_ok sid W d" and eq: "cd_view c = cd_view d"
  shows "set (sn_participants (cd_snapshot c)) = set (sn_participants (cd_snapshot d)) \<and>
    lm_get k (cd_stageOutputs c) = lm_get k (cd_stageOutputs d) \<and>
    lm_get k (cd_stageStatuses c) = lm_get k (cd_stageStatuses d) \<and>
    sn_votes (cd_snapshot c) = sn_votes (cd_snapshot d) \<and>
    set (sn_tags (cd_snapshot c)) = set (sn_tags (cd_snapshot d)) \<and>
    sn_metadata (cd_snapshot c) = sn_metadata (cd_snapshot d)"
proof -
  note v = eq [unfolded cd_view_def doc_view.ext_inject]
  from assms show ?thesis
    using v g_obs_value [of "cd_votes c" "cd_votes d"]
      lm_tags_value [of "dw_outputs W" "cd_stageOutputs c" "cd_stageOutputs d" k]
      lm_tags_value [of "dw_statuses W" "cd_stageStatuses c" "cd_stageStatuses d" k]
    by (simp add: cd_ok_def cd_snapshot_def set_eq_iff os_value_has os_has_obs lr_ok_def)
qed

lemma cd_ok_new: "dw_metadata W (0, nid) = None \<Longrightarrow> cd_ok sid W (new_crdt_document sid nid)"
  by (simp add: cd_ok_def new_crdt_document_def lm_ok_def entries_ok_def new_lww_map_def lr_ok_def
      lr_tag_def new_lww_register_def)

text \<open>The document-level operation fails on another session's state and merges otherwise.\<close>

lemma cd_merge_ok: "cd_ok sid W c \<Longrightarrow> cd_ok sid W d \<Longrightarrow> cd_merge c (cd_toState d) = Inr (cd_absorb c (cd_toState d))"
  by (simp add: cd_merge_def cd_ok_def cd_toState_def)

lemma cd_merge_foreign:
  "ds_sessionId r \<noteq> cd_sessionId d \<Longrightarrow>
   cd_merge d r = Inl (DifferentSessions (ds_sessionId r) (cd_sessionId d))"
  by (simp add: cd_merge_def)



end
