(* ===== verification/Crdt_Sync.thy ===== *)
theory Crdt_Sync
  imports Crdt_Document
begin

text \<open>
  \<open>server/federation/crdt/sync.ts\<close>: the manager that pushes document states to peers and merges
  what it receives. \<open>sendFn\<close> is modelled by the list of calls an operation makes (peer, delta).
  The documents are shared objects in the source; here the manager's map holds their current
  values, and a client's mutation is \<open>sm_update\<close>.
\<close>

record crdt_delta =
  dl_sessionId :: string
  dl_fromNodeId :: string
  dl_senderClock :: "(string, int) jsmap"
  dl_sinceRecipientClock :: "(string, int) jsmap option"
  dl_state :: crdt_document_state

datatype sync_mode = StateMode | DeltaMode

record sync_manager =
  sm_nodeId :: string
  sm_documents :: "(string, crdt_document) jsmap"
  sm_peerClocks :: "(string, (string, int) jsmap) jsmap"
  sm_mode :: sync_mode
  sm_antiEntropy :: bool

type_synonym sends = "(string \<times> crdt_delta) list"

definition new_sync_manager :: "string \<Rightarrow> int option \<Rightarrow> sync_mode option \<Rightarrow> sync_manager" where
  "new_sync_manager nid antiEntropyIntervalMs mode =
     \<lparr>sm_nodeId = nid, sm_documents = [], sm_peerClocks = [],
      sm_mode = (case mode of None \<Rightarrow> StateMode | Some x \<Rightarrow> x),
      sm_antiEntropy = ((case antiEntropyIntervalMs of None \<Rightarrow> 0 | Some i \<Rightarrow> i) > 0)\<rparr>"

definition sm_registerDocument :: "crdt_document \<Rightarrow> sync_manager \<Rightarrow> sync_manager" where
  "sm_registerDocument doc m = m\<lparr>sm_documents := jset (cd_sessionId doc) doc (sm_documents m)\<rparr>"

definition sm_getDocument :: "string \<Rightarrow> sync_manager \<Rightarrow> crdt_document option" where
  "sm_getDocument sid m = jget (sm_documents m) sid"

definition sm_unregisterDocument :: "string \<Rightarrow> sync_manager \<Rightarrow> sync_manager" where
  "sm_unregisterDocument sid m = m\<lparr>sm_documents := jdel sid (sm_documents m)\<rparr>"

text \<open>A client mutates the document it got from \<open>getDocument\<close>.\<close>

definition sm_update :: "string \<Rightarrow> (crdt_document \<Rightarrow> crdt_document) \<Rightarrow> sync_manager \<Rightarrow> sync_manager" where
  "sm_update sid f m =
     (case jget (sm_documents m) sid of None \<Rightarrow> m
      | Some d \<Rightarrow> m\<lparr>sm_documents := jset sid (f d) (sm_documents m)\<rparr>)"

definition sm_push :: "string \<Rightarrow> string \<Rightarrow> sync_manager \<Rightarrow> sends" where
  "sm_push sid peerId m =
     (case jget (sm_documents m) sid of
        None \<Rightarrow> []
      | Some doc \<Rightarrow>
          [(peerId,
            \<lparr>dl_sessionId = sid, dl_fromNodeId = sm_nodeId m,
             dl_senderClock = vc_toState (cd_vectorClock doc),
             dl_sinceRecipientClock =
               (case sm_mode m of
                  DeltaMode \<Rightarrow> jget (sm_peerClocks m) peerId
                | StateMode \<Rightarrow> None),
             dl_state = cd_toState doc\<rparr>)])"

definition sm_broadcast :: "string \<Rightarrow> string list \<Rightarrow> sync_manager \<Rightarrow> sends" where
  "sm_broadcast sid peerIds m = concat (map (\<lambda>p. sm_push sid p m) peerIds)"

definition sm_receive :: "crdt_delta \<Rightarrow> sync_manager \<Rightarrow> crdt_error + (sync_manager \<times> bool)" where
  "sm_receive delta m =
     (let sid = dl_sessionId delta;
          clocks = jset (dl_fromNodeId delta) (dl_senderClock delta) (sm_peerClocks m)
      in case jget (sm_documents m) sid of
           None \<Rightarrow>
             Inr (m\<lparr>sm_documents := jset sid (cd_fromState (dl_state delta)) (sm_documents m),
                    sm_peerClocks := clocks\<rparr>, True)
         | Some doc \<Rightarrow>
             (let localClock = vc_toState (cd_vectorClock doc);
                  vc = vc_fromState (sm_nodeId m) localClock
              in if vc_compare vc (dl_senderClock delta) = After
                 then Inr (m\<lparr>sm_peerClocks := clocks\<rparr>, False)
                 else case cd_merge doc (dl_state delta) of
                        Inl e \<Rightarrow> Inl e
                      | Inr doc' \<Rightarrow>
                          Inr (m\<lparr>sm_documents := jset sid doc' (sm_documents m),
                                 sm_peerClocks := clocks\<rparr>, True)))"

definition sm_runAntiEntropy :: "sync_manager \<Rightarrow> sends" where
  "sm_runAntiEntropy m =
     (let peerIds = jkeys (sm_peerClocks m)
      in if peerIds = [] then []
         else concat (map (\<lambda>sid. sm_broadcast sid peerIds m) (jkeys (sm_documents m))))"

definition sm_updatePeerClock :: "string \<Rightarrow> (string, int) jsmap \<Rightarrow> sync_manager \<Rightarrow> sync_manager" where
  "sm_updatePeerClock peerId clock m = m\<lparr>sm_peerClocks := jset peerId clock (sm_peerClocks m)\<rparr>"

definition sm_getPeerClock :: "string \<Rightarrow> sync_manager \<Rightarrow> (string, int) jsmap option" where
  "sm_getPeerClock peerId m = jget (sm_peerClocks m) peerId"

definition sm_getTrackedPeerIds :: "sync_manager \<Rightarrow> string list" where
  "sm_getTrackedPeerIds m = jkeys (sm_peerClocks m)"

definition sm_stop :: "sync_manager \<Rightarrow> sync_manager" where
  "sm_stop m = m\<lparr>sm_antiEntropy := False\<rparr>"

section \<open>Receiving\<close>

text \<open>The comparison \<open>receive\<close> makes, on the document's own clock.\<close>

lemma receive_compare: "vc_compare (vc_fromState nid (vc_toState v)) r = vc_compare v r"
  by (simp add: vc_compare_cases vc_fromState_def vc_toState_def)

definition manager_ok :: "(string \<Rightarrow> doc_writes) \<Rightarrow> sync_manager \<Rightarrow> bool" where
  "manager_ok W m \<longleftrightarrow> list_all (\<lambda>(sid, d). cd_ok sid (W sid) d) (sm_documents m)"

definition push_of :: "string \<Rightarrow> crdt_document \<Rightarrow> crdt_delta" where
  "push_of nid d =
     \<lparr>dl_sessionId = cd_sessionId d, dl_fromNodeId = nid,
      dl_senderClock = vc_toState (cd_vectorClock d), dl_sinceRecipientClock = None,
      dl_state = cd_toState d\<rparr>"

lemma sm_push_state:
  "jget (sm_documents m) (cd_sessionId d) = Some d \<Longrightarrow> sm_mode m = StateMode \<Longrightarrow>
   sm_push (cd_sessionId d) p m = [(p, push_of (sm_nodeId m) d)]"
  by (simp add: sm_push_def push_of_def)

definition doc_after :: "crdt_document \<Rightarrow> crdt_document \<Rightarrow> bool" where
  "doc_after c d \<longleftrightarrow> vc_compare (cd_vectorClock c) (vc_toState (cd_vectorClock d)) = After"

lemma receive_known:
  assumes doc: "jget (sm_documents m) sid = Some c" and "cd_ok sid W c" and "cd_ok sid W d"
  shows "sm_receive (push_of nid d) m =
    (let clocks = jset nid (vc_toState (cd_vectorClock d)) (sm_peerClocks m)
     in if doc_after c d then Inr (m\<lparr>sm_peerClocks := clocks\<rparr>, False)
        else Inr (m\<lparr>sm_documents := jset sid (cd_absorb c (cd_toState d)) (sm_documents m),
                     sm_peerClocks := clocks\<rparr>, True))"
  using assms cd_merge_ok [of sid W c d]
  by (simp add: sm_receive_def push_of_def Let_def receive_compare doc_after_def cd_ok_def)

lemma cd_absorb_fields [simp]:
  "cd_sessionId (cd_absorb c r) = cd_sessionId c" "cd_nodeId (cd_absorb c r) = cd_nodeId c"
  by (simp_all add: cd_absorb_def)

text \<open>A clock that dominates another one does so because its document has merged that state.\<close>

definition causally_faithful :: "crdt_document \<Rightarrow> crdt_document \<Rightarrow> bool" where
  "causally_faithful c d \<longleftrightarrow> (doc_after c d \<longrightarrow> view_join (cd_view c) (cd_view d) = cd_view c)"

lemma receive_view:
  assumes "jget (sm_documents m) sid = Some c" and "cd_ok sid W c" and "cd_ok sid W d"
    and "causally_faithful c d"
  shows "\<exists>m' b c'. sm_receive (push_of nid d) m = Inr (m', b) \<and>
    jget (sm_documents m') sid = Some c' \<and> cd_ok sid W c' \<and>
    cd_view c' = view_join (cd_view c) (cd_view d)"
  using assms receive_known [OF assms(1-3), of nid]
  by (cases "doc_after c d")
    (auto simp: Let_def causally_faithful_def doccrdt.obs_mrg doccrdt.wf_mrg)

lemma dominated_not_after:
  assumes "cd_view c' = view_join (cd_view c) (cd_view d)"
  shows "\<not> doc_after d c'"
proof -
  have "vc_obs (cd_vectorClock c') = fun_max (vc_obs (cd_vectorClock c)) (vc_obs (cd_vectorClock d))"
    using assms by (simp add: cd_view_def view_join_def)
  then show ?thesis
    by (auto simp: doc_after_def vc_compare_After_iff vc_toState_def fun_max_def not_less)
qed


definition no_writes :: doc_writes where
  "no_writes = \<lparr>dw_outputs = \<lambda>_ _. None, dw_statuses = \<lambda>_ _. None, dw_metadata = \<lambda>_. None\<rparr>"

definition alice_doc :: crdt_document where
  "alice_doc = (let d = new_crdt_document ''s'' ''a''
     in cd_tick (d\<lparr>cd_participants := os_add ''alice'' ''1'' (cd_participants d),
                   cd_votes := new_g_counter ''a'' [(''a'', 2)]\<rparr>))"

definition bob_doc :: crdt_document where
  "bob_doc = (let d = new_crdt_document ''s'' ''b''
     in cd_tick (d\<lparr>cd_participants := os_add ''bob'' ''1'' (cd_participants d),
                   cd_votes := new_g_counter ''b'' [(''b'', 1)]\<rparr>))"

lemma cd_ok_parts:
  "cd_ok sid W d \<Longrightarrow> os_wf p \<Longrightarrow> g_wf v \<Longrightarrow>
   cd_ok sid W (cd_tick (d\<lparr>cd_participants := p, cd_votes := v\<rparr>))"
  by (simp add: cd_ok_def cd_tick_def)

lemma sample_docs_ok: "cd_ok ''s'' no_writes alice_doc" "cd_ok ''s'' no_writes bob_doc"
  unfolding alice_doc_def bob_doc_def Let_def
  by (rule cd_ok_parts; simp add: cd_ok_new no_writes_def new_crdt_document_def slots_ok_Cons
      cd_ok_def lm_ok_def entries_ok_def new_lww_map_def lr_ok_def lr_tag_def new_lww_register_def)+

lemma sample_docs_concurrent: "causally_faithful alice_doc bob_doc"
  by (simp add: causally_faithful_def doc_after_def vc_compare_def alice_doc_def bob_doc_def Let_def
      cd_tick_def vc_tick_def new_crdt_document_def new_vector_clock_def vc_toState_def sadds_def
      sadd_def jhas_def)


section \<open>Where the protocol loses updates\<close>

text \<open>
  the skip of \<open>receive\<close> treats a dominating vector clock as "our state is a superset". A
  participant added without a tick of the sender's clock is therefore dropped: a manager whose
  document is already ahead of the sender's clock answers \<open>False\<close> and does not learn of the new
  participant, however often the state is sent.
\<close>

theorem sync_skip_drops_unticked_add:
  assumes "jget (sm_documents m) (cd_sessionId d) = Some c"
    and "doc_after c d" and "\<not> os_has e (cd_participants c)"
    and "os_node (cd_participants d) @ '':'' @ u \<notin> set (os_tombstones (cd_participants d))"
  shows "let d' = d\<lparr>cd_participants := os_add e u (cd_participants d)\<rparr>
     in os_has e (cd_participants d') \<and>
        (\<exists>m'. sm_receive (push_of nid d') m = Inr (m', False) \<and>
              jget (sm_documents m') (cd_sessionId d) = Some c \<and>
              \<not> os_has e (cd_participants c))"
  using assms os_obs_add [of "cd_participants d" u e]
  by (auto simp: Let_def os_has_obs sm_receive_def push_of_def receive_compare doc_after_def os_obs_def)

theorem sync_skip_drops_unticked_add_witness:
  "\<exists>m'. sm_receive (push_of ''a'' ((new_crdt_document ''s'' ''a'')
       \<lparr>cd_participants := os_add ''carol'' ''9'' (new_or_set ''a'')\<rparr>))
     (sm_registerDocument bob_doc (new_sync_manager ''b'' None None)) = Inr (m', False)"
proof -
  have s: "cd_sessionId bob_doc = ''s''" "cd_sessionId (new_crdt_document ''s'' ''a'') = ''s''"
    "cd_participants (new_crdt_document ''s'' ''a'') = new_or_set ''a''"
    by (simp_all add: bob_doc_def cd_tick_def new_crdt_document_def Let_def)
  have "doc_after bob_doc (new_crdt_document ''s'' ''a'')"
    by (simp add: doc_after_def vc_compare_def bob_doc_def Let_def cd_tick_def vc_tick_def
        new_crdt_document_def new_vector_clock_def vc_toState_def sadds_def sadd_def jhas_def)
  moreover have "\<not> os_has ''carol'' (cd_participants bob_doc)"
    by (simp add: os_has_def bob_doc_def Let_def cd_tick_def new_crdt_document_def os_add_def new_or_set_def)
  ultimately show ?thesis
    using sync_skip_drops_unticked_add [of "sm_registerDocument bob_doc (new_sync_manager ''b'' None None)"
        "new_crdt_document ''s'' ''a''" bob_doc "''carol''" "''9''" "''a''"]
    by (auto simp: Let_def sm_registerDocument_def new_sync_manager_def s new_or_set_def)
qed

text \<open>
  a document bootstrapped by \<open>receive\<close> is built by \<open>fromState\<close>, which takes the node id
  from the received state: the new replica acts under the sender's identity. When the sender and
  the new replica each cast one vote, both count in the sender's slot and one of them is lost.
\<close>

theorem bootstrap_loses_votes:
  assumes "cd_ok sid W d" and "gc_node (cd_votes d) = cd_nodeId d"
    and "jget (sm_documents m) (cd_sessionId d) = None"
  shows "\<exists>m' d' v v'. sm_receive (push_of nid d) m = Inr (m', True) \<and>
     jget (sm_documents m') (cd_sessionId d) = Some d' \<and> cd_nodeId d' = cd_nodeId d \<and>
     g_increment 1 (cd_votes d) = Inr v \<and> g_increment 1 (cd_votes d') = Inr v' \<and>
     g_value (g_merge v (g_toState v')) = g_value (cd_votes d) + 1"
proof -
  let ?d' = "cd_fromState (cd_toState d)"
  have wf: "g_wf (cd_votes d)" "g_wf (new_g_counter (cd_nodeId d) [])"
    using assms(1) by (simp_all add: cd_ok_def)
  have d': "cd_votes ?d' = g_merge (new_g_counter (cd_nodeId d) []) (g_toState (cd_votes d))"
    "cd_nodeId ?d' = cd_nodeId d"
    by (simp_all add: cd_fromState_def cd_absorb_def new_crdt_document_def cd_toState_def)
  have obs: "g_obs (cd_votes ?d') = g_obs (cd_votes d)" "g_wf (cd_votes ?d')"
    unfolding d'(1) using gcrdt.obs_mrg [OF wf(2,1)] gcrdt.wf_mrg [OF wf(2,1)] wf(1)
    by (auto simp: fun_max_def fun_eq_iff max_def g_wf_def slots_ok_def dest: nonneg_get
        intro!: order_antisym)
  have node: "gc_node (cd_votes ?d') = gc_node (cd_votes d)"
    using assms(2) by (simp add: d'(1) g_merge_def new_g_counter_def)
  obtain v v' where v: "g_increment 1 (cd_votes d) = Inr v" "g_increment 1 (cd_votes ?d') = Inr v'"
    by (simp add: g_increment_def Let_def)
  have "g_obs v = g_obs v'"
    using g_obs_increment [OF v(1)] g_obs_increment [OF v(2)] obs(1) node by simp
  moreover have "g_wf v" "g_wf v'"
    using g_wf_increment [OF wf(1) v(1)] g_wf_increment [OF obs(2) v(2)] by auto
  ultimately have "g_value (g_merge v (g_toState v')) = g_value v"
    by (intro g_obs_value) (simp_all add: gcrdt.obs_mrg gcrdt.wf_mrg fun_max_idem)
  moreover have "g_value v = g_value (cd_votes d) + 1"
    using g_increment_value_gen [OF wf(1) v(1)] by simp
  ultimately show ?thesis
    using assms(3) v d'(2) by (auto simp: sm_receive_def push_of_def Let_def)
qed

theorem bootstrap_loses_votes_witness:
  "\<exists>m' d' v v'. sm_receive (push_of ''a'' alice_doc) (new_sync_manager ''b'' None None) = Inr (m', True) \<and>
     jget (sm_documents m') ''s'' = Some d' \<and>
     g_increment 1 (cd_votes alice_doc) = Inr v \<and> g_increment 1 (cd_votes d') = Inr v' \<and>
     g_value (g_merge v (g_toState v')) = 3"
proof -
  have a: "gc_node (cd_votes alice_doc) = cd_nodeId alice_doc" "cd_sessionId alice_doc = ''s''"
    "g_value (cd_votes alice_doc) = 2"
    by (simp_all add: alice_doc_def Let_def cd_tick_def new_crdt_document_def new_g_counter_def
        g_value_def jhas_def)
  show ?thesis
    using bootstrap_loses_votes [OF sample_docs_ok(1) a(1), of "new_sync_manager ''b'' None None" "''a''"]
    by (simp add: a new_sync_manager_def) blast
qed

end
