(* ===== verification/Crdt_Peer_Sync.thy ===== *)
theory Crdt_Peer_Sync
  imports Crdt_Sync
begin

text \<open>
  \<open>server/federation/crdt/peer-sync.ts\<close>: the bridge from the sync manager to the federation
  transport. Messages go out as a list of (type, payload, target); the transport's list of
  connected peers is an argument. A session synchronises only in mode \<open>crdt_p2p\<close>.
\<close>

datatype collab_mode = SingleWriter | CrdtP2P

datatype crdt_message =
    CrdtPush crdt_delta
  | CrdtAck string "(string, int) jsmap"

type_synonym outbox = "(crdt_message \<times> string) list"

record peer_sync =
  ps_manager :: sync_manager
  ps_modes :: "(string, collab_mode) jsmap"
  ps_defaultMode :: collab_mode
  ps_nodeId :: string

definition new_peer_sync :: "string \<Rightarrow> collab_mode option \<Rightarrow> int option \<Rightarrow> peer_sync" where
  "new_peer_sync nid defaultMode antiEntropyIntervalMs =
     \<lparr>ps_manager = new_sync_manager nid
        (Some (case antiEntropyIntervalMs of None \<Rightarrow> 0 | Some i \<Rightarrow> i)) (Some StateMode),
      ps_modes = [],
      ps_defaultMode = (case defaultMode of None \<Rightarrow> SingleWriter | Some x \<Rightarrow> x),
      ps_nodeId = nid\<rparr>"

definition ps_getSyncMode :: "string \<Rightarrow> peer_sync \<Rightarrow> collab_mode" where
  "ps_getSyncMode sid s = get_or (ps_defaultMode s) (ps_modes s) sid"

definition ps_sendDeltas :: "sends \<Rightarrow> outbox" where
  "ps_sendDeltas ds = map (\<lambda>(peerId, delta). (CrdtPush delta, peerId)) ds"

definition ps_getOrCreateDocument :: "string \<Rightarrow> peer_sync \<Rightarrow> peer_sync \<times> crdt_document option" where
  "ps_getOrCreateDocument sid s =
     (if ps_getSyncMode sid s \<noteq> CrdtP2P then (s, None)
      else case sm_getDocument sid (ps_manager s) of
             Some doc \<Rightarrow> (s, Some doc)
           | None \<Rightarrow>
               (let doc = new_crdt_document sid (ps_nodeId s)
                in (s\<lparr>ps_manager := sm_registerDocument doc (ps_manager s)\<rparr>, Some doc)))"

definition ps_getDocument :: "string \<Rightarrow> peer_sync \<Rightarrow> crdt_document option" where
  "ps_getDocument sid s = sm_getDocument sid (ps_manager s)"

definition ps_pushToAllPeers :: "string list \<Rightarrow> string \<Rightarrow> peer_sync \<Rightarrow> outbox" where
  "ps_pushToAllPeers peers sid s =
     (if ps_getSyncMode sid s \<noteq> CrdtP2P then []
      else case sm_getDocument sid (ps_manager s) of
             None \<Rightarrow> []
           | Some _ \<Rightarrow> ps_sendDeltas (sm_broadcast sid peers (ps_manager s)))"

definition ps_setSyncMode :: "string list \<Rightarrow> string \<Rightarrow> collab_mode \<Rightarrow> peer_sync \<Rightarrow> peer_sync \<times> outbox" where
  "ps_setSyncMode peers sid mode s =
     (let s1 = s\<lparr>ps_modes := jset sid mode (ps_modes s)\<rparr>
      in if mode = CrdtP2P
         then (let s2 = fst (ps_getOrCreateDocument sid s1)
               in (s2, ps_pushToAllPeers peers sid s2))
         else (s1, []))"

definition ps_pushToPeer :: "string \<Rightarrow> string \<Rightarrow> peer_sync \<Rightarrow> outbox" where
  "ps_pushToPeer sid peerId s =
     (if ps_getSyncMode sid s \<noteq> CrdtP2P then []
      else ps_sendDeltas (sm_push sid peerId (ps_manager s)))"

definition ps_getPeerVersions :: "string list \<Rightarrow> string \<Rightarrow> peer_sync \<Rightarrow>
    (string \<times> (string, int) jsmap option) list" where
  "ps_getPeerVersions peers sid s =
     (case sm_getDocument sid (ps_manager s) of
        None \<Rightarrow> []
      | Some _ \<Rightarrow> map (\<lambda>p. (p, sm_getPeerClock p (ps_manager s))) peers)"

definition ps_stop :: "peer_sync \<Rightarrow> peer_sync" where
  "ps_stop s = s\<lparr>ps_manager := sm_stop (ps_manager s)\<rparr>"

definition ps_handlePush :: "string \<Rightarrow> crdt_delta \<Rightarrow> peer_sync \<Rightarrow> crdt_error + (peer_sync \<times> outbox)" where
  "ps_handlePush sender delta s =
     (case sm_receive delta (ps_manager s) of
        Inl e \<Rightarrow> Inl e
      | Inr (m, changed) \<Rightarrow>
          (let s' = s\<lparr>ps_manager := m\<rparr>
           in if changed
              then case sm_getDocument (dl_sessionId delta) m of
                     None \<Rightarrow> Inr (s', [])
                   | Some doc \<Rightarrow>
                       Inr (s', [(CrdtAck (dl_sessionId delta) (vc_toState (cd_vectorClock doc)), sender)])
              else Inr (s', [])))"

definition ps_handleAck :: "string \<Rightarrow> string \<Rightarrow> (string, int) jsmap \<Rightarrow> peer_sync \<Rightarrow> peer_sync" where
  "ps_handleAck sender sid receiverClock s =
     s\<lparr>ps_manager := sm_updatePeerClock sender receiverClock (ps_manager s)\<rparr>"

lemma single_writer_silent:
  "ps_getSyncMode sid s = SingleWriter \<Longrightarrow>
   ps_getOrCreateDocument sid s = (s, None) \<and> ps_pushToAllPeers peers sid s = [] \<and>
   ps_pushToPeer sid p s = []"
  by (simp add: ps_getOrCreateDocument_def ps_pushToAllPeers_def ps_pushToPeer_def)

lemma setSyncMode_mode: "ps_getSyncMode sid (fst (ps_setSyncMode peers sid mode s)) = mode"
  by (auto simp: ps_setSyncMode_def ps_getSyncMode_def ps_getOrCreateDocument_def Let_def
      split: option.splits)

text \<open>
  A session switched to \<open>crdt_p2p\<close> has a document, created under this node's id when there was
  none, and its full state goes to every connected peer.
\<close>

lemma switch_to_p2p:
  assumes "jget (sm_documents (ps_manager s)) sid = None"
  shows "let (s', out) = ps_setSyncMode peers sid CrdtP2P s
    in ps_getDocument sid s' = Some (new_crdt_document sid (ps_nodeId s)) \<and>
       map snd out = peers \<and>
       (\<forall>m\<in>set out. \<exists>delta. fst m = CrdtPush delta \<and>
          dl_state delta = cd_toState (new_crdt_document sid (ps_nodeId s)))"
proof -
  have sid: "cd_sessionId (new_crdt_document sid n) = sid" for n by (simp add: new_crdt_document_def)
  show ?thesis
    using assms
    by (auto simp: ps_setSyncMode_def ps_getOrCreateDocument_def ps_getSyncMode_def Let_def sid
        sm_getDocument_def sm_registerDocument_def ps_pushToAllPeers_def sm_broadcast_def sm_push_def
        ps_getDocument_def ps_sendDeltas_def comp_def)
qed

text \<open>
  A session in \<open>single_writer\<close> mode still merges what peers push: \<open>handlePush\<close> does not look at
  the mode.
\<close>

lemma push_ignores_mode:
  "ps_handlePush sender delta (s\<lparr>ps_modes := ms\<rparr>) =
   map_sum id (\<lambda>(s', out). (s'\<lparr>ps_modes := ms\<rparr>, out)) (ps_handlePush sender delta s)"
  by (auto simp: ps_handlePush_def Let_def split: sum.splits option.splits)

end
