(* ===== verification/Conflict_Store.thy ===== *)
theory Conflict_Store
  imports Json
begin

text \<open>
  The persistence interface of config-sync conflicts (\<open>IConflictStore\<close> of
  \<open>server/federation/config-conflict.ts\<close>) as a record of operations with the locale of its laws,
  and the in-memory store that implements it. Row identifiers and dates are arguments.
\<close>

section \<open>Data\<close>

datatype config_op = CreateOp | UpdateOp | DeleteOp

text \<open>\<open>OtherStrategy\<close> is a value outside the four literals: the \<open>default\<close> branch of the switch.\<close>

datatype cc_strategy = LwwStrategy | HumanStrategy | AutoMergeStrategy | ApprovalStrategy
  | OtherStrategy string

datatype cc_status = Detected | PendingHuman | AutoResolved | HumanResolved | Dismissed

record conflict_row =
  cr_id :: string
  cr_kind :: string
  cr_entity :: string
  cr_peer :: string
  cr_remoteVersion :: string
  cr_localVersion :: string
  cr_remotePayload :: payload
  cr_localPayload :: payload
  cr_strategy :: cc_strategy
  cr_status :: cc_status
  cr_detectedAt :: int
  cr_resolvedAt :: "int option"
  cr_resolvedBy :: "string option"
  cr_note :: "string option"
  cr_isContested :: bool
  cr_merged :: "payload option"

record conflict_insert =
  ci_kind :: string
  ci_entity :: string
  ci_peer :: string
  ci_remoteVersion :: string
  ci_localVersion :: string
  ci_remotePayload :: "payload option"
  ci_localPayload :: "payload option"
  ci_strategy :: cc_strategy
  ci_status :: "cc_status option"
  ci_isContested :: "bool option"
  ci_merged :: "payload option"

record audit_insert =
  au_conflictId :: string
  au_kind :: string
  au_entity :: string
  au_peer :: string
  au_strategy :: cc_strategy
  au_action :: cc_status
  au_resolvedBy :: "string option"
  au_note :: "string option"
  au_before :: "payload option"
  au_after :: "payload option"

record strategy_row =
  sr_kind :: string
  sr_strategy :: cc_strategy
  sr_markContested :: bool
  sr_alertAfterH :: int
  sr_updatedAt :: int

definition status_open :: "cc_status \<Rightarrow> bool" where
  "status_open st = (st = Detected \<or> st = PendingHuman)"

definition is_open :: "conflict_row \<Rightarrow> bool" where
  "is_open r = status_open (cr_status r)"

text \<open>The row an insert stores, and the row an update leaves.\<close>

definition row_of_insert :: "string \<Rightarrow> int \<Rightarrow> conflict_insert \<Rightarrow> conflict_row" where
  "row_of_insert rid now i =
     \<lparr>cr_id = rid, cr_kind = ci_kind i, cr_entity = ci_entity i, cr_peer = ci_peer i,
      cr_remoteVersion = ci_remoteVersion i, cr_localVersion = ci_localVersion i,
      cr_remotePayload = (case ci_remotePayload i of None \<Rightarrow> [] | Some p \<Rightarrow> p),
      cr_localPayload = (case ci_localPayload i of None \<Rightarrow> [] | Some p \<Rightarrow> p),
      cr_strategy = ci_strategy i,
      cr_status = (case ci_status i of None \<Rightarrow> Detected | Some st \<Rightarrow> st),
      cr_detectedAt = now, cr_resolvedAt = None, cr_resolvedBy = None, cr_note = None,
      cr_isContested = (case ci_isContested i of None \<Rightarrow> False | Some b \<Rightarrow> b),
      cr_merged = ci_merged i\<rparr>"

definition row_resolved :: "cc_status \<Rightarrow> string \<Rightarrow> int \<Rightarrow> string option \<Rightarrow> payload option \<Rightarrow>
    conflict_row \<Rightarrow> conflict_row" where
  "row_resolved st rby rat note mp r =
     r\<lparr>cr_status := st, cr_resolvedBy := Some rby, cr_resolvedAt := Some rat,
       cr_note := (case note of None \<Rightarrow> cr_note r | Some n \<Rightarrow> Some n),
       cr_merged := (case mp of None \<Rightarrow> cr_merged r | Some p \<Rightarrow> Some p)\<rparr>"

section \<open>The interface\<close>

record 's conflict_store =
  so_insertConflict :: "string \<Rightarrow> int \<Rightarrow> conflict_insert \<Rightarrow> 's \<Rightarrow> 's \<times> conflict_row"
  so_updateConflictStatus :: "string \<Rightarrow> cc_status \<Rightarrow> string \<Rightarrow> int \<Rightarrow> string option \<Rightarrow>
    payload option \<Rightarrow> 's \<Rightarrow> 's"
  so_findOpenConflict :: "string \<Rightarrow> string \<Rightarrow> 's \<Rightarrow> conflict_row option"
  so_listOpenConflicts :: "string option \<Rightarrow> 's \<Rightarrow> conflict_row list"
  so_listStaleConflicts :: "int \<Rightarrow> 's \<Rightarrow> conflict_row list"
  so_appendConflictAudit :: "string \<Rightarrow> int \<Rightarrow> audit_insert \<Rightarrow> 's \<Rightarrow> 's"
  so_getConflictStrategy :: "string \<Rightarrow> 's \<Rightarrow> strategy_row option"
  so_getLastSyncedVersion :: "string \<Rightarrow> string \<Rightarrow> 's \<Rightarrow> string option"
  so_setLastSyncedVersion :: "string \<Rightarrow> string \<Rightarrow> string \<Rightarrow> 's \<Rightarrow> 's"
  so_getLocalEntityPayload :: "string \<Rightarrow> string \<Rightarrow> 's \<Rightarrow> payload option"
  so_getLocalEntityVersion :: "string \<Rightarrow> string \<Rightarrow> 's \<Rightarrow> string option"

text \<open>
  What the detector relies on. \<open>rows\<close> is the content of the conflict table and \<open>trail\<close> the audit
  trail; a store only has to keep an invariant \<open>ok\<close> of its own. The laws say which operation
  touches which part, so that the proofs about the detector never look inside a store.
\<close>

locale conflict_store_laws =
  fixes st :: "'s conflict_store" and ok :: "'s \<Rightarrow> bool"
    and rows :: "'s \<Rightarrow> conflict_row list" and trail :: "'s \<Rightarrow> audit_insert list"
  assumes ok_insert: "ok s \<Longrightarrow> rid \<notin> cr_id ` set (rows s) \<Longrightarrow> ok (fst (so_insertConflict st rid now i s))"
    and ok_update: "ok s \<Longrightarrow> ok (so_updateConflictStatus st rid sta rby rat note mp s)"
    and ok_audit: "ok s \<Longrightarrow> ok (so_appendConflictAudit st aid now a s)"
    and ok_setSynced: "ok s \<Longrightarrow> ok (so_setLastSyncedVersion st k e v s)"
    and ids_distinct: "ok s \<Longrightarrow> distinct (map cr_id (rows s))"
    and insert_row: "snd (so_insertConflict st rid now i s) = row_of_insert rid now i"
    and rows_insert: "ok s \<Longrightarrow> rid \<notin> cr_id ` set (rows s) \<Longrightarrow>
      rows (fst (so_insertConflict st rid now i s)) = rows s @ [row_of_insert rid now i]"
    and rows_update: "ok s \<Longrightarrow> rows (so_updateConflictStatus st rid sta rby rat note mp s) =
      map (\<lambda>r. if cr_id r = rid then row_resolved sta rby rat note mp r else r) (rows s)"
    and rows_audit: "rows (so_appendConflictAudit st aid now a s) = rows s"
    and rows_setSynced: "rows (so_setLastSyncedVersion st k e v s) = rows s"
    and trail_insert: "trail (fst (so_insertConflict st rid now i s)) = trail s"
    and trail_update: "trail (so_updateConflictStatus st rid sta rby rat note mp s) = trail s"
    and trail_audit: "trail (so_appendConflictAudit st aid now a s) = trail s @ [a]"
    and trail_setSynced: "trail (so_setLastSyncedVersion st k e v s) = trail s"
    and listOpen: "so_listOpenConflicts st None s = filter is_open (rows s)"
    and listOpen_kind: "so_listOpenConflicts st (Some k) s = filter (\<lambda>r. is_open r \<and> cr_kind r = k) (rows s)"
    and findOpen: "so_findOpenConflict st k e s =
      find (\<lambda>r. cr_kind r = k \<and> cr_entity r = e \<and> is_open r) (rows s)"
    and listStale: "so_listStaleConflicts st t s = filter (\<lambda>r. is_open r \<and> cr_detectedAt r \<le> t) (rows s)"
    and synced_insert: "so_getLastSyncedVersion st k e (fst (so_insertConflict st rid now i s)) =
      so_getLastSyncedVersion st k e s"
    and synced_update: "so_getLastSyncedVersion st k e (so_updateConflictStatus st rid sta rby rat note mp s) =
      so_getLastSyncedVersion st k e s"
    and synced_audit: "so_getLastSyncedVersion st k e (so_appendConflictAudit st aid now a s) =
      so_getLastSyncedVersion st k e s"
    and synced_set: "so_getLastSyncedVersion st k e (so_setLastSyncedVersion st k e v s) = Some v"
    and strategy_insert: "so_getConflictStrategy st k (fst (so_insertConflict st rid now i s)) =
      so_getConflictStrategy st k s"
    and strategy_audit: "so_getConflictStrategy st k (so_appendConflictAudit st aid now a s) =
      so_getConflictStrategy st k s"

section \<open>The in-memory store\<close>

record memory_conflict_store =
  mc_conflicts :: "(string, conflict_row) jsmap"
  mc_auditLog :: "(string \<times> int \<times> audit_insert) list"
  mc_strategies :: "(string, strategy_row) jsmap"
  mc_lastSyncedVersions :: "(string, string) jsmap"
  mc_localEntityPayloads :: "(string, payload) jsmap"
  mc_localEntityVersions :: "(string, string) jsmap"

definition new_memory_conflict_store :: memory_conflict_store where
  "new_memory_conflict_store =
     \<lparr>mc_conflicts = [], mc_auditLog = [], mc_strategies = [], mc_lastSyncedVersions = [],
      mc_localEntityPayloads = [], mc_localEntityVersions = []\<rparr>"

definition entity_key :: "string \<Rightarrow> string \<Rightarrow> string" where
  "entity_key k e = k @ '':'' @ e"

definition mc_insertConflict :: "string \<Rightarrow> int \<Rightarrow> conflict_insert \<Rightarrow> memory_conflict_store \<Rightarrow>
    memory_conflict_store \<times> conflict_row" where
  "mc_insertConflict rid now i s =
     (let full = row_of_insert rid now i
      in (s\<lparr>mc_conflicts := jset rid full (mc_conflicts s)\<rparr>, full))"

definition mc_updateConflictStatus :: "string \<Rightarrow> cc_status \<Rightarrow> string \<Rightarrow> int \<Rightarrow> string option \<Rightarrow>
    payload option \<Rightarrow> memory_conflict_store \<Rightarrow> memory_conflict_store" where
  "mc_updateConflictStatus rid sta rby rat note mp s =
     (case jget (mc_conflicts s) rid of
        None \<Rightarrow> s
      | Some row \<Rightarrow> s\<lparr>mc_conflicts := jset rid (row_resolved sta rby rat note mp row) (mc_conflicts s)\<rparr>)"

definition mc_findOpenConflict :: "string \<Rightarrow> string \<Rightarrow> memory_conflict_store \<Rightarrow> conflict_row option" where
  "mc_findOpenConflict k e s =
     find (\<lambda>r. cr_kind r = k \<and> cr_entity r = e \<and> is_open r) (jvals (mc_conflicts s))"

definition mc_listOpenConflicts :: "string option \<Rightarrow> memory_conflict_store \<Rightarrow> conflict_row list" where
  "mc_listOpenConflicts kind s =
     filter (\<lambda>c. is_open c \<and> (case kind of None \<Rightarrow> True | Some k \<Rightarrow> cr_kind c = k)) (jvals (mc_conflicts s))"

definition mc_listStaleConflicts :: "int \<Rightarrow> memory_conflict_store \<Rightarrow> conflict_row list" where
  "mc_listStaleConflicts olderThanMs s =
     filter (\<lambda>c. is_open c \<and> cr_detectedAt c \<le> olderThanMs) (jvals (mc_conflicts s))"

definition mc_appendConflictAudit :: "string \<Rightarrow> int \<Rightarrow> audit_insert \<Rightarrow> memory_conflict_store \<Rightarrow>
    memory_conflict_store" where
  "mc_appendConflictAudit aid now row s = s\<lparr>mc_auditLog := mc_auditLog s @ [(aid, now, row)]\<rparr>"

definition mc_getConflictStrategy :: "string \<Rightarrow> memory_conflict_store \<Rightarrow> strategy_row option" where
  "mc_getConflictStrategy k s = jget (mc_strategies s) k"

definition mc_getLastSyncedVersion :: "string \<Rightarrow> string \<Rightarrow> memory_conflict_store \<Rightarrow> string option" where
  "mc_getLastSyncedVersion k e s = jget (mc_lastSyncedVersions s) (entity_key k e)"

definition mc_setLastSyncedVersion :: "string \<Rightarrow> string \<Rightarrow> string \<Rightarrow> memory_conflict_store \<Rightarrow>
    memory_conflict_store" where
  "mc_setLastSyncedVersion k e v s =
     s\<lparr>mc_lastSyncedVersions := jset (entity_key k e) v (mc_lastSyncedVersions s)\<rparr>"

definition mc_getLocalEntityPayload :: "string \<Rightarrow> string \<Rightarrow> memory_conflict_store \<Rightarrow> payload option" where
  "mc_getLocalEntityPayload k e s = jget (mc_localEntityPayloads s) (entity_key k e)"

definition mc_getLocalEntityVersion :: "string \<Rightarrow> string \<Rightarrow> memory_conflict_store \<Rightarrow> string option" where
  "mc_getLocalEntityVersion k e s = jget (mc_localEntityVersions s) (entity_key k e)"

definition mc_seedStrategy :: "int \<Rightarrow> string \<Rightarrow> cc_strategy \<Rightarrow> int option \<Rightarrow> memory_conflict_store \<Rightarrow>
    memory_conflict_store" where
  "mc_seedStrategy now k strat alertAfterH s =
     s\<lparr>mc_strategies := jset k
         \<lparr>sr_kind = k, sr_strategy = strat,
          sr_markContested = (strat = LwwStrategy \<or> strat = ApprovalStrategy),
          sr_alertAfterH = (case alertAfterH of None \<Rightarrow> 24 | Some h \<Rightarrow> h), sr_updatedAt = now\<rparr>
         (mc_strategies s)\<rparr>"

definition mc_seedLocalEntity :: "string \<Rightarrow> string \<Rightarrow> string \<Rightarrow> payload \<Rightarrow> memory_conflict_store \<Rightarrow>
    memory_conflict_store" where
  "mc_seedLocalEntity k e v p s =
     s\<lparr>mc_localEntityVersions := jset (entity_key k e) v (mc_localEntityVersions s),
       mc_localEntityPayloads := jset (entity_key k e) p (mc_localEntityPayloads s)\<rparr>"

definition mc_getAuditLog :: "memory_conflict_store \<Rightarrow> (string \<times> int \<times> audit_insert) list" where
  "mc_getAuditLog s = mc_auditLog s"

definition mc_getAllConflicts :: "memory_conflict_store \<Rightarrow> conflict_row list" where
  "mc_getAllConflicts s = jvals (mc_conflicts s)"

definition mc_reset :: "memory_conflict_store \<Rightarrow> memory_conflict_store" where
  "mc_reset s = new_memory_conflict_store"

definition max_in_memory_conflicts :: nat where
  "max_in_memory_conflicts = 1000"

text \<open>
  The eviction loop runs over the entries in insertion order and stops after the delete that
  reaches the limit (its argument here, 1000 in the code).
\<close>

fun evict_closed :: "nat \<Rightarrow> (string, conflict_row) jsmap \<Rightarrow> (string, conflict_row) jsmap \<Rightarrow>
    (string, conflict_row) jsmap" where
  "evict_closed cap [] m = m"
| "evict_closed cap ((cid, c) # cs) m =
     (if cr_status c \<noteq> Detected \<and> cr_status c \<noteq> PendingHuman
      then (let m' = jdel cid m in if length m' \<le> cap then m' else evict_closed cap cs m')
      else evict_closed cap cs m)"

definition enforce_limit :: "nat \<Rightarrow> memory_conflict_store \<Rightarrow> memory_conflict_store" where
  "enforce_limit cap s =
     (if length (mc_conflicts s) \<le> cap then s
      else s\<lparr>mc_conflicts := evict_closed cap (mc_conflicts s) (mc_conflicts s)\<rparr>)"

definition mc_enforceCapacity :: "memory_conflict_store \<Rightarrow> memory_conflict_store" where
  "mc_enforceCapacity s = enforce_limit max_in_memory_conflicts s"

definition mc_backdateConflict :: "string \<Rightarrow> int \<Rightarrow> memory_conflict_store \<Rightarrow> memory_conflict_store" where
  "mc_backdateConflict rid d s =
     (case jget (mc_conflicts s) rid of
        None \<Rightarrow> s
      | Some row \<Rightarrow> s\<lparr>mc_conflicts := jset rid (row\<lparr>cr_detectedAt := d\<rparr>) (mc_conflicts s)\<rparr>)"

definition memory_store :: "memory_conflict_store conflict_store" where
  "memory_store =
     \<lparr>so_insertConflict = mc_insertConflict,
      so_updateConflictStatus = mc_updateConflictStatus,
      so_findOpenConflict = mc_findOpenConflict,
      so_listOpenConflicts = mc_listOpenConflicts,
      so_listStaleConflicts = mc_listStaleConflicts,
      so_appendConflictAudit = mc_appendConflictAudit,
      so_getConflictStrategy = mc_getConflictStrategy,
      so_getLastSyncedVersion = mc_getLastSyncedVersion,
      so_setLastSyncedVersion = mc_setLastSyncedVersion,
      so_getLocalEntityPayload = mc_getLocalEntityPayload,
      so_getLocalEntityVersion = mc_getLocalEntityVersion\<rparr>"

section \<open>The in-memory store keeps the laws\<close>

lemma memory_store_ops [simp]:
  "so_insertConflict memory_store = mc_insertConflict"
  "so_updateConflictStatus memory_store = mc_updateConflictStatus"
  "so_findOpenConflict memory_store = mc_findOpenConflict"
  "so_listOpenConflicts memory_store = mc_listOpenConflicts"
  "so_listStaleConflicts memory_store = mc_listStaleConflicts"
  "so_appendConflictAudit memory_store = mc_appendConflictAudit"
  "so_getConflictStrategy memory_store = mc_getConflictStrategy"
  "so_getLastSyncedVersion memory_store = mc_getLastSyncedVersion"
  "so_setLastSyncedVersion memory_store = mc_setLastSyncedVersion"
  "so_getLocalEntityPayload memory_store = mc_getLocalEntityPayload"
  "so_getLocalEntityVersion memory_store = mc_getLocalEntityVersion"
  by (simp_all add: memory_store_def)

text \<open>Every row is stored under its own identifier.\<close>

definition mc_ok :: "memory_conflict_store \<Rightarrow> bool" where
  "mc_ok s = (jwf (mc_conflicts s) \<and> list_all (\<lambda>(k, r). cr_id r = k) (mc_conflicts s))"

definition mc_trail :: "memory_conflict_store \<Rightarrow> audit_insert list" where
  "mc_trail s = map (\<lambda>(_, _, a). a) (mc_auditLog s)"

lemma cr_id_of_insert [simp]: "cr_id (row_of_insert rid now i) = rid"
  by (simp add: row_of_insert_def)

lemma cr_id_resolved [simp]: "cr_id (row_resolved sta rby rat note mp r) = cr_id r"
  by (simp add: row_resolved_def)

lemma mc_ok_new [simp]: "mc_ok new_memory_conflict_store"
  by (simp add: mc_ok_def new_memory_conflict_store_def)

lemma keyed_ids: "list_all (\<lambda>(k, r). cr_id r = k) m \<Longrightarrow> map cr_id (jvals m) = jkeys m"
  by (induction m) auto

lemma keyed_update:
  assumes "jwf m" and "list_all (\<lambda>(k, r). cr_id r = k) m" and "jget m rid = Some row"
  shows "jvals (jset rid (f row) m) = map (\<lambda>r. if cr_id r = rid then f r else r) (jvals m)"
  using assms
proof (induction m)
  case (Cons p m)
  obtain k r where p: "p = (k, r)" by force
  show ?case
  proof (cases "k = rid")
    case True
    with Cons.prems p have "\<forall>r' \<in> set (jvals m). cr_id r' \<noteq> rid"
      by (force simp: list_all_iff)
    then have "map (\<lambda>r. if cr_id r = rid then f r else r) (jvals m) = jvals m"
      by (intro map_idI) auto
    with True Cons.prems p show ?thesis by (simp add: comp_def)
  next
    case False
    with Cons p show ?thesis by auto
  qed
qed simp

lemma keyed_absent:
  assumes "list_all (\<lambda>(k, r). cr_id r = k) m" and "jget m rid = None"
  shows "map (\<lambda>r. if cr_id r = rid then f r else r) (jvals m) = jvals m"
  using assms by (intro map_idI) (force simp: list_all_iff jget_None_iff)

lemma mc_fresh: "mc_ok s \<Longrightarrow> rid \<notin> cr_id ` set (mc_getAllConflicts s) \<longleftrightarrow> rid \<notin> set (jkeys (mc_conflicts s))"
  unfolding mc_ok_def mc_getAllConflicts_def
  by (metis keyed_ids list.set_map)

lemmas mc_defs = mc_insertConflict_def mc_updateConflictStatus_def mc_findOpenConflict_def
  mc_listOpenConflicts_def mc_listStaleConflicts_def mc_appendConflictAudit_def
  mc_getConflictStrategy_def mc_getLastSyncedVersion_def mc_setLastSyncedVersion_def
  mc_getLocalEntityPayload_def mc_getLocalEntityVersion_def mc_getAllConflicts_def mc_trail_def Let_def

lemma mc_rows_update:
  assumes "mc_ok s"
  shows "mc_getAllConflicts (mc_updateConflictStatus rid sta rby rat note mp s) =
    map (\<lambda>r. if cr_id r = rid then row_resolved sta rby rat note mp r else r) (mc_getAllConflicts s)"
  using assms keyed_update [of "mc_conflicts s" rid _ "row_resolved sta rby rat note mp"]
    keyed_absent [of "mc_conflicts s" rid "row_resolved sta rby rat note mp"]
  by (cases "jget (mc_conflicts s) rid") (simp_all add: mc_defs mc_ok_def)

lemma mc_ok_update: "mc_ok s \<Longrightarrow> mc_ok (mc_updateConflictStatus rid sta rby rat note mp s)"
  unfolding mc_ok_def mc_updateConflictStatus_def
  by (cases "jget (mc_conflicts s) rid")
    (use list_all_jget [of "\<lambda>(k, r). cr_id r = k" "mc_conflicts s" rid] in
      \<open>auto intro: list_all_jset\<close>)

lemma mc_rows_insert:
  assumes "mc_ok s" and "rid \<notin> cr_id ` set (mc_getAllConflicts s)"
  shows "mc_getAllConflicts (fst (mc_insertConflict rid now i s)) = mc_getAllConflicts s @ [row_of_insert rid now i]"
  using assms jvals_jset_absent [of rid "mc_conflicts s" "row_of_insert rid now i"]
  by (simp add: mc_fresh) (simp add: mc_defs)

lemma mc_ok_insert: "mc_ok s \<Longrightarrow> mc_ok (fst (mc_insertConflict rid now i s))"
  by (simp add: mc_ok_def mc_insertConflict_def Let_def list_all_jset)

interpretation mcstore: conflict_store_laws memory_store mc_ok mc_getAllConflicts mc_trail
proof (unfold_locales, goal_cases)
  case 1 then show ?case by (simp add: memory_store_def mc_ok_insert)
next
  case 2 then show ?case by (simp add: memory_store_def mc_ok_update)
next
  case 5 then show ?case by (simp add: mc_ok_def mc_getAllConflicts_def keyed_ids del: map_map)
next
  case 7 then show ?case by (simp add: memory_store_def mc_rows_insert)
next
  case 8 then show ?case by (simp add: memory_store_def mc_rows_update)
next
  case 16 then show ?case by (simp add: memory_store_def mc_defs)
qed (auto simp: memory_store_def mc_defs mc_ok_def split: option.splits)

section \<open>Capacity\<close>

text \<open>Eviction only removes closed rows, in insertion order, and no more than needed.\<close>

lemma evict_closed_keeps_open:
  assumes "\<forall>(k, c) \<in> set cs. jget m k = Some c" and "jwf cs" and "jwf m"
    and "status_open (cr_status c)" and "jget m k = Some c"
  shows "jget (evict_closed cap cs m) k = Some c"
  using assms
proof (induction cap cs m rule: evict_closed.induct)
  case (2 cap cid c' cs m)
  show ?case
  proof (cases "status_open (cr_status c')")
    case True
    with 2 show ?thesis by (auto simp: status_open_def)
  next
    case False
    with 2 have ne: "cid \<noteq> k" by auto
    with 2 have "jget (jdel cid m) k = Some c" by simp
    moreover have "\<forall>(k, c) \<in> set cs. jget (jdel cid m) k = Some c"
      using 2(3,4) by force
    ultimately show ?thesis using 2 False by (simp add: Let_def status_open_def)
  qed
qed simp

end
