(* ===== verification/Js_Text.thy ===== *)
theory Js_Text
  imports Prelude
begin

text \<open>
  The string operations of JavaScript the components share. A string is a list of characters, each one
  UTF-16 unit; texts beyond Latin-1 are not represented, but for the few typographic characters the sources
  write themselves (dashes, ellipsis, bullet, arrow), for which the codes 128 to 159 stand.
\<close>

section \<open>Case and blanks\<close>

definition lower_char :: "char \<Rightarrow> char" where
  "lower_char c = (let n = of_char c :: nat in if 65 \<le> n \<and> n \<le> 90 \<or> 192 \<le> n \<and> n \<le> 222 \<and> n \<noteq> 215 then char_of (n + 32) else c)"

text \<open>Case-insensitive prefix: the rest of the text after it.\<close>

fun strip_prefix_ci :: "string \<Rightarrow> string \<Rightarrow> string option" where
  "strip_prefix_ci [] t = Some t"
| "strip_prefix_ci (p # ps) [] = None"
| "strip_prefix_ci (p # ps) (c # cs) = (if lower_char c = p then strip_prefix_ci ps cs else None)"

definition blank :: "char \<Rightarrow> bool" where
  "blank c = (of_char c \<in> {9, 10, 11, 12, 13, 32, 160 :: nat})"

definition trim :: "string \<Rightarrow> string" where
  "trim t = rev (dropWhile blank (rev (dropWhile blank t)))"

section \<open>Numbers in texts\<close>

definition digit_val :: "char \<Rightarrow> nat option" where
  "digit_val c = (let n = of_char c in if 48 \<le> n \<and> n \<le> 57 then Some (n - 48) else None)"

fun parse_digits :: "nat option \<Rightarrow> string \<Rightarrow> nat option" where
  "parse_digits acc [] = acc"
| "parse_digits acc (c # cs) =
     (case digit_val c of
        None \<Rightarrow> acc
      | Some d \<Rightarrow> parse_digits (Some (case acc of None \<Rightarrow> d | Some a \<Rightarrow> 10 * a + d)) cs)"

text \<open>\<open>parseInt(s, 10)\<close>; \<open>None\<close> is NaN.\<close>

definition parseInt10 :: "string \<Rightarrow> int option" where
  "parseInt10 s =
     (let t = dropWhile blank s
      in case t of
           [] \<Rightarrow> None
         | c # cs \<Rightarrow>
             if c = CHR ''-'' then map_option (\<lambda>n. - int n) (parse_digits None cs)
             else if c = CHR ''+'' then map_option int (parse_digits None cs)
             else map_option int (parse_digits None t))"


section \<open>Searching and cutting\<close>

text \<open>\<open>text.indexOf(pat)\<close>, None for -1.\<close>

fun index_of :: "string \<Rightarrow> string \<Rightarrow> nat option" where
  "index_of pat [] = (if pat = [] then Some 0 else None)"
| "index_of pat (c # cs) =
     (if take (length pat) (c # cs) = pat then Some 0 else map_option Suc (index_of pat cs))"

definition lower :: "string \<Rightarrow> string" where
  "lower t = map lower_char t"

definition alnum :: "char \<Rightarrow> bool" where
  "alnum c = (let n = of_char c :: nat in 48 \<le> n \<and> n \<le> 57 \<or> 97 \<le> n \<and> n \<le> 122)"

text \<open>The non-empty pieces of \<open>text.split(/[^a-z0-9]+/)\<close>.\<close>

fun alnum_tokens :: "string \<Rightarrow> string \<Rightarrow> string list" where
  "alnum_tokens acc [] = (if acc = [] then [] else [rev acc])"
| "alnum_tokens acc (c # cs) =
     (if alnum c then alnum_tokens (c # acc) cs
      else (if acc = [] then [] else [rev acc]) @ alnum_tokens [] cs)"

definition ascii_alnum :: "char \<Rightarrow> bool" where
  "ascii_alnum c = (let n = of_char c :: nat in 48 \<le> n \<and> n \<le> 57 \<or> 65 \<le> n \<and> n \<le> 90 \<or> 97 \<le> n \<and> n \<le> 122)"

definition starts :: "string \<Rightarrow> string \<Rightarrow> bool" where
  "starts p t \<longleftrightarrow> take (length p) t = p"

text \<open>\<open>text.replace(/[...]+/g, " ")\<close>: each run becomes one space; the flag says that a run has started.\<close>

fun replace_runs :: "(char \<Rightarrow> bool) \<Rightarrow> bool \<Rightarrow> string \<Rightarrow> string" where
  "replace_runs P inside [] = []"
| "replace_runs P inside (c # cs) =
     (if P c then (if inside then replace_runs P True cs else CHR '' '' # replace_runs P True cs)
      else c # replace_runs P False cs)"

definition one_space :: "string \<Rightarrow> string" where
  "one_space t = replace_runs blank False t"

text \<open>Control characters: \<open>[\u0000-\u001f\u007f]\<close>.\<close>

definition control_char :: "char \<Rightarrow> bool" where
  "control_char c \<longleftrightarrow> (of_char c :: nat) \<le> 31 \<or> (of_char c :: nat) = 127"

text \<open>Bytes of the UTF-8 encoding; the typographic characters have three.\<close>

definition char_bytes :: "char \<Rightarrow> nat" where
  "char_bytes c = (let n = of_char c :: nat in if n < 128 then 1 else if n < 160 then 3 else 2)"

definition byteLength :: "string \<Rightarrow> nat" where
  "byteLength t = sum_list (map char_bytes t)"

lemma byteLength_simps [simp]:
  "byteLength [] = 0" "byteLength (a @ b) = byteLength a + byteLength b" "byteLength (c # cs) = char_bytes c + byteLength cs"
  by (simp_all add: byteLength_def)

lemma char_bytes_range: "1 \<le> char_bytes c \<and> char_bytes c \<le> 3"
  by (simp add: char_bytes_def Let_def)

lemma replace_runs_set: "set (replace_runs P inside t) \<subseteq> insert (CHR '' '') {c \<in> set t. \<not> P c}"
  by (induction P inside t rule: replace_runs.induct) auto

lemma trim_set: "set (trim t) \<subseteq> set t"
  unfolding trim_def by (metis dual_order.trans set_dropWhileD set_rev subsetI)

end
