(* ===== verification/Config_Conflict.thy ===== *)
theory Config_Conflict
  imports Conflict_Store Js_Text
begin

text \<open>
  Conflict detection and per-entity resolution of config-sync events
  (\<open>server/federation/config-conflict.ts\<close>): \<open>ConflictDetector\<close>, the automatic merges, the human
  resolution and dismissal of open conflicts, and the stale-conflict notifier. Everything is
  written over the store interface; \<open>cc_env\<close> holds the identifiers and the date a call draws.
  Lemmas about the detector are proved from the store's laws and used on the in-memory store.
\<close>

record cc_env =
  ev_conflictId :: string
  ev_audit1 :: string
  ev_audit2 :: string
  ev_now :: int

text \<open>\<open>Conflicted row applyEvent mergedPayload\<close>.\<close>

datatype check_result = NotConflicted | Conflicted conflict_row bool "payload option"

definition default_alert_after_h :: int where
  "default_alert_after_h = 24"

definition default_strategies :: "(string, cc_strategy) jsmap" where
  "default_strategies =
     [(''pipeline'', LwwStrategy), (''trigger'', LwwStrategy), (''prompt'', LwwStrategy),
      (''connection'', HumanStrategy), (''provider-key'', HumanStrategy),
      (''preferences'', LwwStrategy), (''skill-state'', AutoMergeStrategy)]"

definition default_mark_contested :: "(string, bool) jsmap" where
  "default_mark_contested =
     [(''pipeline'', True), (''trigger'', True), (''prompt'', True), (''connection'', False),
      (''provider-key'', False), (''preferences'', False), (''skill-state'', False)]"

section \<open>Automatic merges\<close>

text \<open>\<open>typeof v === "object" && v !== null\<close>: arrays count as objects.\<close>

fun is_object :: "json \<Rightarrow> bool" where
  "is_object (JArr _) = True"
| "is_object (JObj _) = True"
| "is_object _ = False"

fun normaliseInstalled :: "json option \<Rightarrow> json list" where
  "normaliseInstalled (Some (JArr xs)) = filter is_object xs"
| "normaliseInstalled _ = []"

definition item_key :: "json \<Rightarrow> string" where
  "item_key item =
     (let i = json_field item ''id''; n = json_field item ''name''
      in if \<not> nullish i then js_String (the i)
         else if \<not> nullish n then js_String (the n)
         else js_String (JStr (json_stringify item)))"

fun split_dots :: "string \<Rightarrow> string list" where
  "split_dots [] = [[]]"
| "split_dots (c # cs) =
     (if c = CHR ''.'' then [] # split_dots cs
      else case split_dots cs of [] \<Rightarrow> [[c]] | w # ws \<Rightarrow> (c # w) # ws)"

definition semver_parse :: "string \<Rightarrow> int list" where
  "semver_parse s = List.map_filter parseInt10 (split_dots s)"

definition nth_or_0 :: "int list \<Rightarrow> nat \<Rightarrow> int" where
  "nth_or_0 xs i = (if i < length xs then xs ! i else 0)"

text \<open>The loop of \<open>semverMax\<close>: positions \<open>i\<close> to \<open>i + n\<close>, first difference decides.\<close>

fun semver_loop :: "int list \<Rightarrow> int list \<Rightarrow> nat \<Rightarrow> nat \<Rightarrow> string \<Rightarrow> string \<Rightarrow> string" where
  "semver_loop pa pb i 0 a b = a"
| "semver_loop pa pb i (Suc n) a b =
     (if nth_or_0 pa i > nth_or_0 pb i then a
      else if nth_or_0 pb i > nth_or_0 pa i then b
      else semver_loop pa pb (Suc i) n a b)"

definition semverMax :: "string \<Rightarrow> string \<Rightarrow> string" where
  "semverMax a b =
     (let pa = semver_parse a; pb = semver_parse b
      in semver_loop pa pb 0 (max (length pa) (length pb)) a b)"

definition version_or_zero :: "payload \<Rightarrow> string" where
  "version_or_zero p = (case jget p ''version'' of Some (JStr v) \<Rightarrow> v | _ \<Rightarrow> ''0.0.0'')"

definition merge_installed :: "json list \<Rightarrow> json list \<Rightarrow> (string, json) jsmap" where
  "merge_installed loc rem = foldl (\<lambda>m item. jset (item_key item) item m) [] (loc @ rem)"

definition mergeSkillState :: "payload \<Rightarrow> payload \<Rightarrow> payload" where
  "mergeSkillState remote loc =
     (let merged = merge_installed (normaliseInstalled (jget loc ''installed''))
                                   (normaliseInstalled (jget remote ''installed''));
          maxVersion = semverMax (version_or_zero remote) (version_or_zero loc)
      in jset ''version'' (JStr maxVersion)
           (jset ''installed'' (JArr (jvals merged)) (jspread loc remote)))"

definition autoMergeByKind :: "string \<Rightarrow> payload \<Rightarrow> payload \<Rightarrow> payload" where
  "autoMergeByKind kind remote loc =
     (if kind = ''skill-state'' then mergeSkillState remote loc else jspread loc remote)"

section \<open>The detector\<close>

text \<open>An empty strategy text is falsy, as an absent override is.\<close>

definition resolveStrategy :: "'s conflict_store \<Rightarrow> (string, cc_strategy) jsmap \<Rightarrow> string \<Rightarrow> 's \<Rightarrow>
    cc_strategy" where
  "resolveStrategy st overrides kind s =
     (if jget overrides kind \<noteq> None \<and> jget overrides kind \<noteq> Some (OtherStrategy [])
      then the (jget overrides kind)
      else case so_getConflictStrategy st kind s of
             Some row \<Rightarrow> sr_strategy row
           | None \<Rightarrow> get_or LwwStrategy default_strategies kind)"

definition lww_note :: "bool \<Rightarrow> string \<Rightarrow> string \<Rightarrow> string" where
  "lww_note remoteWins rv lv =
     (if remoteWins then ''Remote version '' @ rv @ '' is newer; remote wins.''
      else ''Local version '' @ lv @ '' is newer; local wins (remote event discarded).'')"

definition handleLww :: "'s conflict_store \<Rightarrow> cc_env \<Rightarrow> conflict_row \<Rightarrow> string \<Rightarrow> string \<Rightarrow> payload \<Rightarrow>
    cc_strategy \<Rightarrow> 's \<Rightarrow> 's \<times> check_result" where
  "handleLww st env conflict rv lv rp strat s =
     (let markContested =
            (case so_getConflictStrategy st (cr_kind conflict) s of
               Some cfg \<Rightarrow> sr_markContested cfg
             | None \<Rightarrow> get_or True default_mark_contested (cr_kind conflict));
          remoteWins = (lv \<le> rv);
          by = (if remoteWins then ''lww_auto:remote'' else ''lww_auto:local'');
          nt = lww_note remoteWins rv lv;
          s1 = so_updateConflictStatus st (cr_id conflict) AutoResolved by (ev_now env) (Some nt) None s;
          s2 = so_appendConflictAudit st (ev_audit2 env) (ev_now env)
                 \<lparr>au_conflictId = cr_id conflict, au_kind = cr_kind conflict,
                  au_entity = cr_entity conflict, au_peer = cr_peer conflict,
                  au_strategy = strat, au_action = AutoResolved, au_resolvedBy = Some by,
                  au_note = Some nt, au_before = Some (cr_localPayload conflict),
                  au_after = Some (if remoteWins then rp else cr_localPayload conflict)\<rparr> s1
      in if remoteWins
         then (let s3 = (if markContested
                         then so_updateConflictStatus st (cr_id conflict) AutoResolved by (ev_now env)
                                (Some (nt @ '' [contested]'')) None s2
                         else s2);
                   s4 = so_setLastSyncedVersion st (cr_kind conflict) (cr_entity conflict) rv s3
               in (s4, Conflicted (conflict\<lparr>cr_status := AutoResolved, cr_isContested := markContested\<rparr>)
                         True None))
         else (s2, Conflicted (conflict\<lparr>cr_status := AutoResolved\<rparr>) False None))"

definition handleHuman :: "conflict_row \<Rightarrow> check_result" where
  "handleHuman conflict = Conflicted (conflict\<lparr>cr_status := PendingHuman\<rparr>) False None"

definition handleAutoMerge :: "'s conflict_store \<Rightarrow> cc_env \<Rightarrow> conflict_row \<Rightarrow> string \<Rightarrow> payload \<Rightarrow>
    payload \<Rightarrow> 's \<Rightarrow> 's \<times> check_result" where
  "handleAutoMerge st env conflict kind rp lp s =
     (let merged = autoMergeByKind kind rp lp;
          by = ''auto_merge'';
          nt = ''Automatic merge applied for entity kind '' @ [CHR 0x22] @ kind @ [CHR 0x22] @ ''.'';
          s1 = so_updateConflictStatus st (cr_id conflict) AutoResolved by (ev_now env) (Some nt) (Some merged) s;
          s2 = so_appendConflictAudit st (ev_audit2 env) (ev_now env)
                 \<lparr>au_conflictId = cr_id conflict, au_kind = cr_kind conflict,
                  au_entity = cr_entity conflict, au_peer = cr_peer conflict,
                  au_strategy = AutoMergeStrategy, au_action = AutoResolved, au_resolvedBy = Some by,
                  au_note = Some nt, au_before = Some lp, au_after = Some merged\<rparr> s1;
          s3 = so_setLastSyncedVersion st (cr_kind conflict) (cr_entity conflict) (cr_remoteVersion conflict) s2
      in (s3, Conflicted (conflict\<lparr>cr_status := AutoResolved, cr_merged := Some merged\<rparr>) True (Some merged)))"

definition cc_check :: "'s conflict_store \<Rightarrow> (string, cc_strategy) jsmap \<Rightarrow> cc_env \<Rightarrow> string \<Rightarrow> string \<Rightarrow>
    string \<Rightarrow> string \<Rightarrow> payload \<Rightarrow> config_op \<Rightarrow> 's \<Rightarrow> 's \<times> check_result" where
  "cc_check st overrides env peer kind ent rv rp oper s =
     (if oper = DeleteOp then (so_setLastSyncedVersion st kind ent rv s, NotConflicted)
      else case so_getLocalEntityVersion st kind ent s of
        None \<Rightarrow> (so_setLastSyncedVersion st kind ent rv s, NotConflicted)
      | Some lv \<Rightarrow>
          (let lastSynced = so_getLastSyncedVersion st kind ent s;
               localModified = (lastSynced = None \<or> lv \<noteq> the lastSynced);
               remoteDiffers = (rv \<noteq> lv)
           in if \<not> localModified \<or> \<not> remoteDiffers
              then (so_setLastSyncedVersion st kind ent rv s, NotConflicted)
              else
                (let strat = resolveStrategy st overrides kind s;
                     lp = (case so_getLocalEntityPayload st kind ent s of None \<Rightarrow> [] | Some p \<Rightarrow> p);
                     (s1, row) = so_insertConflict st (ev_conflictId env) (ev_now env)
                       \<lparr>ci_kind = kind, ci_entity = ent, ci_peer = peer, ci_remoteVersion = rv,
                        ci_localVersion = lv, ci_remotePayload = Some rp, ci_localPayload = Some lp,
                        ci_strategy = strat,
                        ci_status = Some (if strat = HumanStrategy then PendingHuman else Detected),
                        ci_isContested = Some False, ci_merged = None\<rparr> s;
                     s2 = so_appendConflictAudit st (ev_audit1 env) (ev_now env)
                       \<lparr>au_conflictId = cr_id row, au_kind = kind, au_entity = ent, au_peer = peer,
                        au_strategy = strat, au_action = Detected, au_resolvedBy = None, au_note = None,
                        au_before = Some lp, au_after = Some rp\<rparr> s1
                 in case strat of
                      LwwStrategy \<Rightarrow> handleLww st env row rv lv rp strat s2
                    | ApprovalStrategy \<Rightarrow> handleLww st env row rv lv rp strat s2
                    | HumanStrategy \<Rightarrow> (s2, handleHuman row)
                    | AutoMergeStrategy \<Rightarrow> handleAutoMerge st env row kind rp lp s2
                    | OtherStrategy _ \<Rightarrow> handleLww st env row rv lv rp LwwStrategy s2)))"

section \<open>Resolution by a human\<close>

fun strategy_text :: "cc_strategy \<Rightarrow> string" where
  "strategy_text LwwStrategy = ''lww''"
| "strategy_text HumanStrategy = ''human''"
| "strategy_text AutoMergeStrategy = ''auto_merge''"
| "strategy_text ApprovalStrategy = ''approval_voting''"
| "strategy_text (OtherStrategy t) = t"

definition resolveHumanConflict :: "'s conflict_store \<Rightarrow> cc_env \<Rightarrow> string \<Rightarrow> string \<Rightarrow> bool \<Rightarrow>
    string option \<Rightarrow> 's \<Rightarrow> string + ('s \<times> conflict_row \<times> bool)" where
  "resolveHumanConflict st env cid by applyRemote nt s =
     (case find (\<lambda>c. cr_id c = cid) (so_listOpenConflicts st None s) of
        None \<Rightarrow> Inl (''Conflict '' @ cid @ '' not found or not open.'')
      | Some c \<Rightarrow>
          if cr_strategy c \<noteq> HumanStrategy
          then Inl (''Conflict '' @ cid @ '' uses strategy '' @ [CHR 0x22] @ strategy_text (cr_strategy c)
                    @ [CHR 0x22] @ '', not '' @ [CHR 0x22] @ ''human'' @ [CHR 0x22] @ ''.'')
          else
            (let n = (case nt of Some x \<Rightarrow> x
                      | None \<Rightarrow> (if applyRemote then ''Human approved remote version.''
                                 else ''Human kept local version.''));
                 s1 = so_updateConflictStatus st cid HumanResolved by (ev_now env) (Some n) None s;
                 s2 = so_appendConflictAudit st (ev_audit1 env) (ev_now env)
                   \<lparr>au_conflictId = cid, au_kind = cr_kind c, au_entity = cr_entity c, au_peer = cr_peer c,
                    au_strategy = cr_strategy c, au_action = HumanResolved, au_resolvedBy = Some by,
                    au_note = Some n, au_before = Some (cr_localPayload c),
                    au_after = Some (if applyRemote then cr_remotePayload c else cr_localPayload c)\<rparr> s1;
                 s3 = (if applyRemote
                       then so_setLastSyncedVersion st (cr_kind c) (cr_entity c) (cr_remoteVersion c) s2
                       else s2)
             in Inr (s3, c\<lparr>cr_status := HumanResolved, cr_resolvedBy := Some by,
                           cr_resolvedAt := Some (ev_now env), cr_note := Some n\<rparr>, applyRemote)))"

definition dismissConflict :: "'s conflict_store \<Rightarrow> cc_env \<Rightarrow> string \<Rightarrow> string \<Rightarrow> string option \<Rightarrow> 's \<Rightarrow>
    string + ('s \<times> conflict_row)" where
  "dismissConflict st env cid by nt s =
     (case find (\<lambda>c. cr_id c = cid) (so_listOpenConflicts st None s) of
        None \<Rightarrow> Inl (''Conflict '' @ cid @ '' not found or not open.'')
      | Some c \<Rightarrow>
          (let n = (case nt of Some x \<Rightarrow> x | None \<Rightarrow> ''Conflict dismissed without applying changes.'');
               s1 = so_updateConflictStatus st cid Dismissed by (ev_now env) (Some n) None s;
               s2 = so_appendConflictAudit st (ev_audit1 env) (ev_now env)
                 \<lparr>au_conflictId = cid, au_kind = cr_kind c, au_entity = cr_entity c, au_peer = cr_peer c,
                  au_strategy = cr_strategy c, au_action = Dismissed, au_resolvedBy = Some by,
                  au_note = Some n, au_before = Some (cr_localPayload c), au_after = None\<rparr> s1
           in Inr (s2, c\<lparr>cr_status := Dismissed, cr_resolvedBy := Some by,
                         cr_resolvedAt := Some (ev_now env)\<rparr>)))"

section \<open>Stale conflicts\<close>

text \<open>The conflicts for which the alert callback runs, in order; the code returns their number.\<close>

definition notifyStaleConflicts :: "'s conflict_store \<Rightarrow> int \<Rightarrow> int option \<Rightarrow> 's \<Rightarrow> conflict_row list" where
  "notifyStaleConflicts st nowMs defaultH s =
     (let dflt = (case defaultH of None \<Rightarrow> default_alert_after_h | Some h \<Rightarrow> h);
          stale = so_listStaleConflicts st (nowMs - dflt * 60 * 60 * 1000) s
      in filter (\<lambda>c. let h = (case so_getConflictStrategy st (cr_kind c) s of
                                Some row \<Rightarrow> sr_alertAfterH row | None \<Rightarrow> dflt)
                     in h \<noteq> 0 \<and> nowMs - cr_detectedAt c \<ge> h * 60 * 60 * 1000) stale)"

section \<open>What a check does to the store\<close>

text \<open>The condition of the header: modified since the last sync, and the remote version differs.\<close>

definition conflicting :: "'s conflict_store \<Rightarrow> string \<Rightarrow> string \<Rightarrow> string \<Rightarrow> config_op \<Rightarrow> 's \<Rightarrow> bool" where
  "conflicting st kind ent rv oper s =
     (oper \<noteq> DeleteOp \<and>
      (case so_getLocalEntityVersion st kind ent s of
         None \<Rightarrow> False
       | Some lv \<Rightarrow> so_getLastSyncedVersion st kind ent s \<noteq> Some lv \<and> rv \<noteq> lv))"

lemma check_clean:
  "\<not> conflicting st kind ent rv oper s \<Longrightarrow>
    cc_check st ov env peer kind ent rv rp oper s = (so_setLastSyncedVersion st kind ent rv s, NotConflicted)"
  by (auto simp: conflicting_def cc_check_def Let_def split: option.splits)

fun applies :: "check_result \<Rightarrow> bool" where
  "applies NotConflicted = True"
| "applies (Conflicted _ a _) = a"

fun result_row :: "check_result \<Rightarrow> conflict_row option" where
  "result_row NotConflicted = None"
| "result_row (Conflicted r _ _) = Some r"

text \<open>
  \<open>settled\<close> describes the effect of a strategy handler on a store whose last row is the new
  conflict \<open>c\<close>: the row's status, the audit entry, and the synced version.
\<close>

definition settled :: "('s \<Rightarrow> conflict_row list) \<Rightarrow> ('s \<Rightarrow> audit_insert list) \<Rightarrow> 's conflict_store \<Rightarrow>
    conflict_row \<Rightarrow> 's \<Rightarrow> 's \<times> check_result \<Rightarrow> bool" where
  "settled rows trail st c s r =
     (\<exists>c' c'' a mp.
        rows (fst r) = butlast (rows s) @ [c'] \<and> cr_id c' = cr_id c \<and> cr_status c' = AutoResolved \<and>
        trail (fst r) = trail s @ [a] \<and> au_conflictId a = cr_id c \<and> au_action a = AutoResolved \<and>
        snd r = Conflicted c'' (applies (snd r)) mp \<and> cr_id c'' = cr_id c \<and> cr_status c'' = AutoResolved \<and>
        so_getLastSyncedVersion st (cr_kind c) (cr_entity c) (fst r) =
          (if applies (snd r) then Some (cr_remoteVersion c)
           else so_getLastSyncedVersion st (cr_kind c) (cr_entity c) s))"

context conflict_store_laws
begin

lemmas store_ok = ok_insert ok_update ok_audit ok_setSynced
lemmas store_rows = rows_update rows_audit rows_setSynced
lemmas store_trail = trail_insert trail_update trail_audit trail_setSynced
lemmas store_synced = synced_insert synced_update synced_audit synced_set
  strategy_insert strategy_audit

lemma resolve_last:
  assumes "cr_id c \<notin> cr_id ` set R"
  shows "map (\<lambda>r. if cr_id r = cr_id c then row_resolved sta rby rat nt mp r else r) (R @ [c]) =
    R @ [row_resolved sta rby rat nt mp c]"
proof -
  have "\<forall>r \<in> set R. cr_id r \<noteq> cr_id c" using assms by (metis image_eqI)
  then show ?thesis by (auto intro!: map_idI)
qed

lemma rows_update_last:
  assumes "ok s" and "rows s = R @ [c]" and "cr_id c = i" and "i \<notin> cr_id ` set R"
  shows "rows (so_updateConflictStatus st i sta rby rat nt mp s) = R @ [row_resolved sta rby rat nt mp c]"
  using assms resolve_last [of c R] by (simp add: rows_update)

lemma handleLww_settles:
  assumes "ok s" and "rows s = R @ [c]" and "cr_id c \<notin> cr_id ` set R" and "cr_remoteVersion c = rv"
  shows "settled rows trail st c s (handleLww st env c rv lv rp strat s)"
  using assms
  by (simp add: settled_def handleLww_def Let_def rows_audit rows_setSynced rows_update_last
      store_ok store_trail store_synced)
    (simp add: row_resolved_def)

lemma handleAutoMerge_settles:
  assumes "ok s" and "rows s = R @ [c]" and "cr_id c \<notin> cr_id ` set R"
  shows "settled rows trail st c s (handleAutoMerge st env c kind rp lp s)"
  using assms
  by (simp add: settled_def handleAutoMerge_def Let_def rows_audit rows_setSynced rows_update_last
      store_ok store_trail store_synced)
    (simp add: row_resolved_def)

lemma handlers_apply:
  "applies (snd (handleAutoMerge st env c kind rp lp s))"
  "applies (snd (handleLww st env c rv lv rp strat s)) \<longleftrightarrow> lv \<le> rv"
  by (simp_all add: handleAutoMerge_def handleLww_def Let_def)

text \<open>The store between detection and the handlers, and the row it has just gained.\<close>

definition noted :: "'s \<Rightarrow> cc_env \<Rightarrow> conflict_insert \<Rightarrow> 's \<Rightarrow> bool" where
  "noted s env i s2 =
     (\<exists>d. ok s2 \<and> rows s2 = rows s @ [row_of_insert (ev_conflictId env) (ev_now env) i] \<and>
        trail s2 = trail s @ [d] \<and> au_conflictId d = ev_conflictId env \<and> au_action d = Detected \<and>
        (\<forall>k e. so_getLastSyncedVersion st k e s2 = so_getLastSyncedVersion st k e s))"

lemma noted_intro:
  assumes "ok s" and "ev_conflictId env \<notin> cr_id ` set (rows s)"
    and "au_conflictId d = ev_conflictId env" and "au_action d = Detected"
  shows "noted s env i (so_appendConflictAudit st aid now d (fst (so_insertConflict st (ev_conflictId env) (ev_now env) i s)))"
  using assms by (simp add: noted_def store_ok rows_audit rows_insert store_trail store_synced)

text \<open>What the caller sees of a detected conflict.\<close>

definition conflict_outcome :: "cc_strategy \<Rightarrow> cc_env \<Rightarrow> string \<Rightarrow> string \<Rightarrow> string \<Rightarrow> string \<Rightarrow> 's \<Rightarrow>
    's \<times> check_result \<Rightarrow> bool" where
  "conflict_outcome strat env kind ent lv rv s r =
     (\<exists>row acts.
        rows (fst r) = rows s @ [row] \<and> cr_id row = ev_conflictId env \<and>
        cr_status row = (if strat = HumanStrategy then PendingHuman else AutoResolved) \<and>
        trail (fst r) = trail s @ acts \<and> list_all (\<lambda>a. au_conflictId a = ev_conflictId env) acts \<and>
        map au_action acts = (if strat = HumanStrategy then [Detected] else [Detected, AutoResolved]) \<and>
        map_option cr_id (result_row (snd r)) = Some (ev_conflictId env) \<and>
        map_option cr_status (result_row (snd r)) = Some (cr_status row) \<and>
        applies (snd r) = (strat = AutoMergeStrategy \<or> strat \<noteq> HumanStrategy \<and> lv \<le> rv) \<and>
        so_getLastSyncedVersion st kind ent (fst r) =
          (if applies (snd r) then Some rv else so_getLastSyncedVersion st kind ent s))"

lemma settled_outcome:
  assumes n: "noted s env i s2" and kind: "ci_kind i = kind" "ci_entity i = ent" "ci_remoteVersion i = rv"
    and c: "c = row_of_insert (ev_conflictId env) (ev_now env) i"
    and r: "settled rows trail st c s2 r" and strat: "strat \<noteq> HumanStrategy"
    and a: "applies (snd r) = (strat = AutoMergeStrategy \<or> lv \<le> rv)"
  shows "conflict_outcome strat env kind ent lv rv s r"
proof -
  have fields: "cr_kind c = kind" "cr_entity c = ent" "cr_remoteVersion c = rv" "cr_id c = ev_conflictId env"
    using c kind by (simp_all add: row_of_insert_def)
  obtain d where d: "rows s2 = rows s @ [c]" "trail s2 = trail s @ [d]" "au_conflictId d = ev_conflictId env"
      "au_action d = Detected"
      "so_getLastSyncedVersion st kind ent s2 = so_getLastSyncedVersion st kind ent s"
    using n c by (auto simp: noted_def)
  obtain c' c'' aa mp where h: "rows (fst r) = butlast (rows s2) @ [c']" "cr_id c' = cr_id c"
      "cr_status c' = AutoResolved" "trail (fst r) = trail s2 @ [aa]" "au_conflictId aa = cr_id c"
      "au_action aa = AutoResolved" "snd r = Conflicted c'' (applies (snd r)) mp"
      "cr_id c'' = cr_id c" "cr_status c'' = AutoResolved"
      "so_getLastSyncedVersion st (cr_kind c) (cr_entity c) (fst r) =
        (if applies (snd r) then Some (cr_remoteVersion c)
         else so_getLastSyncedVersion st (cr_kind c) (cr_entity c) s2)"
    using r unfolding settled_def by blast
  have "result_row (snd r) = Some c''" using h(7) by (metis result_row.simps(2))
  with d h fields strat a show ?thesis
    unfolding conflict_outcome_def
    by (intro exI [of _ c'] exI [of _ "[d, aa]"]) simp
qed

lemma check_conflict:
  assumes ok: "ok s" and fresh: "ev_conflictId env \<notin> cr_id ` set (rows s)"
    and conf: "conflicting st kind ent rv oper s" and lv: "so_getLocalEntityVersion st kind ent s = Some lv"
  shows "conflict_outcome (resolveStrategy st ov kind s) env kind ent lv rv s
    (cc_check st ov env peer kind ent rv rp oper s)"
proof -
  define strat where "strat = resolveStrategy st ov kind s"
  define lp where "lp = (case so_getLocalEntityPayload st kind ent s of None \<Rightarrow> [] | Some p \<Rightarrow> p)"
  define i where "i = \<lparr>ci_kind = kind, ci_entity = ent, ci_peer = peer, ci_remoteVersion = rv,
    ci_localVersion = lv, ci_remotePayload = Some rp, ci_localPayload = Some lp, ci_strategy = strat,
    ci_status = Some (if strat = HumanStrategy then PendingHuman else Detected),
    ci_isContested = Some False, ci_merged = None\<rparr>"
  define c where "c = row_of_insert (ev_conflictId env) (ev_now env) i"
  define d where "d = \<lparr>au_conflictId = cr_id c, au_kind = kind, au_entity = ent, au_peer = peer,
    au_strategy = strat, au_action = Detected, au_resolvedBy = None, au_note = None,
    au_before = Some lp, au_after = Some rp\<rparr>"
  define s2 where "s2 = so_appendConflictAudit st (ev_audit1 env) (ev_now env) d
    (fst (so_insertConflict st (ev_conflictId env) (ev_now env) i s))"
  have n: "noted s env i s2"
    unfolding s2_def using ok fresh by (intro noted_intro) (simp_all add: d_def c_def)
  then have s2: "ok s2" "rows s2 = rows s @ [c]" by (auto simp: noted_def c_def)
  have idc: "cr_id c \<notin> cr_id ` set (rows s)" and rvc: "cr_remoteVersion c = rv"
    using fresh by (simp_all add: c_def) (simp add: row_of_insert_def i_def)
  have cond: "so_getLastSyncedVersion st kind ent s = None \<or> lv \<noteq> the (so_getLastSyncedVersion st kind ent s)"
      "rv \<noteq> lv" "oper \<noteq> DeleteOp"
    using conf lv by (auto simp: conflicting_def)
  have eq: "cc_check st ov env peer kind ent rv rp oper s =
    (case strat of
       LwwStrategy \<Rightarrow> handleLww st env c rv lv rp strat s2
     | ApprovalStrategy \<Rightarrow> handleLww st env c rv lv rp strat s2
     | HumanStrategy \<Rightarrow> (s2, handleHuman c)
     | AutoMergeStrategy \<Rightarrow> handleAutoMerge st env c kind rp lp s2
     | OtherStrategy _ \<Rightarrow> handleLww st env c rv lv rp LwwStrategy s2)"
    using cond lv
    by (elim disjE; cases strat)
      (simp_all add: cc_check_def strat_def [symmetric] lp_def [symmetric] Let_def case_prod_beta
        insert_row s2_def d_def c_def i_def)
  have human: "conflict_outcome strat env kind ent lv rv s (s2, handleHuman c)" if "strat = HumanStrategy"
  proof -
    have "cr_status c = PendingHuman" using that by (simp add: c_def row_of_insert_def i_def)
    with n that show ?thesis
      unfolding conflict_outcome_def noted_def c_def [symmetric]
      by (elim exE conjE, intro exI [of _ c] exI [of _ "[_]"]) (auto simp: handleHuman_def c_def)
  qed
  have lww: "conflict_outcome strat env kind ent lv rv s (handleLww st env c rv lv rp strat' s2)"
    if "strat \<noteq> HumanStrategy" "strat \<noteq> AutoMergeStrategy" for strat'
    using that handleLww_settles [OF s2 idc rvc] n
    by (intro settled_outcome [of s env i s2 _ _ _ c]) (simp_all add: i_def c_def handlers_apply)
  have auto: "conflict_outcome strat env kind ent lv rv s (handleAutoMerge st env c kind rp lp s2)"
    if "strat = AutoMergeStrategy"
    using that handleAutoMerge_settles [OF s2 idc] n
    by (intro settled_outcome [of s env i s2 _ _ _ c]) (simp_all add: i_def c_def handlers_apply)
  show ?thesis
    unfolding strat_def [symmetric] eq
    using human lww auto by (cases strat) auto
qed

end

section \<open>The check on the in-memory store\<close>

text \<open>
  a conflicting event adds exactly one conflict row, which stays open iff the strategy is
  \<open>human\<close>; the audit trail gains the detection and, for the automatic strategies, the resolution,
  both under the new row's id; the event is to be applied iff the strategy merges, or is not
  \<open>human\<close> and the remote version is not older; and the last synced version becomes the remote one
  exactly when the event is applied.
\<close>

theorem config_check_outcome:
  assumes "mc_ok s" and "ev_conflictId env \<notin> set (jkeys (mc_conflicts s))"
    and "conflicting memory_store kind ent rv oper s"
    and "mc_getLocalEntityVersion kind ent s = Some lv"
    and "r = cc_check memory_store ov env peer kind ent rv rp oper s"
    and "strat = resolveStrategy memory_store ov kind s"
  shows "\<exists>row acts.
    mc_getAllConflicts (fst r) = mc_getAllConflicts s @ [row] \<and> cr_id row = ev_conflictId env \<and>
    cr_status row = (if strat = HumanStrategy then PendingHuman else AutoResolved) \<and>
    mc_trail (fst r) = mc_trail s @ acts \<and> list_all (\<lambda>a. au_conflictId a = ev_conflictId env) acts \<and>
    map au_action acts = (if strat = HumanStrategy then [Detected] else [Detected, AutoResolved]) \<and>
    map_option cr_id (result_row (snd r)) = Some (ev_conflictId env) \<and>
    map_option cr_status (result_row (snd r)) = Some (cr_status row) \<and>
    applies (snd r) = (strat = AutoMergeStrategy \<or> strat \<noteq> HumanStrategy \<and> lv \<le> rv) \<and>
    mc_getLastSyncedVersion kind ent (fst r) =
      (if applies (snd r) then Some rv else mc_getLastSyncedVersion kind ent s)"
proof -
  have "mcstore.conflict_outcome strat env kind ent lv rv s r"
    unfolding assms(5,6) using assms(1-4) mc_fresh [of s "ev_conflictId env"]
    by (intro mcstore.check_conflict) simp_all
  then show ?thesis unfolding mcstore.conflict_outcome_def memory_store_ops .
qed

definition prompt_env :: cc_env where
  "prompt_env = \<lparr>ev_conflictId = ''c1'', ev_audit1 = ''a1'', ev_audit2 = ''a2'', ev_now = 5\<rparr>"

definition prompt_store :: memory_conflict_store where
  "prompt_store = mc_seedLocalEntity ''prompt'' ''p'' ''2024-02'' [(''text'', JStr ''mine'')]
     (mc_setLastSyncedVersion ''prompt'' ''p'' ''2024-01'' new_memory_conflict_store)"

lemma prompt_store_facts:
  "mc_ok prompt_store" "ev_conflictId prompt_env \<notin> set (jkeys (mc_conflicts prompt_store))"
  "conflicting memory_store ''prompt'' ''p'' ''2024-03'' UpdateOp prompt_store"
  "mc_getLocalEntityVersion ''prompt'' ''p'' prompt_store = Some ''2024-02''"
  "resolveStrategy memory_store [] ''prompt'' prompt_store = LwwStrategy"
  by (simp_all add: prompt_store_def prompt_env_def mc_ok_def mc_seedLocalEntity_def new_memory_conflict_store_def
      mc_defs conflicting_def entity_key_def resolveStrategy_def default_strategies_def)

lemma config_check_outcome_witness:
  "\<exists>row. mc_getAllConflicts (fst (cc_check memory_store [] prompt_env ''peer'' ''prompt'' ''p'' ''2024-03''
       [(''text'', JStr ''theirs'')] UpdateOp prompt_store)) = mc_getAllConflicts prompt_store @ [row] \<and>
     cr_status row = AutoResolved \<and>
     mc_getLastSyncedVersion ''prompt'' ''p'' (fst (cc_check memory_store [] prompt_env ''peer'' ''prompt'' ''p''
       ''2024-03'' [(''text'', JStr ''theirs'')] UpdateOp prompt_store)) = Some ''2024-03''"
  using config_check_outcome [OF prompt_store_facts(1-4) refl refl, of "[]" "''peer''" "[(''text'', JStr ''theirs'')]"]
  by (auto simp: prompt_store_facts(5))

section \<open>Human resolution\<close>

lemma find_filter_keyed:
  assumes "jwf m" and "list_all (\<lambda>(k, r). cr_id r = k) m"
  shows "find (\<lambda>c. cr_id c = cid) (filter is_open (jvals m)) =
    (case jget m cid of None \<Rightarrow> None | Some c \<Rightarrow> if is_open c then Some c else None)"
  using assms
proof (induction m)
  case (Cons p m)
  obtain k r where p: "p = (k, r)" by force
  have "jget m cid = None" if "k = cid" using Cons.prems p that by (simp add: jget_None_iff)
  with Cons p show ?case by (auto split: option.splits)
qed simp

lemma find_open:
  "mc_ok s \<Longrightarrow> find (\<lambda>c. cr_id c = cid) (so_listOpenConflicts memory_store None s) =
    (case jget (mc_conflicts s) cid of None \<Rightarrow> None | Some c \<Rightarrow> if is_open c then Some c else None)"
  by (simp add: mcstore.listOpen mc_getAllConflicts_def mc_ok_def find_filter_keyed del: memory_store_ops)

text \<open>
  a human resolves an open \<open>human\<close> conflict exactly once: the row is closed with the
  resolver's name, no other row changes, the synced version becomes the remote one iff the
  remote side was chosen, and resolving or dismissing it again is the "not found or not open" error.
\<close>

theorem human_resolution_once:
  assumes "mc_ok s" and "jget (mc_conflicts s) cid = Some c" and "is_open c" and "cr_strategy c = HumanStrategy"
  shows "\<exists>s' c'. resolveHumanConflict memory_store env cid by takeRemote nt s = Inr (s', c', takeRemote) \<and>
    jget (mc_conflicts s') cid = Some (c' \<lparr>cr_merged := cr_merged c\<rparr>) \<and>
    cr_status c' = HumanResolved \<and> cr_resolvedBy c' = Some by \<and>
    (\<forall>k. k \<noteq> cid \<longrightarrow> jget (mc_conflicts s') k = jget (mc_conflicts s) k) \<and>
    mc_getLastSyncedVersion (cr_kind c) (cr_entity c) s' =
      (if takeRemote then Some (cr_remoteVersion c) else mc_getLastSyncedVersion (cr_kind c) (cr_entity c) s) \<and>
    resolveHumanConflict memory_store env' cid by' takeRemote' nt' s' =
      Inl (''Conflict '' @ cid @ '' not found or not open.'') \<and>
    dismissConflict memory_store env' cid by' nt' s' =
      Inl (''Conflict '' @ cid @ '' not found or not open.'')"
proof -
  define n where "n = (case nt of Some x \<Rightarrow> x
    | None \<Rightarrow> (if takeRemote then ''Human approved remote version.'' else ''Human kept local version.''))"
  define s1 where "s1 = mc_updateConflictStatus cid HumanResolved by (ev_now env) (Some n) None s"
  define a where "a = \<lparr>au_conflictId = cid, au_kind = cr_kind c, au_entity = cr_entity c, au_peer = cr_peer c,
    au_strategy = cr_strategy c, au_action = HumanResolved, au_resolvedBy = Some by, au_note = Some n,
    au_before = Some (cr_localPayload c),
    au_after = Some (if takeRemote then cr_remotePayload c else cr_localPayload c)\<rparr>"
  define s2 where "s2 = mc_appendConflictAudit (ev_audit1 env) (ev_now env) a s1"
  define s3 where "s3 = (if takeRemote then mc_setLastSyncedVersion (cr_kind c) (cr_entity c) (cr_remoteVersion c) s2 else s2)"
  define c' where "c' = c\<lparr>cr_status := HumanResolved, cr_resolvedBy := Some by,
    cr_resolvedAt := Some (ev_now env), cr_note := Some n\<rparr>"
  have res: "resolveHumanConflict memory_store env cid by takeRemote nt s = Inr (s3, c', takeRemote)"
    using assms
    unfolding resolveHumanConflict_def find_open [OF assms(1)]
    by (simp add: Let_def s3_def s2_def s1_def a_def c'_def n_def)
  have rows: "mc_conflicts s3 = jset cid c' (mc_conflicts s)"
    using assms(2) by (simp add: s3_def s2_def s1_def mc_defs row_resolved_def c'_def)
  have ok: "mc_ok s3"
    using assms(1,2) by (auto simp: mc_ok_def rows c'_def intro!: list_all_jset dest: list_all_jget)
  have closed: "\<not> is_open c'" by (simp add: is_open_def status_open_def c'_def)
  have "mc_getLastSyncedVersion (cr_kind c) (cr_entity c) s3 =
      (if takeRemote then Some (cr_remoteVersion c) else mc_getLastSyncedVersion (cr_kind c) (cr_entity c) s)"
    using assms(2) by (simp add: s3_def s2_def s1_def mc_defs)
  moreover have "resolveHumanConflict memory_store env' cid by' takeRemote' nt' s3 =
      Inl (''Conflict '' @ cid @ '' not found or not open.'')"
    "dismissConflict memory_store env' cid by' nt' s3 = Inl (''Conflict '' @ cid @ '' not found or not open.'')"
    unfolding resolveHumanConflict_def dismissConflict_def find_open [OF ok]
    by (simp_all add: rows closed)
  ultimately show ?thesis using res rows by (intro exI [of _ s3] exI [of _ c']) (simp add: c'_def)
qed

definition held_row :: conflict_row where
  "held_row = row_of_insert ''c9'' 1 \<lparr>ci_kind = ''connection'', ci_entity = ''db'', ci_peer = ''peer'',
     ci_remoteVersion = ''2024-03'', ci_localVersion = ''2024-02'', ci_remotePayload = None,
     ci_localPayload = None, ci_strategy = HumanStrategy, ci_status = Some PendingHuman,
     ci_isContested = None, ci_merged = None\<rparr>"

definition held_store :: memory_conflict_store where
  "held_store = new_memory_conflict_store\<lparr>mc_conflicts := [(''c9'', held_row)]\<rparr>"

lemma human_resolution_once_witness:
  "\<exists>s' c'. resolveHumanConflict memory_store prompt_env ''c9'' ''human:ann'' True None held_store = Inr (s', c', True) \<and>
     mc_getLastSyncedVersion ''connection'' ''db'' s' = Some ''2024-03''"
proof -
  have "mc_ok held_store" "jget (mc_conflicts held_store) ''c9'' = Some held_row" "is_open held_row"
      "cr_strategy held_row = HumanStrategy"
    by (simp_all add: held_store_def held_row_def mc_ok_def row_of_insert_def is_open_def status_open_def
        new_memory_conflict_store_def)
  from human_resolution_once [OF this, of prompt_env "''human:ann''" True None prompt_env "''x''" True None]
  show ?thesis by (auto simp: held_row_def row_of_insert_def)
qed

section \<open>Stale conflicts\<close>

text \<open>
  the notifier alerts exactly for the open conflicts whose kind has notifications on and that
  are older than both the kind's threshold and the default one. The comment in the code says the first query over-fetches;
  for a kind whose own threshold is below the default it under-fetches, and those alerts are late.
\<close>

theorem stale_alerts_exact:
  "set (notifyStaleConflicts memory_store nowMs defaultH s) =
    {c \<in> set (mc_getAllConflicts s). is_open c \<and>
      (let dflt = (case defaultH of None \<Rightarrow> 24 | Some h \<Rightarrow> h);
           h = (case jget (mc_strategies s) (cr_kind c) of None \<Rightarrow> dflt | Some row \<Rightarrow> sr_alertAfterH row)
       in h \<noteq> 0 \<and> nowMs - cr_detectedAt c \<ge> max h dflt * 3600000)}"
  by (auto simp: notifyStaleConflicts_def mc_defs default_alert_after_h_def
      max_def split: option.splits)

section \<open>Skill states\<close>

text \<open>Versions compared component by component, missing components being 0.\<close>

definition version_less :: "int list \<Rightarrow> int list \<Rightarrow> bool" where
  "version_less xs ys = (\<exists>i. nth_or_0 xs i < nth_or_0 ys i \<and> (\<forall>j<i. nth_or_0 xs j = nth_or_0 ys j))"

lemma semver_loop_not_less:
  assumes "\<forall>j<i. nth_or_0 pa j = nth_or_0 pb j" and "length pa \<le> i + n" and "length pb \<le> i + n"
    and "semver_parse a = pa" and "semver_parse b = pb" and "v = semver_loop pa pb i n a b"
  shows "(v = a \<or> v = b) \<and> \<not> version_less (semver_parse v) pa \<and> \<not> version_less (semver_parse v) pb"
  using assms
proof (induction pa pb i n a b arbitrary: v rule: semver_loop.induct)
  case (1 pa pb i a b)
  then have "nth_or_0 pa j = nth_or_0 pb j" for j
    by (cases "j < i") (auto simp: nth_or_0_def)
  with 1 show ?case by (auto simp: version_less_def)
next
  case (2 pa pb i n a b)
  have irr: "\<not> version_less xs xs" for xs by (simp add: version_less_def)
  have asym: "\<not> version_less xs ys"
    if "nth_or_0 ys i < nth_or_0 xs i" "\<forall>j<i. nth_or_0 xs j = nth_or_0 ys j" for xs ys
    using that unfolding version_less_def by (metis linorder_neqE_nat order_less_asym order_less_irrefl)
  show ?case
  proof (cases "nth_or_0 pa i = nth_or_0 pb i")
    case True
    with 2 show ?thesis by (simp add: less_Suc_eq)
  next
    case False
    then consider "nth_or_0 pa i > nth_or_0 pb i" | "nth_or_0 pb i > nth_or_0 pa i" by linarith
    then show ?thesis
      by cases (use 2 irr asym [of pb pa] asym [of pa pb] in \<open>simp_all\<close>)
  qed
qed

lemma semverMax_not_less:
  "(semverMax a b = a \<or> semverMax a b = b) \<and> \<not> version_less (semver_parse (semverMax a b)) (semver_parse a) \<and>
   \<not> version_less (semver_parse (semverMax a b)) (semver_parse b)"
  unfolding semverMax_def Let_def
  by (rule semver_loop_not_less [where i = 0]) auto

lemma merge_installed_spec:
  "jwf (foldl (\<lambda>m item. jset (item_key item) item m) [] xs) \<and>
   list_all (\<lambda>(k, i). item_key i = k) (foldl (\<lambda>m item. jset (item_key item) item m) [] xs) \<and>
   fst ` set (foldl (\<lambda>m item. jset (item_key item) item m) [] xs) = item_key ` set xs"
  by (induction xs rule: rev_induct) (auto intro: list_all_jset)

lemma merge_installed_get:
  "jget (foldl (\<lambda>m item. jset (item_key item) item m) [] xs) k = find (\<lambda>i. item_key i = k) (rev xs)"
  by (induction xs rule: rev_induct) auto

lemma find_rev_append:
  "find P (rev (xs @ ys)) = (case find P (rev ys) of None \<Rightarrow> find P (rev xs) | Some y \<Rightarrow> Some y)"
proof (induction ys rule: rev_induct)
  case (snoc y ys) then show ?case by simp
qed simp

text \<open>
  the merge of two skill states keeps the union of the installed skills, one entry per id, the
  remote entry where both sides have the id; its version is one of the two and older than neither;
  every other field is the remote one where the remote side has it.
\<close>

theorem skill_merge_union:
  assumes "jwf remote" and "R = normaliseInstalled (jget remote ''installed'')"
    and "L = normaliseInstalled (jget loc ''installed'')"
  shows "\<exists>items v. jget (mergeSkillState remote loc) ''installed'' = Some (JArr items) \<and>
      distinct (map item_key items) \<and> item_key ` set items = item_key ` set L \<union> item_key ` set R \<and>
      (\<forall>i \<in> set items. i \<in> set R \<or> i \<in> set L \<and> item_key i \<notin> item_key ` set R) \<and>
      jget (mergeSkillState remote loc) ''version'' = Some (JStr v) \<and>
      (v = version_or_zero remote \<or> v = version_or_zero loc) \<and>
      \<not> version_less (semver_parse v) (semver_parse (version_or_zero remote)) \<and>
      \<not> version_less (semver_parse v) (semver_parse (version_or_zero loc)) \<and>
      (\<forall>f. f \<noteq> ''installed'' \<and> f \<noteq> ''version'' \<longrightarrow>
        jget (mergeSkillState remote loc) f = (case jget remote f of None \<Rightarrow> jget loc f | Some x \<Rightarrow> Some x))"
proof -
  define m where "m = merge_installed L R"
  define v where "v = semverMax (version_or_zero remote) (version_or_zero loc)"
  have m: "jwf m" "list_all (\<lambda>(k, i). item_key i = k) m" "fst ` set m = item_key ` set (L @ R)"
    using merge_installed_spec [of "L @ R"] by (simp_all add: m_def merge_installed_def)
  have keys: "map item_key (jvals m) = jkeys m"
    using m(2) by (induction m) auto
  have src: "i \<in> set R \<or> i \<in> set L \<and> item_key i \<notin> item_key ` set R" if "i \<in> set (jvals m)" for i
  proof -
    from that obtain k where ki: "(k, i) \<in> set m" by auto
    have "jget m k = Some i" using jwf_in_get [OF m(1)] ki by blast
    moreover have "item_key i = k" using m(2) ki by (auto simp: list_all_iff)
    ultimately
    have "find (\<lambda>j. item_key j = item_key i) (rev (L @ R)) = Some i"
      using merge_installed_get [of "L @ R" k] by (simp add: m_def merge_installed_def)
    then show ?thesis
      unfolding find_rev_append
      by (fastforce split: option.splits simp: find_None_iff dest: find_SomeD)
  qed
  have merge: "mergeSkillState remote loc =
      jset ''version'' (JStr v) (jset ''installed'' (JArr (jvals m)) (jspread loc remote))"
    by (simp add: mergeSkillState_def Let_def assms m_def v_def)
  have inst: "jget (mergeSkillState remote loc) ''installed'' = Some (JArr (jvals m))"
    and ver: "jget (mergeSkillState remote loc) ''version'' = Some (JStr v)"
    by (simp_all add: merge)
  have rest: "jget (mergeSkillState remote loc) f = (case jget remote f of None \<Rightarrow> jget loc f | Some x \<Rightarrow> Some x)"
    if "f \<noteq> ''installed''" "f \<noteq> ''version''" for f
    using that assms(1) by (simp add: merge jget_jspread)
  have "distinct (map item_key (jvals m))" using m(1) unfolding keys .
  moreover have "item_key ` set (jvals m) = item_key ` set L \<union> item_key ` set R"
    using m(3) arg_cong [OF keys, of set] by (simp only: list.set_map image_Un set_append)
  ultimately show ?thesis
    using semverMax_not_less [of "version_or_zero remote" "version_or_zero loc", folded v_def]
    by (intro exI [of _ "jvals m"] exI [of _ v] conjI)
      (simp_all only: inst ver not_False_eq_True, use src in blast, use rest in blast)
qed

text \<open>A local skill the remote side lacks, and one both have.\<close>

lemma skill_merge_union_witness:
  "\<exists>items. jget (mergeSkillState [(''installed'', JArr [JObj [(''id'', JStr ''a''), (''n'', JNum 2)]])]
       [(''installed'', JArr [JObj [(''id'', JStr ''a''), (''n'', JNum 1)], JObj [(''id'', JStr ''b'')]])]) ''installed'' =
       Some (JArr items) \<and> item_key ` set items = {''a'', ''b''}"
  using skill_merge_union [OF _ refl refl, of "[(''installed'', JArr [JObj [(''id'', JStr ''a''), (''n'', JNum 2)]])]"
      "[(''installed'', JArr [JObj [(''id'', JStr ''a''), (''n'', JNum 1)], JObj [(''id'', JStr ''b'')]])]"]
  by (auto simp: item_key_def Let_def nullish_def)

end
