(* ===== verification/Peer_Queue_Store.thy ===== *)
theory Peer_Queue_Store
  imports Json "HOL-Library.Multiset"
begin

text \<open>
  The store behind the per-peer offline queue (\<open>IPeerQueueStore\<close> of
  \<open>server/federation/peer-queue.ts\<close>): the interface as a record of operations, the laws the
  queue service relies on as a locale, and the in-memory store with its secondary entity index.
  Dates are integers (milliseconds) and are arguments.
\<close>

section \<open>Rows and the interface\<close>

datatype pending_status = Pending | Sending | Sent | Expired

record pending_row =
  pe_peer :: string
  pe_event :: string
  pe_enqueuedAt :: int
  pe_lastRetryAt :: "int option"
  pe_retryCount :: int
  pe_status :: pending_status
  pe_kind :: string
  pe_entity :: string
  pe_operation :: string
  pe_payload :: payload
  pe_createdAt :: int

definition fresh_row :: "int \<Rightarrow> string \<Rightarrow> string \<Rightarrow> string \<Rightarrow> string \<Rightarrow> pending_row" where
  "fresh_row now p e k i =
     \<lparr>pe_peer = p, pe_event = e, pe_enqueuedAt = now, pe_lastRetryAt = None, pe_retryCount = 0,
      pe_status = Pending, pe_kind = k, pe_entity = i, pe_operation = ''update'', pe_payload = [],
      pe_createdAt = now\<rparr>"

definition retried :: "int \<Rightarrow> pending_row \<Rightarrow> pending_row" where
  "retried now r = r\<lparr>pe_retryCount := pe_retryCount r + 1, pe_lastRetryAt := Some now\<rparr>"

record 's queue_store =
  qo_coalesceAndEnqueue :: "int \<Rightarrow> string \<Rightarrow> string \<Rightarrow> string \<Rightarrow> string \<Rightarrow> 's \<Rightarrow> 's \<times> bool"
  qo_getPendingEvents :: "string \<Rightarrow> nat \<Rightarrow> 's \<Rightarrow> pending_row list"
  qo_markSent :: "string \<Rightarrow> string list \<Rightarrow> 's \<Rightarrow> 's"
  qo_recordRetryFailure :: "int \<Rightarrow> string \<Rightarrow> string list \<Rightarrow> 's \<Rightarrow> 's"
  qo_deleteExpiredRows :: "int \<Rightarrow> 's \<Rightarrow> 's \<times> string list"
  qo_countPending :: "string \<Rightarrow> 's \<Rightarrow> nat"
  qo_oldestPendingEnqueuedAt :: "string \<Rightarrow> 's \<Rightarrow> int option"

definition same_entity :: "string \<Rightarrow> string \<Rightarrow> pending_row \<Rightarrow> bool" where
  "same_entity k i r = (pe_kind r = k \<and> pe_entity r = i)"

text \<open>An event belongs to one entity: a queued row with this event id is a row of this entity.\<close>

definition event_fits :: "pending_row set \<Rightarrow> string \<Rightarrow> string \<Rightarrow> string \<Rightarrow> bool" where
  "event_fits R e k i = (\<forall>r \<in> R. pe_event r = e \<longrightarrow> same_entity k i r)"

text \<open>
  \<open>pend s p\<close> is the set of pending rows of peer \<open>p\<close>. \<open>named\<close> restricts the identifiers the store
  accepts as peers and kinds. \<open>markable s p e\<close> says that no row of event \<open>e\<close> has left the pending
  status without being removed: an event fetched by a flush stays markable while events are
  enqueued, whether or not it is coalesced away meanwhile.
\<close>

locale queue_store_laws =
  fixes st :: "'s queue_store" and ok :: "'s \<Rightarrow> bool" and pend :: "'s \<Rightarrow> string \<Rightarrow> pending_row set"
    and named :: "string \<Rightarrow> bool" and markable :: "'s \<Rightarrow> string \<Rightarrow> string \<Rightarrow> bool"
  assumes finite_pend: "ok s \<Longrightarrow> finite (pend s p)"
    and pend_fields: "ok s \<Longrightarrow> r \<in> pend s p \<Longrightarrow> pe_peer r = p \<and> pe_status r = Pending"
    and one_per_event: "ok s \<Longrightarrow> r \<in> pend s p \<Longrightarrow> r' \<in> pend s p \<Longrightarrow> pe_event r = pe_event r' \<Longrightarrow> r = r'"
    and one_per_entity: "ok s \<Longrightarrow> r \<in> pend s p \<Longrightarrow> r' \<in> pend s p \<Longrightarrow>
      same_entity (pe_kind r') (pe_entity r') r \<Longrightarrow> r = r'"
    and ok_enqueue: "ok s \<Longrightarrow> named p \<Longrightarrow> named k \<Longrightarrow> event_fits (pend s p) e k i \<Longrightarrow>
      ok (fst (qo_coalesceAndEnqueue st now p e k i s))"
    and pend_enqueue: "ok s \<Longrightarrow> named p \<Longrightarrow> named k \<Longrightarrow> event_fits (pend s p) e k i \<Longrightarrow>
      pend (fst (qo_coalesceAndEnqueue st now p e k i s)) p' =
        (if p' = p then insert (fresh_row now p e k i) {r \<in> pend s p. \<not> same_entity k i r} else pend s p')"
    and enqueue_flag: "ok s \<Longrightarrow> named p \<Longrightarrow> named k \<Longrightarrow>
      snd (qo_coalesceAndEnqueue st now p e k i s) = (\<exists>r \<in> pend s p. same_entity k i r)"
    and getPending: "ok s \<Longrightarrow> rs = qo_getPendingEvents st p n s \<Longrightarrow>
      distinct rs \<and> set rs \<subseteq> pend s p \<and> length rs = min n (card (pend s p)) \<and>
      sorted (map pe_enqueuedAt rs) \<and>
      (\<forall>r \<in> set rs. \<forall>q \<in> pend s p - set rs. pe_enqueuedAt r \<le> pe_enqueuedAt q)"
    and ok_markSent: "ok s \<Longrightarrow> named p \<Longrightarrow> distinct es \<Longrightarrow> list_all (markable s p) es \<Longrightarrow> ok (qo_markSent st p es s)"
    and pend_markSent: "ok s \<Longrightarrow> named p \<Longrightarrow> distinct es \<Longrightarrow> list_all (markable s p) es \<Longrightarrow>
      pend (qo_markSent st p es s) p' =
        (if p' = p then {r \<in> pend s p. pe_event r \<notin> set es} else pend s p')"
    and markable_pend: "ok s \<Longrightarrow> r \<in> pend s p \<Longrightarrow> markable s p (pe_event r)"
    and markable_enqueue: "ok s \<Longrightarrow> markable s p' e' \<Longrightarrow> markable (fst (qo_coalesceAndEnqueue st now p e k i s)) p' e'"
    and ok_retry: "ok s \<Longrightarrow> named p \<Longrightarrow> ok (qo_recordRetryFailure st now p es s)"
    and pend_retry: "ok s \<Longrightarrow> named p \<Longrightarrow> distinct es \<Longrightarrow>
      pend (qo_recordRetryFailure st now p es s) p' =
        (if p' = p then (\<lambda>r. if pe_event r \<in> set es then retried now r else r) ` pend s p else pend s p')"
    and ok_expire: "ok s \<Longrightarrow> ok (fst (qo_deleteExpiredRows st c s))"
    and pend_expire: "ok s \<Longrightarrow> pend (fst (qo_deleteExpiredRows st c s)) p = {r \<in> pend s p. c \<le> pe_enqueuedAt r}"
    and expire_peers: "ok s \<Longrightarrow> set (snd (qo_deleteExpiredRows st c s)) = {p. \<exists>r \<in> pend s p. pe_enqueuedAt r < c}"
    and countPending: "ok s \<Longrightarrow> qo_countPending st p s = card (pend s p)"
    and oldest: "ok s \<Longrightarrow> qo_oldestPendingEnqueuedAt st p s =
      (if pend s p = {} then None else Some (Min (pe_enqueuedAt ` pend s p)))"

section \<open>The in-memory store\<close>

record memory_queue_store =
  mq_rows :: "(string, pending_row) jsmap"
  mq_entityIndex :: "(string, string) jsmap"

definition new_memory_queue_store :: memory_queue_store where
  "new_memory_queue_store = \<lparr>mq_rows = [], mq_entityIndex = []\<rparr>"

definition rowKey :: "string \<Rightarrow> string \<Rightarrow> string" where
  "rowKey p e = p @ ''::'' @ e"

definition entityIndexKey :: "string \<Rightarrow> string \<Rightarrow> string \<Rightarrow> string" where
  "entityIndexKey p k i = p @ ''::'' @ k @ ''::'' @ i"

definition mq_coalesceAndEnqueue :: "int \<Rightarrow> string \<Rightarrow> string \<Rightarrow> string \<Rightarrow> string \<Rightarrow> memory_queue_store \<Rightarrow>
    memory_queue_store \<times> bool" where
  "mq_coalesceAndEnqueue now p e k i s =
     (let key = entityIndexKey p k i;
          (rows, idx, coalesced) =
            (case jget (mq_entityIndex s) key of
               Some old \<Rightarrow> (jdel (rowKey p old) (mq_rows s), jdel key (mq_entityIndex s), True)
             | None \<Rightarrow> (mq_rows s, mq_entityIndex s, False))
      in (\<lparr>mq_rows = jset (rowKey p e) (fresh_row now p e k i) rows, mq_entityIndex = jset key e idx\<rparr>,
          coalesced))"

definition mq_setEventDetails :: "string \<Rightarrow> string \<Rightarrow> string \<Rightarrow> payload \<Rightarrow> memory_queue_store \<Rightarrow>
    memory_queue_store" where
  "mq_setEventDetails p e oper pay s =
     (case jget (mq_rows s) (rowKey p e) of
        None \<Rightarrow> s
      | Some row \<Rightarrow>
          s\<lparr>mq_rows := jset (rowKey p e) (row\<lparr>pe_operation := oper, pe_payload := pay\<rparr>) (mq_rows s)\<rparr>)"

definition pending_of :: "string \<Rightarrow> pending_row \<Rightarrow> bool" where
  "pending_of p r = (pe_peer r = p \<and> pe_status r = Pending)"

definition mq_getPendingEvents :: "string \<Rightarrow> nat \<Rightarrow> memory_queue_store \<Rightarrow> pending_row list" where
  "mq_getPendingEvents p limit s =
     take limit (sort_key pe_enqueuedAt (filter (pending_of p) (jvals (mq_rows s))))"

definition mq_markOne :: "string \<Rightarrow> string \<Rightarrow> memory_queue_store \<Rightarrow> memory_queue_store" where
  "mq_markOne p e s =
     (case jget (mq_rows s) (rowKey p e) of
        None \<Rightarrow> s
      | Some row \<Rightarrow>
          \<lparr>mq_rows = jset (rowKey p e) (row\<lparr>pe_status := Sent\<rparr>) (mq_rows s),
           mq_entityIndex = jdel (entityIndexKey p (pe_kind row) (pe_entity row)) (mq_entityIndex s)\<rparr>)"

definition mq_markSent :: "string \<Rightarrow> string list \<Rightarrow> memory_queue_store \<Rightarrow> memory_queue_store" where
  "mq_markSent p es s = foldl (\<lambda>acc e. mq_markOne p e acc) s es"

definition mq_retryOne :: "int \<Rightarrow> string \<Rightarrow> string \<Rightarrow> memory_queue_store \<Rightarrow> memory_queue_store" where
  "mq_retryOne now p e s =
     (case jget (mq_rows s) (rowKey p e) of
        None \<Rightarrow> s
      | Some row \<Rightarrow> s\<lparr>mq_rows := jset (rowKey p e) (retried now row) (mq_rows s)\<rparr>)"

definition mq_recordRetryFailure :: "int \<Rightarrow> string \<Rightarrow> string list \<Rightarrow> memory_queue_store \<Rightarrow>
    memory_queue_store" where
  "mq_recordRetryFailure now p es s = foldl (\<lambda>acc e. mq_retryOne now p e acc) s es"

definition mq_expireOne :: "int \<Rightarrow> string \<Rightarrow> pending_row \<Rightarrow> memory_queue_store \<times> string list \<Rightarrow>
    memory_queue_store \<times> string list" where
  "mq_expireOne c key row acc =
     (if pe_status row = Pending \<and> pe_enqueuedAt row < c
      then (\<lparr>mq_rows = jdel key (mq_rows (fst acc)),
             mq_entityIndex = jdel (entityIndexKey (pe_peer row) (pe_kind row) (pe_entity row))
                                (mq_entityIndex (fst acc))\<rparr>,
            sadd (pe_peer row) (snd acc))
      else acc)"

definition mq_deleteExpiredRows :: "int \<Rightarrow> memory_queue_store \<Rightarrow> memory_queue_store \<times> string list" where
  "mq_deleteExpiredRows c s = foldl (\<lambda>acc (key, row). mq_expireOne c key row acc) (s, []) (mq_rows s)"

definition mq_countPending :: "string \<Rightarrow> memory_queue_store \<Rightarrow> nat" where
  "mq_countPending p s = foldl (\<lambda>n r. if pending_of p r then n + 1 else n) 0 (jvals (mq_rows s))"

definition mq_oldestPendingEnqueuedAt :: "string \<Rightarrow> memory_queue_store \<Rightarrow> int option" where
  "mq_oldestPendingEnqueuedAt p s =
     foldl (\<lambda>old r. if pending_of p r
                    then (case old of
                            None \<Rightarrow> Some (pe_enqueuedAt r)
                          | Some t \<Rightarrow> if pe_enqueuedAt r < t then Some (pe_enqueuedAt r) else Some t)
                    else old) None (jvals (mq_rows s))"

definition mq_allRows :: "memory_queue_store \<Rightarrow> pending_row list" where
  "mq_allRows s = jvals (mq_rows s)"

definition mq_reset :: "memory_queue_store \<Rightarrow> memory_queue_store" where
  "mq_reset s = s\<lparr>mq_rows := [], mq_entityIndex := []\<rparr>"

definition memory_queue :: "memory_queue_store queue_store" where
  "memory_queue =
     \<lparr>qo_coalesceAndEnqueue = mq_coalesceAndEnqueue,
      qo_getPendingEvents = mq_getPendingEvents,
      qo_markSent = mq_markSent,
      qo_recordRetryFailure = mq_recordRetryFailure,
      qo_deleteExpiredRows = mq_deleteExpiredRows,
      qo_countPending = mq_countPending,
      qo_oldestPendingEnqueuedAt = mq_oldestPendingEnqueuedAt\<rparr>"

lemma memory_queue_ops [simp]:
  "qo_coalesceAndEnqueue memory_queue = mq_coalesceAndEnqueue"
  "qo_getPendingEvents memory_queue = mq_getPendingEvents"
  "qo_markSent memory_queue = mq_markSent"
  "qo_recordRetryFailure memory_queue = mq_recordRetryFailure"
  "qo_deleteExpiredRows memory_queue = mq_deleteExpiredRows"
  "qo_countPending memory_queue = mq_countPending"
  "qo_oldestPendingEnqueuedAt memory_queue = mq_oldestPendingEnqueuedAt"
  by (simp_all add: memory_queue_def)

section \<open>The invariant of the in-memory store\<close>

text \<open>Peers and kinds without a colon: then the concatenated keys are injective.\<close>

definition plain :: "string \<Rightarrow> bool" where
  "plain s = (CHR '':'' \<notin> set s)"

lemma plain_prefix_inj:
  "plain a \<Longrightarrow> plain b \<Longrightarrow> a @ CHR '':'' # x = b @ CHR '':'' # y \<longleftrightarrow> a = b \<and> x = y"
proof (induction a arbitrary: b)
  case Nil then show ?case by (cases b) (auto simp: plain_def)
next
  case (Cons c a) then show ?case by (cases b) (auto simp: plain_def)
qed

lemma rowKey_inj: "plain p \<Longrightarrow> plain p' \<Longrightarrow> rowKey p e = rowKey p' e' \<longleftrightarrow> p = p' \<and> e = e'"
  by (simp add: rowKey_def plain_prefix_inj)

lemma entityIndexKey_inj:
  "plain p \<Longrightarrow> plain p' \<Longrightarrow> plain k \<Longrightarrow> plain k' \<Longrightarrow>
    entityIndexKey p k i = entityIndexKey p' k' i' \<longleftrightarrow> p = p' \<and> k = k' \<and> i = i'"
  by (simp add: entityIndexKey_def plain_prefix_inj)

text \<open>
  Rows are stored under their own key; every pending row is the one its entity's index entry
  names, and every index entry names a pending row.
\<close>

definition row_entity_key :: "pending_row \<Rightarrow> string" where
  "row_entity_key r = entityIndexKey (pe_peer r) (pe_kind r) (pe_entity r)"

definition mq_ok :: "memory_queue_store \<Rightarrow> bool" where
  "mq_ok s =
     (jwf (mq_rows s) \<and> jwf (mq_entityIndex s) \<and>
      (\<forall>k r. jget (mq_rows s) k = Some r \<longrightarrow>
         k = rowKey (pe_peer r) (pe_event r) \<and> plain (pe_peer r) \<and> plain (pe_kind r) \<and>
         (pe_status r = Pending \<longrightarrow> jget (mq_entityIndex s) (row_entity_key r) = Some (pe_event r))) \<and>
      (\<forall>k e. jget (mq_entityIndex s) k = Some e \<longrightarrow>
         (\<exists>r. jget (mq_rows s) (rowKey (pe_peer r) e) = Some r \<and> pe_status r = Pending \<and>
              pe_event r = e \<and> row_entity_key r = k)))"

definition mq_pend :: "memory_queue_store \<Rightarrow> string \<Rightarrow> pending_row set" where
  "mq_pend s p = {r. pending_of p r \<and> jget (mq_rows s) (rowKey p (pe_event r)) = Some r}"

lemma mq_ok_new [simp]: "mq_ok new_memory_queue_store"
  by (simp add: mq_ok_def new_memory_queue_store_def)

lemma mq_okD:
  assumes "mq_ok s"
  shows "jwf (mq_rows s)" and "jwf (mq_entityIndex s)"
    and "jget (mq_rows s) k = Some r \<Longrightarrow> k = rowKey (pe_peer r) (pe_event r)"
    and "jget (mq_rows s) k = Some r \<Longrightarrow> plain (pe_peer r) \<and> plain (pe_kind r)"
    and "jget (mq_rows s) k = Some r \<Longrightarrow> pe_status r = Pending \<Longrightarrow>
      jget (mq_entityIndex s) (row_entity_key r) = Some (pe_event r)"
    and "jget (mq_entityIndex s) key = Some e \<Longrightarrow>
      \<exists>r. jget (mq_rows s) (rowKey (pe_peer r) e) = Some r \<and> pe_status r = Pending \<and>
          pe_event r = e \<and> row_entity_key r = key"
  using assms unfolding mq_ok_def by blast+

lemma mq_pend_rows:
  assumes "mq_ok s"
  shows "mq_pend s p = set (filter (pending_of p) (jvals (mq_rows s)))"
proof -
  have "r \<in> snd ` set (mq_rows s) \<longleftrightarrow> jget (mq_rows s) (rowKey (pe_peer r) (pe_event r)) = Some r" for r
  proof
    assume "r \<in> snd ` set (mq_rows s)"
    then obtain k where "(k, r) \<in> set (mq_rows s)" by auto
    then have "jget (mq_rows s) k = Some r" using jwf_in_get [OF mq_okD(1) [OF assms]] by blast
    with mq_okD(3) [OF assms] show "jget (mq_rows s) (rowKey (pe_peer r) (pe_event r)) = Some r" by blast
  next
    assume "jget (mq_rows s) (rowKey (pe_peer r) (pe_event r)) = Some r"
    then show "r \<in> snd ` set (mq_rows s)" by (force dest: jget_in)
  qed
  then show ?thesis by (auto simp: mq_pend_def pending_of_def)
qed

lemma mq_pendD:
  assumes "mq_ok s" and "r \<in> mq_pend s p"
  shows "pe_peer r = p" and "pe_status r = Pending" and "plain p" and "plain (pe_kind r)"
    and "jget (mq_rows s) (rowKey p (pe_event r)) = Some r"
    and "jget (mq_entityIndex s) (entityIndexKey p (pe_kind r) (pe_entity r)) = Some (pe_event r)"
  using assms mq_okD(4,5) [OF assms(1), of "rowKey p (pe_event r)" r]
  by (auto simp: mq_pend_def pending_of_def row_entity_key_def)

lemma mq_pendI:
  "mq_ok s \<Longrightarrow> jget (mq_rows s) k = Some r \<Longrightarrow> pe_status r = Pending \<Longrightarrow> r \<in> mq_pend s (pe_peer r)"
  using mq_okD(3) by (fastforce simp: mq_pend_def pending_of_def)

lemma mq_same_event:
  "mq_ok s \<Longrightarrow> r \<in> mq_pend s p \<Longrightarrow> r' \<in> mq_pend s p \<Longrightarrow> pe_event r = pe_event r' \<Longrightarrow> r = r'"
  by (metis mq_pendD(5) option.inject)

lemma mq_same_entity:
  "mq_ok s \<Longrightarrow> r \<in> mq_pend s p \<Longrightarrow> r' \<in> mq_pend s p \<Longrightarrow> same_entity (pe_kind r') (pe_entity r') r \<Longrightarrow> r = r'"
  unfolding same_entity_def by (metis mq_pendD(6) mq_same_event option.inject)

lemma mq_indexed:
  assumes "mq_ok s" and "plain p" and "plain k" and "jget (mq_entityIndex s) (entityIndexKey p k i) = Some e"
  obtains r where "r \<in> mq_pend s p" and "pe_event r = e" and "same_entity k i r"
proof -
  obtain r where r: "jget (mq_rows s) (rowKey (pe_peer r) e) = Some r" "pe_status r = Pending"
      "pe_event r = e" "row_entity_key r = entityIndexKey p k i"
    using mq_okD(6) [OF assms(1,4)] by blast
  with mq_okD(4) [OF assms(1) r(1)] assms(2,3) have "pe_peer r = p" "same_entity k i r"
    by (simp_all add: row_entity_key_def entityIndexKey_inj same_entity_def)
  with r mq_pendI [OF assms(1) r(1)] show thesis by (intro that) auto
qed

section \<open>Removing, closing and adding a pending row\<close>

definition without_row :: "pending_row \<Rightarrow> memory_queue_store \<Rightarrow> memory_queue_store" where
  "without_row r s =
     \<lparr>mq_rows = jdel (rowKey (pe_peer r) (pe_event r)) (mq_rows s),
      mq_entityIndex = jdel (row_entity_key r) (mq_entityIndex s)\<rparr>"

definition with_sent :: "pending_row \<Rightarrow> memory_queue_store \<Rightarrow> memory_queue_store" where
  "with_sent r s =
     \<lparr>mq_rows = jset (rowKey (pe_peer r) (pe_event r)) (r\<lparr>pe_status := Sent\<rparr>) (mq_rows s),
      mq_entityIndex = jdel (row_entity_key r) (mq_entityIndex s)\<rparr>"

text \<open>Two pending rows with one index key are one row.\<close>

lemma index_key_row:
  assumes "mq_ok s" and "r \<in> mq_pend s p" and "jget (mq_rows s) k = Some r'" and "pe_status r' = Pending"
    and "row_entity_key r' = row_entity_key r"
  shows "r' = r"
proof -
  have r': "r' \<in> mq_pend s (pe_peer r')" using mq_pendI assms(1,3,4) by blast
  note a = mq_pendD [OF assms(1,2)] and b = mq_pendD [OF assms(1) r']
  have key: "entityIndexKey (pe_peer r') (pe_kind r') (pe_entity r') = entityIndexKey p (pe_kind r) (pe_entity r)"
    using assms(5) a(1) by (simp add: row_entity_key_def)
  then have p: "pe_peer r' = p" using entityIndexKey_inj [OF b(3) a(3) b(4) a(4)] by blast
  have "pe_event r' = pe_event r" using b(6) a(6) key by simp
  then show ?thesis using mq_same_event [OF assms(1) _ assms(2)] r' p by blast
qed

lemma closing_ok:
  assumes ok: "mq_ok s" and r: "r \<in> mq_pend s p"
    and rows: "\<And>k. jget (mq_rows s') k =
      (if k = rowKey p (pe_event r) then v else jget (mq_rows s) k)" "jwf (mq_rows s')"
    and v: "v = None \<or> v = Some (r\<lparr>pe_status := Sent\<rparr>)"
    and idx: "mq_entityIndex s' = jdel (row_entity_key r) (mq_entityIndex s)"
  shows "mq_ok s' \<and> (\<forall>q. mq_pend s' q = mq_pend s q - {r})"
proof -
  note a = mq_pendD [OF ok r]
  have ek: "row_entity_key r = entityIndexKey p (pe_kind r) (pe_entity r)" using a by (simp add: row_entity_key_def)
  have old: "jget (mq_rows s) k = Some r'" "r' \<noteq> r" "row_entity_key r' \<noteq> row_entity_key r"
    if "jget (mq_rows s') k = Some r'" "pe_status r' = Pending" for k r'
  proof -
    show g: "jget (mq_rows s) k = Some r'" using that rows(1) v by (auto split: if_splits)
    have "k = rowKey (pe_peer r') (pe_event r')" using mq_okD(3) [OF ok g] .
    then show n: "r' \<noteq> r" using that rows(1) v a(1,2) by (auto split: if_splits)
    then show "row_entity_key r' \<noteq> row_entity_key r" using index_key_row [OF ok r g that(2)] by blast
  qed
  have kept: "jget (mq_rows s') (rowKey (pe_peer r') (pe_event r')) = Some r'"
    if "jget (mq_rows s) (rowKey (pe_peer r') (pe_event r')) = Some r'" "r' \<noteq> r" for r'
    using that rows(1) a(5) by auto
  have "mq_ok s'"
    unfolding mq_ok_def
  proof (intro conjI allI impI rows(2))
    show "jwf (mq_entityIndex s')" using idx mq_okD(2) [OF ok] by simp
  next
    fix k r' assume "jget (mq_rows s') k = Some r'"
    then have "jget (mq_rows s) k = Some r' \<or> k = rowKey p (pe_event r) \<and> r' = r\<lparr>pe_status := Sent\<rparr>"
      using rows(1) v by (auto split: if_splits)
    then have "k = rowKey (pe_peer r') (pe_event r') \<and> plain (pe_peer r') \<and> plain (pe_kind r')"
    proof
      assume "jget (mq_rows s) k = Some r'"
      with mq_okD(3,4) [OF ok] show ?thesis by blast
    next
      assume "k = rowKey p (pe_event r) \<and> r' = r\<lparr>pe_status := Sent\<rparr>"
      with a(1,3,4) show ?thesis by simp
    qed
    then show "k = rowKey (pe_peer r') (pe_event r')" and "plain (pe_peer r')" and "plain (pe_kind r')"
      by simp_all
  next
    fix k r' assume h: "jget (mq_rows s') k = Some r'" "pe_status r' = Pending"
    show "jget (mq_entityIndex s') (row_entity_key r') = Some (pe_event r')"
      using old [OF h] mq_okD(5) [OF ok _ h(2)] idx by simp
  next
    fix k e assume "jget (mq_entityIndex s') k = Some e"
    then have "k \<noteq> row_entity_key r" "jget (mq_entityIndex s) k = Some e" by (auto simp: idx split: if_splits)
    with mq_okD(6) [OF ok] kept
    show "\<exists>r. jget (mq_rows s') (rowKey (pe_peer r) e) = Some r \<and> pe_status r = Pending \<and>
        pe_event r = e \<and> row_entity_key r = k" by blast
  qed
  moreover have "mq_pend s' q = mq_pend s q - {r}" for q
  proof (intro set_eqI iffI)
    fix x assume "x \<in> mq_pend s' q"
    with old show "x \<in> mq_pend s q - {r}" by (auto simp: mq_pend_def pending_of_def)
  next
    fix x assume "x \<in> mq_pend s q - {r}"
    with kept show "x \<in> mq_pend s' q" by (auto simp: mq_pend_def pending_of_def)
  qed
  ultimately show ?thesis by blast
qed

lemma without_row_ok:
  "mq_ok s \<Longrightarrow> r \<in> mq_pend s p \<Longrightarrow> mq_ok (without_row r s) \<and> (\<forall>q. mq_pend (without_row r s) q = mq_pend s q - {r})"
  using mq_pendD(1) [of s r p] mq_okD(1) [of s]
  by (intro closing_ok [where v = None and r = r and p = p]) (auto simp: without_row_def)

lemma with_sent_ok:
  "mq_ok s \<Longrightarrow> r \<in> mq_pend s p \<Longrightarrow> mq_ok (with_sent r s) \<and> (\<forall>q. mq_pend (with_sent r s) q = mq_pend s q - {r})"
  using mq_pendD(1) [of s r p] mq_okD(1) [of s]
  by (intro closing_ok [where v = "Some (r\<lparr>pe_status := Sent\<rparr>)" and r = r and p = p]) (auto simp: with_sent_def)

lemma adding_ok:
  assumes ok: "mq_ok s" and pl: "plain p" "plain k" and noidx: "jget (mq_entityIndex s) (entityIndexKey p k i) = None"
    and free: "\<And>r. r \<in> mq_pend s p \<Longrightarrow> pe_event r \<noteq> e"
    and s': "s' = \<lparr>mq_rows = jset (rowKey p e) (fresh_row now p e k i) (mq_rows s),
                 mq_entityIndex = jset (entityIndexKey p k i) e (mq_entityIndex s)\<rparr>"
  shows "mq_ok s' \<and> (\<forall>q. mq_pend s' q = (if q = p then insert (fresh_row now p e k i) (mq_pend s p) else mq_pend s q))"
proof -
  let ?f = "fresh_row now p e k i"
  have f: "pe_peer ?f = p" "pe_event ?f = e" "pe_status ?f = Pending" "pe_kind ?f = k"
      "row_entity_key ?f = entityIndexKey p k i"
    by (simp_all add: fresh_row_def row_entity_key_def)
  have rows: "jget (mq_rows s') x = (if x = rowKey p e then Some ?f else jget (mq_rows s) x)"
    and idx: "jget (mq_entityIndex s') x = (if x = entityIndexKey p k i then Some e else jget (mq_entityIndex s) x)" for x
    by (simp_all add: s')
  have other: "x \<noteq> rowKey p e" if "jget (mq_rows s) x = Some r" "pe_status r = Pending" for x r
  proof
    assume x: "x = rowKey p e"
    have "x = rowKey (pe_peer r) (pe_event r)" "plain (pe_peer r)" using mq_okD(3,4) [OF ok that(1)] by blast+
    with x pl(1) have "pe_peer r = p" "pe_event r = e" using rowKey_inj by metis+
    with free mq_pendI [OF ok that] show False by blast
  qed
  have "mq_ok s'"
    unfolding mq_ok_def
  proof (intro conjI allI impI)
    show "jwf (mq_rows s')" "jwf (mq_entityIndex s')" using mq_okD(1,2) [OF ok] by (simp_all add: s')
  next
    fix x r assume "jget (mq_rows s') x = Some r"
    then have "x = rowKey p e \<and> r = ?f \<or> jget (mq_rows s) x = Some r" by (auto simp: rows split: if_splits)
    then have "x = rowKey (pe_peer r) (pe_event r) \<and> plain (pe_peer r) \<and> plain (pe_kind r)"
      using f pl mq_okD(3,4) [OF ok] by (elim disjE) (simp, blast)
    then show "x = rowKey (pe_peer r) (pe_event r)" "plain (pe_peer r)" "plain (pe_kind r)" by simp_all
  next
    fix x r assume h: "jget (mq_rows s') x = Some r" "pe_status r = Pending"
    show "jget (mq_entityIndex s') (row_entity_key r) = Some (pe_event r)"
    proof (cases "r = ?f")
      case True then show ?thesis using f idx by simp
    next
      case False
      then have "jget (mq_rows s) x = Some r" using h rows by (auto split: if_splits)
      then have "jget (mq_entityIndex s) (row_entity_key r) = Some (pe_event r)" using mq_okD(5) [OF ok] h by blast
      then show ?thesis using noidx idx by auto
    qed
  next
    fix x a assume "jget (mq_entityIndex s') x = Some a"
    then have "x = entityIndexKey p k i \<and> a = e \<or> jget (mq_entityIndex s) x = Some a"
      unfolding idx by (cases "x = entityIndexKey p k i") simp_all
    then consider "x = entityIndexKey p k i" "a = e" | "jget (mq_entityIndex s) x = Some a" by blast
    then show "\<exists>r. jget (mq_rows s') (rowKey (pe_peer r) a) = Some r \<and> pe_status r = Pending \<and>
        pe_event r = a \<and> row_entity_key r = x"
    proof cases
      case 1 then show ?thesis using f rows by (intro exI [of _ ?f]) simp
    next
      case 2
      then obtain r where r: "jget (mq_rows s) (rowKey (pe_peer r) a) = Some r" "pe_status r = Pending"
          "pe_event r = a" "row_entity_key r = x" using mq_okD(6) [OF ok] by blast
      with other rows show ?thesis by (intro exI [of _ r]) simp
    qed
  qed
  moreover have "mq_pend s' q = (if q = p then insert ?f (mq_pend s p) else mq_pend s q)" for q
  proof (intro set_eqI)
    fix x
    have "x \<in> mq_pend s' q \<longleftrightarrow> x \<in> mq_pend s q \<or> x = ?f \<and> q = p"
      using other f rows unfolding mq_pend_def pending_of_def by (auto split: if_splits)
    then show "x \<in> mq_pend s' q \<longleftrightarrow> x \<in> (if q = p then insert ?f (mq_pend s p) else mq_pend s q)" by auto
  qed
  ultimately show ?thesis by blast
qed

section \<open>The operations\<close>

lemma mq_enqueue_unfold:
  "mq_coalesceAndEnqueue now p e k i s =
     (case jget (mq_entityIndex s) (entityIndexKey p k i) of
        None \<Rightarrow> (\<lparr>mq_rows = jset (rowKey p e) (fresh_row now p e k i) (mq_rows s),
                  mq_entityIndex = jset (entityIndexKey p k i) e (mq_entityIndex s)\<rparr>, False)
      | Some old \<Rightarrow> (\<lparr>mq_rows = jset (rowKey p e) (fresh_row now p e k i) (jdel (rowKey p old) (mq_rows s)),
                  mq_entityIndex = jset (entityIndexKey p k i) e (jdel (entityIndexKey p k i) (mq_entityIndex s))\<rparr>, True))"
  by (simp add: mq_coalesceAndEnqueue_def Let_def split: option.split)

lemma mq_enqueue_ok:
  assumes ok: "mq_ok s" and pl: "plain p" "plain k" and fits: "event_fits (mq_pend s p) e k i"
  shows "mq_ok (fst (mq_coalesceAndEnqueue now p e k i s)) \<and>
    (\<forall>q. mq_pend (fst (mq_coalesceAndEnqueue now p e k i s)) q =
      (if q = p then insert (fresh_row now p e k i) {r \<in> mq_pend s p. \<not> same_entity k i r} else mq_pend s q))"
proof (cases "jget (mq_entityIndex s) (entityIndexKey p k i)")
  case None
  have "\<not> same_entity k i r" if "r \<in> mq_pend s p" for r
    using mq_pendD(6) [OF ok that] None by (auto simp: same_entity_def)
  then have "{r \<in> mq_pend s p. \<not> same_entity k i r} = mq_pend s p" "\<And>r. r \<in> mq_pend s p \<Longrightarrow> pe_event r \<noteq> e"
    using fits by (auto simp: event_fits_def)
  with adding_ok [OF ok pl None _ refl, of e now] None show ?thesis by (simp add: mq_enqueue_unfold)
next
  case (Some old)
  obtain r where r: "r \<in> mq_pend s p" "pe_event r = old" "same_entity k i r"
    using mq_indexed [OF ok pl Some] .
  define s1 where "s1 = without_row r s"
  have s1: "mq_ok s1" "mq_pend s1 q = mq_pend s q - {r}" for q
    using without_row_ok [OF ok r(1)] by (simp_all add: s1_def)
  have eq: "s1 = \<lparr>mq_rows = jdel (rowKey p old) (mq_rows s), mq_entityIndex = jdel (entityIndexKey p k i) (mq_entityIndex s)\<rparr>"
    using r mq_pendD(1) [OF ok r(1)] by (simp add: s1_def without_row_def row_entity_key_def same_entity_def)
  have only: "same_entity k i x \<longleftrightarrow> x = r" if "x \<in> mq_pend s p" for x
    using mq_same_entity [OF ok that r(1)] r(3) by (auto simp: same_entity_def)
  have "{x \<in> mq_pend s p. \<not> same_entity k i x} = mq_pend s1 p" using only s1(2) by auto
  moreover have "mq_pend s1 q = mq_pend s q" if "q \<noteq> p" for q
  proof -
    have "r \<notin> mq_pend s q" using that mq_pendD(1) [OF ok r(1)] mq_pendD(1) [OF ok, of r q] by metis
    then show ?thesis using s1(2) by simp
  qed
  moreover have "\<And>x. x \<in> mq_pend s1 p \<Longrightarrow> pe_event x \<noteq> e"
    using fits only s1(2) by (auto simp: event_fits_def)
  moreover have "jget (mq_entityIndex s1) (entityIndexKey p k i) = None" by (simp add: eq)
  ultimately show ?thesis
    using adding_ok [OF s1(1) pl _ _ refl, of i e now] Some by (simp add: mq_enqueue_unfold eq)
qed

lemma mq_enqueue_flag:
  assumes ok: "mq_ok s" and pl: "plain p" "plain k"
  shows "snd (mq_coalesceAndEnqueue now p e k i s) = (\<exists>r \<in> mq_pend s p. same_entity k i r)"
proof (cases "jget (mq_entityIndex s) (entityIndexKey p k i)")
  case None
  then have "\<not> same_entity k i r" if "r \<in> mq_pend s p" for r
    using mq_pendD(6) [OF ok that] by (auto simp: same_entity_def)
  with None show ?thesis by (simp add: mq_enqueue_unfold)
next
  case (Some old)
  from mq_indexed [OF ok pl Some] show ?thesis using Some by (auto simp: mq_enqueue_unfold)
qed

lemma mq_markOne_pending:
  assumes "mq_ok s" and "r \<in> mq_pend s p"
  shows "mq_markOne p (pe_event r) s = with_sent r s"
  using mq_pendD(1,5) [OF assms] by (simp add: mq_markOne_def with_sent_def row_entity_key_def)

definition mq_markable :: "memory_queue_store \<Rightarrow> string \<Rightarrow> string \<Rightarrow> bool" where
  "mq_markable s p e = (case jget (mq_rows s) (rowKey p e) of None \<Rightarrow> True | Some r \<Rightarrow> pe_status r = Pending)"

lemma mq_markable_enqueue: "mq_markable s p' e' \<Longrightarrow> mq_markable (fst (mq_coalesceAndEnqueue now p e k i s)) p' e'"
  by (auto simp: mq_markable_def mq_enqueue_unfold fresh_row_def split: option.splits)

lemma mq_markable_pend: "mq_ok s \<Longrightarrow> r \<in> mq_pend s p \<Longrightarrow> mq_markable s p (pe_event r)"
  using mq_pendD(2,5) by (simp add: mq_markable_def)

lemma mq_markOne_ok:
  assumes ok: "mq_ok s" and pl: "plain p" and m: "mq_markable s p e"
  shows "mq_ok (mq_markOne p e s) \<and>
    (\<forall>q. mq_pend (mq_markOne p e s) q = (if q = p then {r \<in> mq_pend s p. pe_event r \<noteq> e} else mq_pend s q))"
proof (cases "jget (mq_rows s) (rowKey p e)")
  case None
  have "pe_event r \<noteq> e" if "r \<in> mq_pend s p" for r using mq_pendD(5) [OF ok that] None by auto
  then have "{r \<in> mq_pend s p. pe_event r \<noteq> e} = mq_pend s p" by auto
  with ok None show ?thesis by (simp add: mq_markOne_def)
next
  case (Some r)
  have id: "pe_peer r = p" "pe_event r = e" using mq_okD(3,4) [OF ok Some] pl rowKey_inj by metis+
  have r: "r \<in> mq_pend s p" using mq_pendI [OF ok Some] m Some id(1) by (simp add: mq_markable_def)
  have eq: "mq_markOne p e s = with_sent r s" using mq_markOne_pending [OF ok r] id by simp
  have "{x \<in> mq_pend s p. pe_event x \<noteq> e} = mq_pend s p - {r}"
    using mq_same_event [OF ok _ r] id(2) by auto
  moreover have "mq_pend s q - {r} = mq_pend s q" if "q \<noteq> p" for q
    using mq_pendD(1) [OF ok] id(1) that by blast
  ultimately show ?thesis using with_sent_ok [OF ok r] by (simp add: eq)
qed

lemma mq_markOne_other: "e' \<noteq> e \<Longrightarrow> mq_markable (mq_markOne p e s) p e' = mq_markable s p e'"
  by (simp add: mq_markable_def mq_markOne_def rowKey_def split: option.split)

lemma mq_markSent_ok:
  assumes "mq_ok s" and "plain p" and "distinct es" and "list_all (mq_markable s p) es"
  shows "mq_ok (mq_markSent p es s) \<and>
    (\<forall>q. mq_pend (mq_markSent p es s) q = (if q = p then {r \<in> mq_pend s p. pe_event r \<notin> set es} else mq_pend s q))"
  using assms(1,3,4)
proof (induction es arbitrary: s)
  case Nil then show ?case by (simp add: mq_markSent_def)
next
  case (Cons e es)
  have s1: "mq_ok (mq_markOne p e s)"
    "mq_pend (mq_markOne p e s) q = (if q = p then {r \<in> mq_pend s p. pe_event r \<noteq> e} else mq_pend s q)" for q
    using mq_markOne_ok [OF Cons.prems(1) assms(2), of e] Cons.prems(3) by simp_all
  have "list_all (mq_markable (mq_markOne p e s) p) es"
    unfolding list_all_iff
  proof
    fix x assume x: "x \<in> set es"
    with Cons.prems(2) have "x \<noteq> e" by auto
    from mq_markOne_other [OF this] Cons.prems(3) x show "mq_markable (mq_markOne p e s) p x"
      by (simp add: list_all_iff)
  qed
  with Cons.IH [OF s1(1)] Cons.prems(2) show ?case by (auto simp: mq_markSent_def s1(2))
qed

text \<open>Replacing a row by one of the same identity keeps the invariant.\<close>

lemma replacing_ok:
  assumes ok: "mq_ok s" and r: "jget (mq_rows s) K = Some r"
    and same: "pe_peer r' = pe_peer r" "pe_event r' = pe_event r" "pe_kind r' = pe_kind r"
      "pe_entity r' = pe_entity r" "pe_status r' = pe_status r"
    and s': "s' = s\<lparr>mq_rows := jset K r' (mq_rows s)\<rparr>"
  shows "mq_ok s' \<and> (\<forall>q. mq_pend s' q = (\<lambda>x. if x = r then r' else x) ` mq_pend s q)"
proof -
  have K: "K = rowKey (pe_peer r) (pe_event r)" using mq_okD(3) [OF ok r] .
  have ent: "row_entity_key r' = row_entity_key r" using same by (simp add: row_entity_key_def)
  have rows: "jget (mq_rows s') x = (if x = K then Some r' else jget (mq_rows s) x)" for x by (simp add: s')
  have src: "\<exists>y. jget (mq_rows s) k = Some y \<and> pe_peer x = pe_peer y \<and> pe_event x = pe_event y \<and>
      pe_kind x = pe_kind y \<and> pe_status x = pe_status y \<and> row_entity_key x = row_entity_key y"
    if "jget (mq_rows s') k = Some x" for k x
    using that r same ent unfolding rows by (cases "k = K") auto
  have dst: "\<exists>y. jget (mq_rows s') k = Some y \<and> pe_peer x = pe_peer y \<and> pe_event x = pe_event y \<and>
      pe_status x = pe_status y \<and> row_entity_key x = row_entity_key y"
    if "jget (mq_rows s) k = Some x" for k x
    using that r same ent unfolding rows by (cases "k = K") auto
  have "mq_ok s'"
    unfolding mq_ok_def
  proof (intro conjI allI impI)
    show "jwf (mq_rows s')" "jwf (mq_entityIndex s')" using mq_okD(1,2) [OF ok] by (simp_all add: s')
  next
    fix k x assume x: "jget (mq_rows s') k = Some x"
    from src [OF x] mq_okD(3,4) [OF ok]
    show "k = rowKey (pe_peer x) (pe_event x)" "plain (pe_peer x)" "plain (pe_kind x)" by metis+
    assume "pe_status x = Pending"
    with src [OF x] mq_okD(5) [OF ok] show "jget (mq_entityIndex s') (row_entity_key x) = Some (pe_event x)"
      by (metis (no_types, lifting) memory_queue_store.select_convs(2) memory_queue_store.surjective
          memory_queue_store.update_convs(1) s')
  next
    fix k e assume "jget (mq_entityIndex s') k = Some e"
    then have "jget (mq_entityIndex s) k = Some e" by (simp add: s')
    then obtain y where "jget (mq_rows s) (rowKey (pe_peer y) e) = Some y" "pe_status y = Pending" "pe_event y = e"
        "row_entity_key y = k" using mq_okD(6) [OF ok] by blast
    with dst [of "rowKey (pe_peer y) e" y]
    show "\<exists>r. jget (mq_rows s') (rowKey (pe_peer r) e) = Some r \<and> pe_status r = Pending \<and>
        pe_event r = e \<and> row_entity_key r = k" by metis
  qed
  moreover have "mq_pend s' q = (\<lambda>x. if x = r then r' else x) ` mq_pend s q" for q
  proof (intro set_eqI iffI)
    fix x assume x: "x \<in> mq_pend s' q"
    then have g: "pe_peer x = q" "pe_status x = Pending" "jget (mq_rows s') (rowKey q (pe_event x)) = Some x"
      by (auto simp: mq_pend_def pending_of_def)
    show "x \<in> (\<lambda>x. if x = r then r' else x) ` mq_pend s q"
    proof (cases "rowKey q (pe_event x) = K")
      case True
      with g rows have "x = r'" by simp
      moreover have "r \<in> mq_pend s q" using g(1,2) mq_pendI [OF ok r] same \<open>x = r'\<close> by auto
      ultimately show ?thesis by force
    next
      case False
      with g rows have "x \<in> mq_pend s q" by (simp add: mq_pend_def pending_of_def)
      moreover have "x \<noteq> r" using False K g(1) by blast
      ultimately show ?thesis by force
    qed
  next
    fix x assume "x \<in> (\<lambda>x. if x = r then r' else x) ` mq_pend s q"
    then obtain y where y: "y \<in> mq_pend s q" "x = (if y = r then r' else y)" by blast
    note h = mq_pendD(1,2,5) [OF ok y(1)]
    show "x \<in> mq_pend s' q"
    proof (cases "y = r")
      case True
      with y h K same rows show ?thesis by (simp add: mq_pend_def pending_of_def)
    next
      case False
      have "rowKey q (pe_event y) \<noteq> K" using h(3) r False by auto
      with y h rows False show ?thesis by (simp add: mq_pend_def pending_of_def)
    qed
  qed
  ultimately show ?thesis by blast
qed

lemma retried_fields [simp]:
  "pe_peer (retried now r) = pe_peer r" "pe_event (retried now r) = pe_event r" "pe_kind (retried now r) = pe_kind r"
  "pe_entity (retried now r) = pe_entity r" "pe_status (retried now r) = pe_status r"
  "pe_enqueuedAt (retried now r) = pe_enqueuedAt r"
  by (simp_all add: retried_def)

lemma mq_retryOne_ok:
  assumes ok: "mq_ok s" and pl: "plain p"
  shows "mq_ok (mq_retryOne now p e s) \<and>
    (\<forall>q. mq_pend (mq_retryOne now p e s) q =
      (if q = p then (\<lambda>r. if pe_event r = e then retried now r else r) ` mq_pend s p else mq_pend s q))"
proof (cases "jget (mq_rows s) (rowKey p e)")
  case None
  have "pe_event r \<noteq> e" if "r \<in> mq_pend s p" for r using mq_pendD(5) [OF ok that] None by auto
  then have "(\<lambda>r. if pe_event r = e then retried now r else r) ` mq_pend s p = mq_pend s p" by force
  with ok None show ?thesis by (simp add: mq_retryOne_def)
next
  case (Some r)
  have id: "pe_peer r = p" "pe_event r = e"
    using mq_okD(3,4) [OF ok Some] pl rowKey_inj by metis+
  have iff: "x = r \<longleftrightarrow> q = p \<and> pe_event x = e" if "x \<in> mq_pend s q" for x q
  proof
    assume "x = r"
    then show "q = p \<and> pe_event x = e" using mq_pendD(1) [OF ok that] id by simp
  next
    assume "q = p \<and> pe_event x = e"
    then show "x = r" using mq_pendD(5) [OF ok that] Some by simp
  qed
  have "mq_retryOne now p e s = s\<lparr>mq_rows := jset (rowKey p e) (retried now r) (mq_rows s)\<rparr>"
    using Some by (simp add: mq_retryOne_def)
  from replacing_ok [OF ok Some _ _ _ _ _ this]
  have m: "mq_ok (mq_retryOne now p e s)"
    "mq_pend (mq_retryOne now p e s) q = (\<lambda>x. if x = r then retried now r else x) ` mq_pend s q" for q
    by simp_all
  have "(\<lambda>x. if x = r then retried now r else x) ` mq_pend s q =
      (if q = p then (\<lambda>r. if pe_event r = e then retried now r else r) ` mq_pend s p else mq_pend s q)" for q
    using iff [of _ q] by (cases "q = p") (force intro: image_cong)+
  with m show ?thesis by simp
qed

lemma mq_recordRetryFailure_ok:
  assumes "mq_ok s" and "plain p"
  shows "mq_ok (mq_recordRetryFailure now p es s) \<and>
    (distinct es \<longrightarrow> (\<forall>q. mq_pend (mq_recordRetryFailure now p es s) q =
      (if q = p then (\<lambda>r. if pe_event r \<in> set es then retried now r else r) ` mq_pend s p else mq_pend s q)))"
  using assms(1)
proof (induction es arbitrary: s)
  case Nil then show ?case by (simp add: mq_recordRetryFailure_def)
next
  case (Cons e es)
  have s1: "mq_ok (mq_retryOne now p e s)"
    "mq_pend (mq_retryOne now p e s) q =
      (if q = p then (\<lambda>r. if pe_event r = e then retried now r else r) ` mq_pend s p else mq_pend s q)" for q
    using mq_retryOne_ok [OF Cons.prems assms(2)] by simp_all
  have eq: "mq_recordRetryFailure now p (e # es) s = mq_recordRetryFailure now p es (mq_retryOne now p e s)"
    by (simp add: mq_recordRetryFailure_def)
  have comp: "(\<lambda>r. if pe_event r \<in> set es then retried now r else r) ` (\<lambda>r. if pe_event r = e then retried now r else r) ` A =
      (\<lambda>r. if pe_event r \<in> set (e # es) then retried now r else r) ` A" if "e \<notin> set es" for A
    unfolding image_image by (rule image_cong) (use that in auto)
  show ?case using Cons.IH [OF s1(1)] unfolding eq by (auto simp: s1(2) comp)
qed

section \<open>Expiry and queries\<close>

definition expired_row :: "int \<Rightarrow> pending_row \<Rightarrow> bool" where
  "expired_row c r = (pe_status r = Pending \<and> pe_enqueuedAt r < c)"

lemma mq_expire_fold:
  assumes "mq_ok s" and "jwf xs" and "\<forall>(k, r) \<in> set xs. jget (mq_rows s) k = Some r"
  shows "mq_ok (fst (foldl (\<lambda>acc (key, row). mq_expireOne c key row acc) (s, ps) xs)) \<and>
    (\<forall>q. mq_pend (fst (foldl (\<lambda>acc (key, row). mq_expireOne c key row acc) (s, ps) xs)) q =
      {r \<in> mq_pend s q. \<not> (expired_row c r \<and> r \<in> snd ` set xs)}) \<and>
    set (snd (foldl (\<lambda>acc (key, row). mq_expireOne c key row acc) (s, ps) xs)) =
      set ps \<union> pe_peer ` {r \<in> snd ` set xs. expired_row c r}"
  using assms
proof (induction xs arbitrary: s ps)
  case Nil then show ?case by auto
next
  case (Cons x xs)
  obtain k r where x: "x = (k, r)" by force
  have k: "jget (mq_rows s) k = Some r" using Cons.prems(3) x by auto
  show ?case
  proof (cases "expired_row c r")
    case False
    then have "mq_expireOne c k r (s, ps) = (s, ps)" by (auto simp: mq_expireOne_def expired_row_def)
    with Cons.IH [of s ps] Cons.prems x False show ?thesis by auto
  next
    case True
    then have r: "r \<in> mq_pend s (pe_peer r)" using mq_pendI [OF Cons.prems(1) k] by (simp add: expired_row_def)
    have key: "k = rowKey (pe_peer r) (pe_event r)" using mq_okD(3) [OF Cons.prems(1) k] .
    have one: "mq_expireOne c k r (s, ps) = (without_row r s, sadd (pe_peer r) ps)"
      using True key by (simp add: mq_expireOne_def expired_row_def without_row_def row_entity_key_def)
    have s1: "mq_ok (without_row r s)" "mq_pend (without_row r s) q = mq_pend s q - {r}" for q
      using without_row_ok [OF Cons.prems(1) r] by simp_all
    have "\<forall>(k', r') \<in> set xs. jget (mq_rows (without_row r s)) k' = Some r'"
      using Cons.prems(2,3) x key by (force simp: without_row_def)
    from Cons.IH [OF s1(1) _ this, of "sadd (pe_peer r) ps"] Cons.prems(2) x True s1(2)
    show ?thesis by (auto simp: one)
  qed
qed

lemma mq_expire_ok:
  assumes ok: "mq_ok s"
  shows "mq_ok (fst (mq_deleteExpiredRows c s)) \<and>
    (\<forall>q. mq_pend (fst (mq_deleteExpiredRows c s)) q = {r \<in> mq_pend s q. c \<le> pe_enqueuedAt r}) \<and>
    set (snd (mq_deleteExpiredRows c s)) = {p. \<exists>r \<in> mq_pend s p. pe_enqueuedAt r < c}"
proof -
  have all: "\<forall>(k, r) \<in> set (mq_rows s). jget (mq_rows s) k = Some r"
    using jwf_in_get [OF mq_okD(1) [OF ok]] by blast
  have "r \<in> mq_pend s q \<longleftrightarrow> r \<in> snd ` set (mq_rows s) \<and> pending_of q r" for r q
    using mq_pend_rows [OF ok, of q] by auto
  then show ?thesis
    using mq_expire_fold [OF ok mq_okD(1) [OF ok] all, of c "[]"]
    unfolding mq_deleteExpiredRows_def by (auto simp: expired_row_def pending_of_def)
qed

lemma mq_rows_distinct:
  assumes "mq_ok s"
  shows "distinct (jvals (mq_rows s))"
proof -
  have "map (\<lambda>r. rowKey (pe_peer r) (pe_event r)) (jvals (mq_rows s)) = jkeys (mq_rows s)"
    unfolding map_map
  proof (rule map_cong [OF refl])
    fix x assume x: "x \<in> set (mq_rows s)"
    have "jget (mq_rows s) (fst x) = Some (snd x)"
      using jwf_in_get [OF mq_okD(1) [OF assms], of "fst x" "snd x"] x by simp
    from mq_okD(3) [OF assms this]
    show "((\<lambda>r. rowKey (pe_peer r) (pe_event r)) \<circ> snd) x = fst x" by simp
  qed
  with mq_okD(1) [OF assms] show ?thesis by (metis distinct_map)
qed

lemma mq_count_fold: "foldl (\<lambda>n r. if P r then n + 1 else n) (m::nat) rs = m + length (filter P rs)"
  by (induction rs arbitrary: m) auto

lemma mq_count: "mq_ok s \<Longrightarrow> mq_countPending p s = card (mq_pend s p)"
  unfolding mq_countPending_def mq_count_fold mq_pend_rows
  using mq_rows_distinct [of s] by (simp only: distinct_card distinct_filter add_0)

lemma Min_insert_min: "finite X \<Longrightarrow> Min (insert (min a b) X) = Min (insert a (insert (b::int) X))"
  by (cases "X = {}") (simp_all add: min.assoc)

lemma mq_oldest_fold_Some:
  "foldl (\<lambda>old r. if P r then (case old of None \<Rightarrow> Some (f r :: int) | Some t \<Rightarrow> if f r < t then Some (f r) else Some t)
                  else old) (Some a) rs = Some (Min (insert a (f ` set (filter P rs))))"
proof (induction rs arbitrary: a)
  case (Cons r rs)
  show ?case
  proof (cases "P r")
    case True
    have "(if f r < a then Some (f r) else Some a) = Some (min a (f r))" by auto
    with True Cons [of "min a (f r)"] show ?thesis by (simp only: foldl_Cons option.case if_True) (simp add: Min_insert_min)
  next
    case False
    with Cons show ?thesis by simp
  qed
qed simp

lemma mq_oldest_fold:
  "foldl (\<lambda>old r. if P r then (case old of None \<Rightarrow> Some (f r :: int) | Some t \<Rightarrow> if f r < t then Some (f r) else Some t)
                  else old) None rs =
   (if set (filter P rs) = {} then None else Some (Min (f ` set (filter P rs))))"
proof (induction rs)
  case (Cons r rs)
  show ?case
  proof (cases "P r")
    case True
    then show ?thesis using mq_oldest_fold_Some [of P f "f r" rs] by simp
  next
    case False
    with Cons show ?thesis by simp
  qed
qed simp

lemma mq_oldest:
  "mq_ok s \<Longrightarrow> mq_oldestPendingEnqueuedAt p s =
    (if mq_pend s p = {} then None else Some (Min (pe_enqueuedAt ` mq_pend s p)))"
  unfolding mq_oldestPendingEnqueuedAt_def mq_pend_rows by (rule mq_oldest_fold)

lemma sorted_take_drop:
  assumes "sorted (map f xs)" and "x \<in> set (take n xs)" and "y \<in> set (drop n xs)"
  shows "f x \<le> (f y :: int)"
proof -
  have "sorted (map f (take n xs) @ map f (drop n xs))"
    using assms(1) by (metis append_take_drop_id map_append)
  with assms(2,3) show ?thesis by (auto simp: sorted_append)
qed

lemma mq_getPending:
  assumes ok: "mq_ok s" and rs: "rs = mq_getPendingEvents p n s"
  shows "distinct rs \<and> set rs \<subseteq> mq_pend s p \<and> length rs = min n (card (mq_pend s p)) \<and>
    sorted (map pe_enqueuedAt rs) \<and>
    (\<forall>r \<in> set rs. \<forall>q \<in> mq_pend s p - set rs. pe_enqueuedAt r \<le> pe_enqueuedAt q)"
proof -
  define xs where "xs = sort_key pe_enqueuedAt (filter (pending_of p) (jvals (mq_rows s)))"
  have xs: "set xs = mq_pend s p" "distinct xs" "sorted (map pe_enqueuedAt xs)" "rs = take n xs"
    using mq_rows_distinct [OF ok] by (simp_all add: xs_def mq_pend_rows [OF ok] rs mq_getPendingEvents_def)
  have part: "q \<in> set (drop n xs)" if "q \<in> mq_pend s p - set rs" for q
  proof -
    have "q \<in> set (take n xs @ drop n xs)" using that xs(1) by simp
    with that xs(4) show ?thesis by (simp only: set_append) blast
  qed
  have "length rs = min n (card (mq_pend s p))"
    using xs distinct_card [OF xs(2)] by simp
  moreover have "sorted (map pe_enqueuedAt rs)" using xs(3,4) by (simp add: sorted_wrt_take take_map [symmetric])
  moreover have "set rs \<subseteq> mq_pend s p" using xs set_take_subset by metis
  ultimately show ?thesis
    using xs part sorted_take_drop [OF xs(3)] by (simp add: xs(4))
qed

interpretation memq: queue_store_laws memory_queue mq_ok mq_pend plain mq_markable
proof (unfold_locales, goal_cases)
  case (1 s p) then show ?case by (simp add: mq_pend_rows)
next
  case (2 s r p) then show ?case using mq_pendD(1,2) by blast
next
  case (3 s r p r') then show ?case by (rule mq_same_event)
next
  case (4 s r p r') then show ?case by (rule mq_same_entity)
next
  case (8 s rs p n) then show ?case using mq_getPending by simp
qed (simp_all add: mq_enqueue_ok mq_enqueue_flag mq_markSent_ok mq_markable_enqueue mq_markable_pend mq_recordRetryFailure_ok mq_expire_ok
    mq_count mq_oldest)

end
