(* ===== verification/Peer_Queue.thy ===== *)
theory Peer_Queue
  imports Peer_Queue_Store
begin

text \<open>
  The per-peer offline queue service (\<open>PeerQueueService\<close> of
  \<open>server/federation/peer-queue.ts\<close>) over any store that keeps the laws: coalescing enqueue with
  the circuit breaker, flush, expiry and metrics. Alert and resync callbacks are returned as lists.
  A flush awaits the transport between fetching its batch and settling it; it is modelled as these
  two steps, so that enqueues may happen in between.
\<close>

section \<open>The service\<close>

record pq_service =
  pq_ttlMs :: int
  pq_threshold :: nat
  pq_circuitOpen :: "string list"
  pq_coalesceCounts :: "(string, nat \<times> nat) jsmap"

datatype enqueue_result = Enqueued | Coalesced | CircuitOpen

record queue_metrics =
  qm_peer :: string
  qm_pendingDepth :: nat
  qm_oldestEventAgeMs :: int
  qm_coalesceRatio :: rat
  qm_circuitOpen :: bool

definition default_ttl_ms :: int where
  "default_ttl_ms = 7 * 24 * 60 * 60 * 1000"

definition default_circuit_breaker_threshold :: nat where
  "default_circuit_breaker_threshold = 500"

definition flush_batch_size :: nat where
  "flush_batch_size = 200"

definition new_pq_service :: "int option \<Rightarrow> nat option \<Rightarrow> pq_service" where
  "new_pq_service ttl threshold =
     \<lparr>pq_ttlMs = (case ttl of None \<Rightarrow> default_ttl_ms | Some t \<Rightarrow> t),
      pq_threshold = (case threshold of None \<Rightarrow> default_circuit_breaker_threshold | Some t \<Rightarrow> t),
      pq_circuitOpen = [], pq_coalesceCounts = []\<rparr>"

definition getCoalesceCounters :: "string \<Rightarrow> pq_service \<Rightarrow> pq_service \<times> (nat \<times> nat)" where
  "getCoalesceCounters p svc =
     (case jget (pq_coalesceCounts svc) p of
        Some c \<Rightarrow> (svc, c)
      | None \<Rightarrow> (svc\<lparr>pq_coalesceCounts := jset p (0, 0) (pq_coalesceCounts svc)\<rparr>, (0, 0)))"

definition pq_enqueue :: "'s queue_store \<Rightarrow> int \<Rightarrow> string \<Rightarrow> string \<Rightarrow> string \<Rightarrow> string \<Rightarrow>
    pq_service \<times> 's \<Rightarrow> (pq_service \<times> 's) \<times> enqueue_result \<times> (string \<times> nat) list" where
  "pq_enqueue st now p e k i = (\<lambda>(svc, s).
     if p \<in> set (pq_circuitOpen svc) then ((svc, s), CircuitOpen, [])
     else
       (let (s1, coalesced) = qo_coalesceAndEnqueue st now p e k i s;
            (svc1, (enq, coal)) = getCoalesceCounters p svc;
            svc2 = svc1\<lparr>pq_coalesceCounts :=
                     jset p (enq + 1, if coalesced then coal + 1 else coal) (pq_coalesceCounts svc1)\<rparr>;
            depth = qo_countPending st p s1;
            res = (if coalesced then Coalesced else Enqueued)
        in if depth \<ge> pq_threshold svc2
           then ((svc2\<lparr>pq_circuitOpen := sadd p (pq_circuitOpen svc2)\<rparr>, s1), res, [(p, depth)])
           else ((svc2, s1), res, [])))"

definition pq_fetch :: "'s queue_store \<Rightarrow> string \<Rightarrow> pq_service \<times> 's \<Rightarrow> (pq_service \<times> 's) \<times> pending_row list" where
  "pq_fetch st p = (\<lambda>(svc, s).
     ((svc\<lparr>pq_circuitOpen := sdel p (pq_circuitOpen svc)\<rparr>, s), qo_getPendingEvents st p flush_batch_size s))"

definition pq_settle :: "'s queue_store \<Rightarrow> int \<Rightarrow> string \<Rightarrow> pending_row list \<Rightarrow> (pending_row \<Rightarrow> bool) \<Rightarrow>
    's \<Rightarrow> 's \<times> (nat \<times> nat)" where
  "pq_settle st now p rows send s =
     (if length rows = 0 then (s, (0, 0))
      else
        (let sentIds = map pe_event (filter send rows);
             failedIds = map pe_event (filter (\<lambda>r. \<not> send r) rows);
             s1 = (if length sentIds > 0 then qo_markSent st p sentIds s else s);
             s2 = (if length failedIds > 0 then qo_recordRetryFailure st now p failedIds s1 else s1)
         in (s2, (length sentIds, length failedIds))))"

definition pq_flush :: "'s queue_store \<Rightarrow> int \<Rightarrow> string \<Rightarrow> (pending_row \<Rightarrow> bool) \<Rightarrow> pq_service \<times> 's \<Rightarrow>
    (pq_service \<times> 's) \<times> (nat \<times> nat)" where
  "pq_flush st now p send q =
     (let ((svc, s), rows) = pq_fetch st p q;
          (s', counts) = pq_settle st now p rows send s
      in ((svc, s'), counts))"

definition pq_pruneTTL :: "'s queue_store \<Rightarrow> int \<Rightarrow> pq_service \<times> 's \<Rightarrow> (pq_service \<times> 's) \<times> string list" where
  "pq_pruneTTL st now = (\<lambda>(svc, s).
     (let (s', affected) = qo_deleteExpiredRows st (now - pq_ttlMs svc) s in ((svc, s'), affected)))"

definition pq_isCircuitOpen :: "string \<Rightarrow> pq_service \<Rightarrow> bool" where
  "pq_isCircuitOpen p svc = (p \<in> set (pq_circuitOpen svc))"

definition pq_resetCircuit :: "string \<Rightarrow> pq_service \<Rightarrow> pq_service" where
  "pq_resetCircuit p svc = svc\<lparr>pq_circuitOpen := sdel p (pq_circuitOpen svc)\<rparr>"

definition pq_getMetrics :: "'s queue_store \<Rightarrow> int \<Rightarrow> string \<Rightarrow> pq_service \<times> 's \<Rightarrow>
    (pq_service \<times> 's) \<times> queue_metrics" where
  "pq_getMetrics st now p = (\<lambda>(svc, s).
     (let depth = qo_countPending st p s;
          ageMs = (case qo_oldestPendingEnqueuedAt st p s of None \<Rightarrow> 0 | Some t \<Rightarrow> now - t);
          (svc1, (enq, coal)) = getCoalesceCounters p svc;
          ratio = (if enq = 0 then 0 else rat_of_nat coal / rat_of_nat enq)
      in ((svc1, s), \<lparr>qm_peer = p, qm_pendingDepth = depth, qm_oldestEventAgeMs = ageMs,
                      qm_coalesceRatio = ratio, qm_circuitOpen = (p \<in> set (pq_circuitOpen svc1))\<rparr>)))"

text \<open>\<open>makeSendEventFn\<close>: the payload handed to the raw transport of message type \<open>config:event\<close>.\<close>

definition makeSendEventFn :: "(string \<Rightarrow> string \<Rightarrow> payload \<Rightarrow> bool) \<Rightarrow> pending_row \<Rightarrow> bool" where
  "makeSendEventFn sendRaw r =
     sendRaw (pe_peer r) ''config:event''
       [(''eventId'', JStr (pe_event r)), (''entityKind'', JStr (pe_kind r)), (''entityId'', JStr (pe_entity r)),
        (''operation'', JStr (pe_operation r)), (''payload'', JObj (pe_payload r))]"

section \<open>What the service does, from the store's laws\<close>

lemma getCoalesceCounters_circuit [simp]:
  "pq_circuitOpen (fst (getCoalesceCounters p svc)) = pq_circuitOpen svc"
  "pq_threshold (fst (getCoalesceCounters p svc)) = pq_threshold svc"
  by (simp_all add: getCoalesceCounters_def split: option.split)

context queue_store_laws
begin

lemma enqueue_closed:
  assumes "ok s" and "named p" and "named k" and "event_fits (pend s p) e k i" and "p \<notin> set (pq_circuitOpen svc)"
    and "pq_enqueue st now p e k i (svc, s) = ((svc', s'), res, alerts)"
  shows "ok s' \<and>
    (\<forall>q. pend s' q = (if q = p then insert (fresh_row now p e k i) {r \<in> pend s p. \<not> same_entity k i r} else pend s q)) \<and>
    res = (if \<exists>r \<in> pend s p. same_entity k i r then Coalesced else Enqueued) \<and>
    set (pq_circuitOpen svc') = set (pq_circuitOpen svc) \<union> (if pq_threshold svc \<le> card (pend s' p) then {p} else {}) \<and>
    alerts = (if pq_threshold svc \<le> card (pend s' p) then [(p, card (pend s' p))] else [])"
proof -
  define s1 where "s1 = fst (qo_coalesceAndEnqueue st now p e k i s)"
  have ok1: "ok s1" unfolding s1_def using assms(1-4) by (rule ok_enqueue)
  have "qo_countPending st p s1 = card (pend s1 p)" using ok1 by (rule countPending)
  moreover have "s' = s1"
    using assms(5,6) by (simp add: pq_enqueue_def s1_def case_prod_beta Let_def split: if_splits)
  ultimately show ?thesis
    using assms(5,6) ok1 enqueue_flag [OF assms(1-3), of now e i] pend_enqueue [OF assms(1-4), of now]
    by (auto simp: pq_enqueue_def s1_def [symmetric] case_prod_beta Let_def split: if_splits)
qed

lemma settle_effect:
  assumes ok: "ok s" and n: "named p" and d: "distinct (map pe_event rows)"
    and m: "list_all (markable s p) (map pe_event rows)"
  shows "ok (fst (pq_settle st now p rows send s)) \<and>
    (\<forall>q. pend (fst (pq_settle st now p rows send s)) q =
      (if q = p then (\<lambda>r. if pe_event r \<in> pe_event ` {x \<in> set rows. \<not> send x} then retried now r else r) `
                       {r \<in> pend s p. pe_event r \<notin> pe_event ` {x \<in> set rows. send x}}
       else pend s q)) \<and>
    fst (snd (pq_settle st now p rows send s)) + snd (snd (pq_settle st now p rows send s)) = length rows"
proof -
  let ?ok = "map pe_event (filter send rows)" and ?bad = "map pe_event (filter (\<lambda>r. \<not> send r) rows)"
  have dd: "distinct ?ok" "distinct ?bad" using d by (simp_all add: distinct_map_filter)
  have mk: "list_all (markable s p) ?ok" using m by (auto simp: list_all_iff)
  define s1 where "s1 = (if length ?ok > 0 then qo_markSent st p ?ok s else s)"
  have s1: "ok s1" "pend s1 q = (if q = p then {r \<in> pend s p. pe_event r \<notin> set ?ok} else pend s q)" for q
    using ok ok_markSent [OF ok n dd(1) mk] pend_markSent [OF ok n dd(1) mk, of q]
    by (simp_all only: s1_def split: if_split) simp_all
  define s2 where "s2 = (if length ?bad > 0 then qo_recordRetryFailure st now p ?bad s1 else s1)"
  have s2: "ok s2" "pend s2 q = (if q = p then (\<lambda>r. if pe_event r \<in> set ?bad then retried now r else r) ` pend s1 p else pend s1 q)" for q
    using s1(1) ok_retry [OF s1(1) n, of now ?bad] pend_retry [OF s1(1) n dd(2), of now q]
    by (simp_all only: s2_def split: if_split) simp_all
  have sets: "set ?ok = pe_event ` {x \<in> set rows. send x}" "set ?bad = pe_event ` {x \<in> set rows. \<not> send x}"
    by simp_all
  have res: "fst (pq_settle st now p rows send s) = s2" "snd (pq_settle st now p rows send s) = (length ?ok, length ?bad)"
    by (simp_all add: pq_settle_def s2_def s1_def Let_def)
  have "length ?ok + length ?bad = length rows" by (simp add: sum_length_filter_compl)
  with s2 s1(2) res show ?thesis unfolding sets by simp
qed

end

section \<open>The service on the in-memory store\<close>


definition one_row_store :: memory_queue_store where
  "one_row_store = fst (mq_coalesceAndEnqueue 1 ''p'' ''e1'' ''prompt'' ''x'' new_memory_queue_store)"

lemma plain_examples: "plain ''p''" "plain ''prompt''"
  by (simp_all add: plain_def)

lemma one_row_pend: "mq_ok one_row_store \<and> mq_pend one_row_store ''p'' = {fresh_row 1 ''p'' ''e1'' ''prompt'' ''x''}"
proof -
  have "mq_pend new_memory_queue_store ''p'' = {}" by (simp add: mq_pend_def new_memory_queue_store_def)
  then show ?thesis
    using mq_enqueue_ok [OF mq_ok_new plain_examples, of "''e1''" "''x''" 1]
    by (simp add: one_row_store_def event_fits_def)
qed

lemma one_row_fits: "e \<noteq> ''e1'' \<Longrightarrow> event_fits (mq_pend one_row_store ''p'') e ''prompt'' ''x''"
  using one_row_pend by (simp add: event_fits_def fresh_row_def)


text \<open>Enqueues of any peers and entities, one after the other.\<close>

inductive enqueues :: "pq_service \<times> memory_queue_store \<Rightarrow> pq_service \<times> memory_queue_store \<Rightarrow> bool" where
  enqueues_none: "enqueues q q"
| enqueues_more: "enqueues q (svc, s) \<Longrightarrow> plain p \<Longrightarrow> plain k \<Longrightarrow> event_fits (mq_pend s p) e k i \<Longrightarrow>
    enqueues q (fst (pq_enqueue memory_queue now p e k i (svc, s)))"

lemma enqueue_store:
  "snd (fst (pq_enqueue memory_queue now p e k i (svc, s))) =
    (if p \<in> set (pq_circuitOpen svc) then s else fst (mq_coalesceAndEnqueue now p e k i s))"
  by (simp add: pq_enqueue_def case_prod_beta Let_def)

lemma enqueues_keep:
  "enqueues q q' \<Longrightarrow> mq_ok (snd q) \<Longrightarrow> mq_ok (snd q') \<and> (\<forall>p e. mq_markable (snd q) p e \<longrightarrow> mq_markable (snd q') p e)"
proof (induction rule: enqueues.induct)
  case (enqueues_more q svc s p k e i now)
  then show ?case by (simp add: enqueue_store mq_enqueue_ok mq_markable_enqueue)
qed simp

text \<open>
  C25: a flush sends the oldest pending events of the peer, at most 200, and enqueues may happen while
  it waits for the transport. Settling the batch loses nothing: an event enqueued meanwhile stays pending
  unchanged, also when it replaced an event of the batch; a delivered event is no longer pending; an
  undelivered one that is still current stays pending with one more retry; other peers are
  untouched, and the two counts add up to the batch.
\<close>

theorem flush_keeps_interleaved_events:
  assumes "mq_ok s0" and "plain p" and "pq_fetch memory_queue p (svc0, s0) = ((svc, s0'), rows)"
    and "enqueues (svc, s0') (svc1, s1)" and "pq_settle memory_queue now p rows send s1 = (s2, (sent, failed))"
  shows "mq_ok s2 \<and> sent + failed = length rows \<and> length rows = min 200 (card (mq_pend s0 p)) \<and>
    (\<forall>r \<in> mq_pend s1 p. pe_event r \<notin> pe_event ` set rows \<longrightarrow> r \<in> mq_pend s2 p) \<and>
    (\<forall>r \<in> set rows. send r \<longrightarrow> pe_event r \<notin> pe_event ` mq_pend s2 p) \<and>
    (\<forall>r \<in> set rows. \<not> send r \<and> r \<in> mq_pend s1 p \<longrightarrow> retried now r \<in> mq_pend s2 p) \<and>
    (\<forall>q. q \<noteq> p \<longrightarrow> mq_pend s2 q = mq_pend s1 q)"
proof -
  have f: "s0' = s0" "rows = mq_getPendingEvents p 200 s0"
    using assms(3) by (auto simp: pq_fetch_def flush_batch_size_def)
  note g = mq_getPending [OF assms(1) f(2)]
  have ev: "r = r'" if "r \<in> set rows" "r' \<in> set rows" "pe_event r = pe_event r'" for r r'
    using mq_same_event [OF assms(1)] that g by blast
  then have d: "distinct (map pe_event rows)" using g by (auto simp: distinct_map inj_on_def)
  have k: "mq_ok s1" "\<And>p e. mq_markable s0 p e \<Longrightarrow> mq_markable s1 p e"
    using enqueues_keep [OF assms(4)] assms(1) f(1) by auto
  have m: "list_all (mq_markable s1 p) (map pe_event rows)"
    using g k(2) mq_markable_pend [OF assms(1)] by (auto simp: list_all_iff)
  note e = memq.settle_effect [OF k(1) assms(2) d m, of now send, unfolded assms(5), simplified]
  have p2: "mq_pend s2 p = (\<lambda>r. if pe_event r \<in> pe_event ` {x \<in> set rows. \<not> send x} then retried now r else r) `
      {r \<in> mq_pend s1 p. pe_event r \<notin> pe_event ` {x \<in> set rows. send x}}" using e by simp
  have stay: "\<forall>r \<in> mq_pend s1 p. pe_event r \<notin> pe_event ` set rows \<longrightarrow> r \<in> mq_pend s2 p"
    unfolding p2 by (intro ballI impI rev_image_eqI) auto
  have gone: "\<forall>r \<in> set rows. send r \<longrightarrow> pe_event r \<notin> pe_event ` mq_pend s2 p"
  proof -
    have eq: "pe_event ` mq_pend s2 p = pe_event ` {r \<in> mq_pend s1 p. pe_event r \<notin> pe_event ` {x \<in> set rows. send x}}"
      unfolding p2 image_image by (rule image_cong) simp_all
    show ?thesis
    proof (intro ballI impI notI)
      fix r assume r: "r \<in> set rows" "send r" "pe_event r \<in> pe_event ` mq_pend s2 p"
      from r(3) have "pe_event r \<notin> pe_event ` {x \<in> set rows. send x}" unfolding eq
        by (elim imageE) (simp only: mem_Collect_eq conj_commute, simp)
      moreover from r(1,2) have "pe_event r \<in> pe_event ` {x \<in> set rows. send x}" by blast
      ultimately show False by simp
    qed
  qed
  have again: "\<forall>r \<in> set rows. \<not> send r \<and> r \<in> mq_pend s1 p \<longrightarrow> retried now r \<in> mq_pend s2 p"
    unfolding p2
  proof (intro ballI impI)
    fix r assume r: "r \<in> set rows" "\<not> send r \<and> r \<in> mq_pend s1 p"
    have "pe_event r \<notin> pe_event ` {x \<in> set rows. send x}" using ev r by fastforce
    with r show "retried now r \<in> (\<lambda>r. if pe_event r \<in> pe_event ` {x \<in> set rows. \<not> send x} then retried now r else r) `
        {r \<in> mq_pend s1 p. pe_event r \<notin> pe_event ` {x \<in> set rows. send x}}"
      by (intro rev_image_eqI [of r]) auto
  qed
  from e g stay gone again show ?thesis by simp
qed

lemma flush_keeps_interleaved_events_witness:
  "let ((svc, s0), rows) = pq_fetch memory_queue ''p'' (new_pq_service None None, one_row_store);
       q = fst (pq_enqueue memory_queue 2 ''p'' ''e2'' ''prompt'' ''x'' (svc, s0));
       s2 = fst (pq_settle memory_queue 3 ''p'' rows (\<lambda>_. True) (snd q))
   in fresh_row 2 ''p'' ''e2'' ''prompt'' ''x'' \<in> mq_pend s2 ''p''"
proof -
  obtain svc s0 rows where fetch: "pq_fetch memory_queue ''p'' (new_pq_service None None, one_row_store) = ((svc, s0), rows)"
    by (metis prod.collapse)
  then have s0: "s0 = one_row_store" and svc: "pq_circuitOpen svc = []"
    and rows: "rows = mq_getPendingEvents ''p'' 200 one_row_store"
    by (auto simp: pq_fetch_def flush_batch_size_def new_pq_service_def sdel_def)
  have sub: "set rows \<subseteq> {fresh_row 1 ''p'' ''e1'' ''prompt'' ''x''}"
    using mq_getPending [OF one_row_pend [THEN conjunct1] rows] one_row_pend by simp
  have fits: "event_fits (mq_pend s0 ''p'') ''e2'' ''prompt'' ''x''" unfolding s0 by (rule one_row_fits) simp
  obtain svc1 s1 where q: "fst (pq_enqueue memory_queue 2 ''p'' ''e2'' ''prompt'' ''x'' (svc, s0)) = (svc1, s1)"
    by (metis prod.collapse)
  have step: "enqueues (svc, s0) (svc1, s1)"
    using enqueues_more [OF enqueues_none [of "(svc, s0)"] plain_examples fits, of 2] q by simp
  have s1: "s1 = fst (mq_coalesceAndEnqueue 2 ''p'' ''e2'' ''prompt'' ''x'' one_row_store)"
    using q enqueue_store [of 2 "''p''" "''e2''" "''prompt''" "''x''" svc s0] svc s0 by simp
  obtain s2 a b where settle: "pq_settle memory_queue 3 ''p'' rows (\<lambda>_. True) s1 = (s2, (a, b))" by (metis prod.collapse)
  have "fresh_row 2 ''p'' ''e2'' ''prompt'' ''x'' \<in> mq_pend s1 ''p''"
    using mq_enqueue_ok [OF one_row_pend [THEN conjunct1] plain_examples fits [unfolded s0], of 2] by (simp add: s1)
  moreover have "pe_event (fresh_row 2 ''p'' ''e2'' ''prompt'' ''x'') \<notin> pe_event ` set rows"
    using sub by (auto simp: fresh_row_def)
  ultimately have "fresh_row 2 ''p'' ''e2'' ''prompt'' ''x'' \<in> mq_pend s2 ''p''"
    using flush_keeps_interleaved_events [OF one_row_pend [THEN conjunct1] plain_examples(1) fetch step settle] by blast
  then show ?thesis using fetch q settle by simp
qed

text \<open>
  the guard of the circuit breaker does not outlive a reconnect. The header says the circuit stays
  open until the queue drains below the threshold; a flush closes it before anything is delivered,
  so that after a flush whose every delivery failed the queue is as deep as before and enqueues
  are accepted again.
\<close>

theorem failed_flush_closes_circuit:
  assumes "mq_ok s" and "plain p"
    and "pq_flush memory_queue now p (\<lambda>_. False) (svc, s) = ((svc', s'), counts)"
  shows "\<not> pq_isCircuitOpen p svc' \<and> card (mq_pend s' p) = card (mq_pend s p)"
proof -
  define rows where "rows = mq_getPendingEvents p 200 s"
  note g = mq_getPending [OF assms(1) rows_def]
  have "r = r'" if "r \<in> set rows" "r' \<in> set rows" "pe_event r = pe_event r'" for r r'
    using mq_same_event [OF assms(1)] that g by blast
  then have d: "distinct (map pe_event rows)" using g by (auto simp: distinct_map inj_on_def)
  have m: "list_all (mq_markable s p) (map pe_event rows)"
    using g mq_markable_pend [OF assms(1)] by (auto simp: list_all_iff)
  have s': "s' = fst (pq_settle memory_queue now p rows (\<lambda>_. False) s)" "pq_circuitOpen svc' = sdel p (pq_circuitOpen svc)"
    using assms(3) by (auto simp: pq_flush_def pq_fetch_def Let_def case_prod_beta rows_def flush_batch_size_def)
  have "mq_pend s' p = (\<lambda>r. if pe_event r \<in> pe_event ` set rows then retried now r else r) ` mq_pend s p"
    using memq.settle_effect [OF assms(1,2) d m, of now "\<lambda>_. False"] by (simp add: s')
  moreover have "inj_on (\<lambda>r. if pe_event r \<in> pe_event ` set rows then retried now r else r) (mq_pend s p)"
    using mq_same_event [OF assms(1)] by (intro inj_onI) (metis retried_fields(2))
  ultimately have "card (mq_pend s' p) = card (mq_pend s p)" by (simp only: card_image)
  then show ?thesis using s'(2) by (simp add: pq_isCircuitOpen_def)
qed

lemma failed_flush_closes_circuit_witness:
  "\<not> pq_isCircuitOpen ''p'' (fst (fst (pq_flush memory_queue 3 ''p'' (\<lambda>_. False)
      (new_pq_service None (Some 1)\<lparr>pq_circuitOpen := [''p'']\<rparr>, one_row_store))))"
  using failed_flush_closes_circuit [OF one_row_pend [THEN conjunct1] plain_examples(1)] by (metis prod.collapse)

text \<open>
  two overlapping flushes of one peer break the coalescing. Both fetch the event \<open>e1\<close>; the first
  marks it sent, a new event \<open>e2\<close> of the entity is enqueued, and the second marks \<open>e1\<close> again, which
  deletes the index entry of \<open>e2\<close>: the next event of the entity no longer replaces it, and the entity
  has two pending events.
\<close>

theorem overlapping_flushes_duplicate:
  "let rows = mq_getPendingEvents ''p'' 200 one_row_store;
       s1 = fst (pq_settle memory_queue 2 ''p'' rows (\<lambda>_. True) one_row_store);
       s2 = fst (mq_coalesceAndEnqueue 3 ''p'' ''e2'' ''prompt'' ''x'' s1);
       s3 = fst (pq_settle memory_queue 4 ''p'' rows (\<lambda>_. True) s2);
       (s4, coalesced) = mq_coalesceAndEnqueue 5 ''p'' ''e3'' ''prompt'' ''x'' s3
   in \<not> coalesced \<and> map pe_event (mq_getPendingEvents ''p'' 200 s4) = [''e2'', ''e3''] \<and>
      list_all (same_entity ''prompt'' ''x'') (mq_getPendingEvents ''p'' 200 s4)"
  by code_simp

end
