(* ===== verification/Config_Sync.thy ===== *)
theory Config_Sync
  imports Config_Conflict Peer_Queue Js_Date
begin

text \<open>
  The config-sync event stream (\<open>server/federation/config-sync.ts\<close>): the transactional outbox, the
  publisher loop with its per-peer offline queues, the subscriber with idempotency and conflict
  detection, and the default dispatcher to the entity appliers. The federation transport is a
  function that tells whether a send to a peer succeeds; the main storage is a parameter, its
  calls are listed by the dispatcher.
\<close>

section \<open>The outbox and the interface of the store\<close>

record outbox_row =
  ob_id :: string
  ob_kind :: string
  ob_entity :: string
  ob_op :: config_op
  ob_payload :: payload
  ob_createdAt :: int

record 's sync_store =
  io_insertConfigEvent :: "string \<Rightarrow> int \<Rightarrow> string \<Rightarrow> string \<Rightarrow> config_op \<Rightarrow> payload \<Rightarrow> 's \<Rightarrow> 's \<times> string"
  io_getUnsentConfigEvents :: "nat \<Rightarrow> 's \<Rightarrow> outbox_row list"
  io_markConfigEventsSent :: "int \<Rightarrow> string list \<Rightarrow> 's \<Rightarrow> 's"
  io_recordConfigEventReceived :: "string \<Rightarrow> string \<Rightarrow> string \<Rightarrow> string \<Rightarrow> 's \<Rightarrow> 's \<times> bool"

text \<open>
  \<open>seen s p k e v\<close>: the idempotency record holds this key. \<open>unsent s\<close>: the outbox rows without a
  send date. The flag of a record is exactly "not seen before", and nothing is ever forgotten.
\<close>

locale sync_store_laws =
  fixes st :: "'s sync_store" and seen :: "'s \<Rightarrow> string \<Rightarrow> string \<Rightarrow> string \<Rightarrow> string \<Rightarrow> bool"
    and unsent :: "'s \<Rightarrow> outbox_row set"
  assumes record_flag: "snd (io_recordConfigEventReceived st p k e v s) = (\<not> seen s p k e v)"
    and record_seen: "seen (fst (io_recordConfigEventReceived st p k e v s)) p k e v"
    and record_keeps: "seen s p' k' e' v' \<Longrightarrow> seen (fst (io_recordConfigEventReceived st p k e v s)) p' k' e' v'"
    and unsent_get: "set (io_getUnsentConfigEvents st n s) \<subseteq> unsent s"
    and unsent_mark: "unsent (io_markConfigEventsSent st now ids s) = {r \<in> unsent s. ob_id r \<notin> set ids}"
    and unsent_insert: "unsent (fst (io_insertConfigEvent st rid now k e oper pay s)) =
      insert \<lparr>ob_id = rid, ob_kind = k, ob_entity = e, ob_op = oper, ob_payload = pay, ob_createdAt = now\<rparr> (unsent s)"

record memory_sync_store =
  ms_outbox :: "(outbox_row \<times> int option) list"
  ms_received :: "string list"

definition new_memory_sync_store :: memory_sync_store where
  "new_memory_sync_store = \<lparr>ms_outbox = [], ms_received = []\<rparr>"

definition ms_insertConfigEvent :: "string \<Rightarrow> int \<Rightarrow> string \<Rightarrow> string \<Rightarrow> config_op \<Rightarrow> payload \<Rightarrow> memory_sync_store \<Rightarrow>
    memory_sync_store \<times> string" where
  "ms_insertConfigEvent rid now k e oper pay s =
     (s\<lparr>ms_outbox := ms_outbox s @ [(\<lparr>ob_id = rid, ob_kind = k, ob_entity = e, ob_op = oper, ob_payload = pay,
                                      ob_createdAt = now\<rparr>, None)]\<rparr>, rid)"

definition ms_getUnsentConfigEvents :: "nat \<Rightarrow> memory_sync_store \<Rightarrow> outbox_row list" where
  "ms_getUnsentConfigEvents limit s =
     take limit (sort_key ob_createdAt (map fst (filter (\<lambda>(_, sentAt). sentAt = None) (ms_outbox s))))"

definition ms_markConfigEventsSent :: "int \<Rightarrow> string list \<Rightarrow> memory_sync_store \<Rightarrow> memory_sync_store" where
  "ms_markConfigEventsSent now ids s =
     s\<lparr>ms_outbox := map (\<lambda>(r, sentAt). (r, if ob_id r \<in> set ids then Some now else sentAt)) (ms_outbox s)\<rparr>"

definition received_key :: "string \<Rightarrow> string \<Rightarrow> string \<Rightarrow> string \<Rightarrow> string" where
  "received_key p k e v = p @ '':'' @ k @ '':'' @ e @ '':'' @ v"

definition ms_recordConfigEventReceived :: "string \<Rightarrow> string \<Rightarrow> string \<Rightarrow> string \<Rightarrow> memory_sync_store \<Rightarrow>
    memory_sync_store \<times> bool" where
  "ms_recordConfigEventReceived p k e v s =
     (let key = received_key p k e v
      in if key \<in> set (ms_received s) then (s, False)
         else (s\<lparr>ms_received := sadd key (ms_received s)\<rparr>, True))"

definition ms_getAllOutboxRows :: "memory_sync_store \<Rightarrow> (outbox_row \<times> int option) list" where
  "ms_getAllOutboxRows s = ms_outbox s"

definition ms_reset :: "memory_sync_store \<Rightarrow> memory_sync_store" where
  "ms_reset s = s\<lparr>ms_outbox := [], ms_received := []\<rparr>"

definition memory_sync :: "memory_sync_store sync_store" where
  "memory_sync =
     \<lparr>io_insertConfigEvent = ms_insertConfigEvent,
      io_getUnsentConfigEvents = ms_getUnsentConfigEvents,
      io_markConfigEventsSent = ms_markConfigEventsSent,
      io_recordConfigEventReceived = ms_recordConfigEventReceived\<rparr>"

definition ms_seen :: "memory_sync_store \<Rightarrow> string \<Rightarrow> string \<Rightarrow> string \<Rightarrow> string \<Rightarrow> bool" where
  "ms_seen s p k e v = (received_key p k e v \<in> set (ms_received s))"

definition ms_unsent :: "memory_sync_store \<Rightarrow> outbox_row set" where
  "ms_unsent s = {r. (r, None) \<in> set (ms_outbox s)}"

interpretation memsync: sync_store_laws memory_sync ms_seen ms_unsent
proof (unfold_locales, goal_cases)
  case (4 n s)
  have "set (take n xs) \<subseteq> set xs" for xs :: "outbox_row list" by (rule set_take_subset)
  then show ?case by (fastforce simp: memory_sync_def ms_getUnsentConfigEvents_def ms_unsent_def)
next
  case (5 now ids s)
  then show ?case
    by (force simp: memory_sync_def ms_markConfigEventsSent_def ms_unsent_def split: if_splits)
qed (auto simp: memory_sync_def ms_seen_def ms_recordConfigEventReceived_def ms_insertConfigEvent_def
    ms_unsent_def Let_def)

section \<open>Messages\<close>

fun op_text :: "config_op \<Rightarrow> string" where
  "op_text CreateOp = ''create''"
| "op_text UpdateOp = ''update''"
| "op_text DeleteOp = ''delete''"

definition op_of_text :: "string \<Rightarrow> config_op option" where
  "op_of_text t =
     (if t = ''create'' then Some CreateOp else if t = ''update'' then Some UpdateOp
      else if t = ''delete'' then Some DeleteOp else None)"

definition event_message :: "string \<Rightarrow> string \<Rightarrow> string \<Rightarrow> string \<Rightarrow> payload \<Rightarrow> string \<Rightarrow> string \<Rightarrow> payload" where
  "event_message inst k e oper pay v issuedAt =
     [(''from'', JStr inst),
      (''event'', JObj [(''entityKind'', JStr k), (''entityId'', JStr e), (''operation'', JStr oper),
                      (''payload'', JObj pay), (''version'', JStr v), (''issuedAt'', JStr issuedAt)])]"

definition row_message :: "string \<Rightarrow> outbox_row \<Rightarrow> payload" where
  "row_message inst r =
     event_message inst (ob_kind r) (ob_entity r) (op_text (ob_op r)) (ob_payload r)
       (toISOString (ob_createdAt r)) (toISOString (ob_createdAt r))"

text \<open>
  The validation of \<open>handleIncoming\<close>. A payload passes when it is an object; an array does too, and is
  then read as the record of its indices.
\<close>

fun record_of :: "json \<Rightarrow> payload option" where
  "record_of (JObj ps) = Some ps"
| "record_of (JArr xs) = Some (zip (map show_nat [0..<length xs]) xs)"
| "record_of _ = None"

definition nonempty_str :: "json option \<Rightarrow> string option" where
  "nonempty_str v = (case v of Some (JStr t) \<Rightarrow> (if length t = 0 then None else Some t) | _ \<Rightarrow> None)"

record config_event =
  ce_kind :: string
  ce_entity :: string
  ce_op :: config_op
  ce_payload :: payload
  ce_version :: string

definition parse_incoming :: "json \<Rightarrow> config_event option" where
  "parse_incoming raw =
     (case json_field raw ''event'' of
        Some ev \<Rightarrow>
          (case (nonempty_str (json_field ev ''entityKind''), nonempty_str (json_field ev ''entityId''),
                 Option.bind (Option.bind (json_field ev ''operation'') json_str) op_of_text,
                 Option.bind (json_field ev ''payload'') record_of,
                 nonempty_str (json_field ev ''version'')) of
             (Some k, Some e, Some oper, Some pay, Some v) \<Rightarrow>
               Some \<lparr>ce_kind = k, ce_entity = e, ce_op = oper, ce_payload = pay, ce_version = v\<rparr>
           | _ \<Rightarrow> None)
      | None \<Rightarrow> None)"

section \<open>The subscriber\<close>

datatype incoming_outcome = Ignored | Duplicate | Blocked | Applied | ApplyFailed string

text \<open>
  \<open>detector\<close> is the optional conflict detector: its store, its overrides; \<open>applyOne\<close> writes one
  entity to the main storage or rejects. The state is the sync store, the conflict store and the
  main storage. A rejection leaves the effects made before it.
\<close>

definition handleIncoming :: "'s sync_store \<Rightarrow> ('c conflict_store \<times> (string, cc_strategy) jsmap) option \<Rightarrow>
    (string \<Rightarrow> string \<Rightarrow> config_op \<Rightarrow> payload \<Rightarrow> 'g \<Rightarrow> string + 'g) \<Rightarrow> cc_env \<Rightarrow> string \<Rightarrow> json \<Rightarrow>
    's \<times> 'c \<times> 'g \<Rightarrow> ('s \<times> 'c \<times> 'g) \<times> incoming_outcome" where
  "handleIncoming st detector applyOne env peer raw = (\<lambda>(s, c, g).
     (case parse_incoming raw of
        None \<Rightarrow> ((s, c, g), Ignored)
      | Some ev \<Rightarrow>
          (let (s1, isNew) = io_recordConfigEventReceived st peer (ce_kind ev) (ce_entity ev) (ce_version ev) s;
               run = (\<lambda>c1 pay. case applyOne (ce_kind ev) (ce_entity ev) (ce_op ev) pay g of
                                 Inl err \<Rightarrow> ((s1, c1, g), ApplyFailed err)
                               | Inr g1 \<Rightarrow> ((s1, c1, g1), Applied))
           in if \<not> isNew then ((s1, c, g), Duplicate)
              else case detector of
                     None \<Rightarrow> run c (ce_payload ev)
                   | Some (cst, overrides) \<Rightarrow>
                       (case cc_check cst overrides env peer (ce_kind ev) (ce_entity ev) (ce_version ev)
                               (ce_payload ev) (ce_op ev) c of
                          (c1, Conflicted _ False _) \<Rightarrow> ((s1, c1, g), Blocked)
                        | (c1, Conflicted _ True (Some merged)) \<Rightarrow> run c1 merged
                        | (c1, _) \<Rightarrow> run c1 (ce_payload ev)))))"

section \<open>The default appliers\<close>

datatype storage_call =
    CreateTrigger string bool json
  | UpdateTrigger string bool json
  | CreateSkill string string string string
  | UpdateSkill string string "string option" "string option" "string option"

definition str_field :: "payload \<Rightarrow> string \<Rightarrow> string option" where
  "str_field p f = Option.bind (jget p f) json_str"

definition str_or_empty :: "payload \<Rightarrow> string \<Rightarrow> string" where
  "str_or_empty p f = (case str_field p f of Some t \<Rightarrow> t | None \<Rightarrow> [])"

definition enabled_of :: "payload \<Rightarrow> bool" where
  "enabled_of p = (case jget p ''enabled'' of Some (JBool b) \<Rightarrow> b | _ \<Rightarrow> True)"

definition config_of :: "payload \<Rightarrow> json" where
  "config_of p = (if nullish (jget p ''config'') then JObj [] else the (jget p ''config''))"

definition applyTriggerEvent :: "config_op \<Rightarrow> payload \<Rightarrow> storage_call list" where
  "applyTriggerEvent oper p =
     (if oper = DeleteOp then []
      else (let triggerId = str_field p ''id''
            in if oper = CreateOp \<or> oper = UpdateOp \<and> (triggerId = None \<or> triggerId = Some [])
               then [CreateTrigger (case Option.bind (json_field (config_of p) ''type'') json_str of
                                      Some t \<Rightarrow> t | None \<Rightarrow> ''webhook'') (enabled_of p) (config_of p)]
               else [UpdateTrigger (the triggerId) (enabled_of p) (config_of p)]))"

definition applySkillEvent :: "config_op \<Rightarrow> payload \<Rightarrow> storage_call list" where
  "applySkillEvent oper p =
     (if oper = DeleteOp then []
      else (let skillId = str_field p ''id''
            in case str_field p ''name'' of
                 None \<Rightarrow> []
               | Some name \<Rightarrow>
                   if name = [] then []
                   else if oper = CreateOp
                   then [CreateSkill name (str_or_empty p ''description'') (str_or_empty p ''teamId'')
                           (str_or_empty p ''systemPromptOverride'')]
                   else if skillId \<noteq> None \<and> skillId \<noteq> Some []
                   then [UpdateSkill (the skillId) name (str_field p ''description'') (str_field p ''teamId'')
                           (str_field p ''systemPromptOverride'')]
                   else []))"

definition defaultApplyOne :: "string \<Rightarrow> string \<Rightarrow> config_op \<Rightarrow> payload \<Rightarrow> storage_call list" where
  "defaultApplyOne k e oper p =
     (if k = ''trigger'' then applyTriggerEvent oper p
      else if k = ''skill'' then applySkillEvent oper p else [])"

section \<open>The publisher\<close>

definition max_batch_size :: nat where
  "max_batch_size = 100"

text \<open>
  One row to one peer: \<open>deliver peer message\<close> is the transport; a failure goes to the peer's queue
  when one is wired.
\<close>

definition publish_to_peer :: "'q queue_store \<Rightarrow> int \<Rightarrow> (string \<Rightarrow> payload \<Rightarrow> bool) \<Rightarrow> string \<Rightarrow> outbox_row \<Rightarrow>
    (pq_service \<times> 'q) option \<times> bool \<Rightarrow> string \<Rightarrow> (pq_service \<times> 'q) option \<times> bool" where
  "publish_to_peer qst now deliver inst row acc peer =
     (if deliver peer (row_message inst row) then acc
      else (map_option (\<lambda>q. fst (pq_enqueue qst now peer (ob_id row) (ob_kind row) (ob_entity row) q)) (fst acc), False))"

definition publish_row :: "'q queue_store \<Rightarrow> int \<Rightarrow> (string \<Rightarrow> payload \<Rightarrow> bool) \<Rightarrow> string \<Rightarrow> string list \<Rightarrow>
    (pq_service \<times> 'q) option \<times> string list \<Rightarrow> outbox_row \<Rightarrow> (pq_service \<times> 'q) option \<times> string list" where
  "publish_row qst now deliver inst peers acc row =
     (let (q, deliveredToAll) = foldl (publish_to_peer qst now deliver inst row) (fst acc, True) peers
      in (q, if deliveredToAll then snd acc @ [ob_id row] else snd acc))"

definition publishPending :: "'s sync_store \<Rightarrow> 'q queue_store \<Rightarrow> int \<Rightarrow> (string \<Rightarrow> payload \<Rightarrow> bool) \<Rightarrow> string \<Rightarrow>
    string list \<Rightarrow> 's \<times> (pq_service \<times> 'q) option \<Rightarrow> 's \<times> (pq_service \<times> 'q) option" where
  "publishPending st qst now deliver inst peers = (\<lambda>(s, q).
     if length peers = 0 then (s, q)
     else (let unsent = io_getUnsentConfigEvents st max_batch_size s
           in if length unsent = 0 then (s, q)
              else (let (q', fullyDelivered) = foldl (publish_row qst now deliver inst peers) (q, []) unsent
                    in (if length fullyDelivered > 0 then io_markConfigEventsSent st now fullyDelivered s else s, q'))))"

text \<open>The send function a flush uses by default: the version is the time of the flush.\<close>

definition defaultFlushSend :: "(string \<Rightarrow> payload \<Rightarrow> bool) \<Rightarrow> string \<Rightarrow> int \<Rightarrow> pending_row \<Rightarrow> bool" where
  "defaultFlushSend deliver inst now r =
     deliver (pe_peer r) (event_message inst (pe_kind r) (pe_entity r) (pe_operation r) (pe_payload r)
                            (toISOString now) (toISOString now))"

definition flushPeer :: "'q queue_store \<Rightarrow> int \<Rightarrow> (pending_row \<Rightarrow> bool) option \<Rightarrow> (string \<Rightarrow> payload \<Rightarrow> bool) \<Rightarrow> string \<Rightarrow>
    string \<Rightarrow> (pq_service \<times> 'q) option \<Rightarrow> (pq_service \<times> 'q) option \<times> (nat \<times> nat)" where
  "flushPeer qst now flushSend deliver inst peer q =
     (case q of
        None \<Rightarrow> (None, (0, 0))
      | Some sq \<Rightarrow>
          (let (sq', counts) = pq_flush qst now peer
                 (case flushSend of Some f \<Rightarrow> f | None \<Rightarrow> defaultFlushSend deliver inst now) sq
           in (Some sq', counts)))"

definition handleHeartbeat :: "'q queue_store \<Rightarrow> int \<Rightarrow> (pending_row \<Rightarrow> bool) option \<Rightarrow> (string \<Rightarrow> payload \<Rightarrow> bool) \<Rightarrow>
    string \<Rightarrow> string \<Rightarrow> (pq_service \<times> 'q) option \<Rightarrow> (pq_service \<times> 'q) option" where
  "handleHeartbeat qst now flushSend deliver inst peer q = fst (flushPeer qst now flushSend deliver inst peer q)"

definition enqueueConfigEvent :: "'s sync_store \<Rightarrow> string \<Rightarrow> int \<Rightarrow> string \<Rightarrow> string \<Rightarrow> config_op \<Rightarrow> payload \<Rightarrow> 's \<Rightarrow>
    's \<times> string" where
  "enqueueConfigEvent st rid now k e oper pay s = io_insertConfigEvent st rid now k e oper pay s"

definition makeEnqueuer :: "'s sync_store option \<Rightarrow> string \<Rightarrow> int \<Rightarrow> string \<Rightarrow> string \<Rightarrow> config_op \<Rightarrow> payload \<Rightarrow> 's \<Rightarrow> 's" where
  "makeEnqueuer service rid now k e oper pay s =
     (case service of None \<Rightarrow> s | Some st \<Rightarrow> fst (enqueueConfigEvent st rid now k e oper pay s))"

section \<open>Idempotent delivery\<close>

text \<open>A run of the subscriber over a sequence of messages.\<close>

definition handle_all :: "'s sync_store \<Rightarrow> ('c conflict_store \<times> (string, cc_strategy) jsmap) option \<Rightarrow>
    (string \<Rightarrow> string \<Rightarrow> config_op \<Rightarrow> payload \<Rightarrow> 'g \<Rightarrow> string + 'g) \<Rightarrow> (cc_env \<times> string \<times> json) list \<Rightarrow>
    's \<times> 'c \<times> 'g \<Rightarrow> 's \<times> 'c \<times> 'g" where
  "handle_all st detector applyOne msgs x =
     foldl (\<lambda>y (env, peer, raw). fst (handleIncoming st detector applyOne env peer raw y)) x msgs"

text \<open>Whatever happens after validation, the sync store is the one the record left.\<close>

lemma handleIncoming_sync:
  "fst (fst (handleIncoming st detector applyOne env peer raw (s, c, g))) =
    (case parse_incoming raw of None \<Rightarrow> s
     | Some ev \<Rightarrow> fst (io_recordConfigEventReceived st peer (ce_kind ev) (ce_entity ev) (ce_version ev) s))"
  by (auto simp: handleIncoming_def case_prod_beta Let_def
      split: option.split sum.split check_result.split bool.split prod.split)

context sync_store_laws
begin

lemma seen_handleIncoming:
  "seen (fst x) p k e v \<Longrightarrow> seen (fst (fst (handleIncoming st detector applyOne env peer raw x))) p k e v"
  by (cases x) (auto simp: handleIncoming_sync record_keeps split: option.split)

lemma seen_handle_all:
  "seen (fst x) p k e v \<Longrightarrow> seen (fst (handle_all st detector applyOne msgs x)) p k e v"
  unfolding handle_all_def
proof (induction msgs arbitrary: x)
  case (Cons m msgs)
  obtain env peer raw where "m = (env, peer, raw)" by (metis prod.collapse)
  with Cons seen_handleIncoming [OF Cons.prems] show ?case by simp
qed simp

lemma handled_seen:
  "parse_incoming raw = Some ev \<Longrightarrow>
    seen (fst (fst (handleIncoming st detector applyOne env peer raw x))) peer (ce_kind ev) (ce_entity ev) (ce_version ev)"
  by (cases x) (simp add: handleIncoming_sync record_seen)

lemma redelivery:
  assumes "parse_incoming raw = Some ev" and "seen (fst x) peer (ce_kind ev) (ce_entity ev) (ce_version ev)"
  shows "snd (handleIncoming st detector applyOne env peer raw x) = Duplicate \<and>
    snd (fst (handleIncoming st detector applyOne env peer raw x)) = snd x"
  using assms record_flag by (cases x) (simp add: handleIncoming_def case_prod_beta Let_def)

end

text \<open>
  C4: an event takes effect at most once. After a message of a peer has been handled, with whatever
  outcome, and any further messages have been handled, the same event of that peer is a duplicate: neither the conflict
  store nor the main storage changes, whichever detector and applier are wired. (The record is
  made before the event is applied, so this includes an event whose application was rejected.)
\<close>

theorem event_applied_at_most_once:
  assumes "parse_incoming raw = Some ev"
    and "x = handle_all memory_sync detector applyOne msgs
      (fst (handleIncoming memory_sync detector applyOne env peer raw x0))"
  shows "snd (handleIncoming memory_sync detector' applyOne' env' peer raw x) = Duplicate \<and>
    snd (fst (handleIncoming memory_sync detector' applyOne' env' peer raw x)) = snd x"
  by (rule memsync.redelivery [OF assms(1)])
    (simp only: assms(2), intro memsync.seen_handle_all memsync.handled_seen assms(1))

definition skill_event :: json where
  "skill_event = JObj (event_message ''a'' ''skill'' ''s1'' ''create'' [(''name'', JStr ''n'')] ''v1'' ''v1'')"

lemma skill_event_parse:
  "parse_incoming skill_event = Some \<lparr>ce_kind = ''skill'', ce_entity = ''s1'', ce_op = CreateOp,
     ce_payload = [(''name'', JStr ''n'')], ce_version = ''v1''\<rparr>"
  by (simp add: skill_event_def event_message_def parse_incoming_def nonempty_str_def op_of_text_def)

lemma event_applied_at_most_once_witness:
  "snd (handleIncoming memory_sync (None :: (memory_conflict_store conflict_store \<times> (string, cc_strategy) jsmap) option)
     (\<lambda>k e oper p g. Inr (g @ defaultApplyOne k e oper p)) prompt_env ''peer'' skill_event
     (fst (handleIncoming memory_sync None (\<lambda>k e oper p g. Inr (g @ defaultApplyOne k e oper p)) prompt_env ''peer''
        skill_event (new_memory_sync_store, new_memory_conflict_store, [])))) = Duplicate"
  by (rule event_applied_at_most_once [OF skill_event_parse, of _ _ _ "[]", THEN conjunct1])
    (simp add: handle_all_def)

text \<open>
  an event whose application fails is lost. The idempotency key is recorded before the event is
  applied, so when \<open>applyOne\<close> rejects, the storage is unchanged, and the redelivery that a retry
  of the sender makes is discarded as a duplicate, even if it would now succeed.
\<close>

theorem failed_event_is_lost:
  assumes "parse_incoming raw = Some ev" and "\<not> ms_seen s peer (ce_kind ev) (ce_entity ev) (ce_version ev)"
    and "applyOne (ce_kind ev) (ce_entity ev) (ce_op ev) (ce_payload ev) g = Inl err"
  shows "\<exists>s'. handleIncoming memory_sync (None :: ('c conflict_store \<times> (string, cc_strategy) jsmap) option) applyOne env peer raw (s, c, g)
        = ((s', c, g), ApplyFailed err) \<and>
      handleIncoming memory_sync (None :: ('c conflict_store \<times> (string, cc_strategy) jsmap) option) applyOne' env' peer raw (s', c, g)
        = ((s', c, g), Duplicate)"
  using assms
  by (auto simp: handleIncoming_def memory_sync_def ms_recordConfigEventReceived_def ms_seen_def Let_def)

lemma failed_event_is_lost_witness:
  "\<exists>s'. handleIncoming memory_sync (None :: (memory_conflict_store conflict_store \<times> (string, cc_strategy) jsmap) option)
       (\<lambda>k e oper p g. Inr (g @ defaultApplyOne k e oper p)) prompt_env ''peer'' skill_event (s', new_memory_conflict_store, [])
     = ((s', new_memory_conflict_store, []), Duplicate)"
  using failed_event_is_lost [OF skill_event_parse, of new_memory_sync_store "''peer''" "\<lambda>_ _ _ _ _. Inl ''down''" "[]" "''down''"
      prompt_env new_memory_conflict_store "\<lambda>k e oper p g. Inr (g @ defaultApplyOne k e oper p)" prompt_env]
  by (auto simp: ms_seen_def new_memory_sync_store_def)

section \<open>What the publisher sends\<close>

lemma op_roundtrip [simp]: "op_of_text (op_text oper) = Some oper"
  by (cases oper) (simp_all add: op_of_text_def)

lemma toISOString_nonempty: "toISOString ms \<noteq> []"
  by (simp add: toISOString_def case_prod_beta Let_def)

text \<open>
  C33: what the publisher sends for an outbox row is what the subscriber of a peer reads: the same
  entity, operation and payload, and the creation date as the version.
\<close>

theorem published_event_roundtrip:
  assumes "ob_kind r \<noteq> []" and "ob_entity r \<noteq> []"
  shows "parse_incoming (JObj (row_message inst r)) =
    Some \<lparr>ce_kind = ob_kind r, ce_entity = ob_entity r, ce_op = ob_op r, ce_payload = ob_payload r,
          ce_version = toISOString (ob_createdAt r)\<rparr>"
  using assms toISOString_nonempty
  by (simp add: row_message_def event_message_def parse_incoming_def nonempty_str_def)

lemma published_event_roundtrip_witness:
  "parse_incoming (JObj (row_message ''a'' \<lparr>ob_id = ''1'', ob_kind = ''skill'', ob_entity = ''s'', ob_op = DeleteOp,
     ob_payload = [], ob_createdAt = 1709294405006\<rparr>)) =
   Some \<lparr>ce_kind = ''skill'', ce_entity = ''s'', ce_op = DeleteOp, ce_payload = [], ce_version = ''2024-03-01T12:00:05.006Z''\<rparr>"
proof -
  have iso: "toISOString 1709294405006 = ''2024-03-01T12:00:05.006Z''" by code_simp
  show ?thesis
    using published_event_roundtrip [of "\<lparr>ob_id = ''1'', ob_kind = ''skill'', ob_entity = ''s'', ob_op = DeleteOp,
      ob_payload = [], ob_createdAt = 1709294405006\<rparr>" "''a''"] by (simp add: iso)
qed

text \<open>
  the send function of \<open>makeSendEventFn\<close> for queued events puts the fields of the event at the
  top of the payload, without the \<open>event\<close> wrapper: the subscriber ignores every such message, while
  the flush, told that the transport delivered it, marks it sent.
\<close>

theorem queued_send_is_ignored:
  "makeSendEventFn (\<lambda>peer ty pay. ty = ''config:event'' \<and> parse_incoming (JObj pay) = None) r"
  by (simp add: makeSendEventFn_def parse_incoming_def)

section \<open>What the publisher marks\<close>

lemma publish_to_peers_flag:
  "snd (foldl (publish_to_peer qst now deliver inst row) (q, b) peers) \<longleftrightarrow>
    b \<and> list_all (\<lambda>p. deliver p (row_message inst row)) peers"
  by (induction peers arbitrary: q b) (auto simp: publish_to_peer_def)

lemma publish_rows_delivered:
  "snd (foldl (publish_row qst now deliver inst peers) (q, ids) rows) =
    ids @ map ob_id (filter (\<lambda>r. list_all (\<lambda>p. deliver p (row_message inst r)) peers) rows)"
proof (induction rows arbitrary: q ids)
  case (Cons r rows)
  then show ?case by (simp add: publish_row_def case_prod_beta publish_to_peers_flag)
qed simp

text \<open>
  a publisher tick takes an event off the outbox exactly when it was in the batch and every
  connected peer took it; every other event stays unsent and is published again.
\<close>

theorem publish_marks_delivered:
  assumes "peers \<noteq> []" and "inj_on ob_id (ms_unsent s)" and "r \<in> ms_unsent s"
  shows "r \<in> ms_unsent (fst (publishPending memory_sync qst now deliver inst peers (s, q))) \<longleftrightarrow>
    \<not> (r \<in> set (ms_getUnsentConfigEvents 100 s) \<and> (\<forall>p \<in> set peers. deliver p (row_message inst r)))"
proof -
  define rows where "rows = ms_getUnsentConfigEvents 100 s"
  define ids where "ids = map ob_id (filter (\<lambda>r. list_all (\<lambda>p. deliver p (row_message inst r)) peers) rows)"
  have sub: "set rows \<subseteq> ms_unsent s"
    using memsync.unsent_get [of 100 s] by (simp add: rows_def memory_sync_def)
  have "fst (publishPending memory_sync qst now deliver inst peers (s, q)) =
      (if rows = [] \<or> ids = [] then s else ms_markConfigEventsSent now ids s)"
    using assms(1) publish_rows_delivered [of qst now deliver inst peers q "[]" rows]
    by (simp add: publishPending_def Let_def case_prod_beta rows_def [symmetric] ids_def memory_sync_def max_batch_size_def)
  moreover have "ms_unsent (ms_markConfigEventsSent now ids s) = {r \<in> ms_unsent s. ob_id r \<notin> set ids}"
    using memsync.unsent_mark [of now ids s] by (simp add: memory_sync_def)
  moreover have "rows = [] \<Longrightarrow> ids = []" by (simp add: ids_def)
  ultimately have "r \<in> ms_unsent (fst (publishPending memory_sync qst now deliver inst peers (s, q))) \<longleftrightarrow> ob_id r \<notin> set ids"
    using assms(3) by auto
  moreover have "ob_id r \<in> set ids \<longleftrightarrow> r \<in> set rows \<and> (\<forall>p \<in> set peers. deliver p (row_message inst r))"
    using assms(2,3) sub by (auto simp: ids_def list_all_iff inj_on_def)
  ultimately show ?thesis by (simp add: rows_def)
qed

definition two_event_store :: memory_sync_store where
  "two_event_store = fst (ms_insertConfigEvent ''2'' 20 ''skill'' ''t'' CreateOp []
     (fst (ms_insertConfigEvent ''1'' 10 ''skill'' ''s'' CreateOp [] new_memory_sync_store)))"

lemma publish_marks_delivered_witness:
  "\<lparr>ob_id = ''1'', ob_kind = ''skill'', ob_entity = ''s'', ob_op = CreateOp, ob_payload = [], ob_createdAt = 10\<rparr> \<in>
    ms_unsent (fst (publishPending memory_sync memory_queue 30 (\<lambda>p _. p = ''up'') ''a'' [''up'', ''down'']
      (two_event_store, None)))"
  by (subst publish_marks_delivered)
    (auto simp: two_event_store_def ms_insertConfigEvent_def new_memory_sync_store_def ms_unsent_def inj_on_def)

end
