(* ===== verification/Conflict_Resolution.thy ===== *)
theory Conflict_Resolution
  imports Json
begin

text \<open>
  Disputes in shared sessions (\<open>server/federation/conflict-resolution.ts\<close>): raising, proposals,
  quorum votes, debate judgements, parallel experiments, timeouts, the in-memory capacity limit and
  the decision log. A thrown error is an \<open>Inl\<close> and leaves the state as it was; \<open>sc_settled\<close> lists
  the promises that were resolved (\<open>Inr\<close>) or rejected (\<open>Inl\<close>), in order. Identifiers and dates are arguments.
  The storage sink is not modelled. The judge's reply enters as the parsed JSON value.
\<close>

section \<open>Data\<close>

datatype dispute_strategy = StructuredDebate | QuorumVote | ParallelExperiment | DeferToOwner

datatype dispute_status = DisputeOpen | DebateInProgress | VotingInProgress | ExperimentInProgress
  | DisputeResolved | DisputeExpired

datatype decided_by = ByQuorum | ByJudge | ByOwner | ByTimeout

datatype branch_status = BranchPending | BranchCompleted | BranchFailed

record dispute_proposal =
  pr_id :: string
  pr_author :: string
  pr_instance :: string
  pr_title :: string
  pr_description :: string
  pr_arguments :: "string option"
  pr_submittedAt :: int

record dispute_vote =
  dv_participant :: string
  dv_instance :: string
  dv_proposal :: string
  dv_anonymous :: bool
  dv_submittedAt :: int

record judgement =
  ju_winner :: "string option"
  ju_reasoning :: string
  ju_confidence :: rat
  ju_evaluatedAt :: int

record branch_result =
  br_proposal :: string
  br_runId :: string
  br_status :: branch_status
  br_outcome :: "string option"
  br_completedAt :: "int option"

record resolution_outcome =
  ro_strategy :: dispute_strategy
  ro_winner :: "string option"
  ro_reasoning :: string
  ro_decidedBy :: decided_by
  ro_decidedAt :: int

record session_conflict =
  sc_id :: string
  sc_session :: string
  sc_raisedBy :: string
  sc_raisedByInstance :: string
  sc_question :: string
  sc_context :: "string option"
  sc_strategy :: dispute_strategy
  sc_status :: dispute_status
  sc_proposals :: "dispute_proposal list"
  sc_votes :: "dispute_vote list"
  sc_quorumThreshold :: rat
  sc_timeoutMs :: int
  sc_judgement :: "judgement option"
  sc_experiments :: "branch_result list option"
  sc_outcome :: "resolution_outcome option"
  sc_createdAt :: int
  sc_updatedAt :: int

record decision_entry =
  de_id :: string
  de_session :: string
  de_conflict :: string
  de_question :: string
  de_strategy :: dispute_strategy
  de_outcome :: resolution_outcome
  de_participants :: nat
  de_proposals :: nat
  de_durationMs :: int
  de_recordedAt :: int

record dispute_service =
  ds_conflicts :: "(string, session_conflict) jsmap"
  ds_pending :: "string list"
  ds_timeouts :: "string list"
  ds_log :: "decision_entry list"
  ds_settled :: "(string \<times> (string + resolution_outcome)) list"

datatype dispute_error =
    ConflictNotFound string
  | AlreadyClosed string dispute_status
  | WrongStrategy string dispute_strategy
  | TooManyProposals string
  | AlreadyVoted string string
  | ProposalNotFound string string
  | BranchNotFound string
  | NoGateway
  | TooFewProposals
  | JudgeCallFailed string

definition new_dispute_service :: dispute_service where
  "new_dispute_service =
     \<lparr>ds_conflicts = [], ds_pending = [], ds_timeouts = [], ds_log = [], ds_settled = []\<rparr>"

definition default_quorum_threshold :: rat where
  "default_quorum_threshold = 67 / 100"

definition default_dispute_timeout_ms :: int where
  "default_dispute_timeout_ms = 300000"

definition max_proposals_per_conflict :: nat where
  "max_proposals_per_conflict = 10"

definition max_conflicts_in_memory :: nat where
  "max_conflicts_in_memory = 500"

text \<open>What a call draws: the date and the identifier of a log entry.\<close>

record dispute_env =
  dn_now :: int
  dn_logId :: string

section \<open>Resolution machinery\<close>

definition dispute_closed :: "session_conflict \<Rightarrow> bool" where
  "dispute_closed c = (sc_status c = DisputeResolved \<or> sc_status c = DisputeExpired)"

definition put_conflict :: "session_conflict \<Rightarrow> dispute_service \<Rightarrow> dispute_service" where
  "put_conflict c s = s\<lparr>ds_conflicts := jset (sc_id c) c (ds_conflicts s)\<rparr>"

definition clear_dispute_timeout :: "string \<Rightarrow> dispute_service \<Rightarrow> dispute_service" where
  "clear_dispute_timeout cid s = s\<lparr>ds_timeouts := sdel cid (ds_timeouts s)\<rparr>"

definition appendDecisionLog :: "dispute_env \<Rightarrow> session_conflict \<Rightarrow> resolution_outcome \<Rightarrow> dispute_service \<Rightarrow>
    dispute_service" where
  "appendDecisionLog env c out s =
     s\<lparr>ds_log := ds_log s @
        [\<lparr>de_id = dn_logId env, de_session = sc_session c, de_conflict = sc_id c, de_question = sc_question c,
          de_strategy = sc_strategy c, de_outcome = out,
          de_participants = length (sadds (map dv_participant (sc_votes c) @ map pr_author (sc_proposals c)) []),
          de_proposals = length (sc_proposals c), de_durationMs = dn_now env - sc_createdAt c,
          de_recordedAt = dn_now env\<rparr>]\<rparr>"

definition settle_promise :: "string \<Rightarrow> string + resolution_outcome \<Rightarrow> dispute_service \<Rightarrow> dispute_service" where
  "settle_promise cid r s =
     (if cid \<in> set (ds_pending s)
      then s\<lparr>ds_pending := sdel cid (ds_pending s), ds_settled := ds_settled s @ [(cid, r)]\<rparr>
      else s)"

definition resolveWithOutcome :: "dispute_env \<Rightarrow> string \<Rightarrow> resolution_outcome \<Rightarrow> dispute_service \<Rightarrow>
    dispute_service" where
  "resolveWithOutcome env cid out s =
     (case jget (ds_conflicts s) cid of
        None \<Rightarrow> s
      | Some c \<Rightarrow>
          if sc_status c = DisputeResolved then s
          else (let c' = c\<lparr>sc_outcome := Some out, sc_status := DisputeResolved, sc_updatedAt := dn_now env\<rparr>;
                    s1 = clear_dispute_timeout cid s;
                    s2 = put_conflict c' s1;
                    s3 = appendDecisionLog env c' out s2
                in settle_promise cid (Inr out) s3))"

text \<open>\<open>(x * 100).toFixed(0)\<close>.\<close>

definition percent_text :: "rat \<Rightarrow> string" where
  "percent_text x = show_int \<lfloor>x * 100 + 1 / 2\<rfloor>"

definition vote_counts :: "dispute_vote list \<Rightarrow> (string, nat) jsmap" where
  "vote_counts vs = foldl (\<lambda>m v. jset (dv_proposal v) (get_or 0 m (dv_proposal v) + 1) m) [] vs"

text \<open>The first entry with the largest count.\<close>

fun best_entry :: "(string \<times> nat) list \<Rightarrow> (string option \<times> nat) \<Rightarrow> string option \<times> nat" where
  "best_entry [] best = best"
| "best_entry ((pid, n) # es) best = best_entry es (if n > snd best then (Some pid, n) else best)"

text \<open>The same loop over shares of the total.\<close>

fun best_share :: "nat \<Rightarrow> (string \<times> nat) list \<Rightarrow> (string option \<times> rat) \<Rightarrow> string option \<times> rat" where
  "best_share t [] best = best"
| "best_share t ((pid, n) # es) best =
     (let share = of_nat n / of_nat t
      in best_share t es (if share > snd best then (Some pid, share) else best))"

definition checkQuorum :: "dispute_env \<Rightarrow> session_conflict \<Rightarrow> dispute_service \<Rightarrow> dispute_service" where
  "checkQuorum env c s =
     (if length (sc_proposals c) = 0 then s
      else let totalVotes = length (sc_votes c)
           in if totalVotes < 2 then s
              else (case best_share totalVotes (vote_counts (sc_votes c)) (None, 0) of
                      (Some w, maxShare) \<Rightarrow>
                        if w \<noteq> [] \<and> maxShare \<ge> sc_quorumThreshold c
                        then resolveWithOutcome env (sc_id c)
                               \<lparr>ro_strategy = QuorumVote, ro_winner = Some w,
                                ro_reasoning = ''Quorum reached: proposal '' @ [CHR 0x22] @
                                  (case find (\<lambda>p. pr_id p = w) (sc_proposals c) of Some p \<Rightarrow> pr_title p | None \<Rightarrow> w) @
                                  [CHR 0x22] @ '' received '' @ percent_text maxShare @ ''% of votes (threshold: '' @
                                  percent_text (sc_quorumThreshold c) @ ''%).'',
                                ro_decidedBy = ByQuorum, ro_decidedAt = dn_now env\<rparr> s
                        else s
                    | (None, _) \<Rightarrow> s))"

section \<open>Raising a conflict\<close>

record raise_input =
  ri_session :: string
  ri_raisedBy :: string
  ri_raisedByInstance :: string
  ri_question :: string
  ri_context :: "string option"
  ri_strategy :: dispute_strategy
  ri_quorumThreshold :: "rat option"
  ri_timeoutMs :: "int option"

definition enforceCapacityLimit :: "dispute_service \<Rightarrow> dispute_service" where
  "enforceCapacityLimit s =
     (if length (ds_conflicts s) \<ge> max_conflicts_in_memory
      then (case find (\<lambda>(_, c). dispute_closed c) (ds_conflicts s) of
              Some (cid, _) \<Rightarrow> s\<lparr>ds_conflicts := jdel cid (ds_conflicts s)\<rparr>
            | None \<Rightarrow>
                (case ds_conflicts s of
                   [] \<Rightarrow> s
                 | (oldest, _) # _ \<Rightarrow>
                     clear_dispute_timeout oldest
                       (s\<lparr>ds_conflicts := jdel oldest (ds_conflicts s), ds_pending := sdel oldest (ds_pending s)\<rparr>)))
      else s)"

definition new_conflict :: "dispute_env \<Rightarrow> string \<Rightarrow> raise_input \<Rightarrow> session_conflict" where
  "new_conflict env cid i =
     \<lparr>sc_id = cid, sc_session = ri_session i, sc_raisedBy = ri_raisedBy i,
      sc_raisedByInstance = ri_raisedByInstance i, sc_question = ri_question i, sc_context = ri_context i,
      sc_strategy = ri_strategy i, sc_status = DisputeOpen, sc_proposals = [], sc_votes = [],
      sc_quorumThreshold = (case ri_quorumThreshold i of None \<Rightarrow> default_quorum_threshold | Some q \<Rightarrow> q),
      sc_timeoutMs = (case ri_timeoutMs i of None \<Rightarrow> default_dispute_timeout_ms | Some t \<Rightarrow> t),
      sc_judgement = None, sc_experiments = None, sc_outcome = None,
      sc_createdAt = dn_now env, sc_updatedAt = dn_now env\<rparr>"

definition raiseConflict :: "dispute_env \<Rightarrow> string \<Rightarrow> raise_input \<Rightarrow> dispute_service \<Rightarrow> dispute_service" where
  "raiseConflict env cid i s =
     (let s1 = put_conflict (new_conflict env cid i) (enforceCapacityLimit s);
          s2 = s1\<lparr>ds_pending := sadd cid (ds_pending s1), ds_timeouts := sadd cid (ds_timeouts s1)\<rparr>
      in if ri_strategy i = DeferToOwner
         then resolveWithOutcome env cid
                \<lparr>ro_strategy = DeferToOwner, ro_winner = None,
                 ro_reasoning = ''Deferred to session owner ('' @ ri_raisedBy i @ '') by design.'',
                 ro_decidedBy = ByOwner, ro_decidedAt = dn_now env\<rparr> s2
         else s2)"

section \<open>Operations on a conflict\<close>

definition requireOpenConflict :: "string \<Rightarrow> dispute_service \<Rightarrow> dispute_error + session_conflict" where
  "requireOpenConflict cid s =
     (case jget (ds_conflicts s) cid of
        None \<Rightarrow> Inl (ConflictNotFound cid)
      | Some c \<Rightarrow> if sc_status c = DisputeResolved \<or> sc_status c = DisputeExpired
                  then Inl (AlreadyClosed cid (sc_status c)) else Inr c)"

definition requireConflictForVoting :: "string \<Rightarrow> dispute_service \<Rightarrow> dispute_error + session_conflict" where
  "requireConflictForVoting cid s =
     (case requireOpenConflict cid s of
        Inl e \<Rightarrow> Inl e
      | Inr c \<Rightarrow> if sc_strategy c \<noteq> QuorumVote then Inl (WrongStrategy cid (sc_strategy c)) else Inr c)"

definition requireConflictWithStrategy :: "string \<Rightarrow> dispute_strategy \<Rightarrow> dispute_service \<Rightarrow>
    dispute_error + session_conflict" where
  "requireConflictWithStrategy cid strat s =
     (case requireOpenConflict cid s of
        Inl e \<Rightarrow> Inl e
      | Inr c \<Rightarrow> if sc_strategy c \<noteq> strat then Inl (WrongStrategy cid (sc_strategy c)) else Inr c)"

definition stub_branch :: "dispute_proposal \<Rightarrow> branch_result" where
  "stub_branch p =
     \<lparr>br_proposal = pr_id p, br_runId = [], br_status = BranchPending, br_outcome = None, br_completedAt = None\<rparr>"

text \<open>The id and the date of the proposal are drawn by the service.\<close>

definition addProposal :: "dispute_env \<Rightarrow> string \<Rightarrow> string \<Rightarrow> dispute_proposal \<Rightarrow> dispute_service \<Rightarrow>
    dispute_error + dispute_service" where
  "addProposal env pid cid p s =
     (case requireOpenConflict cid s of
        Inl e \<Rightarrow> Inl e
      | Inr c \<Rightarrow>
          if length (sc_proposals c) \<ge> max_proposals_per_conflict then Inl (TooManyProposals cid)
          else
            (let ps = sc_proposals c @ [p\<lparr>pr_id := pid, pr_submittedAt := dn_now env\<rparr>];
                 c1 = c\<lparr>sc_proposals := ps, sc_updatedAt := dn_now env\<rparr>;
                 c2 = (case sc_strategy c of
                         StructuredDebate \<Rightarrow> c1\<lparr>sc_status := DebateInProgress\<rparr>
                       | QuorumVote \<Rightarrow> c1\<lparr>sc_status := VotingInProgress\<rparr>
                       | ParallelExperiment \<Rightarrow>
                           c1\<lparr>sc_status := ExperimentInProgress, sc_experiments := Some (map stub_branch ps)\<rparr>
                       | DeferToOwner \<Rightarrow> c1)
             in Inr (put_conflict c2 s)))"

definition castVote :: "dispute_env \<Rightarrow> string \<Rightarrow> string \<Rightarrow> string \<Rightarrow> string \<Rightarrow> bool option \<Rightarrow> dispute_service \<Rightarrow>
    dispute_error + dispute_service" where
  "castVote env cid participant inst pid anon s =
     (case requireConflictForVoting cid s of
        Inl e \<Rightarrow> Inl e
      | Inr c \<Rightarrow>
          if list_ex (\<lambda>v. dv_participant v = participant \<and> dv_instance v = inst) (sc_votes c)
          then Inl (AlreadyVoted participant cid)
          else if \<not> list_ex (\<lambda>p. pr_id p = pid) (sc_proposals c) then Inl (ProposalNotFound pid cid)
          else
            (let v = \<lparr>dv_participant = participant, dv_instance = inst, dv_proposal = pid,
                      dv_anonymous = (case anon of None \<Rightarrow> False | Some b \<Rightarrow> b), dv_submittedAt = dn_now env\<rparr>;
                 c1 = c\<lparr>sc_votes := sc_votes c @ [v], sc_updatedAt := dn_now env\<rparr>
             in Inr (checkQuorum env c1 (put_conflict c1 s))))"

definition submitDebateJudgement :: "dispute_env \<Rightarrow> string \<Rightarrow> judgement \<Rightarrow> dispute_service \<Rightarrow>
    dispute_error + dispute_service" where
  "submitDebateJudgement env cid j s =
     (case requireConflictWithStrategy cid StructuredDebate s of
        Inl e \<Rightarrow> Inl e
      | Inr c \<Rightarrow>
          (let c1 = c\<lparr>sc_judgement := Some j, sc_updatedAt := dn_now env\<rparr>;
               winner = (case ju_winner j of
                           None \<Rightarrow> None
                         | Some w \<Rightarrow> if w = [] then None else find (\<lambda>p. pr_id p = w) (sc_proposals c1))
           in Inr (resolveWithOutcome env cid
                \<lparr>ro_strategy = StructuredDebate, ro_winner = map_option pr_id winner, ro_reasoning = ju_reasoning j,
                 ro_decidedBy = ByJudge, ro_decidedAt = dn_now env\<rparr> (put_conflict c1 s))))"

fun find_index :: "('a \<Rightarrow> bool) \<Rightarrow> 'a list \<Rightarrow> nat option" where
  "find_index P [] = None"
| "find_index P (x # xs) = (if P x then Some 0 else map_option Suc (find_index P xs))"

text \<open>\<open>{ ...old, ...result }\<close>: absent optional fields keep the old value.\<close>

definition spread_branch :: "branch_result \<Rightarrow> branch_result \<Rightarrow> branch_result" where
  "spread_branch old r =
     r\<lparr>br_outcome := (case br_outcome r of None \<Rightarrow> br_outcome old | Some x \<Rightarrow> Some x),
       br_completedAt := (case br_completedAt r of None \<Rightarrow> br_completedAt old | Some x \<Rightarrow> Some x)\<rparr>"

definition updateExperimentBranch :: "dispute_env \<Rightarrow> string \<Rightarrow> branch_result \<Rightarrow> dispute_service \<Rightarrow>
    dispute_error + dispute_service" where
  "updateExperimentBranch env cid r s =
     (case requireConflictWithStrategy cid ParallelExperiment s of
        Inl e \<Rightarrow> Inl e
      | Inr c \<Rightarrow>
          (let branches = (case sc_experiments c of None \<Rightarrow> [] | Some bs \<Rightarrow> bs)
           in case find_index (\<lambda>b. br_proposal b = br_proposal r) branches of
                None \<Rightarrow> Inl (BranchNotFound (br_proposal r))
              | Some idx \<Rightarrow>
                  (let updated = branches[idx := spread_branch (branches ! idx) r];
                       c1 = c\<lparr>sc_experiments := Some updated, sc_updatedAt := dn_now env\<rparr>;
                       s1 = put_conflict c1 s
                   in if list_all (\<lambda>b. br_status b \<noteq> BranchPending) updated
                      then (let winner = (case find (\<lambda>b. br_status b = BranchCompleted) updated of
                                            Some b \<Rightarrow> b | None \<Rightarrow> updated ! 0)
                            in Inr (resolveWithOutcome env cid
                                 \<lparr>ro_strategy = ParallelExperiment, ro_winner = Some (br_proposal winner),
                                  ro_reasoning = ''Parallel experiment completed; first successful branch adopted.'',
                                  ro_decidedBy = ByOwner, ro_decidedAt = dn_now env\<rparr> s1))
                      else Inr s1)))"

definition forceResolve :: "dispute_env \<Rightarrow> string \<Rightarrow> string option \<Rightarrow> string \<Rightarrow> decided_by option \<Rightarrow> dispute_service \<Rightarrow>
    dispute_error + dispute_service" where
  "forceResolve env cid winner reasoning by s =
     (case requireOpenConflict cid s of
        Inl e \<Rightarrow> Inl e
      | Inr c \<Rightarrow> Inr (resolveWithOutcome env cid
            \<lparr>ro_strategy = sc_strategy c, ro_winner = winner, ro_reasoning = reasoning,
             ro_decidedBy = (case by of None \<Rightarrow> ByOwner | Some b \<Rightarrow> b), ro_decidedAt = dn_now env\<rparr> s))"

text \<open>\<open>parseJudgeResponse\<close> after \<open>JSON.parse\<close>; \<open>None\<close> is a reply that does not parse.\<close>

definition judgement_of_reply :: "int \<Rightarrow> string \<Rightarrow> json option \<Rightarrow> judgement" where
  "judgement_of_reply now cid reply =
     (case reply of
        Some v \<Rightarrow>
          if v = JNull
          then \<lparr>ju_winner = None, ju_reasoning = ''Failed to parse judge response for conflict '' @ cid @ ''.'',
                ju_confidence = 0, ju_evaluatedAt = now\<rparr>
          else \<lparr>ju_winner = Option.bind (json_field v ''winner'') json_str,
                ju_reasoning = (case Option.bind (json_field v ''reasoning'') json_str of
                                  Some t \<Rightarrow> t | None \<Rightarrow> ''No reasoning provided.''),
                ju_confidence = (case json_field v ''confidence'' of
                                   Some (JNum q) \<Rightarrow> max 0 (min 1 q) | _ \<Rightarrow> 1 / 2),
                ju_evaluatedAt = now\<rparr>
      | None \<Rightarrow> \<lparr>ju_winner = None, ju_reasoning = ''Failed to parse judge response for conflict '' @ cid @ ''.'',
                ju_confidence = 0, ju_evaluatedAt = now\<rparr>)"

text \<open>\<open>gateway\<close> is absent, or answers with an error or the reply.\<close>

definition runDebateJudge :: "dispute_env \<Rightarrow> (string + json option) option \<Rightarrow> string \<Rightarrow> dispute_service \<Rightarrow>
    dispute_error + (dispute_service \<times> judgement)" where
  "runDebateJudge env gateway cid s =
     (case requireConflictWithStrategy cid StructuredDebate s of
        Inl e \<Rightarrow> Inl e
      | Inr c \<Rightarrow>
          (case gateway of
             None \<Rightarrow> Inl NoGateway
           | Some answer \<Rightarrow>
               if length (sc_proposals c) < 2 then Inl TooFewProposals
               else (case answer of
                       Inl msg \<Rightarrow> Inl (JudgeCallFailed msg)
                     | Inr reply \<Rightarrow>
                         (let j = judgement_of_reply (dn_now env) cid reply
                          in case submitDebateJudgement env cid j s of
                               Inl e \<Rightarrow> Inl e
                             | Inr s' \<Rightarrow> Inr (s', j)))))"

definition handleDisputeTimeout :: "dispute_env \<Rightarrow> string \<Rightarrow> dispute_service \<Rightarrow> dispute_service" where
  "handleDisputeTimeout env cid s =
     (case jget (ds_conflicts s) cid of
        None \<Rightarrow> s
      | Some c \<Rightarrow>
          if sc_status c = DisputeResolved then s
          else if sc_strategy c = QuorumVote \<and> length (sc_votes c) > 0
          then resolveWithOutcome env cid
                 \<lparr>ro_strategy = sc_strategy c, ro_winner = fst (best_entry (vote_counts (sc_votes c)) (None, 0)),
                  ro_reasoning = ''Timeout reached with '' @ show_nat (length (sc_votes c)) @
                    '' votes cast. Plurality winner adopted.'',
                  ro_decidedBy = ByTimeout, ro_decidedAt = dn_now env\<rparr> s
          else
            (let c1 = c\<lparr>sc_status := DisputeExpired, sc_updatedAt := dn_now env\<rparr>;
                 s1 = put_conflict c1 s;
                 s2 = appendDecisionLog env c1
                        \<lparr>ro_strategy = sc_strategy c, ro_winner = None,
                         ro_reasoning = ''Conflict expired without resolution.'',
                         ro_decidedBy = ByTimeout, ro_decidedAt = dn_now env\<rparr> s1
             in settle_promise cid (Inl (''Conflict '' @ cid @ '' expired without resolution.'')) s2))"

section \<open>Queries\<close>

definition getConflict :: "string \<Rightarrow> dispute_service \<Rightarrow> session_conflict option" where
  "getConflict cid s = jget (ds_conflicts s) cid"

definition getSessionConflicts :: "string \<Rightarrow> dispute_service \<Rightarrow> session_conflict list" where
  "getSessionConflicts sid s = filter (\<lambda>c. sc_session c = sid) (jvals (ds_conflicts s))"

definition getDecisionLog :: "dispute_service \<Rightarrow> decision_entry list" where
  "getDecisionLog s = ds_log s"

definition getSessionDecisionLog :: "string \<Rightarrow> dispute_service \<Rightarrow> decision_entry list" where
  "getSessionDecisionLog sid s = filter (\<lambda>e. de_session e = sid) (ds_log s)"

section \<open>The invariant\<close>

definition logged :: "string \<Rightarrow> dispute_service \<Rightarrow> nat" where
  "logged cid s = length (filter (\<lambda>e. de_conflict e = cid) (ds_log s))"

text \<open>
  At most ten proposals; one vote per participant, for a proposal of the conflict, and only in quorum
  votes; an outcome exactly when resolved.
\<close>

definition dispute_ok :: "session_conflict \<Rightarrow> bool" where
  "dispute_ok c =
     (length (sc_proposals c) \<le> 10 \<and>
      distinct (map (\<lambda>v. (dv_participant v, dv_instance v)) (sc_votes c)) \<and>
      list_all (\<lambda>v. dv_proposal v \<in> pr_id ` set (sc_proposals c)) (sc_votes c) \<and>
      (sc_votes c \<noteq> [] \<longrightarrow> sc_strategy c = QuorumVote) \<and>
      (sc_outcome c \<noteq> None \<longleftrightarrow> sc_status c = DisputeResolved))"

text \<open>Each conflict awaits its promise and is unlogged while open; once closed it is logged once.\<close>

definition entry_ok :: "dispute_service \<Rightarrow> string \<times> session_conflict \<Rightarrow> bool" where
  "entry_ok s = (\<lambda>(k, c). sc_id c = k \<and> dispute_ok c \<and> logged k s = (if dispute_closed c then 1 else 0) \<and>
     (k \<in> set (ds_pending s) \<longleftrightarrow> \<not> dispute_closed c))"

definition ds_ok :: "dispute_service \<Rightarrow> bool" where
  "ds_ok s = (jwf (ds_conflicts s) \<and> (\<forall>k c. jget (ds_conflicts s) k = Some c \<longrightarrow> entry_ok s (k, c)))"

lemma ds_ok_get: "ds_ok s \<Longrightarrow> jget (ds_conflicts s) k = Some c \<Longrightarrow>
    sc_id c = k \<and> dispute_ok c \<and> logged k s = (if dispute_closed c then 1 else 0) \<and> (k \<in> set (ds_pending s) \<longleftrightarrow> \<not> dispute_closed c)"
  by (auto simp: ds_ok_def entry_ok_def)

lemma put_open_ok:
  assumes "ds_ok s" and "jget (ds_conflicts s) k = Some c" and "\<not> dispute_closed c"
    and "sc_id c' = k" and "dispute_ok c'" and "\<not> dispute_closed c'"
  shows "ds_ok (put_conflict c' s)"
  using assms ds_ok_get [OF assms(1)]
  by (auto simp: ds_ok_def entry_ok_def put_conflict_def logged_def)

text \<open>Closing a conflict: a new final version, one log entry, the promise settled.\<close>

lemma closing_conflict_ok:
  assumes ok: "ds_ok s" and c: "jget (ds_conflicts s) k = Some c" "\<not> dispute_closed c"
    and c': "sc_id c' = k" "dispute_ok c'" "dispute_closed c'"
    and s': "ds_conflicts s' = jset k c' (ds_conflicts s)" "ds_pending s' = sdel k (ds_pending s)"
      "\<exists>e. ds_log s' = ds_log s @ [e] \<and> de_conflict e = k"
  shows "ds_ok s'"
proof -
  from s'(3) obtain e where e: "ds_log s' = ds_log s @ [e]" "de_conflict e = k" by blast
  have "jget (ds_conflicts s') x = Some d \<Longrightarrow> entry_ok s' (x, d)" for x d
    using ds_ok_get [OF ok, of x d] ds_ok_get [OF ok c(1)] c' c(2) s'(1,2) e
    by (cases "x = k") (simp_all add: entry_ok_def logged_def)
  then show ?thesis using ok s'(1) by (simp add: ds_ok_def)
qed

lemma appendDecisionLog_entry: "\<exists>e. ds_log (appendDecisionLog env c out s) = ds_log s @ [e] \<and> de_conflict e = sc_id c"
  by (simp add: appendDecisionLog_def)

lemma settle_promise_fields [simp]:
  "ds_conflicts (settle_promise k r s) = ds_conflicts s" "ds_log (settle_promise k r s) = ds_log s"
  "ds_pending (settle_promise k r s) = sdel k (ds_pending s)"
  by (auto simp: settle_promise_def sdel_def intro!: filter_True [symmetric])

lemma helper_fields [simp]:
  "ds_conflicts (appendDecisionLog env c out s) = ds_conflicts s" "ds_pending (appendDecisionLog env c out s) = ds_pending s"
  "ds_conflicts (clear_dispute_timeout k s) = ds_conflicts s" "ds_pending (clear_dispute_timeout k s) = ds_pending s"
  "ds_log (clear_dispute_timeout k s) = ds_log s"
  "ds_conflicts (put_conflict c s) = jset (sc_id c) c (ds_conflicts s)" "ds_pending (put_conflict c s) = ds_pending s"
  "ds_log (put_conflict c s) = ds_log s"
  by (simp_all add: appendDecisionLog_def clear_dispute_timeout_def put_conflict_def)

definition resolved_as :: "dispute_env \<Rightarrow> resolution_outcome \<Rightarrow> session_conflict \<Rightarrow> session_conflict" where
  "resolved_as env out c = c\<lparr>sc_outcome := Some out, sc_status := DisputeResolved, sc_updatedAt := dn_now env\<rparr>"

lemma resolved_as_ok:
  "dispute_ok c \<Longrightarrow> dispute_ok (resolved_as env out c)" "dispute_closed (resolved_as env out c)"
  "sc_id (resolved_as env out c) = sc_id c"
  by (simp_all add: dispute_ok_def resolved_as_def dispute_closed_def)

lemma resolve_open:
  assumes "ds_ok s" and "jget (ds_conflicts s) k = Some c" and "\<not> dispute_closed c"
  shows "ds_ok (resolveWithOutcome env k out s)"
    and "ds_conflicts (resolveWithOutcome env k out s) = jset k (resolved_as env out c) (ds_conflicts s)"
proof -
  have id: "sc_id c = k" "dispute_ok c" using ds_ok_get [OF assms(1,2)] by simp_all
  have eq: "resolveWithOutcome env k out s =
      settle_promise k (Inr out) (appendDecisionLog env (resolved_as env out c) out
        (put_conflict (resolved_as env out c) (clear_dispute_timeout k s)))"
    using assms(2,3) by (simp add: resolveWithOutcome_def Let_def resolved_as_def dispute_closed_def)
  show cs: "ds_conflicts (resolveWithOutcome env k out s) = jset k (resolved_as env out c) (ds_conflicts s)"
    by (simp add: eq resolved_as_ok(3) id)
  show "ds_ok (resolveWithOutcome env k out s)"
    by (rule closing_conflict_ok [OF assms _ _ _ cs])
      (simp_all add: eq id resolved_as_ok, use appendDecisionLog_entry [of env "resolved_as env out c" out
          "put_conflict (resolved_as env out c) (clear_dispute_timeout k s)"] in \<open>simp add: resolved_as_ok id\<close>)
qed

lemma checkQuorum_cases:
  "checkQuorum env c s = s \<or> (\<exists>out. checkQuorum env c s = resolveWithOutcome env (sc_id c) out s)"
  unfolding checkQuorum_def Let_def by (auto split: prod.split option.split)

lemma require_open: "requireOpenConflict k s = Inr c \<longleftrightarrow> jget (ds_conflicts s) k = Some c \<and> \<not> dispute_closed c"
  by (auto simp: requireOpenConflict_def dispute_closed_def split: option.split)

lemma require_strategy:
  "requireConflictWithStrategy k st s = Inr c \<longleftrightarrow> jget (ds_conflicts s) k = Some c \<and> \<not> dispute_closed c \<and> sc_strategy c = st"
  "requireConflictForVoting k s = Inr c \<longleftrightarrow> jget (ds_conflicts s) k = Some c \<and> \<not> dispute_closed c \<and> sc_strategy c = QuorumVote"
  using require_open [of k s c]
  by (cases "requireOpenConflict k s"; force simp: requireConflictWithStrategy_def requireConflictForVoting_def)+

section \<open>Runs of the service\<close>

text \<open>
  A new conflict draws an identifier that is not in use. A timer fires at most once, and is cleared when the conflict is
  resolved: it never fires on a closed conflict.
\<close>

inductive dispute_step :: "dispute_service \<Rightarrow> dispute_service \<Rightarrow> bool" where
  d_raise: "jget (ds_conflicts s) k = None \<Longrightarrow> logged k s = 0 \<Longrightarrow> dispute_step s (raiseConflict env k i s)"
| d_propose: "addProposal env pid k p s = Inr s' \<Longrightarrow> dispute_step s s'"
| d_vote: "castVote env k part inst pid anon s = Inr s' \<Longrightarrow> dispute_step s s'"
| d_judge: "submitDebateJudgement env k j s = Inr s' \<Longrightarrow> dispute_step s s'"
| d_branch: "updateExperimentBranch env k r s = Inr s' \<Longrightarrow> dispute_step s s'"
| d_force: "forceResolve env k w t by s = Inr s' \<Longrightarrow> dispute_step s s'"
| d_timeout: "jget (ds_conflicts s) k = Some c \<Longrightarrow> \<not> dispute_closed c \<Longrightarrow> dispute_step s (handleDisputeTimeout env k s)"

text \<open>
  Every operation on an existing conflict either stores a new open version of one open conflict or closes it;
  \<open>one_change\<close> is this common shape.
\<close>

definition one_change :: "dispute_service \<Rightarrow> dispute_service \<Rightarrow> bool" where
  "one_change s s' = (\<exists>k c c'. jget (ds_conflicts s) k = Some c \<and> \<not> dispute_closed c \<and> ds_conflicts s' = jset k c' (ds_conflicts s))"

lemma put_then_resolve:
  assumes ok: "ds_ok s" and c: "jget (ds_conflicts s) k = Some c" "\<not> dispute_closed c"
    and c1: "sc_id c1 = k" "dispute_ok c1" "\<not> dispute_closed c1"
    and s': "s' = put_conflict c1 s \<or> s' = resolveWithOutcome env k out (put_conflict c1 s)"
  shows "ds_ok s' \<and> one_change s s'"
proof -
  have ok1: "ds_ok (put_conflict c1 s)" using put_open_ok [OF ok c c1] .
  have get1: "jget (ds_conflicts (put_conflict c1 s)) k = Some c1" using c1 by simp
  note r = resolve_open [OF ok1 get1 c1(3), of env out]
  have twice: "jset k x (jset k y m) = jset k x m" for x y and m :: "(string, session_conflict) jsmap"
    by (induction m) auto
  have "ds_conflicts s' = jset k c1 (ds_conflicts s) \<or> ds_conflicts s' = jset k (resolved_as env out c1) (ds_conflicts s)"
    using s' r(2) c1(1) by (elim disjE) (simp_all add: twice)
  then have "one_change s s'" using c unfolding one_change_def by blast
  with s' ok1 r(1) show ?thesis by blast
qed

lemma propose_ok: "ds_ok s \<Longrightarrow> addProposal env pid k p s = Inr s' \<Longrightarrow> ds_ok s' \<and> one_change s s'"
proof -
  assume ok: "ds_ok s" and run: "addProposal env pid k p s = Inr s'"
  obtain c where c: "jget (ds_conflicts s) k = Some c" "\<not> dispute_closed c" "length (sc_proposals c) < 10"
    using run unfolding addProposal_def
    by (auto simp: max_proposals_per_conflict_def require_open split: sum.splits if_splits)
  let ?ps = "sc_proposals c @ [p\<lparr>pr_id := pid, pr_submittedAt := dn_now env\<rparr>]"
  let ?c1 = "c\<lparr>sc_proposals := ?ps, sc_updatedAt := dn_now env\<rparr>"
  let ?c2 = "(case sc_strategy c of StructuredDebate \<Rightarrow> ?c1\<lparr>sc_status := DebateInProgress\<rparr>
     | QuorumVote \<Rightarrow> ?c1\<lparr>sc_status := VotingInProgress\<rparr>
     | ParallelExperiment \<Rightarrow> ?c1\<lparr>sc_status := ExperimentInProgress, sc_experiments := Some (map stub_branch ?ps)\<rparr>
     | DeferToOwner \<Rightarrow> ?c1)"
  have "requireOpenConflict k s = Inr c" using c by (simp add: require_open)
  with run c(3) have s': "s' = put_conflict ?c2 s"
    by (simp add: addProposal_def max_proposals_per_conflict_def Let_def)
  have d: "sc_id c = k" "dispute_ok c" using ds_ok_get [OF ok c(1)] by simp_all
  have "sc_id ?c2 = k" "\<not> dispute_closed ?c2" "dispute_ok ?c2"
    using d c by (cases "sc_strategy c"; auto simp: dispute_closed_def dispute_ok_def list_all_iff)+
  with put_then_resolve [OF ok c(1,2)] s' show ?thesis by blast
qed

lemma vote_ok: "ds_ok s \<Longrightarrow> castVote env k part inst pid anon s = Inr s' \<Longrightarrow> ds_ok s' \<and> one_change s s'"
proof -
  assume ok: "ds_ok s" and run: "castVote env k part inst pid anon s = Inr s'"
  obtain c where c: "jget (ds_conflicts s) k = Some c" "\<not> dispute_closed c" "sc_strategy c = QuorumVote"
      "\<not> list_ex (\<lambda>v. dv_participant v = part \<and> dv_instance v = inst) (sc_votes c)"
      "list_ex (\<lambda>p. pr_id p = pid) (sc_proposals c)"
    using run unfolding castVote_def by (auto simp: require_strategy split: sum.splits if_splits)
  define v where "v = \<lparr>dv_participant = part, dv_instance = inst, dv_proposal = pid,
    dv_anonymous = (case anon of None \<Rightarrow> False | Some b \<Rightarrow> b), dv_submittedAt = dn_now env\<rparr>"
  define c1 where "c1 = c\<lparr>sc_votes := sc_votes c @ [v], sc_updatedAt := dn_now env\<rparr>"
  have "requireConflictForVoting k s = Inr c" using c by (simp add: require_strategy)
  with run c(4,5) have s': "s' = checkQuorum env c1 (put_conflict c1 s)"
    by (simp add: castVote_def Let_def c1_def v_def)
  have d: "sc_id c = k" "dispute_ok c" using ds_ok_get [OF ok c(1)] by simp_all
  have c1: "sc_id c1 = k" "\<not> dispute_closed c1" "dispute_ok c1"
    using d c by (auto simp: c1_def v_def dispute_closed_def dispute_ok_def list_all_iff list_ex_iff)
  from checkQuorum_cases [of env c1 "put_conflict c1 s"] c1(1) s' put_then_resolve [OF ok c(1,2) c1(1,3,2)]
  show ?thesis by metis
qed

lemma judge_ok: "ds_ok s \<Longrightarrow> submitDebateJudgement env k j s = Inr s' \<Longrightarrow> ds_ok s' \<and> one_change s s'"
proof -
  assume ok: "ds_ok s" and run: "submitDebateJudgement env k j s = Inr s'"
  obtain c where c: "jget (ds_conflicts s) k = Some c" "\<not> dispute_closed c" "sc_strategy c = StructuredDebate"
    using run unfolding submitDebateJudgement_def by (auto simp: require_strategy split: sum.splits)
  define c1 where "c1 = c\<lparr>sc_judgement := Some j, sc_updatedAt := dn_now env\<rparr>"
  have "requireConflictWithStrategy k StructuredDebate s = Inr c" using c by (simp add: require_strategy)
  then have "\<exists>out. s' = resolveWithOutcome env k out (put_conflict c1 s)"
    using run by (auto simp: submitDebateJudgement_def Let_def c1_def)
  moreover have "sc_id c1 = k" "\<not> dispute_closed c1" "dispute_ok c1"
    using ds_ok_get [OF ok c(1)] c(2) by (auto simp: c1_def dispute_closed_def dispute_ok_def)
  ultimately show ?thesis using put_then_resolve [OF ok c(1,2)] by metis
qed

lemma branch_ok: "ds_ok s \<Longrightarrow> updateExperimentBranch env k r s = Inr s' \<Longrightarrow> ds_ok s' \<and> one_change s s'"
proof -
  assume ok: "ds_ok s" and run: "updateExperimentBranch env k r s = Inr s'"
  obtain c where c: "jget (ds_conflicts s) k = Some c" "\<not> dispute_closed c" "sc_strategy c = ParallelExperiment"
    using run unfolding updateExperimentBranch_def by (auto simp: require_strategy split: sum.splits)
  have "requireConflictWithStrategy k ParallelExperiment s = Inr c" using c by (simp add: require_strategy)
  then obtain ex out where s': "s' = put_conflict (c\<lparr>sc_experiments := ex, sc_updatedAt := dn_now env\<rparr>) s \<or>
      s' = resolveWithOutcome env k out (put_conflict (c\<lparr>sc_experiments := ex, sc_updatedAt := dn_now env\<rparr>) s)"
    using run by (auto simp: updateExperimentBranch_def Let_def split: option.splits if_splits)
  have "sc_id (c\<lparr>sc_experiments := ex, sc_updatedAt := dn_now env\<rparr>) = k"
    "\<not> dispute_closed (c\<lparr>sc_experiments := ex, sc_updatedAt := dn_now env\<rparr>)"
    "dispute_ok (c\<lparr>sc_experiments := ex, sc_updatedAt := dn_now env\<rparr>)"
    using ds_ok_get [OF ok c(1)] c(2) by (auto simp: dispute_closed_def dispute_ok_def)
  with put_then_resolve [OF ok c(1,2)] s' show ?thesis by metis
qed

lemma resolve_change:
  "ds_ok s \<Longrightarrow> jget (ds_conflicts s) k = Some c \<Longrightarrow> \<not> dispute_closed c \<Longrightarrow>
    ds_ok (resolveWithOutcome env k out s) \<and> one_change s (resolveWithOutcome env k out s)"
  using resolve_open unfolding one_change_def by blast

lemma force_ok: "ds_ok s \<Longrightarrow> forceResolve env k w t by s = Inr s' \<Longrightarrow> ds_ok s' \<and> one_change s s'"
  unfolding forceResolve_def
  by (auto split: sum.splits simp: require_open dest: resolve_change)

lemma timeout_ok:
  assumes ok: "ds_ok s" and c: "jget (ds_conflicts s) k = Some c" "\<not> dispute_closed c"
  shows "ds_ok (handleDisputeTimeout env k s) \<and> one_change s (handleDisputeTimeout env k s)"
proof (cases "sc_strategy c = QuorumVote \<and> length (sc_votes c) > 0")
  case True
  with resolve_change [OF ok c] c show ?thesis by (simp add: handleDisputeTimeout_def dispute_closed_def)
next
  case False
  define c1 where "c1 = c\<lparr>sc_status := DisputeExpired, sc_updatedAt := dn_now env\<rparr>"
  have d: "sc_id c = k" "dispute_ok c" using ds_ok_get [OF ok c(1)] by simp_all
  obtain out r where eq: "handleDisputeTimeout env k s = settle_promise k r (appendDecisionLog env c1 out (put_conflict c1 s))"
    using False c by (auto simp: handleDisputeTimeout_def dispute_closed_def c1_def Let_def)
  have c1: "sc_id c1 = k" "dispute_ok c1" "dispute_closed c1"
    using d c by (auto simp: c1_def dispute_closed_def dispute_ok_def)
  have cs: "ds_conflicts (handleDisputeTimeout env k s) = jset k c1 (ds_conflicts s)" by (simp add: eq c1)
  then have "one_change s (handleDisputeTimeout env k s)" using c unfolding one_change_def by blast
  moreover have "ds_ok (handleDisputeTimeout env k s)"
    by (rule closing_conflict_ok [OF ok c c1 cs]) (simp_all add: eq c1, use appendDecisionLog_entry [of env c1 out "put_conflict c1 s"] c1(1) in simp)
  ultimately show ?thesis by blast
qed

lemma find_entry: "find P m = Some (k, c) \<Longrightarrow> jwf m \<Longrightarrow> jget m k = Some c \<and> P (k, c)"
  using find_SomeD jwf_in_get by metis

lemma enforce_ok:
  assumes ok: "ds_ok s"
  shows "ds_ok (enforceCapacityLimit s)"
    and "jget (ds_conflicts (enforceCapacityLimit s)) k = Some c \<Longrightarrow> jget (ds_conflicts s) k = Some c"
    and "jget (ds_conflicts (enforceCapacityLimit s)) k = jget (ds_conflicts s) k \<or>
      jget (ds_conflicts (enforceCapacityLimit s)) k = None"
    and "ds_log (enforceCapacityLimit s) = ds_log s"
proof -
  have drop: "ds_ok s'" if "ds_conflicts s' = jdel x (ds_conflicts s)" "ds_log s' = ds_log s"
      "ds_pending s' = ds_pending s \<or> ds_pending s' = sdel x (ds_pending s)" for x s'
  proof -
    have "jget (ds_conflicts s') y = Some d \<Longrightarrow> entry_ok s' (y, d)" for y d
      using ds_ok_get [OF ok, of y d] that by (auto simp: entry_ok_def logged_def split: if_splits)
    with ok that(1) show ?thesis by (simp add: ds_ok_def)
  qed
  show "ds_ok (enforceCapacityLimit s)"
    using ok by (auto simp: enforceCapacityLimit_def clear_dispute_timeout_def intro: drop split: option.split list.split)
  show "jget (ds_conflicts (enforceCapacityLimit s)) k = Some c \<Longrightarrow> jget (ds_conflicts s) k = Some c"
    by (auto simp: enforceCapacityLimit_def split: option.splits list.splits if_splits)
  show "jget (ds_conflicts (enforceCapacityLimit s)) k = jget (ds_conflicts s) k \<or>
      jget (ds_conflicts (enforceCapacityLimit s)) k = None"
    by (auto simp: enforceCapacityLimit_def split: option.split list.split)
  show "ds_log (enforceCapacityLimit s) = ds_log s"
    by (auto simp: enforceCapacityLimit_def split: option.split list.split)
qed

lemma new_conflict_ok: "dispute_ok (new_conflict env k i) \<and> \<not> dispute_closed (new_conflict env k i) \<and> sc_id (new_conflict env k i) = k"
  by (simp add: dispute_ok_def dispute_closed_def new_conflict_def)

lemma raise_ok:
  assumes ok: "ds_ok s" and fresh: "jget (ds_conflicts s) k = None" "logged k s = 0"
  shows "ds_ok (raiseConflict env k i s) \<and>
    (\<forall>x. x \<noteq> k \<longrightarrow> jget (ds_conflicts (raiseConflict env k i s)) x = jget (ds_conflicts s) x \<or>
       jget (ds_conflicts (raiseConflict env k i s)) x = None)"
proof -
  define s0 where "s0 = enforceCapacityLimit s"
  define s1 where "s1 = put_conflict (new_conflict env k i) s0"
  define s2 where "s2 = s1\<lparr>ds_pending := sadd k (ds_pending s1), ds_timeouts := sadd k (ds_timeouts s1)\<rparr>"
  note e = enforce_ok [OF ok, folded s0_def]
  have none: "jget (ds_conflicts s0) k = None" using e(3) [of k] fresh(1) by auto
  have cs: "ds_conflicts s2 = jset k (new_conflict env k i) (ds_conflicts s0)"
    by (simp add: s2_def s1_def new_conflict_ok)
  have "entry_ok s2 (x, d)" if "jget (ds_conflicts s2) x = Some d" for x d
  proof (cases "x = k")
    case True
    with that cs have d: "d = new_conflict env k i" by simp
    show ?thesis
      using new_conflict_ok [of env k i] fresh(2) e(4)
      by (simp add: entry_ok_def d True logged_def s2_def s1_def)
  next
    case False
    with that cs have "jget (ds_conflicts s0) x = Some d" by simp
    from ds_ok_get [OF e(1) this] False show ?thesis
      by (auto simp: entry_ok_def logged_def s2_def s1_def)
  qed
  moreover have "jwf (ds_conflicts s2)" using cs e(1) by (simp add: ds_ok_def)
  ultimately have ok2: "ds_ok s2" by (simp add: ds_ok_def)
  have other: "jget (ds_conflicts s2) x = jget (ds_conflicts s) x \<or> jget (ds_conflicts s2) x = None" if "x \<noteq> k" for x
    using cs e(3) [of x] that by auto
  have get2: "jget (ds_conflicts s2) k = Some (new_conflict env k i)" "\<not> dispute_closed (new_conflict env k i)"
    using cs new_conflict_ok by simp_all
  have "\<exists>out. raiseConflict env k i s = (if ri_strategy i = DeferToOwner then resolveWithOutcome env k out s2 else s2)"
    unfolding raiseConflict_def Let_def s2_def s1_def s0_def by (rule exI, rule refl)
  then obtain out where r: "raiseConflict env k i s = s2 \<or> raiseConflict env k i s = resolveWithOutcome env k out s2"
    by (auto split: if_splits)
  note res = resolve_open [OF ok2 get2, of env out]
  have "ds_ok (raiseConflict env k i s)" using r ok2 res(1) by metis
  moreover have "jget (ds_conflicts (raiseConflict env k i s)) x = jget (ds_conflicts s2) x" if "x \<noteq> k" for x
    using r res(2) that by (elim disjE) simp_all
  ultimately show ?thesis using other by metis
qed

lemma step_ok:
  assumes "dispute_step s s'" and "ds_ok s"
  shows "ds_ok s' \<and> (\<forall>k c. jget (ds_conflicts s) k = Some c \<and> dispute_closed c \<longrightarrow>
    jget (ds_conflicts s') k = Some c \<or> jget (ds_conflicts s') k = None)"
proof -
  have change: "\<forall>k c. jget (ds_conflicts s) k = Some c \<and> dispute_closed c \<longrightarrow> jget (ds_conflicts t) k = Some c"
    if "one_change s t" for t
    using that unfolding one_change_def by auto
  show ?thesis
    using assms
  proof cases
    case (d_raise k env i)
    with raise_ok [OF assms(2) d_raise(2,3), of env i] show ?thesis by (metis option.distinct(1))
  next
    case d_propose with assms(2) propose_ok change show ?thesis by metis
  next
    case d_vote with assms(2) vote_ok change show ?thesis by metis
  next
    case d_judge with assms(2) judge_ok change show ?thesis by metis
  next
    case d_branch with assms(2) branch_ok change show ?thesis by metis
  next
    case d_force with assms(2) force_ok change show ?thesis by metis
  next
    case d_timeout with assms(2) timeout_ok change show ?thesis by metis
  qed
qed

lemma reach_ok: "dispute_step\<^sup>*\<^sup>* s s' \<Longrightarrow> ds_ok s \<Longrightarrow> ds_ok s'"
  by (induction rule: rtranclp_induct) (auto dest: step_ok)

lemma new_service_ok [simp]: "ds_ok new_dispute_service"
  by (simp add: ds_ok_def new_dispute_service_def)

section \<open>Properties\<close>

text \<open>
  C21: in every reachable state of the service, a conflict has at most ten proposals and at most one
  vote per participant, each for one of its proposals; it has an outcome exactly when it is resolved; while it
  is open its promise is pending and nothing is logged, and once it is resolved or expired the
  promise is no longer pending and the decision log has exactly one entry for it.
\<close>

theorem dispute_invariant:
  assumes "dispute_step\<^sup>*\<^sup>* new_dispute_service s" and "getConflict k s = Some c"
  shows "length (sc_proposals c) \<le> 10 \<and>
    distinct (map (\<lambda>v. (dv_participant v, dv_instance v)) (sc_votes c)) \<and>
    (\<forall>v \<in> set (sc_votes c). dv_proposal v \<in> pr_id ` set (sc_proposals c)) \<and>
    (sc_outcome c \<noteq> None \<longleftrightarrow> sc_status c = DisputeResolved) \<and>
    (k \<in> set (ds_pending s) \<longleftrightarrow> \<not> dispute_closed c) \<and>
    length (filter (\<lambda>e. de_conflict e = k) (getDecisionLog s)) = (if dispute_closed c then 1 else 0)"
  using ds_ok_get [OF reach_ok [OF assms(1) new_service_ok]] assms(2)
  by (auto simp: getConflict_def getDecisionLog_def dispute_ok_def logged_def list_all_iff)

definition sample_env :: dispute_env where
  "sample_env = \<lparr>dn_now = 7, dn_logId = ''log1''\<rparr>"

definition sample_raise :: "dispute_strategy \<Rightarrow> raise_input" where
  "sample_raise st = \<lparr>ri_session = ''s'', ri_raisedBy = ''ann'', ri_raisedByInstance = ''i'', ri_question = ''q'',
     ri_context = None, ri_strategy = st, ri_quorumThreshold = None, ri_timeoutMs = None\<rparr>"

definition sample_proposal :: dispute_proposal where
  "sample_proposal = \<lparr>pr_id = [], pr_author = ''ann'', pr_instance = ''i'', pr_title = ''t'', pr_description = ''d'',
     pr_arguments = None, pr_submittedAt = 0\<rparr>"

lemma sample_reach:
  "dispute_step\<^sup>*\<^sup>* new_dispute_service (raiseConflict sample_env ''k'' (sample_raise st) new_dispute_service)"
  by (rule r_into_rtranclp, rule d_raise) (simp_all add: new_dispute_service_def logged_def)

lemma dispute_invariant_witness:
  "\<exists>c. getConflict ''k'' (raiseConflict sample_env ''k'' (sample_raise DeferToOwner) new_dispute_service) = Some c \<and>
     sc_status c = DisputeResolved \<and> sc_outcome c \<noteq> None"
proof -
  have "\<exists>c. getConflict ''k'' (raiseConflict sample_env ''k'' (sample_raise DeferToOwner) new_dispute_service) = Some c \<and>
      sc_status c = DisputeResolved"
    by (simp add: getConflict_def raiseConflict_def sample_raise_def Let_def resolveWithOutcome_def new_dispute_service_def
        enforceCapacityLimit_def max_conflicts_in_memory_def new_conflict_def)
  with dispute_invariant [OF sample_reach] show ?thesis by blast
qed

text \<open>
  a resolved or expired conflict is final: no operation of the service, on this or any other
  conflict, changes it; it can only be evicted by the capacity limit.
\<close>

theorem closed_conflict_final:
  assumes "dispute_step\<^sup>*\<^sup>* new_dispute_service s" and "dispute_step s s'"
    and "getConflict k s = Some c" and "dispute_closed c"
  shows "getConflict k s' = Some c \<or> getConflict k s' = None"
  using step_ok [OF assms(2) reach_ok [OF assms(1) new_service_ok]] assms(3,4) by (simp add: getConflict_def)

lemma closed_conflict_final_witness:
  "\<exists>c. getConflict ''k'' (raiseConflict sample_env ''k'' (sample_raise DeferToOwner) new_dispute_service) = Some c \<and>
     (getConflict ''k'' (raiseConflict sample_env ''k2'' (sample_raise QuorumVote)
        (raiseConflict sample_env ''k'' (sample_raise DeferToOwner) new_dispute_service)) \<in> {Some c, None})"
proof -
  let ?s = "raiseConflict sample_env ''k'' (sample_raise DeferToOwner) new_dispute_service"
  have "\<exists>c. getConflict ''k'' ?s = Some c \<and> dispute_closed c"
    by (simp add: getConflict_def raiseConflict_def sample_raise_def Let_def resolveWithOutcome_def new_dispute_service_def
        enforceCapacityLimit_def max_conflicts_in_memory_def new_conflict_def dispute_closed_def)
  then obtain c where c: "getConflict ''k'' ?s = Some c" "dispute_closed c" by blast
  have "jget (ds_conflicts ?s) ''k2'' = None" "logged ''k2'' ?s = 0"
    by (simp_all add: raiseConflict_def sample_raise_def Let_def resolveWithOutcome_def new_dispute_service_def
        enforceCapacityLimit_def max_conflicts_in_memory_def new_conflict_def logged_def put_conflict_def
        settle_promise_def appendDecisionLog_def clear_dispute_timeout_def)
  from closed_conflict_final [OF sample_reach d_raise [OF this, of sample_env "sample_raise QuorumVote"] c]
  show ?thesis using c(1) by auto
qed

section \<open>Quorum\<close>

definition tally :: "dispute_vote list \<Rightarrow> string \<Rightarrow> nat" where
  "tally vs p = length (filter (\<lambda>v. dv_proposal v = p) vs)"

lemma vote_counts_spec:
  "jwf (vote_counts vs) \<and> fst ` set (vote_counts vs) = dv_proposal ` set vs \<and> get_or 0 (vote_counts vs) p = tally vs p"
  unfolding vote_counts_def tally_def
  by (induction vs rule: rev_induct) auto

lemma vote_counts_entry: "(p, n) \<in> set (vote_counts vs) \<longleftrightarrow> p \<in> dv_proposal ` set vs \<and> n = tally vs p"
proof -
  have w: "jwf (vote_counts vs)" and k: "fst ` set (vote_counts vs) = dv_proposal ` set vs"
    and g: "get_or 0 (vote_counts vs) p = tally vs p"
    using vote_counts_spec [of vs p] by simp_all
  have val: "n = tally vs p" if "(p, n) \<in> set (vote_counts vs)" for n
    using that g get_or_present jwf_in_get [OF w] by metis
  show ?thesis
  proof
    assume e: "(p, n) \<in> set (vote_counts vs)"
    then have "p \<in> fst ` set (vote_counts vs)" by force
    with val [OF e] k show "p \<in> dv_proposal ` set vs \<and> n = tally vs p" by simp
  next
    assume r: "p \<in> dv_proposal ` set vs \<and> n = tally vs p"
    then have "p \<in> fst ` set (vote_counts vs)" using k by simp
    then obtain m where m: "(p, m) \<in> set (vote_counts vs)" by force
    with val [OF m] r show "(p, n) \<in> set (vote_counts vs)" by simp
  qed
qed

lemma best_share_spec:
  "(let r = best_share t es (b, x) in
     (r = (b, x) \<or> (\<exists>(w, n) \<in> set es. r = (Some w, of_nat n / of_nat t))) \<and>
     x \<le> snd r \<and> (\<forall>(w, n) \<in> set es. of_nat n / of_nat t \<le> snd r) \<and>
     ((\<exists>(w, n) \<in> set es. x < of_nat n / of_nat t) \<longrightarrow> fst r \<noteq> None \<and> r \<noteq> (b, x)))"
proof (induction es arbitrary: b x)
  case (Cons e es)
  obtain w n where e: "e = (w, n)" by force
  show ?case
  proof (cases "of_nat n / of_nat t > x")
    case True
    with Cons [of "Some w" "of_nat n / of_nat t"] e show ?thesis
      by (cases "best_share t es (Some w, of_nat n / of_nat t)") (auto simp: Let_def)
  next
    case False
    with Cons [of b x] e show ?thesis by (auto simp: Let_def)
  qed
qed simp

text \<open>Shares of a set of votes: the winner the loop finds has the largest one.\<close>

lemma quorum_winner:
  assumes "vs \<noteq> []" and "best_share (length vs) (vote_counts vs) (None, 0) = (w, share)"
  obtains p where "w = Some p" and "p \<in> dv_proposal ` set vs" and "share = of_nat (tally vs p) / of_nat (length vs)"
    and "\<And>q. of_nat (tally vs q) / of_nat (length vs) \<le> share"
proof -
  note b = best_share_spec [of "length vs" "vote_counts vs" None 0, unfolded assms(2) Let_def]
  obtain v where v: "v \<in> set vs" using assms(1) by (cases vs) auto
  then have "tally vs (dv_proposal v) > 0" by (auto simp: tally_def filter_empty_conv)
  moreover have "(dv_proposal v, tally vs (dv_proposal v)) \<in> set (vote_counts vs)"
    using v by (simp add: vote_counts_entry)
  moreover have "0 < (of_nat (tally vs (dv_proposal v)) :: rat) / of_nat (length vs)"
    using calculation(1) assms(1) by simp
  ultimately have "\<exists>(w, n) \<in> set (vote_counts vs). (0::rat) < of_nat n / of_nat (length vs)" by blast
  with b have w: "\<exists>(p, n) \<in> set (vote_counts vs). (w, share) = (Some p, of_nat n / of_nat (length vs))" by auto
  have top: "of_nat (tally vs q) / of_nat (length vs) \<le> share" for q
  proof (cases "q \<in> dv_proposal ` set vs")
    case True
    then have "(q, tally vs q) \<in> set (vote_counts vs)" by (simp add: vote_counts_entry)
    with b show ?thesis by auto
  next
    case False
    then have "tally vs q = 0" by (auto simp: tally_def filter_empty_conv)
    with b show ?thesis by simp
  qed
  from w top show thesis by (auto simp: vote_counts_entry intro: that)
qed

text \<open>
  a vote resolves the conflict exactly when at least two votes are cast and some proposal's
  share of them reaches the threshold; the winner is then a proposal of the conflict whose share reaches it
  and that no other proposal beats.
\<close>

theorem quorum_resolves_exactly:
  assumes "dispute_step\<^sup>*\<^sup>* new_dispute_service s" and "getConflict k s = Some c"
    and "\<forall>p \<in> set (sc_proposals c). pr_id p \<noteq> []"
    and "castVote env k part inst pid anon s = Inr s'"
  shows "\<exists>c' v. getConflict k s' = Some c' \<and> sc_votes c' = sc_votes c @ [v] \<and> dv_proposal v = pid \<and>
    (sc_status c' = DisputeResolved \<longleftrightarrow> 2 \<le> length (sc_votes c') \<and>
       (\<exists>p \<in> set (sc_proposals c). sc_quorumThreshold c \<le> of_nat (tally (sc_votes c') (pr_id p)) / of_nat (length (sc_votes c')))) \<and>
    (sc_status c' = DisputeResolved \<longrightarrow> (\<exists>out w. sc_outcome c' = Some out \<and> ro_winner out = Some w \<and>
       w \<in> pr_id ` set (sc_proposals c) \<and>
       sc_quorumThreshold c \<le> of_nat (tally (sc_votes c') w) / of_nat (length (sc_votes c')) \<and>
       (\<forall>q. tally (sc_votes c') q \<le> tally (sc_votes c') w)))"
proof -
  have ok: "ds_ok s" using reach_ok [OF assms(1) new_service_ok] .
  have get: "jget (ds_conflicts s) k = Some c" using assms(2) by (simp add: getConflict_def)
  have c: "\<not> dispute_closed c" "sc_strategy c = QuorumVote"
      "list_ex (\<lambda>p. pr_id p = pid) (sc_proposals c)"
    using assms(4) get unfolding castVote_def by (auto simp: require_strategy split: sum.splits if_splits)
  define v where "v = \<lparr>dv_participant = part, dv_instance = inst, dv_proposal = pid,
    dv_anonymous = (case anon of None \<Rightarrow> False | Some b \<Rightarrow> b), dv_submittedAt = dn_now env\<rparr>"
  define vs where "vs = sc_votes c @ [v]"
  define c1 where "c1 = c\<lparr>sc_votes := vs, sc_updatedAt := dn_now env\<rparr>"
  have req: "requireConflictForVoting k s = Inr c" using get c by (simp add: require_strategy)
  have s': "s' = checkQuorum env c1 (put_conflict c1 s)"
    using assms(4) req by (auto simp: castVote_def Let_def c1_def vs_def v_def split: if_splits)
  have d: "sc_id c1 = k" "sc_proposals c1 = sc_proposals c" "sc_votes c1 = vs" "sc_quorumThreshold c1 = sc_quorumThreshold c"
      "\<not> dispute_closed c1"
    using ds_ok_get [OF ok get] c(1) by (simp_all add: c1_def dispute_closed_def)
  have voted: "dv_proposal ` set vs \<subseteq> pr_id ` set (sc_proposals c)"
    using ds_ok_get [OF ok get] c(3) by (auto simp: vs_def v_def dispute_ok_def list_all_iff list_ex_iff)
  have ok1: "dispute_ok c1" "ds_ok (put_conflict c1 s)"
  proof -
    have "ds_ok s'" using vote_ok [OF ok assms(4)] by blast
    show "dispute_ok c1"
      using ds_ok_get [OF ok get] assms(4) req c voted d
      by (auto simp: dispute_ok_def c1_def vs_def v_def castVote_def list_all_iff list_ex_iff dispute_closed_def
          split: if_splits)
    then show "ds_ok (put_conflict c1 s)" using put_open_ok [OF ok get c(1) d(1)] d(5) by blast
  qed
  have get1: "jget (ds_conflicts (put_conflict c1 s)) k = Some c1" using d(1) by simp
  obtain w share where best: "best_share (length vs) (vote_counts vs) (None, 0) = (w, share)" by force
  have ne: "vs \<noteq> []" by (simp add: vs_def)
  obtain p where p: "w = Some p" "p \<in> dv_proposal ` set vs" "share = of_nat (tally vs p) / of_nat (length vs)"
      "\<And>q. of_nat (tally vs q) / of_nat (length vs) \<le> share"
    using quorum_winner [OF ne best] by blast
  have props: "sc_proposals c \<noteq> []" "p \<noteq> []" "p \<in> pr_id ` set (sc_proposals c)"
    using c(3) p(2) voted assms(3) by auto
  have most: "tally vs q \<le> tally vs p" for q
    using p(3) p(4) [of q] ne by (simp add: divide_le_cancel)
  define hit where "hit = (2 \<le> length vs \<and> sc_quorumThreshold c \<le> share)"
  have hit_iff: "hit \<longleftrightarrow> 2 \<le> length vs \<and>
      (\<exists>p \<in> set (sc_proposals c). sc_quorumThreshold c \<le> of_nat (tally vs (pr_id p)) / of_nat (length vs))"
    using props(3) p(3,4) unfolding hit_def by (auto intro: order_trans)
  show ?thesis
  proof (cases hit)
    case True
    then obtain out where out: "s' = resolveWithOutcome env k out (put_conflict c1 s)" "ro_winner out = Some p"
      using s' props(1,2) best p(1) d by (auto simp: checkQuorum_def Let_def hit_def not_less)
    have "jget (ds_conflicts s') k = Some (resolved_as env out c1)"
      using resolve_open(2) [OF ok1(2) get1 d(5)] out(1) by simp
    then show ?thesis
      using True hit_iff most props(3) p(3) out(2) d
      by (intro exI [of _ "resolved_as env out c1"] exI [of _ v])
        (auto simp: getConflict_def resolved_as_def vs_def v_def hit_def)
  next
    case False
    then have "s' = put_conflict c1 s"
      using s' props(1) best p(1) d by (auto simp: checkQuorum_def Let_def hit_def not_less)
    then show ?thesis
      using get1 False hit_iff d(3,5)
      by (intro exI [of _ c1] exI [of _ v]) (auto simp: getConflict_def vs_def v_def dispute_closed_def)
  qed
qed

text \<open>Two participants vote for the only proposal.\<close>

definition ballot0 :: dispute_service where
  "ballot0 = raiseConflict sample_env ''k'' (sample_raise QuorumVote) new_dispute_service"

definition ballot1 :: dispute_service where
  "ballot1 = projr (addProposal sample_env ''p1'' ''k'' sample_proposal ballot0)"

definition ballot2 :: dispute_service where
  "ballot2 = projr (castVote sample_env ''k'' ''ann'' ''i'' ''p1'' None ballot1)"

lemma ballot_runs:
  "addProposal sample_env ''p1'' ''k'' sample_proposal ballot0 = Inr ballot1"
  "castVote sample_env ''k'' ''ann'' ''i'' ''p1'' None ballot1 = Inr ballot2"
  "\<not> isl (castVote sample_env ''k'' ''bob'' ''i'' ''p1'' None ballot2)"
proof -
  have "\<not> isl (addProposal sample_env ''p1'' ''k'' sample_proposal ballot0)" by code_simp
  then show "addProposal sample_env ''p1'' ''k'' sample_proposal ballot0 = Inr ballot1"
    unfolding ballot1_def by simp
  have "\<not> isl (castVote sample_env ''k'' ''ann'' ''i'' ''p1'' None ballot1)" by code_simp
  then show "castVote sample_env ''k'' ''ann'' ''i'' ''p1'' None ballot1 = Inr ballot2"
    unfolding ballot2_def by simp
  show "\<not> isl (castVote sample_env ''k'' ''bob'' ''i'' ''p1'' None ballot2)" by code_simp
qed

lemma ballot_reach: "dispute_step\<^sup>*\<^sup>* new_dispute_service ballot2"
  using sample_reach [of QuorumVote] d_propose [OF ballot_runs(1)] d_vote [OF ballot_runs(2)]
  unfolding ballot0_def [symmetric] by (meson rtranclp.rtrancl_into_rtrancl)

lemma quorum_resolves_exactly_witness:
  "\<exists>s' c'. castVote sample_env ''k'' ''bob'' ''i'' ''p1'' None ballot2 = Inr s' \<and> getConflict ''k'' s' = Some c' \<and>
     sc_status c' = DisputeResolved \<and> map_option ro_winner (sc_outcome c') = Some (Some ''p1'')"
proof -
  obtain s' where run: "castVote sample_env ''k'' ''bob'' ''i'' ''p1'' None ballot2 = Inr s'"
    using ballot_runs(3) by (cases "castVote sample_env ''k'' ''bob'' ''i'' ''p1'' None ballot2") simp_all
  have "case getConflict ''k'' ballot2 of None \<Rightarrow> False
      | Some c \<Rightarrow> map pr_id (sc_proposals c) = [''p1''] \<and> map dv_proposal (sc_votes c) = [''p1''] \<and> sc_quorumThreshold c = 67 / 100"
    by code_simp
  then obtain c where c: "getConflict ''k'' ballot2 = Some c" "map pr_id (sc_proposals c) = [''p1'']"
      "map dv_proposal (sc_votes c) = [''p1'']" "sc_quorumThreshold c = 67 / 100"
    by (cases "getConflict ''k'' ballot2") auto
  have ids: "pr_id ` set (sc_proposals c) = {''p1''}" using arg_cong [OF c(2), of set] by simp
  have ne: "\<forall>p \<in> set (sc_proposals c). pr_id p \<noteq> []"
  proof
    fix p assume "p \<in> set (sc_proposals c)"
    then have "pr_id p \<in> pr_id ` set (sc_proposals c)" by blast
    with ids show "pr_id p \<noteq> []" by simp
  qed
  obtain c' v where r: "getConflict ''k'' s' = Some c'" "sc_votes c' = sc_votes c @ [v]" "dv_proposal v = ''p1''"
      "sc_status c' = DisputeResolved \<longleftrightarrow> 2 \<le> length (sc_votes c') \<and>
       (\<exists>p \<in> set (sc_proposals c). sc_quorumThreshold c \<le> of_nat (tally (sc_votes c') (pr_id p)) / of_nat (length (sc_votes c')))"
      "sc_status c' = DisputeResolved \<longrightarrow> (\<exists>out w. sc_outcome c' = Some out \<and> ro_winner out = Some w \<and> w \<in> pr_id ` set (sc_proposals c))"
    using quorum_resolves_exactly [OF ballot_reach c(1) ne run] by metis
  obtain v0 where v0: "sc_votes c = [v0]" "dv_proposal v0 = ''p1''" using c(3) by auto
  have "''p1'' \<in> pr_id ` set (sc_proposals c)" using ids by simp
  then obtain p where "''p1'' = pr_id p" and p1: "p \<in> set (sc_proposals c)" by (rule imageE)
  then have p: "p \<in> set (sc_proposals c)" "pr_id p = ''p1''" by simp_all
  have "tally (sc_votes c') (pr_id p) = 2" "length (sc_votes c') = 2" using r(2,3) v0 p(2) by (simp_all add: tally_def)
  then have res: "sc_status c' = DisputeResolved"
    unfolding r(4) using p(1) c(4) by (intro conjI bexI [of _ p]) simp_all
  then obtain out w where "sc_outcome c' = Some out" "ro_winner out = Some w" "w \<in> pr_id ` set (sc_proposals c)"
    using r(5) by blast
  with ids have "map_option ro_winner (sc_outcome c') = Some (Some ''p1'')" by simp
  with res r(1) run show ?thesis by blast
qed

section \<open>Parallel experiments\<close>

text \<open>
  when the last branch of an experiment fails and none has succeeded, the conflict is resolved all
  the same, with the first branch as the winner and the reasoning "first successful branch adopted".
\<close>

theorem failed_experiment_has_winner:
  assumes "jget (ds_conflicts s) k = Some c" and "\<not> dispute_closed c" and "sc_strategy c = ParallelExperiment"
    and "sc_id c = k" and "sc_experiments c = Some bs" and "find_index (\<lambda>b. br_proposal b = br_proposal r) bs = Some idx"
    and "br_status r = BranchFailed" and "\<forall>i < length bs. i \<noteq> idx \<longrightarrow> br_status (bs ! i) = BranchFailed" and "idx < length bs"
  shows "\<exists>s' c' out. updateExperimentBranch env k r s = Inr s' \<and> getConflict k s' = Some c' \<and>
    sc_status c' = DisputeResolved \<and> sc_outcome c' = Some out \<and>
    ro_winner out = Some (br_proposal (bs[idx := spread_branch (bs ! idx) r] ! 0)) \<and>
    ro_reasoning out = ''Parallel experiment completed; first successful branch adopted.''"
proof -
  let ?up = "bs[idx := spread_branch (bs ! idx) r]"
  have failed: "br_status b = BranchFailed" if mem: "b \<in> set ?up" for b
  proof -
    obtain i where "i < length ?up" "?up ! i = b" using mem unfolding in_set_conv_nth by blast
    then have i: "i < length bs" "b = ?up ! i" by simp_all
    show ?thesis
    proof (cases "i = idx")
      case True with i assms(7,9) show ?thesis by (simp add: spread_branch_def)
    next
      case False with i assms(8) show ?thesis by simp
    qed
  qed
  have "list_all (\<lambda>b. br_status b \<noteq> BranchPending) ?up"
    unfolding list_all_iff by (rule ballI, drule failed, simp)
  moreover have "find (\<lambda>b. br_status b = BranchCompleted) ?up = None"
    unfolding find_None_iff by (rule notI, elim exE conjE, drule failed, simp)
  moreover have "requireConflictWithStrategy k ParallelExperiment s = Inr c"
    using assms(1-3) by (simp add: require_strategy)
  ultimately show ?thesis
    using assms(2,4-6)
    by (simp add: updateExperimentBranch_def Let_def resolveWithOutcome_def getConflict_def dispute_closed_def)
qed

definition trial_branch :: branch_result where
  "trial_branch = \<lparr>br_proposal = ''p1'', br_runId = [], br_status = BranchFailed, br_outcome = None, br_completedAt = None\<rparr>"

definition trial_service :: dispute_service where
  "trial_service = put_conflict ((new_conflict sample_env ''k'' (sample_raise ParallelExperiment))
     \<lparr>sc_experiments := Some [trial_branch\<lparr>br_status := BranchPending\<rparr>]\<rparr>) new_dispute_service"

lemma failed_experiment_has_winner_witness:
  "\<exists>s' c' out. updateExperimentBranch sample_env ''k'' trial_branch trial_service = Inr s' \<and>
     getConflict ''k'' s' = Some c' \<and> sc_outcome c' = Some out \<and> ro_winner out = Some ''p1''"
  using failed_experiment_has_winner [of trial_service "''k''" _ "[trial_branch\<lparr>br_status := BranchPending\<rparr>]" trial_branch 0 sample_env]
  by (fastforce simp: trial_service_def trial_branch_def put_conflict_def new_conflict_def sample_raise_def
      dispute_closed_def spread_branch_def new_dispute_service_def)

end
