(* ===== verification/Approval_Voting.thy ===== *)
theory Approval_Voting
  imports Json Js_Text
begin

text \<open>
  Multi-user approval of pipeline gates in shared sessions (\<open>server/federation/approval-voting.ts\<close>).
  The promise handed out by \<open>requestVotes\<close> is settled by appending to \<open>av_resolved\<close>. The arbiter is
  the optional gateway: its answer, an error or a text, is an argument. Prompts are not modelled.
\<close>

datatype ballot = Approve | Reject

datatype resolution_method = Unanimous | Arbitration | Escalation

record approval_vote =
  vo_userId :: string
  vo_instanceId :: string
  vo_vote :: ballot
  vo_reason :: "string option"
  vo_timestamp :: int

record gate_resolution =
  gr_method :: resolution_method
  gr_votes :: "approval_vote list"
  gr_verdict :: "ballot option"
  gr_reasoning :: "string option"

record pending_approval =
  pa_runId :: string
  pa_stageIndex :: int
  pa_expectedVoters :: int
  pa_votes :: "approval_vote list"
  pa_createdAt :: int

record voting_service =
  av_pending :: "(string, pending_approval) jsmap"
  av_timeouts :: "string list"
  av_resolved :: "(string \<times> gate_resolution) list"

definition new_voting_service :: voting_service where
  "new_voting_service = \<lparr>av_pending = [], av_timeouts = [], av_resolved = []\<rparr>"

definition gate_key :: "string \<Rightarrow> int \<Rightarrow> string" where
  "gate_key runId stageIndex = runId @ ''::'' @ show_int stageIndex"

definition requestVotes :: "int \<Rightarrow> string \<Rightarrow> int \<Rightarrow> int \<Rightarrow> voting_service \<Rightarrow> voting_service" where
  "requestVotes now runId stageIndex expectedVoters s =
     (let key = gate_key runId stageIndex
      in s\<lparr>av_pending := jset key
             \<lparr>pa_runId = runId, pa_stageIndex = stageIndex, pa_expectedVoters = max expectedVoters 1, pa_votes = [],
              pa_createdAt = now\<rparr> (av_pending s),
           av_timeouts := sadd key (av_timeouts s)\<rparr>)"

section \<open>The arbiter's reply\<close>

text \<open>\<open>/VERDICT:\s*(APPROVE|REJECT)/i\<close>: the first position that matches.\<close>

fun match_verdict :: "string \<Rightarrow> ballot option" where
  "match_verdict [] = None"
| "match_verdict (c # cs) =
     (case strip_prefix_ci ''verdict:'' (c # cs) of
        None \<Rightarrow> match_verdict cs
      | Some rest \<Rightarrow>
          (let t = dropWhile blank rest
           in if strip_prefix_ci ''approve'' t \<noteq> None then Some Approve
              else if strip_prefix_ci ''reject'' t \<noteq> None then Some Reject
              else match_verdict cs))"

text \<open>\<open>/REASONING:\s*(.+)/is\<close>: everything after the first "REASONING:" that something follows.\<close>

fun match_reasoning :: "string \<Rightarrow> string option" where
  "match_reasoning [] = None"
| "match_reasoning (c # cs) =
     (case strip_prefix_ci ''reasoning:'' (c # cs) of
        None \<Rightarrow> match_reasoning cs
      | Some rest \<Rightarrow> if rest = [] then match_reasoning cs else Some (trim rest))"

definition parseArbitrationVerdict :: "string \<Rightarrow> ballot \<times> string" where
  "parseArbitrationVerdict content =
     ((if match_verdict content = Some Approve then Approve else Reject),
      (case match_reasoning content of Some t \<Rightarrow> t
       | None \<Rightarrow> ''Arbitration verdict rendered without explicit reasoning.''))"

section \<open>Resolution\<close>

definition escalate :: "approval_vote list \<Rightarrow> string \<Rightarrow> gate_resolution" where
  "escalate votes reason =
     \<lparr>gr_method = Escalation, gr_votes = votes, gr_verdict = None, gr_reasoning = Some (''Escalated: '' @ reason)\<rparr>"

definition arbitrate :: "(string + string) option \<Rightarrow> approval_vote list \<Rightarrow> gate_resolution" where
  "arbitrate gateway votes =
     (case gateway of
        None \<Rightarrow> escalate votes ''No gateway available for arbitration''
      | Some (Inl _) \<Rightarrow> escalate votes ''Arbitration LLM call failed''
      | Some (Inr content) \<Rightarrow>
          (let (decision, reasoning) = parseArbitrationVerdict content
           in \<lparr>gr_method = Arbitration, gr_votes = votes, gr_verdict = Some decision, gr_reasoning = Some reasoning\<rparr>))"

definition determineResolution :: "(string + string) option \<Rightarrow> approval_vote list \<Rightarrow> gate_resolution" where
  "determineResolution gateway votes =
     (let approvals = filter (\<lambda>v. vo_vote v = Approve) votes;
          rejections = filter (\<lambda>v. vo_vote v = Reject) votes
      in if length rejections = 0
         then \<lparr>gr_method = Unanimous, gr_votes = votes, gr_verdict = Some Approve, gr_reasoning = None\<rparr>
         else if length approvals = 0
         then \<lparr>gr_method = Unanimous, gr_votes = votes, gr_verdict = Some Reject, gr_reasoning = None\<rparr>
         else arbitrate gateway votes)"

definition resolveWithCurrentVotes :: "(string + string) option \<Rightarrow> string \<Rightarrow> voting_service \<Rightarrow>
    voting_service \<times> gate_resolution" where
  "resolveWithCurrentVotes gateway key s =
     (case jget (av_pending s) key of
        None \<Rightarrow> (s, \<lparr>gr_method = Unanimous, gr_votes = [], gr_verdict = Some Reject, gr_reasoning = None\<rparr>)
      | Some approval \<Rightarrow>
          (let s1 = s\<lparr>av_pending := jdel key (av_pending s), av_timeouts := sdel key (av_timeouts s)\<rparr>;
               votes = pa_votes approval;
               r = (if length votes = 0
                    then \<lparr>gr_method = Escalation, gr_votes = [], gr_verdict = None,
                          gr_reasoning = Some ''No votes received within timeout''\<rparr>
                    else determineResolution gateway votes)
           in (s1\<lparr>av_resolved := av_resolved s1 @ [(key, r)]\<rparr>, r)))"

definition already_voted :: "approval_vote \<Rightarrow> pending_approval \<Rightarrow> bool" where
  "already_voted v a = list_ex (\<lambda>x. vo_userId x = vo_userId v \<and> vo_instanceId x = vo_instanceId v) (pa_votes a)"

definition with_vote :: "approval_vote \<Rightarrow> pending_approval \<Rightarrow> pending_approval" where
  "with_vote v a = a\<lparr>pa_votes := pa_votes a @ [v]\<rparr>"

definition castVoteForStage :: "(string + string) option \<Rightarrow> string \<Rightarrow> int \<Rightarrow> approval_vote \<Rightarrow> voting_service \<Rightarrow>
    voting_service \<times> gate_resolution option" where
  "castVoteForStage gateway runId stageIndex vote s =
     (let key = gate_key runId stageIndex
      in case jget (av_pending s) key of
           None \<Rightarrow> (s, None)
         | Some approval \<Rightarrow>
             if already_voted vote approval then (s, None)
             else
               (let a1 = with_vote vote approval;
                    s1 = s\<lparr>av_pending := jset key a1 (av_pending s)\<rparr>
                in if int (length (pa_votes a1)) \<ge> pa_expectedVoters a1
                   then (let s2 = s1\<lparr>av_timeouts := sdel key (av_timeouts s1)\<rparr>;
                             (s3, r) = resolveWithCurrentVotes gateway key s2
                         in (s3, Some r))
                   else (s1, None)))"

text \<open>
  \<open>castVote\<close> has no gate: it walks over the pending approvals in order, adds the vote to each, and
  stops at the first one that is complete.
\<close>

fun cast_loop :: "(string + string) option \<Rightarrow> approval_vote \<Rightarrow> (string \<times> pending_approval) list \<Rightarrow> voting_service \<Rightarrow>
    voting_service" where
  "cast_loop gateway vote [] s = s"
| "cast_loop gateway vote ((key, approval) # rest) s =
     (if pa_runId approval = vo_userId vote then cast_loop gateway vote rest s
      else if already_voted vote approval then cast_loop gateway vote rest s
      else
        (let a1 = with_vote vote approval;
             s1 = s\<lparr>av_pending := jset key a1 (av_pending s)\<rparr>
         in if int (length (pa_votes a1)) \<ge> pa_expectedVoters a1
            then fst (resolveWithCurrentVotes gateway key (s1\<lparr>av_timeouts := sdel key (av_timeouts s1)\<rparr>))
            else cast_loop gateway vote rest s1))"

definition castVote_any :: "(string + string) option \<Rightarrow> approval_vote \<Rightarrow> voting_service \<Rightarrow> voting_service" where
  "castVote_any gateway vote s = cast_loop gateway vote (av_pending s) s"

definition getVotes :: "string \<Rightarrow> int \<Rightarrow> voting_service \<Rightarrow> approval_vote list" where
  "getVotes runId stageIndex s =
     (case jget (av_pending s) (gate_key runId stageIndex) of None \<Rightarrow> [] | Some a \<Rightarrow> pa_votes a)"

definition hasPendingApproval :: "string \<Rightarrow> int \<Rightarrow> voting_service \<Rightarrow> bool" where
  "hasPendingApproval runId stageIndex s = jhas (av_pending s) (gate_key runId stageIndex)"

section \<open>Gates\<close>

lemma determine_verdict:
  "gr_verdict (determineResolution gateway votes) = Some Approve \<Longrightarrow>
    list_all (\<lambda>v. vo_vote v = Approve) votes \<or>
    (\<exists>content. gateway = Some (Inr content) \<and> match_verdict content = Some Approve)"
  by (auto simp: determineResolution_def arbitrate_def escalate_def parseArbitrationVerdict_def Let_def list_all_iff
      filter_empty_conv split: if_splits option.splits sum.splits prod.splits intro: ballot.exhaust)

text \<open>
  voting on a gate. A vote of someone new is recorded; the gate is decided exactly when the
  expected number of voters is reached, and is then no longer pending; it is approved only if every
  vote approves or, after a disagreement, the arbiter's reply says so; it is rejected unanimously only if
  no vote approves.
\<close>

theorem gate_vote_outcome:
  assumes "jget (av_pending s) (gate_key run stage) = Some a" and "\<not> already_voted v a"
    and "castVoteForStage gateway run stage v s = (s', r)"
  shows "(r = None \<longleftrightarrow> int (length (pa_votes a)) + 1 < pa_expectedVoters a) \<and>
    (r = None \<longrightarrow> getVotes run stage s' = pa_votes a @ [v]) \<and>
    (\<forall>g. r = Some g \<longrightarrow> \<not> hasPendingApproval run stage s' \<and> gr_votes g = pa_votes a @ [v] \<and>
       av_resolved s' = av_resolved s @ [(gate_key run stage, g)] \<and>
       (gr_verdict g = Some Approve \<longrightarrow> list_all (\<lambda>x. vo_vote x = Approve) (gr_votes g) \<or>
          (\<exists>content. gateway = Some (Inr content) \<and> match_verdict content = Some Approve)) \<and>
       (gr_method g = Unanimous \<and> gr_verdict g = Some Reject \<longrightarrow> list_all (\<lambda>x. vo_vote x = Reject) (gr_votes g)))"
proof (cases "int (length (pa_votes a)) + 1 < pa_expectedVoters a")
  case True
  with assms show ?thesis
    by (auto simp: castVoteForStage_def with_vote_def Let_def getVotes_def)
next
  case False
  let ?g = "determineResolution gateway (pa_votes a @ [v])"
  have votes: "gr_votes ?g = pa_votes a @ [v]"
    by (auto simp: determineResolution_def arbitrate_def escalate_def Let_def split: option.split sum.split prod.split)
  have rej: "list_all (\<lambda>x. vo_vote x = Reject) (pa_votes a @ [v])"
    if "gr_method ?g = Unanimous" "gr_verdict ?g = Some Reject"
  proof -
    have "filter (\<lambda>x. vo_vote x = Approve) (pa_votes a @ [v]) = []"
      using that by (auto simp: determineResolution_def arbitrate_def escalate_def Let_def
          split: if_splits option.splits sum.splits prod.splits)
    then have "\<forall>x \<in> set (pa_votes a @ [v]). vo_vote x \<noteq> Approve" by (simp only: filter_empty_conv)
    then show ?thesis unfolding list_all_iff by (metis ballot.exhaust)
  qed
  have run: "r = Some ?g" "av_resolved s' = av_resolved s @ [(gate_key run stage, ?g)]"
      "av_pending s' = jdel (gate_key run stage) (jset (gate_key run stage) (with_vote v a) (av_pending s))"
    using assms False
    by (auto simp: castVoteForStage_def with_vote_def Let_def resolveWithCurrentVotes_def)
  have "\<not> hasPendingApproval run stage s'" by (simp add: hasPendingApproval_def jhas_def run(3))
  with run votes rej determine_verdict [of gateway "pa_votes a @ [v]"] False show ?thesis by auto
qed

definition gate_service :: voting_service where
  "gate_service = requestVotes 0 ''run'' 1 1 new_voting_service"

definition some_vote :: "ballot \<Rightarrow> approval_vote" where
  "some_vote b = \<lparr>vo_userId = ''ann'', vo_instanceId = ''i'', vo_vote = b, vo_reason = None, vo_timestamp = 0\<rparr>"

lemma gate_vote_outcome_witness:
  "\<exists>g. snd (castVoteForStage None ''run'' 1 (some_vote Approve) gate_service) = Some g \<and> gr_votes g = [some_vote Approve]"
proof -
  define a where "a = \<lparr>pa_runId = ''run'', pa_stageIndex = 1, pa_expectedVoters = 1, pa_votes = [], pa_createdAt = 0\<rparr>"
  have a: "jget (av_pending gate_service) (gate_key ''run'' 1) = Some a"
    by (simp add: gate_service_def requestVotes_def new_voting_service_def Let_def a_def)
  have n: "\<not> already_voted (some_vote Approve) a" by (simp add: a_def already_voted_def)
  obtain s' r where run: "castVoteForStage None ''run'' 1 (some_vote Approve) gate_service = (s', r)" by force
  have "r \<noteq> None" "\<forall>g. r = Some g \<longrightarrow> gr_votes g = [some_vote Approve]"
    using gate_vote_outcome [OF a n run] by (simp_all add: a_def)
  with run show ?thesis by auto
qed

text \<open>
  \<open>castVote\<close>, which names no gate, votes on all of them: with two gates pending that the voter has
  not voted on and the first not yet complete, one call adds the vote to both, whichever run they
  belong to.
\<close>

theorem vote_reaches_every_gate:
  assumes "av_pending s = [(k1, a1), (k2, a2)]" and "k1 \<noteq> k2"
    and "\<not> already_voted v a1" and "\<not> already_voted v a2"
    and "pa_runId a1 \<noteq> vo_userId v" and "pa_runId a2 \<noteq> vo_userId v"
    and "int (length (pa_votes a1)) + 1 < pa_expectedVoters a1" and "int (length (pa_votes a2)) + 1 < pa_expectedVoters a2"
  shows "map_option pa_votes (jget (av_pending (castVote_any gateway v s)) k1) = Some (pa_votes a1 @ [v]) \<and>
    map_option pa_votes (jget (av_pending (castVote_any gateway v s)) k2) = Some (pa_votes a2 @ [v])"
  using assms by (simp add: castVote_any_def with_vote_def Let_def)

lemma vote_reaches_every_gate_witness:
  "map_option pa_votes (jget (av_pending (castVote_any None (some_vote Reject)
     (requestVotes 0 ''other'' 2 3 (requestVotes 0 ''run'' 1 3 new_voting_service)))) (gate_key ''other'' 2)) = Some [some_vote Reject]"
proof -
  let ?a = "\<lambda>r st. \<lparr>pa_runId = r, pa_stageIndex = st, pa_expectedVoters = 3, pa_votes = [], pa_createdAt = 0\<rparr>"
  have ne: "gate_key ''run'' 1 \<noteq> gate_key ''other'' 2" by (simp add: gate_key_def)
  have p: "av_pending (requestVotes 0 ''other'' 2 3 (requestVotes 0 ''run'' 1 3 new_voting_service)) =
      [(gate_key ''run'' 1, ?a ''run'' 1), (gate_key ''other'' 2, ?a ''other'' 2)]"
    using ne by (simp add: requestVotes_def new_voting_service_def Let_def)
  show ?thesis
    using vote_reaches_every_gate [OF p ne, of "some_vote Reject" None]
    by (simp add: already_voted_def some_vote_def)
qed

end
