(* ===== verification/Permissions.thy ===== *)
theory Permissions
  imports Json
begin

text \<open>
  Permissions of shared sessions (\<open>server/federation/permissions.ts\<close>): role defaults, the checks, and
  the filter of forwarded events. A WebSocket event is a JSON object whose \<open>type\<close> is a text.
\<close>

datatype share_role = Owner | Collaborator | Viewer

record share_permissions =
  sp_role :: share_role
  sp_allowedStages :: "string list option"
  sp_canChat :: bool
  sp_canVote :: bool
  sp_canViewMemories :: bool

record shared_session =
  sh_id :: string
  sh_runId :: string
  sh_shareToken :: string
  sh_ownerInstanceId :: string
  sh_createdBy :: string
  sh_expiresAt :: "int option"
  sh_isActive :: bool
  sh_createdAt :: int
  sh_permissions :: "share_permissions option"

definition getDefaultPermissions :: "share_role \<Rightarrow> share_permissions" where
  "getDefaultPermissions r =
     (case r of
        Owner \<Rightarrow> \<lparr>sp_role = Owner, sp_allowedStages = None, sp_canChat = True, sp_canVote = True, sp_canViewMemories = True\<rparr>
      | Collaborator \<Rightarrow> \<lparr>sp_role = Collaborator, sp_allowedStages = None, sp_canChat = True, sp_canVote = True,
                        sp_canViewMemories = True\<rparr>
      | Viewer \<Rightarrow> \<lparr>sp_role = Viewer, sp_allowedStages = None, sp_canChat = False, sp_canVote = False,
                  sp_canViewMemories = True\<rparr>)"

definition resolvePermissions :: "shared_session \<Rightarrow> share_permissions" where
  "resolvePermissions s = (case sh_permissions s of Some p \<Rightarrow> p | None \<Rightarrow> getDefaultPermissions Collaborator)"

definition canChat :: "shared_session \<Rightarrow> bool" where
  "canChat s = sp_canChat (resolvePermissions s)"

definition canVote :: "shared_session \<Rightarrow> bool" where
  "canVote s = sp_canVote (resolvePermissions s)"

definition canViewMemories :: "shared_session \<Rightarrow> bool" where
  "canViewMemories s = sp_canViewMemories (resolvePermissions s)"

definition canViewStage :: "shared_session \<Rightarrow> string \<Rightarrow> bool" where
  "canViewStage s stageId =
     (case sp_allowedStages (resolvePermissions s) of None \<Rightarrow> True | Some ss \<Rightarrow> stageId \<in> set ss)"

definition starts_with :: "string \<Rightarrow> string \<Rightarrow> bool" where
  "starts_with p t = (take (length p) t = p)"

definition isChatEvent :: "string \<Rightarrow> bool" where
  "isChatEvent t = (starts_with ''chat:'' t \<or> t = ''chat_message'')"

definition isVoteEvent :: "string \<Rightarrow> bool" where
  "isVoteEvent t = (starts_with ''vote:'' t \<or> t = ''approval_vote'')"

definition isMemoryEvent :: "string \<Rightarrow> bool" where
  "isMemoryEvent t = (starts_with ''memory:'' t \<or> t = ''memory_created'')"

definition isStageEvent :: "string \<Rightarrow> bool" where
  "isStageEvent t = (starts_with ''stage:'' t \<or> t = ''stage_update'')"

definition extractStageId :: "payload \<Rightarrow> string option" where
  "extractStageId ev =
     (case Option.bind (Option.bind (jget ev ''payload'') (\<lambda>p. json_field p ''stageId'')) json_str of
        Some i \<Rightarrow> Some i
      | None \<Rightarrow> Option.bind (jget ev ''stageId'') json_str)"

definition filterEvent :: "shared_session \<Rightarrow> payload \<Rightarrow> payload option" where
  "filterEvent s ev =
     (let perms = resolvePermissions s
      in case Option.bind (jget ev ''type'') json_str of
           None \<Rightarrow> Some ev
         | Some ty \<Rightarrow>
             if ty = [] then Some ev
             else if isChatEvent ty \<and> \<not> sp_canChat perms then None
             else if isVoteEvent ty \<and> \<not> sp_canVote perms then None
             else if isMemoryEvent ty \<and> \<not> sp_canViewMemories perms then None
             else if isStageEvent ty
             then (case (extractStageId ev, sp_allowedStages perms) of
                     (Some i, Some ss) \<Rightarrow> if i \<noteq> [] \<and> i \<notin> set ss then None else Some ev
                   | _ \<Rightarrow> Some ev)
             else Some ev)"

section \<open>What a filter lets through\<close>

lemma filterEvent_unchanged: "filterEvent s ev = Some ev' \<Longrightarrow> ev' = ev"
  by (auto simp: filterEvent_def Let_def split: option.splits if_splits)

text \<open>
  C24: the filter delivers an event unchanged or not at all, and what it delivers the session may see:
  no chat event without the chat permission, no vote event without the vote permission, no memory
  event without the memory permission, and no stage event of a named stage that the session may
  not view.
\<close>

theorem filter_enforces_permissions:
  assumes "filterEvent s ev = Some ev'" and "jget ev ''type'' = Some (JStr ty)"
  shows "ev' = ev \<and> (isChatEvent ty \<longrightarrow> canChat s) \<and> (isVoteEvent ty \<longrightarrow> canVote s) \<and>
    (isMemoryEvent ty \<longrightarrow> canViewMemories s) \<and>
    (isStageEvent ty \<longrightarrow> (\<forall>i. extractStageId ev = Some i \<and> i \<noteq> [] \<longrightarrow> canViewStage s i))"
  using assms
  by (cases "ty = []")
    (auto simp: filterEvent_def Let_def canChat_def canVote_def canViewMemories_def canViewStage_def
      isChatEvent_def isVoteEvent_def isMemoryEvent_def isStageEvent_def starts_with_def
      split: option.splits if_splits)

definition viewer_session :: shared_session where
  "viewer_session = \<lparr>sh_id = ''1'', sh_runId = ''r'', sh_shareToken = ''t'', sh_ownerInstanceId = ''i'', sh_createdBy = ''ann'',
     sh_expiresAt = None, sh_isActive = True, sh_createdAt = 0,
     sh_permissions = Some (getDefaultPermissions Viewer\<lparr>sp_allowedStages := Some [''build'']\<rparr>)\<rparr>"

definition build_event :: payload where
  "build_event = [(''type'', JStr ''stage:started''), (''stageId'', JStr ''build'')]"

lemma filter_enforces_permissions_witness:
  "filterEvent viewer_session build_event = Some build_event \<and> canViewStage viewer_session ''build''"
proof -
  have f: "filterEvent viewer_session build_event = Some build_event" by code_simp
  have t: "jget build_event ''type'' = Some (JStr ''stage:started'')" by (simp add: build_event_def)
  have "isStageEvent ''stage:started''" "extractStageId build_event = Some ''build''" by code_simp+
  with filter_enforces_permissions [OF f t] f show ?thesis by simp
qed

text \<open>Fewer permissions.\<close>

definition perm_le :: "share_permissions \<Rightarrow> share_permissions \<Rightarrow> bool" where
  "perm_le p q =
     ((sp_canChat p \<longrightarrow> sp_canChat q) \<and> (sp_canVote p \<longrightarrow> sp_canVote q) \<and>
      (sp_canViewMemories p \<longrightarrow> sp_canViewMemories q) \<and>
      (case sp_allowedStages q of None \<Rightarrow> True
       | Some qs \<Rightarrow> (case sp_allowedStages p of None \<Rightarrow> False | Some ps \<Rightarrow> set ps \<subseteq> set qs)))"

lemma filter_monotone:
  assumes "perm_le (resolvePermissions s) (resolvePermissions s')" and "filterEvent s ev = Some ev"
  shows "filterEvent s' ev = Some ev"
  using assms
  by (auto simp: filterEvent_def Let_def perm_le_def split: option.splits if_splits)

lemma role_order: "perm_le (getDefaultPermissions Viewer) (getDefaultPermissions r) \<and>
    perm_le (getDefaultPermissions r) (getDefaultPermissions Owner)"
  by (cases r) (simp_all add: perm_le_def getDefaultPermissions_def)

end
