(* ===== verification/Session_Sharing.thy ===== *)
theory Session_Sharing
  imports Permissions
begin

text \<open>
  Sharing a run with federated instances (\<open>server/federation/session-sharing.ts\<close>): subscriptions,
  permission-aware forwarding, remote offers and presence. The main storage is a parameter: the row
  a lookup returns is an argument of the handler. Federation sends and WebSocket callbacks are
  returned as lists.
\<close>

record remote_offer =
  of_sessionId :: string
  of_runId :: string
  of_shareToken :: string
  of_ownerInstanceId :: string
  of_ownerName :: string

record presence_entry =
  pe_userId :: string
  pe_instanceId :: string
  pe_lastHeartbeat :: int

record sharing_service =
  ss_subscribers :: "(string, string list) jsmap"
  ss_sessions :: "(string, (string, shared_session) jsmap) jsmap"
  ss_offers :: "(string, remote_offer) jsmap"
  ss_presence :: "(string, (string, presence_entry) jsmap) jsmap"

datatype share_message =
    SessionOffer remote_offer
  | SessionSubscribe string
  | SessionUnsubscribe string
  | SessionEvent string payload
  | SessionPresence string string string

text \<open>A message and its addressee; \<open>None\<close> is a broadcast.\<close>

type_synonym share_sends = "(share_message \<times> string option) list"

datatype presence_action = Joined | Left

type_synonym presence_events = "(string \<times> string \<times> string \<times> presence_action) list"

definition new_sharing_service :: sharing_service where
  "new_sharing_service = \<lparr>ss_subscribers = [], ss_sessions = [], ss_offers = [], ss_presence = []\<rparr>"

definition presence_timeout_ms :: int where
  "presence_timeout_ms = 10000"

definition max_remote_offers :: nat where
  "max_remote_offers = 200"

definition max_presence_sessions :: nat where
  "max_presence_sessions = 500"

section \<open>Sharing and subscriptions\<close>

text \<open>The offer broadcast for a session the storage has just created.\<close>

definition shareRun :: "string \<Rightarrow> string \<Rightarrow> shared_session \<Rightarrow> share_sends" where
  "shareRun instanceId userId session =
     [(SessionOffer \<lparr>of_sessionId = sh_id session, of_runId = sh_runId session, of_shareToken = sh_shareToken session,
         of_ownerInstanceId = instanceId, of_ownerName = userId\<rparr>, None)]"

definition subscribeToSession :: "string \<Rightarrow> share_sends" where
  "subscribeToSession tok = [(SessionSubscribe tok, None)]"

definition unsubscribeFromSession :: "string \<Rightarrow> share_sends" where
  "unsubscribeFromSession tok = [(SessionUnsubscribe tok, None)]"

definition forwardEvent :: "string \<Rightarrow> payload \<Rightarrow> sharing_service \<Rightarrow> share_sends" where
  "forwardEvent runId ev s =
     (case jget (ss_subscribers s) runId of
        None \<Rightarrow> []
      | Some subs \<Rightarrow>
          if length subs = 0 then []
          else concat (map (\<lambda>peer.
                 case Option.bind (jget (ss_sessions s) runId) (\<lambda>m. jget m peer) of
                   Some session \<Rightarrow>
                     (case filterEvent session ev of
                        None \<Rightarrow> []
                      | Some _ \<Rightarrow> [(SessionEvent runId ev, Some peer)])
                 | None \<Rightarrow> [(SessionEvent runId ev, Some peer)]) subs))"

definition stopSharing :: "shared_session option \<Rightarrow> sharing_service \<Rightarrow> sharing_service" where
  "stopSharing found s =
     (case found of
        None \<Rightarrow> s
      | Some session \<Rightarrow>
          s\<lparr>ss_subscribers := jdel (sh_runId session) (ss_subscribers s),
            ss_sessions := jdel (sh_runId session) (ss_sessions s)\<rparr>)"

datatype sharing_error = SessionNotFound | NotOwner | UpdateFailed

text \<open>\<open>found\<close> is the row before and \<open>updated\<close> the storage's answer to the update.\<close>

definition updatePermissions :: "shared_session option \<Rightarrow> string \<Rightarrow> shared_session option \<Rightarrow> sharing_service \<Rightarrow>
    sharing_error + (sharing_service \<times> shared_session)" where
  "updatePermissions found requesterId updated s =
     (case found of
        None \<Rightarrow> Inl SessionNotFound
      | Some session \<Rightarrow>
          if sh_createdBy session \<noteq> requesterId then Inl NotOwner
          else (case updated of None \<Rightarrow> Inl UpdateFailed | Some u \<Rightarrow> Inr (s, u)))"

definition getRemoteOffers :: "sharing_service \<Rightarrow> remote_offer list" where
  "getRemoteOffers s = jvals (ss_offers s)"

definition handleOffer :: "remote_offer \<Rightarrow> sharing_service \<Rightarrow> sharing_service" where
  "handleOffer p s =
     (let m = (if length (ss_offers s) \<ge> max_remote_offers
               then (case ss_offers s of [] \<Rightarrow> [] | (oldest, _) # _ \<Rightarrow> jdel oldest (ss_offers s))
               else ss_offers s)
      in s\<lparr>ss_offers := jset (of_shareToken p) p m\<rparr>)"

definition handleSubscribe :: "int \<Rightarrow> shared_session option \<Rightarrow> string \<Rightarrow> sharing_service \<Rightarrow> sharing_service" where
  "handleSubscribe now found peer s =
     (case found of
        None \<Rightarrow> s
      | Some session \<Rightarrow>
          if \<not> sh_isActive session then s
          else if (case sh_expiresAt session of None \<Rightarrow> False | Some t \<Rightarrow> t < now) then s
          else
            s\<lparr>ss_subscribers := jset (sh_runId session) (sadd peer (get_or [] (ss_subscribers s) (sh_runId session)))
                                  (ss_subscribers s),
              ss_sessions := jset (sh_runId session) (jset peer session (get_or [] (ss_sessions s) (sh_runId session)))
                                  (ss_sessions s)\<rparr>)"

definition handleUnsubscribe :: "shared_session option \<Rightarrow> string \<Rightarrow> sharing_service \<Rightarrow> sharing_service" where
  "handleUnsubscribe found peer s =
     (case found of
        None \<Rightarrow> s
      | Some session \<Rightarrow>
          (let run = sh_runId session;
               subs' = (case jget (ss_subscribers s) run of
                          None \<Rightarrow> ss_subscribers s
                        | Some subs \<Rightarrow> (let subs1 = sdel peer subs
                                       in if length subs1 = 0 then jdel run (ss_subscribers s)
                                          else jset run subs1 (ss_subscribers s)));
               sess' = (case jget (ss_sessions s) run of
                          None \<Rightarrow> ss_sessions s
                        | Some m \<Rightarrow> (let m1 = jdel peer m
                                    in if length m1 = 0 then jdel run (ss_sessions s)
                                       else jset run m1 (ss_sessions s)))
           in s\<lparr>ss_subscribers := subs', ss_sessions := sess'\<rparr>))"

definition handleRemoteEvent :: "bool \<Rightarrow> string \<Rightarrow> payload \<Rightarrow> (string \<times> payload) list" where
  "handleRemoteEvent hasCallback runId ev = (if hasCallback then [(runId, ev)] else [])"

section \<open>Presence\<close>

definition presence_key :: "string \<Rightarrow> string \<Rightarrow> string" where
  "presence_key instanceId userId = instanceId @ ''::'' @ userId"

definition emitPresenceEvent :: "bool \<Rightarrow> string \<Rightarrow> string \<Rightarrow> string \<Rightarrow> presence_action \<Rightarrow> presence_events" where
  "emitPresenceEvent hasCallback sessionId userId instanceId action =
     (if hasCallback then [(sessionId, userId, instanceId, action)] else [])"

definition note_presence :: "bool \<Rightarrow> int \<Rightarrow> string \<Rightarrow> string \<Rightarrow> string \<Rightarrow>
    (string, (string, presence_entry) jsmap) jsmap \<Rightarrow> (string, (string, presence_entry) jsmap) jsmap \<times> presence_events" where
  "note_presence hasCallback now sessionId userId instanceId m =
     (let sp = get_or [] m sessionId; key = presence_key instanceId userId
      in (jset sessionId (jset key \<lparr>pe_userId = userId, pe_instanceId = instanceId, pe_lastHeartbeat = now\<rparr> sp) m,
          if \<not> jhas sp key then emitPresenceEvent hasCallback sessionId userId instanceId Joined else []))"

definition recordPresence :: "bool \<Rightarrow> int \<Rightarrow> string \<Rightarrow> string \<Rightarrow> string \<Rightarrow> sharing_service \<Rightarrow>
    sharing_service \<times> share_sends \<times> presence_events" where
  "recordPresence hasCallback now instanceId sessionId userId s =
     (let (m, evs) = note_presence hasCallback now sessionId userId instanceId (ss_presence s)
      in (s\<lparr>ss_presence := m\<rparr>, [(SessionPresence sessionId userId instanceId, None)], evs))"

definition handlePresence :: "bool \<Rightarrow> int \<Rightarrow> string \<Rightarrow> string \<Rightarrow> string \<Rightarrow> sharing_service \<Rightarrow>
    sharing_service \<times> presence_events" where
  "handlePresence hasCallback now sessionId userId instanceId s =
     (let m0 = (if jget (ss_presence s) sessionId = None \<and> length (ss_presence s) \<ge> max_presence_sessions
                then (case ss_presence s of [] \<Rightarrow> [] | (oldest, _) # _ \<Rightarrow> jdel oldest (ss_presence s))
                else ss_presence s);
          (m, evs) = note_presence hasCallback now sessionId userId instanceId m0
      in (s\<lparr>ss_presence := m\<rparr>, evs))"

definition getSessionPresence :: "int \<Rightarrow> string \<Rightarrow> sharing_service \<Rightarrow> presence_entry list" where
  "getSessionPresence now sessionId s =
     (case jget (ss_presence s) sessionId of
        None \<Rightarrow> []
      | Some sp \<Rightarrow> filter (\<lambda>e. now - pe_lastHeartbeat e < presence_timeout_ms) (jvals sp))"

definition expired_presence :: "int \<Rightarrow> presence_entry \<Rightarrow> bool" where
  "expired_presence now e = (now - pe_lastHeartbeat e \<ge> presence_timeout_ms)"

definition sweepExpiredPresence :: "bool \<Rightarrow> int \<Rightarrow> sharing_service \<Rightarrow> sharing_service \<times> presence_events" where
  "sweepExpiredPresence hasCallback now s =
     (let swept = map (\<lambda>(sid, sp). (sid, filter (\<lambda>(_, e). \<not> expired_presence now e) sp)) (ss_presence s);
          evs = concat (map (\<lambda>(sid, sp). concat (map (\<lambda>(_, e). if expired_presence now e
                  then emitPresenceEvent hasCallback sid (pe_userId e) (pe_instanceId e) Left else []) sp)) (ss_presence s))
      in (s\<lparr>ss_presence := filter (\<lambda>(_, sp). length sp \<noteq> 0) swept\<rparr>, evs))"

section \<open>Reachable subscriptions\<close>

text \<open>The session a subscribe message finds is the row of its share token, active and not expired.\<close>

inductive sharing_step :: "sharing_service \<Rightarrow> sharing_service \<Rightarrow> bool" where
  sh_subscribe: "sharing_step s (handleSubscribe now found peer s)"
| sh_unsubscribe: "sharing_step s (handleUnsubscribe found peer s)"
| sh_stop: "sharing_step s (stopSharing found s)"
| sh_update: "updatePermissions found req upd s = Inr (s', u) \<Longrightarrow> sharing_step s s'"
| sh_offer: "sharing_step s (handleOffer p s)"
| sh_presence: "sharing_step s (fst (handlePresence cb now sid uid inst s))"
| sh_record: "sharing_step s (fst (recordPresence cb now inst sid uid s))"
| sh_sweep: "sharing_step s (fst (sweepExpiredPresence cb now s))"

text \<open>Every subscriber of a run has the active session of that run it subscribed with.\<close>

definition subs_ok :: "sharing_service \<Rightarrow> bool" where
  "subs_ok s =
     (\<forall>run subs. jget (ss_subscribers s) run = Some subs \<longrightarrow>
        (\<forall>peer \<in> set subs. \<exists>m session. jget (ss_sessions s) run = Some m \<and> jget m peer = Some session \<and>
           sh_runId session = run \<and> sh_isActive session))"

lemma subs_okD:
  "subs_ok s \<Longrightarrow> jget (ss_subscribers s) run = Some subs \<Longrightarrow> peer \<in> set subs \<Longrightarrow>
    \<exists>m session. jget (ss_sessions s) run = Some m \<and> jget m peer = Some session \<and> sh_runId session = run \<and> sh_isActive session"
  unfolding subs_ok_def by blast

lemma subs_ok_same:
  "ss_subscribers s' = ss_subscribers s \<Longrightarrow> ss_sessions s' = ss_sessions s \<Longrightarrow> subs_ok s \<Longrightarrow> subs_ok s'"
  by (simp add: subs_ok_def)

lemma subscribe_ok:
  assumes "subs_ok s"
  shows "subs_ok (handleSubscribe now found peer s)"
proof (cases "handleSubscribe now found peer s = s")
  case True with assms show ?thesis by simp
next
  case False
  then obtain session where se: "found = Some session" "sh_isActive session"
    by (auto simp: handleSubscribe_def split: option.splits if_splits)
  let ?r = "sh_runId session"
  have eq: "handleSubscribe now found peer s =
      s\<lparr>ss_subscribers := jset ?r (sadd peer (get_or [] (ss_subscribers s) ?r)) (ss_subscribers s),
        ss_sessions := jset ?r (jset peer session (get_or [] (ss_sessions s) ?r)) (ss_sessions s)\<rparr>"
    using False se by (auto simp: handleSubscribe_def split: option.splits if_splits)
  have old: "\<exists>session'. jget (get_or [] (ss_sessions s) ?r) p = Some session' \<and> sh_runId session' = ?r \<and> sh_isActive session'"
    if "p \<in> set (get_or [] (ss_subscribers s) ?r)" for p
  proof (cases "jget (ss_subscribers s) ?r")
    case None with that show ?thesis by (simp add: get_or_def)
  next
    case (Some subs)
    with that subs_okD [OF assms Some, of p] show ?thesis by (auto simp: get_or_def)
  qed
  show ?thesis
    unfolding subs_ok_def
  proof (intro allI impI ballI)
    fix run subs p assume h: "jget (ss_subscribers (handleSubscribe now found peer s)) run = Some subs" "p \<in> set subs"
    show "\<exists>m session. jget (ss_sessions (handleSubscribe now found peer s)) run = Some m \<and> jget m p = Some session \<and>
        sh_runId session = run \<and> sh_isActive session"
    proof (cases "run = ?r")
      case True
      with h eq have "p = peer \<or> p \<in> set (get_or [] (ss_subscribers s) ?r)" by auto
      with True eq se old show ?thesis by (cases "p = peer") auto
    next
      case False
      with h eq have "jget (ss_subscribers s) run = Some subs" by simp
      with subs_okD [OF assms this h(2)] False eq show ?thesis by simp
    qed
  qed
qed

lemma unsubscribe_ok:
  assumes "subs_ok s"
  shows "subs_ok (handleUnsubscribe found peer s)"
proof (cases found)
  case None with assms show ?thesis by (simp add: handleUnsubscribe_def)
next
  case (Some session)
  let ?s' = "handleUnsubscribe found peer s" and ?r = "sh_runId session"
  show ?thesis
    unfolding subs_ok_def
  proof (intro allI impI ballI)
    fix run subs p assume h: "jget (ss_subscribers ?s') run = Some subs" "p \<in> set subs"
    have "\<exists>subs0. jget (ss_subscribers s) run = Some subs0 \<and> p \<in> set subs0 \<and> (run = ?r \<longrightarrow> p \<noteq> peer)"
    proof (cases "run = ?r")
      case True
      with h Some show ?thesis
        by (cases "jget (ss_subscribers s) ?r") (auto simp: handleUnsubscribe_def Let_def split: if_splits)
    next
      case False
      with h Some show ?thesis
        by (cases "jget (ss_subscribers s) ?r") (auto simp: handleUnsubscribe_def Let_def split: if_splits)
    qed
    then obtain subs0 where s0: "jget (ss_subscribers s) run = Some subs0" "p \<in> set subs0" "run = ?r \<longrightarrow> p \<noteq> peer"
      by blast
    obtain m se where m: "jget (ss_sessions s) run = Some m" "jget m p = Some se" "sh_runId se = run" "sh_isActive se"
      using subs_okD [OF assms s0(1,2)] by blast
    show "\<exists>m session. jget (ss_sessions ?s') run = Some m \<and> jget m p = Some session \<and>
        sh_runId session = run \<and> sh_isActive session"
    proof (cases "run = ?r")
      case True
      with s0(3) have "p \<noteq> peer" by simp
      with m(2) have g: "jget (jdel peer m) p = Some se" by simp
      then have "length (jdel peer m) \<noteq> 0" by (cases "jdel peer m") auto
      with True Some m g show ?thesis by (auto simp: handleUnsubscribe_def Let_def)
    next
      case False
      then have "jget (ss_sessions ?s') run = jget (ss_sessions s) run"
        using Some by (auto simp: handleUnsubscribe_def Let_def split: option.split)
      with m show ?thesis by simp
    qed
  qed
qed

lemma stop_ok: "subs_ok s \<Longrightarrow> subs_ok (stopSharing found s)"
  by (auto simp: subs_ok_def stopSharing_def split: option.split)

lemma sharing_step_ok: "sharing_step s s' \<Longrightarrow> subs_ok s \<Longrightarrow> subs_ok s'"
proof (induction rule: sharing_step.induct)
  case (sh_update found req upd s s' u)
  then have "s' = s" by (auto simp: updatePermissions_def split: option.splits if_splits)
  with sh_update show ?case by simp
qed (auto simp: subscribe_ok unsubscribe_ok stop_ok handleOffer_def handlePresence_def recordPresence_def
    sweepExpiredPresence_def Let_def case_prod_beta elim!: subs_ok_same [rotated 2])

lemma sharing_reach_ok: "sharing_step\<^sup>*\<^sup>* new_sharing_service s \<Longrightarrow> subs_ok s"
  by (induction rule: rtranclp_induct) (auto simp: subs_ok_def new_sharing_service_def dest: sharing_step_ok)

section \<open>Properties\<close>

text \<open>
  in every reachable state, an event of a run is only forwarded to peers that subscribed to that run with a session
  that was active, and only if the permissions of that session let the event through.
\<close>

theorem forwarded_events_permitted:
  assumes "sharing_step\<^sup>*\<^sup>* new_sharing_service s" and "(msg, addressee) \<in> set (forwardEvent run ev s)"
  shows "\<exists>peer m session. addressee = Some peer \<and> msg = SessionEvent run ev \<and>
    jget (ss_sessions s) run = Some m \<and> jget m peer = Some session \<and> sh_runId session = run \<and> sh_isActive session \<and>
    filterEvent session ev = Some ev"
proof -
  obtain subs where subs: "jget (ss_subscribers s) run = Some subs"
    using assms(2) by (cases "jget (ss_subscribers s) run") (simp_all add: forwardEvent_def)
  then obtain peer where p: "peer \<in> set subs"
    "(msg, addressee) \<in> set (case Option.bind (jget (ss_sessions s) run) (\<lambda>m. jget m peer) of
        Some session \<Rightarrow> (case filterEvent session ev of None \<Rightarrow> [] | Some _ \<Rightarrow> [(SessionEvent run ev, Some peer)])
      | None \<Rightarrow> [(SessionEvent run ev, Some peer)])"
    using assms(2) by (auto simp: forwardEvent_def split: if_splits)
  obtain m session where m: "jget (ss_sessions s) run = Some m" "jget m peer = Some session" "sh_runId session = run"
      "sh_isActive session"
    using subs_okD [OF sharing_reach_ok [OF assms(1)] subs p(1)] by blast
  with p(2) filterEvent_unchanged [of session ev] show ?thesis by (cases "filterEvent session ev") auto
qed

lemma forwarded_events_permitted_witness:
  "\<exists>session. filterEvent session build_event = Some build_event \<and> sh_runId session = ''r'' \<and>
     (SessionEvent ''r'' build_event, Some ''peer'') \<in>
       set (forwardEvent ''r'' build_event (handleSubscribe 0 (Some viewer_session) ''peer'' new_sharing_service))"
proof -
  have reach: "sharing_step\<^sup>*\<^sup>* new_sharing_service (handleSubscribe 0 (Some viewer_session) ''peer'' new_sharing_service)"
    by (rule r_into_rtranclp) (rule sh_subscribe)
  have f: "filterEvent viewer_session build_event = Some build_event" by code_simp
  have sent: "(SessionEvent ''r'' build_event, Some ''peer'') \<in>
      set (forwardEvent ''r'' build_event (handleSubscribe 0 (Some viewer_session) ''peer'' new_sharing_service))"
    using f by (simp add: forwardEvent_def handleSubscribe_def new_sharing_service_def viewer_session_def sadd_def get_or_def)
  from forwarded_events_permitted [OF reach sent] sent show ?thesis by auto
qed

text \<open>
  revoking a permission does not reach the peers that are already subscribed. The service keeps the session row a
  peer subscribed with; \<open>updatePermissions\<close> changes the stored row only, so that after the owner has
  taken the chat permission away, a chat event is still forwarded to the subscriber.
\<close>

theorem revoked_permission_still_forwarded:
  assumes "sh_isActive session" and "sh_expiresAt session = None" and "sh_createdBy session = req"
    and "canChat session" and "\<not> canChat revoked" and "jget ev ''type'' = Some (JStr ''chat:message'')"
    and "s = handleSubscribe now (Some session) peer new_sharing_service"
  shows "\<exists>s'. updatePermissions (Some session) req (Some revoked) s = Inr (s', revoked) \<and>
    filterEvent revoked ev = None \<and> (SessionEvent (sh_runId session) ev, Some peer) \<in> set (forwardEvent (sh_runId session) ev s')"
proof -
  have ty: "isChatEvent ''chat:message''" "\<not> isVoteEvent ''chat:message''" "\<not> isMemoryEvent ''chat:message''"
      "\<not> isStageEvent ''chat:message''"
    by code_simp+
  have "filterEvent session ev = Some ev" "filterEvent revoked ev = None"
    using assms(4-6) ty by (simp_all add: filterEvent_def canChat_def Let_def)
  with assms show ?thesis
    by (simp add: updatePermissions_def forwardEvent_def handleSubscribe_def new_sharing_service_def sadd_def)
qed

lemma revoked_permission_still_forwarded_witness:
  "\<exists>s'. (SessionEvent ''r'' [(''type'', JStr ''chat:message'')], Some ''peer'') \<in>
     set (forwardEvent ''r'' [(''type'', JStr ''chat:message'')] s')"
  using revoked_permission_still_forwarded [of "viewer_session\<lparr>sh_permissions := None\<rparr>" "''ann''" viewer_session
      "[(''type'', JStr ''chat:message'')]" _ 0 "''peer''"]
  by (auto simp: viewer_session_def canChat_def resolvePermissions_def getDefaultPermissions_def)

end
