(* ===== verification/Convergence.thy ===== *)
theory Convergence
  imports Json Js_Text
begin

text \<open>
  What the consilium loop reads off a judge's reply (\<open>server/services/orchestrator/convergence.ts\<close>): the
  convergence verdict, trusted or derived from the action points, the bounded action points and prose,
  and the verification methods with their quality check. The reply is an arbitrary JSON value;
  \<open>undefined\<close> is \<open>None\<close>.
\<close>

section \<open>Action points\<close>

datatype verification_method = Test_Run | Web_Evidence | Judge_Method | Manual_Ops

datatype dep_ref = RefNum rat | RefText string

record action_point =
  ap_title :: string
  ap_priority :: "string option"
  ap_effort :: "string option"
  ap_rationale :: "string option"
  ap_tradeoff :: "string option"
  ap_criterion :: "string option"
  ap_method :: "verification_method option"
  ap_dependsOn :: "dep_ref list option"
  ap_weak :: bool

record convergence_verdict =
  cv_converged :: bool
  cv_openP0 :: nat
  cv_openActionPoints :: "action_point list"

record round_verdict =
  rv_verdict :: string
  rv_pros :: "string list"
  rv_cons :: "string list"
  rv_actionPoints :: "action_point list"

datatype archetype = Repo_Assessment | Research | Infra

section \<open>Parsing\<close>

text \<open>An optional string field: \<open>None\<close> when the field has another type.\<close>

fun optional_string :: "json option \<Rightarrow> string option option" where
  "optional_string None = Some None"
| "optional_string (Some (JStr s)) = Some (Some s)"
| "optional_string (Some _) = None"

definition proposed_method :: "json option \<Rightarrow> verification_method option" where
  "proposed_method v =
     (if v = Some (JStr ''test-run'') then Some Test_Run
      else if v = Some (JStr ''judge'') then Some Judge_Method
      else if v = Some (JStr ''manual-ops'') then Some Manual_Ops else None)"

fun parse_ref :: "json \<Rightarrow> dep_ref option" where
  "parse_ref (JNum q) = Some (RefNum q)"
| "parse_ref (JStr s) = Some (RefText s)"
| "parse_ref _ = None"

text \<open>All elements or nothing, as \<open>z.array\<close> parses.\<close>

fun parse_all :: "('a \<Rightarrow> 'b option) \<Rightarrow> 'a list \<Rightarrow> 'b list option" where
  "parse_all f [] = Some []"
| "parse_all f (x # xs) =
     (case f x of None \<Rightarrow> None
      | Some y \<Rightarrow> (case parse_all f xs of None \<Rightarrow> None | Some ys \<Rightarrow> Some (y # ys)))"

fun parse_refs :: "json option \<Rightarrow> dep_ref list option" where
  "parse_refs (Some (JArr xs)) = parse_all parse_ref xs"
| "parse_refs _ = None"

fun parse_action_point :: "json \<Rightarrow> action_point option" where
  "parse_action_point (JObj ob) =
     (case (jget ob ''title'', optional_string (jget ob ''priority''), optional_string (jget ob ''effort''),
            optional_string (jget ob ''rationale''), optional_string (jget ob ''tradeoff''),
            optional_string (jget ob ''acceptanceCriterion'')) of
        (Some (JStr t), Some p, Some e, Some r, Some tr, Some c) \<Rightarrow>
          Some \<lparr>ap_title = t, ap_priority = p, ap_effort = e, ap_rationale = r, ap_tradeoff = tr,
                ap_criterion = c, ap_method = proposed_method (jget ob ''verificationMethod''),
                ap_dependsOn = parse_refs (jget ob ''dependsOn''), ap_weak = False\<rparr>
      | _ \<Rightarrow> None)"
| "parse_action_point _ = None"

fun parse_action_points :: "json option \<Rightarrow> action_point list option" where
  "parse_action_points (Some (JArr xs)) = parse_all parse_action_point xs"
| "parse_action_points _ = None"

text \<open>\<open>open_p0: z.number().int().nonnegative().optional()\<close>.\<close>

fun optional_count :: "json option \<Rightarrow> nat option option" where
  "optional_count None = Some None"
| "optional_count (Some (JNum q)) =
     (if q = of_int \<lfloor>q\<rfloor> \<and> q \<ge> 0 then Some (Some (nat \<lfloor>q\<rfloor>)) else None)"
| "optional_count (Some _) = None"

fun parse_convergence :: "json option \<Rightarrow> (bool \<times> nat option \<times> action_point list option) option" where
  "parse_convergence (Some (JObj ob)) =
     (case (jget ob ''converged'', optional_count (jget ob ''open_p0'')) of
        (Some (JBool b), Some p0) \<Rightarrow>
          (if jget ob ''open_action_points'' = None then Some (b, p0, None)
           else (case parse_action_points (jget ob ''open_action_points'') of
                   None \<Rightarrow> None | Some ps \<Rightarrow> Some (b, p0, Some ps)))
      | _ \<Rightarrow> None)"
| "parse_convergence _ = None"

section \<open>Output bounds\<close>

definition max_action_points :: nat where "max_action_points = 50"
definition max_title_len :: nat where "max_title_len = 500"
definition max_field_len :: nat where "max_field_len = 1000"
definition max_criterion_len :: nat where "max_criterion_len = 1000"
definition max_depends_on :: nat where "max_depends_on = 50"
definition max_depends_ref_len :: nat where "max_depends_ref_len = 500"
definition max_verdict_len :: nat where "max_verdict_len = 4000"
definition max_pros_cons :: nat where "max_pros_cons = 50"

lemmas verdict_caps = max_action_points_def max_title_len_def max_field_len_def max_criterion_len_def
  max_depends_on_def max_depends_ref_len_def max_verdict_len_def max_pros_cons_def

definition clampStr :: "nat \<Rightarrow> string \<Rightarrow> string" where
  "clampStr n v = (if length v > n then take n v else v)"

fun bound_ref :: "dep_ref \<Rightarrow> dep_ref" where
  "bound_ref (RefText t) = RefText (clampStr max_depends_ref_len t)"
| "bound_ref (RefNum q) = RefNum q"

definition boundDependsOn :: "dep_ref list \<Rightarrow> dep_ref list" where
  "boundDependsOn refs = map bound_ref (take max_depends_on refs)"

definition boundActionPoint :: "action_point \<Rightarrow> action_point" where
  "boundActionPoint p =
     \<lparr>ap_title = clampStr max_title_len (ap_title p),
      ap_priority = map_option (clampStr max_field_len) (ap_priority p),
      ap_effort = map_option (clampStr max_field_len) (ap_effort p),
      ap_rationale = map_option (clampStr max_field_len) (ap_rationale p),
      ap_tradeoff = map_option (clampStr max_field_len) (ap_tradeoff p),
      ap_criterion = map_option (clampStr max_criterion_len) (ap_criterion p),
      ap_method = ap_method p,
      ap_dependsOn = map_option boundDependsOn (ap_dependsOn p),
      ap_weak = False\<rparr>"

definition boundActionPoints :: "action_point list \<Rightarrow> action_point list" where
  "boundActionPoints points = map boundActionPoint (take max_action_points points)"

section \<open>Reading the verdict\<close>

text \<open>The body is the object one level down when that one carries the signal fields.\<close>

fun pickJudgeBody :: "json option \<Rightarrow> payload option" where
  "pickJudgeBody (Some (JObj outer)) =
     (case jget outer ''output'' of
        Some (JObj inner) \<Rightarrow>
          (if jget inner ''convergence'' \<noteq> None \<or> jget inner ''action_points'' \<noteq> None then Some inner else Some outer)
      | _ \<Rightarrow> Some outer)"
| "pickJudgeBody _ = None"

definition not_converged :: convergence_verdict where
  "not_converged = \<lparr>cv_converged = False, cv_openP0 = 0, cv_openActionPoints = []\<rparr>"

definition fromTrusted :: "json option \<Rightarrow> convergence_verdict option" where
  "fromTrusted convergence =
     (case parse_convergence convergence of
        None \<Rightarrow> None
      | Some (b, p0, points) \<Rightarrow>
          (let aps = boundActionPoints (case points of None \<Rightarrow> [] | Some ps \<Rightarrow> ps)
           in Some \<lparr>cv_converged = b, cv_openP0 = (case p0 of None \<Rightarrow> length aps | Some n \<Rightarrow> n),
                    cv_openActionPoints = aps\<rparr>))"

definition p0_priority :: string where "p0_priority = ''P0''"

definition fromActionPoints :: "json option \<Rightarrow> convergence_verdict option" where
  "fromActionPoints v =
     (case parse_action_points v of
        None \<Rightarrow> None
      | Some ps \<Rightarrow>
          (let aps = boundActionPoints (filter (\<lambda>p. ap_priority p = Some p0_priority) ps)
           in Some \<lparr>cv_converged = (length aps = 0), cv_openP0 = length aps, cv_openActionPoints = aps\<rparr>))"

definition readConvergence :: "json option \<Rightarrow> convergence_verdict" where
  "readConvergence reply =
     (case pickJudgeBody reply of
        None \<Rightarrow> not_converged
      | Some body \<Rightarrow>
          (case fromTrusted (jget body ''convergence'') of
             Some v \<Rightarrow> v
           | None \<Rightarrow>
               (case fromActionPoints (jget body ''action_points'') of
                  Some v \<Rightarrow> v | None \<Rightarrow> not_converged)))"

definition extractActionPoints :: "json option \<Rightarrow> action_point list" where
  "extractActionPoints reply =
     (case pickJudgeBody reply of
        None \<Rightarrow> []
      | Some body \<Rightarrow>
          (case parse_action_points (jget body ''action_points'') of
             None \<Rightarrow> [] | Some ps \<Rightarrow> boundActionPoints ps))"

fun boundStringList :: "json option \<Rightarrow> string list" where
  "boundStringList (Some (JStr s)) = [clampStr max_field_len s]"
| "boundStringList (Some (JArr xs)) =
     map (clampStr max_field_len) (List.map_filter json_str (take max_pros_cons xs))"
| "boundStringList _ = []"

definition readJudgeVerdict :: "json option \<Rightarrow> round_verdict option" where
  "readJudgeVerdict reply =
     (case pickJudgeBody reply of
        None \<Rightarrow> None
      | Some body \<Rightarrow>
          (let verdict = (case jget body ''verdict'' of Some (JStr s) \<Rightarrow> Some (clampStr max_verdict_len s) | _ \<Rightarrow> None);
               pros = boundStringList (jget body ''pros'');
               cons = boundStringList (jget body ''cons'');
               aps = extractActionPoints reply
           in if verdict = None \<and> length pros = 0 \<and> length cons = 0 \<and> length aps = 0 then None
              else Some \<lparr>rv_verdict = (case verdict of None \<Rightarrow> [] | Some t \<Rightarrow> t), rv_pros = pros, rv_cons = cons,
                         rv_actionPoints = aps\<rparr>))"

section \<open>Verification methods and the criterion check\<close>

definition archetypeDefaultMethod :: "archetype option \<Rightarrow> verification_method" where
  "archetypeDefaultMethod a = (if a = Some Research then Web_Evidence else Test_Run)"

definition normalizeActionPointMethods :: "archetype option \<Rightarrow> action_point list \<Rightarrow> action_point list" where
  "normalizeActionPointMethods a aps =
     map (\<lambda>ap. if ap_method ap \<noteq> None then ap else ap\<lparr>ap_method := Some (archetypeDefaultMethod a)\<rparr>) aps"

definition abstract_words :: "string list" where
  "abstract_words =
     [''works'', ''work'', ''working'', ''correct'', ''correctly'', ''proper'', ''properly'',
      ''good'', ''fine'', ''ok'', ''okay'', ''valid'', ''validly'', ''successful'', ''successfully'',
      ''success'', ''done'', ''complete'', ''completed'', ''passes'', ''pass'', ''passing'',
      ''handled'', ''handles'', ''handle'', ''better'', ''improved'', ''improve'', ''clean'',
      ''cleanly'', ''robust'', ''reliable'', ''reliably'', ''as'', ''expected'']"

definition structural_words :: "string list" where
  "structural_words =
     [''when'', ''then'', ''the'', ''a'', ''an'', ''is'', ''are'', ''be'', ''and'', ''or'', ''it'',
      ''to'', ''of'', ''in'', ''on'', ''for'', ''with'', ''that'', ''this'', ''should'', ''must'',
      ''will'', ''shall'', ''at'', ''by'']"

definition min_testrun_criterion_len :: nat where "min_testrun_criterion_len = 40"

definition isWeakCriterion :: "string option \<Rightarrow> verification_method option \<Rightarrow> bool" where
  "isWeakCriterion criterion method =
     (let c = trim (case criterion of None \<Rightarrow> [] | Some t \<Rightarrow> t); low = lower c
      in if length c = 0 then True
         else case (index_of ''when'' low, index_of ''then'' low) of
                (Some w, Some t) \<Rightarrow>
                  (if t \<le> w then True
                   else if method = Some Test_Run then
                     (if length c \<le> min_testrun_criterion_len then True
                      else \<not> list_ex (\<lambda>t. t \<notin> set abstract_words)
                             (filter (\<lambda>t. t \<notin> set structural_words) (alnum_tokens [] low)))
                   else False)
              | _ \<Rightarrow> True)"

definition applyCriteriaQa :: "action_point list \<Rightarrow> action_point list" where
  "applyCriteriaQa aps =
     map (\<lambda>ap. if \<not> isWeakCriterion (ap_criterion ap) (ap_method ap) then ap
               else ap\<lparr>ap_weak := True,
                       ap_method := Some (if ap_method ap = Some Manual_Ops then Manual_Ops else Judge_Method)\<rparr>) aps"

section \<open>Bounds\<close>

definition fits :: "nat \<Rightarrow> string option \<Rightarrow> bool" where
  "fits n v = (case v of None \<Rightarrow> True | Some t \<Rightarrow> length t \<le> n)"

fun ref_fits :: "dep_ref \<Rightarrow> bool" where
  "ref_fits (RefText t) = (length t \<le> 500)"
| "ref_fits (RefNum q) = True"

definition point_fits :: "action_point \<Rightarrow> bool" where
  "point_fits p =
     (length (ap_title p) \<le> 500 \<and> fits 1000 (ap_priority p) \<and> fits 1000 (ap_effort p) \<and>
      fits 1000 (ap_rationale p) \<and> fits 1000 (ap_tradeoff p) \<and> fits 1000 (ap_criterion p) \<and>
      (case ap_dependsOn p of None \<Rightarrow> True | Some rs \<Rightarrow> length rs \<le> 50 \<and> list_all ref_fits rs) \<and>
      ap_method p \<noteq> Some Web_Evidence)"

definition points_fit :: "action_point list \<Rightarrow> bool" where
  "points_fit ps = (length ps \<le> 50 \<and> list_all point_fits ps)"

lemma length_clampStr: "length (clampStr n t) \<le> n"
  by (simp add: clampStr_def)

lemma fits_clamp: "fits n (map_option (clampStr n) v)"
  by (simp add: fits_def length_clampStr split: option.splits)

lemma refs_fit: "length (boundDependsOn rs) \<le> 50 \<and> list_all ref_fits (boundDependsOn rs)"
proof -
  have "ref_fits (bound_ref r)" for r
    using length_clampStr [of 500] by (cases r) (simp_all add: verdict_caps)
  then show ?thesis by (simp add: boundDependsOn_def verdict_caps list_all_iff)
qed

lemma parsed_method: "parse_action_point v = Some p \<Longrightarrow> ap_method p \<noteq> Some Web_Evidence"
  by (cases v) (auto simp: proposed_method_def split: option.splits json.splits if_splits)

lemma parse_all_set: "parse_all f xs = Some ys \<Longrightarrow> y \<in> set ys \<Longrightarrow> \<exists>x. f x = Some y"
  by (induction xs arbitrary: ys) (auto split: option.splits)

lemma parsed_methods:
  assumes "parse_action_points v = Some ps"
  shows "list_all (\<lambda>p. ap_method p \<noteq> Some Web_Evidence) ps"
proof -
  obtain xs where "parse_all parse_action_point xs = Some ps"
    using assms by (cases v rule: parse_action_points.cases) auto
  from parse_all_set [OF this] show ?thesis unfolding list_all_iff by (blast dest: parsed_method)
qed

lemma bounded_points_fit:
  assumes "list_all (\<lambda>p. ap_method p \<noteq> Some Web_Evidence) ps"
  shows "points_fit (boundActionPoints ps)"
proof -
  have one: "point_fits (boundActionPoint p)" if "ap_method p \<noteq> Some Web_Evidence" for p
    using fits_clamp [of 1000] length_clampStr [of 500] refs_fit that
    by (simp add: point_fits_def boundActionPoint_def verdict_caps split: option.splits)
  have "ap_method p \<noteq> Some Web_Evidence" if "p \<in> set (take 50 ps)" for p
    using assms in_set_takeD [OF that] by (auto simp: list_all_iff)
  with one show ?thesis by (simp add: points_fit_def boundActionPoints_def verdict_caps list_all_iff)
qed

lemma parsed_points_fit: "parse_action_points v = Some ps \<Longrightarrow> points_fit (boundActionPoints ps)"
  by (rule bounded_points_fit [OF parsed_methods])

lemma no_points_fit [simp]: "points_fit []"
  by (simp add: points_fit_def)

lemma fromTrusted_fit: "fromTrusted v = Some cv \<Longrightarrow> points_fit (cv_openActionPoints cv)"
proof (cases v rule: parse_convergence.cases)
  case (1 ob)
  assume "fromTrusted v = Some cv"
  then obtain b p0 points where pc: "parse_convergence v = Some (b, p0, points)"
    and cv: "cv_openActionPoints cv = boundActionPoints (case points of None \<Rightarrow> [] | Some ps \<Rightarrow> ps)"
    by (auto simp: fromTrusted_def Let_def split: option.splits)
  show ?thesis
  proof (cases points)
    case None then show ?thesis using cv by (simp add: boundActionPoints_def)
  next
    case (Some ps)
    with pc 1 have "parse_action_points (jget ob ''open_action_points'') = Some ps"
      by (auto split: option.splits json.splits if_splits)
    with Some cv show ?thesis by (simp add: parsed_points_fit)
  qed
qed (auto simp: fromTrusted_def)

lemma fromActionPoints_fit: "fromActionPoints v = Some cv \<Longrightarrow> points_fit (cv_openActionPoints cv)"
proof -
  assume "fromActionPoints v = Some cv"
  then obtain ps where ps: "parse_action_points v = Some ps"
    and cv: "cv_openActionPoints cv = boundActionPoints (filter (\<lambda>p. ap_priority p = Some p0_priority) ps)"
    by (auto simp: fromActionPoints_def Let_def split: option.splits)
  have "list_all (\<lambda>p. ap_method p \<noteq> Some Web_Evidence) (filter (\<lambda>p. ap_priority p = Some p0_priority) ps)"
    using parsed_methods [OF ps] by (simp add: list_all_iff)
  from bounded_points_fit [OF this] cv show ?thesis by simp
qed

lemma string_list_fits: "length (boundStringList v) \<le> 50 \<and> list_all (\<lambda>t. length t \<le> 1000) (boundStringList v)"
proof (cases v rule: boundStringList.cases)
  case (2 xs)
  have "length (List.map_filter json_str ys) \<le> length ys" for ys
    by (induction ys) (auto simp: List.map_filter_simps split: option.splits)
  from this [of "take 50 xs"] 2 show ?thesis
    using length_clampStr [of 1000] by (simp add: verdict_caps list_all_iff)
qed (use length_clampStr [of 1000] in \<open>auto simp: verdict_caps\<close>)

text \<open>
  whatever a judge replies, what is persisted is bounded: at most 50 action points, titles of at
  most 500 and fields of at most 1000 characters, at most 50 dependencies each, 50 pros and 50 cons,
  a verdict of at most 4000 characters; and no judge can assign itself the \<open>web-evidence\<close> method.
\<close>

theorem judge_output_bounded:
  "points_fit (cv_openActionPoints (readConvergence reply)) \<and> points_fit (extractActionPoints reply) \<and>
   (case readJudgeVerdict reply of None \<Rightarrow> True
    | Some v \<Rightarrow> length (rv_verdict v) \<le> 4000 \<and> points_fit (rv_actionPoints v) \<and>
        length (rv_pros v) \<le> 50 \<and> list_all (\<lambda>t. length t \<le> 1000) (rv_pros v) \<and>
        length (rv_cons v) \<le> 50 \<and> list_all (\<lambda>t. length t \<le> 1000) (rv_cons v))"
proof -
  have c: "points_fit (cv_openActionPoints (readConvergence reply))"
    by (auto simp: readConvergence_def not_converged_def fromTrusted_fit fromActionPoints_fit split: option.splits)
  have e: "points_fit (extractActionPoints reply)"
    by (auto simp: extractActionPoints_def parsed_points_fit split: option.splits)
  have "length (rv_verdict v) \<le> 4000 \<and> points_fit (rv_actionPoints v) \<and>
        length (rv_pros v) \<le> 50 \<and> list_all (\<lambda>t. length t \<le> 1000) (rv_pros v) \<and>
        length (rv_cons v) \<le> 50 \<and> list_all (\<lambda>t. length t \<le> 1000) (rv_cons v)"
    if v: "readJudgeVerdict reply = Some v" for v
  proof -
    obtain body where body: "pickJudgeBody reply = Some body" using v by (auto simp: readJudgeVerdict_def split: option.splits)
    let ?t = "case jget body ''verdict'' of Some (JStr s) \<Rightarrow> Some (clampStr max_verdict_len s) | _ \<Rightarrow> None"
    have "v = \<lparr>rv_verdict = (case ?t of None \<Rightarrow> [] | Some t \<Rightarrow> t), rv_pros = boundStringList (jget body ''pros''),
        rv_cons = boundStringList (jget body ''cons''), rv_actionPoints = extractActionPoints reply\<rparr>"
      using v body by (simp add: readJudgeVerdict_def Let_def split: if_splits)
    moreover have "length (case ?t of None \<Rightarrow> [] | Some t \<Rightarrow> t) \<le> 4000"
      using length_clampStr [of 4000] by (auto simp: verdict_caps split: option.splits json.splits)
    ultimately show ?thesis using e string_list_fits by simp
  qed
  with c e show ?thesis by (simp split: option.splits)
qed

section \<open>The verdict\<close>

text \<open>
  the loop is told it converged exactly when the body carries a well-typed \<open>convergence\<close> object saying so,
  or carries no such object but a parseable list of action points without a P0; a reply without a
  readable verdict never converges.
\<close>

theorem converged_needs_evidence:
  "cv_converged (readConvergence reply) \<longleftrightarrow>
     (\<exists>body. pickJudgeBody reply = Some body \<and>
        ((\<exists>p0 ps. parse_convergence (jget body ''convergence'') = Some (True, p0, ps)) \<or>
         parse_convergence (jget body ''convergence'') = None \<and>
         (\<exists>ps. parse_action_points (jget body ''action_points'') = Some ps \<and>
            list_all (\<lambda>p. ap_priority p \<noteq> Some ''P0'') ps)))"
proof (cases "pickJudgeBody reply")
  case None
  then show ?thesis by (simp add: readConvergence_def not_converged_def)
next
  case (Some body)
  have none: "boundActionPoints (filter P ps) = [] \<longleftrightarrow> list_all (\<lambda>p. \<not> P p) ps" for P ps
    by (auto simp: boundActionPoints_def verdict_caps filter_empty_conv list_all_iff)
  show ?thesis
  proof (cases "parse_convergence (jget body ''convergence'')")
    case None
    then show ?thesis using Some none
      by (simp add: readConvergence_def fromTrusted_def fromActionPoints_def not_converged_def p0_priority_def Let_def
          split: option.splits)
  next
    case (Some t)
    obtain b p0 ps where "t = (b, p0, ps)" by (cases t)
    with Some \<open>pickJudgeBody reply = Some body\<close> show ?thesis
      by (auto simp: readConvergence_def fromTrusted_def Let_def)
  qed
qed

text \<open>A trusted object is not checked against its own points: it may claim convergence with open P0s.\<close>

lemma trusted_verdict_not_checked:
  "readConvergence (Some (JObj [(''convergence'', JObj [(''converged'', JBool True), (''open_p0'', JNum 3)])]))
     = \<lparr>cv_converged = True, cv_openP0 = 3, cv_openActionPoints = []\<rparr>"
  by (simp add: readConvergence_def fromTrusted_def boundActionPoints_def)

section \<open>The criterion check\<close>

text \<open>
  after the quality check every point is kept in place, a point still verified by a test run has a
  criterion that is not weak, a demoted point is flagged and goes to the judge unless it was operational,
  a strong point is unchanged, and a second check changes nothing.
\<close>

theorem criteria_qa_sound:
  "list_all2 (\<lambda>ap ap'.
      ap_title ap' = ap_title ap \<and> ap_criterion ap' = ap_criterion ap \<and>
      \<not> (ap_method ap' = Some Test_Run \<and> isWeakCriterion (ap_criterion ap') (Some Test_Run)) \<and>
      (if isWeakCriterion (ap_criterion ap) (ap_method ap)
       then ap_weak ap' \<and> ap_method ap' = Some (if ap_method ap = Some Manual_Ops then Manual_Ops else Judge_Method)
       else ap' = ap)) aps (applyCriteriaQa aps) \<and>
   applyCriteriaQa (applyCriteriaQa aps) = applyCriteriaQa aps"
proof -
  let ?qa = "\<lambda>ap. if \<not> isWeakCriterion (ap_criterion ap) (ap_method ap) then ap
               else ap\<lparr>ap_weak := True,
                       ap_method := Some (if ap_method ap = Some Manual_Ops then Manual_Ops else Judge_Method)\<rparr>"
  have again: "?qa (?qa ap) = ?qa ap" for ap by auto
  show ?thesis unfolding applyCriteriaQa_def
    by (auto simp: list_all2_conv_all_nth again)
qed

end
