(* ===== verification/Wave_Schedule.thy ===== *)
theory Wave_Schedule
  imports Convergence "HOL-Library.Multiset"
begin

text \<open>
  The dependency-aware wave schedule of a round's action points (\<open>resolveDepRef\<close> and
  \<open>buildWaveSchedule\<close> of \<open>server/services/orchestrator/convergence.ts\<close>). Warnings are returned as data.
\<close>

section \<open>The wave schedule\<close>

datatype wave_warning = Nonexistent_Ref nat dep_ref | Self_Dependency nat | Cycle_Broken "nat list"

text \<open>\<open>/^\s*-?\d+\s*$/\<close>.\<close>

definition integer_text :: "string \<Rightarrow> bool" where
  "integer_text s =
     (let t = trim s; ds = (case t of c # cs \<Rightarrow> if c = CHR ''-'' then cs else t | [] \<Rightarrow> [])
      in ds \<noteq> [] \<and> list_all (\<lambda>c. digit_val c \<noteq> None) ds)"

text \<open>The number a reference denotes; an integer text too large for a double is not finite.\<close>

fun ref_number :: "dep_ref \<Rightarrow> rat option" where
  "ref_number (RefNum q) = Some q"
| "ref_number (RefText s) =
     (if integer_text s
      then (case parseInt10 s of
              None \<Rightarrow> None
            | Some i \<Rightarrow> if \<bar>i\<bar> < 2 ^ 1024 - 2 ^ 970 then Some (of_int i) else None)
      else None)"

definition ref_text :: "dep_ref \<Rightarrow> string" where
  "ref_text r = (case r of RefNum q \<Rightarrow> show_number q | RefText s \<Rightarrow> s)"

text \<open>The index is a number of the source's: a fractional ordinal has a fractional index.\<close>

definition resolveDepRef :: "nat \<Rightarrow> (string, nat) jsmap \<Rightarrow> dep_ref \<Rightarrow> rat option" where
  "resolveDepRef n titles r =
     (case ref_number r of
        Some q \<Rightarrow> (if 0 \<le> q - 1 \<and> q - 1 < of_nat n then Some (q - 1) else None)
      | None \<Rightarrow> map_option of_nat (jget titles (lower (trim (ref_text r)))))"

fun title_index :: "nat \<Rightarrow> action_point list \<Rightarrow> (string, nat) jsmap \<Rightarrow> (string, nat) jsmap" where
  "title_index i [] m = m"
| "title_index i (ap # aps) m =
     (let key = lower (trim (ap_title ap))
      in title_index (Suc i) aps (if length key > 0 \<and> \<not> jhas m key then jset key i m else m))"

text \<open>The prerequisites of action point \<open>i\<close>, with the warnings of the dropped references.\<close>

fun prereqs_of :: "nat \<Rightarrow> (string, nat) jsmap \<Rightarrow> nat \<Rightarrow> dep_ref list \<Rightarrow> rat list \<Rightarrow> rat list \<times> wave_warning list" where
  "prereqs_of n titles i [] acc = (acc, [])"
| "prereqs_of n titles i (r # rs) acc =
     (case resolveDepRef n titles r of
        None \<Rightarrow> (let (s, w) = prereqs_of n titles i rs acc in (s, Nonexistent_Ref (i + 1) r # w))
      | Some d \<Rightarrow>
          (if d = of_nat i then (let (s, w) = prereqs_of n titles i rs acc in (s, Self_Dependency (i + 1) # w))
           else prereqs_of n titles i rs (sadd d acc)))"

text \<open>\<open>scheduled[dep]\<close> of a fractional index is undefined, hence false.\<close>

definition is_scheduled :: "nat list \<Rightarrow> rat \<Rightarrow> bool" where
  "is_scheduled finished d = list_ex (\<lambda>j. of_nat j = d) finished"

function wave_loop :: "rat list list \<Rightarrow> nat \<Rightarrow> nat list \<Rightarrow> nat list list \<times> wave_warning list" where
  "wave_loop prereqs n finished =
     (let rest = filter (\<lambda>i. i \<notin> set finished) [0..<n];
          wave = filter (\<lambda>i. list_all (is_scheduled finished) (prereqs ! i)) rest
      in if rest = [] then ([], [])
         else if wave = [] then ([rest], [Cycle_Broken (map Suc rest)])
         else (let (ws, warn) = wave_loop prereqs n (finished @ wave) in (wave # ws, warn)))"
  by pat_completeness auto

termination wave_loop
proof (relation "measure (\<lambda>(prereqs, n, finished). length (filter (\<lambda>i. i \<notin> set finished) [0..<n]))", goal_cases)
  case (2 prereqs n finished rest wave)
  obtain x where "x \<in> set wave" using 2(4) by (cases wave) auto
  then have "x < n" "x \<notin> set finished" using 2 by auto
  then have "{i. i < n \<and> i \<notin> set (finished @ wave)} \<subset> {i. i < n \<and> i \<notin> set finished}"
    using \<open>x \<in> set wave\<close> by auto
  then have "card {i. i < n \<and> i \<notin> set (finished @ wave)} < card {i. i < n \<and> i \<notin> set finished}"
    by (intro psubset_card_mono) auto
  moreover have "length (filter P [0..<n]) = card {i. i < n \<and> P i}" for P
    using distinct_card [of "filter P [0..<n]"] by (simp add: conj_commute)
  ultimately show ?case by simp
qed simp

declare wave_loop.simps [simp del]

definition prereq_table :: "action_point list \<Rightarrow> (rat list \<times> wave_warning list) list" where
  "prereq_table aps =
     (let n = length aps; titles = title_index 0 aps []
      in map (\<lambda>i. prereqs_of n titles i (case ap_dependsOn (aps ! i) of None \<Rightarrow> [] | Some rs \<Rightarrow> rs) []) [0..<n])"

definition wave_indices :: "action_point list \<Rightarrow> nat list list \<times> wave_warning list" where
  "wave_indices aps =
     (let table = prereq_table aps; (ws, warn) = wave_loop (map fst table) (length aps) []
      in (ws, concat (map snd table) @ warn))"

definition buildWaveSchedule :: "action_point list \<Rightarrow> action_point list list \<times> wave_warning list" where
  "buildWaveSchedule aps =
     (if length aps = 0 then ([], [])
      else if length aps = 1 then ([[aps ! 0]], [])
      else (let (ws, warn) = wave_indices aps in (map (map (\<lambda>i. aps ! i)) ws, warn)))"

section \<open>The levels\<close>

text \<open>
  A run of the loop: every wave is ready when it starts, or it is the rest of the points, each of which
  still waits for a prerequisite, and the loop ends with the warning.
\<close>

fun waves_ok :: "rat list list \<Rightarrow> nat list \<Rightarrow> nat list list \<Rightarrow> wave_warning list \<Rightarrow> bool" where
  "waves_ok prereqs finished [] warn = (warn = [])"
| "waves_ok prereqs finished (w # ws) warn =
     ((list_all (\<lambda>i. list_all (is_scheduled finished) (prereqs ! i)) w \<and> waves_ok prereqs (finished @ w) ws warn) \<or>
      (ws = [] \<and> w \<noteq> [] \<and> warn = [Cycle_Broken (map Suc w)] \<and>
       list_all (\<lambda>i. \<not> list_all (is_scheduled finished) (prereqs ! i)) w))"

lemma wave_loop_levels:
  assumes "wave_loop prereqs n finished = (ws, warn)" "distinct finished" "set finished \<subseteq> {..<n}"
  shows "waves_ok prereqs finished ws warn \<and> distinct (finished @ concat ws) \<and> set (finished @ concat ws) = {..<n}"
  using assms
proof (induction prereqs n finished arbitrary: ws warn rule: wave_loop.induct)
  case (1 prereqs n finished)
  define rest where "rest = filter (\<lambda>i. i \<notin> set finished) [0..<n]"
  define wave where "wave = filter (\<lambda>i. list_all (is_scheduled finished) (prereqs ! i)) rest"
  have loop: "(if rest = [] then ([], [])
         else if wave = [] then ([rest], [Cycle_Broken (map Suc rest)])
         else (let (ws, warn) = wave_loop prereqs n (finished @ wave) in (wave # ws, warn))) = (ws, warn)"
    using "1.prems"(1) wave_loop.simps [of prereqs n finished] by (simp only: rest_def wave_def Let_def)
  have r: "set rest = {..<n} - set finished" "distinct rest" by (auto simp: rest_def)
  show ?case
  proof (cases "rest = []")
    case True
    then show ?thesis using loop "1.prems"(2,3) r(1) by auto
  next
    case nonempty: False
    show ?thesis
    proof (cases "wave = []")
      case True
      then have "ws = [rest]" "warn = [Cycle_Broken (map Suc rest)]" using loop nonempty by auto
      moreover have "list_all (\<lambda>i. \<not> list_all (is_scheduled finished) (prereqs ! i)) rest"
        using True by (simp add: wave_def filter_empty_conv list_all_iff)
      ultimately show ?thesis using nonempty r "1.prems"(2,3) by auto
    next
      case False
      obtain ws1 where rec: "wave_loop prereqs n (finished @ wave) = (ws1, warn)" and ws: "ws = wave # ws1"
        using loop nonempty False by (auto split: prod.splits)
      have w: "set wave \<subseteq> set rest" "distinct wave" using r(2) by (auto simp: wave_def)
      have "distinct (finished @ wave)" "set (finished @ wave) \<subseteq> {..<n}"
        using "1.prems"(2,3) w r(1) by auto
      from "1.IH" [OF rest_def wave_def nonempty False rec this]
      have "waves_ok prereqs (finished @ wave) ws1 warn \<and> distinct ((finished @ wave) @ concat ws1) \<and>
          set ((finished @ wave) @ concat ws1) = {..<n}" .
      moreover have "list_all (\<lambda>i. list_all (is_scheduled finished) (prereqs ! i)) wave"
        by (simp add: wave_def list_all_iff)
      ultimately show ?thesis by (simp add: ws)
    qed
  qed
qed

lemma wave_indices_levels:
  assumes "wave_indices aps = (ws, warn)"
  obtains cyc where "waves_ok (map fst (prereq_table aps)) [] ws cyc"
    and "warn = concat (map snd (prereq_table aps)) @ cyc"
    and "distinct (concat ws)" and "set (concat ws) = {..<length aps}"
proof -
  obtain cyc where loop: "wave_loop (map fst (prereq_table aps)) (length aps) [] = (ws, cyc)"
    and warn: "warn = concat (map snd (prereq_table aps)) @ cyc"
    using assms by (auto simp: wave_indices_def Let_def split: prod.splits)
  from wave_loop_levels [OF loop] have "waves_ok (map fst (prereq_table aps)) [] ws cyc"
    "distinct (concat ws)" "set (concat ws) = {..<length aps}" by simp_all
  with warn that show thesis by blast
qed

text \<open>
  C34: the schedule always ends and holds every action point of the round exactly once, whatever the judge
  declared as dependencies.
\<close>

theorem wave_schedule_complete:
  "mset (concat (fst (buildWaveSchedule aps))) = mset aps"
proof -
  consider "aps = []" | ap where "aps = [ap]" | "length aps > 1" by (cases aps rule: remdups_adj.cases) auto
  then show ?thesis
  proof cases
    case 3
    obtain ws warn where w: "wave_indices aps = (ws, warn)" by force
    from wave_indices_levels [OF this] have d: "distinct (concat ws)" "set (concat ws) = {..<length aps}" by metis+
    have "concat (fst (buildWaveSchedule aps)) = map (\<lambda>i. aps ! i) (concat ws)"
      using 3 w by (auto simp: buildWaveSchedule_def map_concat)
    moreover have "mset (concat ws) = mset [0..<length aps]"
      using d set_eq_iff_mset_eq_distinct [of "concat ws" "[0..<length aps]"] by auto
    ultimately have "mset (concat (fst (buildWaveSchedule aps))) = image_mset (\<lambda>i. aps ! i) (mset [0..<length aps])"
      by (metis mset_map)
    also have "\<dots> = mset aps" by (metis map_nth mset_map)
    finally show ?thesis .
  qed (simp_all add: buildWaveSchedule_def)
qed

section \<open>Dependencies\<close>

text \<open>What the judge declared: point \<open>i\<close> names point \<open>j\<close>, by ordinal or by title.\<close>

definition declared :: "action_point list \<Rightarrow> nat \<Rightarrow> dep_ref list" where
  "declared aps i = (case ap_dependsOn (aps ! i) of None \<Rightarrow> [] | Some rs \<Rightarrow> rs)"

definition names_index :: "action_point list \<Rightarrow> nat \<Rightarrow> rat \<Rightarrow> bool" where
  "names_index aps i d \<longleftrightarrow>
     i < length aps \<and> d \<noteq> of_nat i \<and>
     (\<exists>r \<in> set (declared aps i). resolveDepRef (length aps) (title_index 0 aps []) r = Some d)"

definition dep_edges :: "action_point list \<Rightarrow> (nat \<times> nat) set" where
  "dep_edges aps = {(j, i). names_index aps i (of_nat j)}"

definition whole_ordinals :: "action_point list \<Rightarrow> bool" where
  "whole_ordinals aps =
     list_all (\<lambda>ap. case ap_dependsOn ap of None \<Rightarrow> True
       | Some rs \<Rightarrow> list_all (\<lambda>r. case r of RefNum q \<Rightarrow> q = of_int \<lfloor>q\<rfloor> | RefText _ \<Rightarrow> True) rs) aps"

lemma prereqs_of_set:
  "set (fst (prereqs_of n titles i rs acc)) =
     set acc \<union> {d. d \<noteq> of_nat i \<and> (\<exists>r \<in> set rs. resolveDepRef n titles r = Some d)}"
  by (induction n titles i rs acc rule: prereqs_of.induct) (auto simp: Let_def split: option.splits prod.splits)

lemma prereqs_nth:
  "i < length aps \<Longrightarrow> d \<in> set (map fst (prereq_table aps) ! i) \<longleftrightarrow> names_index aps i d"
  by (auto simp: prereq_table_def Let_def prereqs_of_set names_index_def declared_def)

lemma no_cycle_warning:
  "Cycle_Broken xs \<notin> set (concat (map snd (prereq_table aps)))"
proof -
  have "Cycle_Broken xs \<notin> set (snd (prereqs_of n titles i rs acc))" for n titles i rs acc
    by (induction n titles i rs acc rule: prereqs_of.induct) (auto simp: Let_def split: option.splits prod.splits)
  then show ?thesis by (auto simp: prereq_table_def Let_def)
qed

lemma title_index_range: "(k, j) \<in> set (title_index i aps m) \<Longrightarrow> (k, j) \<in> set m \<or> i \<le> j \<and> j < i + length aps"
proof (induction i aps m rule: title_index.induct)
  case (2 i ap aps m)
  define key where "key = lower (trim (ap_title ap))"
  define m' where "m' = (if length key > 0 \<and> \<not> jhas m key then jset key i m else m)"
  have "(k, j) \<in> set (title_index (Suc i) aps m')" using 2(2) unfolding title_index.simps Let_def key_def m'_def .
  with 2(1) [OF key_def, folded m'_def] consider "(k, j) \<in> set m'" | "Suc i \<le> j \<and> j < Suc i + length aps"
    by blast
  moreover have "(k, j) \<in> set m' \<Longrightarrow> (k, j) \<in> set m \<or> j = i"
  proof -
    assume a: "(k, j) \<in> set m'"
    show ?thesis
    proof (cases "length key > 0 \<and> \<not> jhas m key")
      case True
      then have "m' = m @ [(key, i)]" using jvals_jset_absent by (auto simp: m'_def jhas_iff)
      with a show ?thesis by auto
    qed (use a in \<open>auto simp: m'_def\<close>)
  qed
  ultimately show ?case by force
qed simp

lemma resolved_index:
  assumes "resolveDepRef (length aps) (title_index 0 aps []) r = Some d"
    and "case r of RefNum q \<Rightarrow> q = of_int \<lfloor>q\<rfloor> | RefText _ \<Rightarrow> True"
  obtains j where "j < length aps" "d = of_nat j"
proof (cases "ref_number r")
  case None
  with assms(1) obtain j k where "jget (title_index 0 aps []) k = Some j" and d: "d = of_nat j"
    by (auto simp: resolveDepRef_def)
  from title_index_range [OF jget_in [OF this(1)]] have "j < length aps" by simp
  with d that show thesis by blast
next
  case (Some q)
  with assms(1) have q: "0 \<le> q - 1" "q - 1 < of_nat (length aps)" "d = q - 1"
    by (auto simp: resolveDepRef_def split: if_splits)
  obtain z where "q = of_int z"
    using Some assms(2) by (cases r) (auto split: option.splits if_splits)
  with q have d: "d = of_int (z - 1)" and z: "0 \<le> z - 1" "z - 1 < int (length aps)" by simp_all
  from z d have "d = of_nat (nat (z - 1))" by simp
  with z that [of "nat (z - 1)"] show thesis by auto
qed

lemma names_whole:
  assumes "whole_ordinals aps" "names_index aps i d"
  obtains j where "j < length aps" "d = of_nat j"
proof -
  from assms(2) obtain r where r: "r \<in> set (declared aps i)" "resolveDepRef (length aps) (title_index 0 aps []) r = Some d"
    and i: "i < length aps" by (auto simp: names_index_def)
  from i have "aps ! i \<in> set aps" by simp
  with assms(1) have "list_all (\<lambda>r. case r of RefNum q \<Rightarrow> q = of_int \<lfloor>q\<rfloor> | RefText _ \<Rightarrow> True) (declared aps i)"
    unfolding whole_ordinals_def list_all_iff [of _ aps] declared_def by (auto split: option.splits)
  with r(1) have "case r of RefNum q \<Rightarrow> q = of_int \<lfloor>q\<rfloor> | RefText _ \<Rightarrow> True"
    unfolding list_all_iff by blast
  from resolved_index [OF r(2) this] that show thesis by blast
qed

lemma scheduled_nat: "is_scheduled xs (of_nat j) \<longleftrightarrow> j \<in> set xs"
  by (auto simp: is_scheduled_def list_ex_iff)

lemma no_stuck_wave:
  assumes "whole_ordinals aps" "acyclic (dep_edges aps)" "W \<noteq> {}" "W \<subseteq> {..<length aps}"
    and "\<And>j. j < length aps \<Longrightarrow> j \<notin> W \<Longrightarrow> j \<in> set finished"
  shows "\<exists>i \<in> W. \<forall>d. names_index aps i d \<longrightarrow> is_scheduled finished d"
proof -
  have "dep_edges aps \<subseteq> {..<length aps} \<times> {..<length aps}"
  proof
    fix e assume e: "e \<in> dep_edges aps"
    obtain j i where ji: "e = (j, i)" by force
    from e ji have n: "names_index aps i (of_nat j)" by (simp add: dep_edges_def)
    from names_whole [OF assms(1) n] obtain j' where "j' < length aps" "of_nat j = (of_nat j' :: rat)" .
    with n ji show "e \<in> {..<length aps} \<times> {..<length aps}" by (simp add: names_index_def)
  qed
  then have "finite (dep_edges aps)" by (rule finite_subset) simp
  then have "wf (dep_edges aps)" using assms(2) by (rule finite_acyclic_wf)
  from wfE_min' [OF this assms(3)] obtain i where i: "i \<in> W" "\<And>j. (j, i) \<in> dep_edges aps \<Longrightarrow> j \<notin> W" by blast
  have "is_scheduled finished d" if n: "names_index aps i d" for d
  proof -
    from names_whole [OF assms(1) n] obtain j where j: "j < length aps" "d = of_nat j" .
    with n have "(j, i) \<in> dep_edges aps" by (simp add: dep_edges_def)
    with i(2) j assms(5) show ?thesis by (simp add: scheduled_nat)
  qed
  with i(1) show ?thesis by blast
qed

lemma waves_follow_edges:
  assumes "whole_ordinals aps" "acyclic (dep_edges aps)"
    and "waves_ok (map fst (prereq_table aps)) finished ws cyc"
    and "set (finished @ concat ws) = {..<length aps}"
  shows "cyc = [] \<and> (\<forall>k < length ws. \<forall>i \<in> set (ws ! k). \<forall>j. (j, i) \<in> dep_edges aps \<longrightarrow>
            j \<in> set (finished @ concat (take k ws)))"
  using assms(3,4)
proof (induction ws arbitrary: finished)
  case (Cons w ws)
  let ?ready = "\<lambda>i. list_all (is_scheduled finished) (map fst (prereq_table aps) ! i)"
  have w: "set w \<subseteq> {..<length aps}" using Cons.prems(2) by auto
  then have ready: "?ready i \<longleftrightarrow> (\<forall>d. names_index aps i d \<longrightarrow> is_scheduled finished d)" if "i \<in> set w" for i
    using that prereqs_nth [of i aps] by (auto simp: list_all_iff)
  have "\<not> (ws = [] \<and> w \<noteq> [] \<and> list_all (\<lambda>i. \<not> ?ready i) w)"
  proof
    assume stuck: "ws = [] \<and> w \<noteq> [] \<and> list_all (\<lambda>i. \<not> ?ready i) w"
    then have fin: "\<And>j. j < length aps \<Longrightarrow> j \<notin> set w \<Longrightarrow> j \<in> set finished" using Cons.prems(2) by auto
    have "set w \<noteq> {}" using stuck by simp
    from no_stuck_wave [OF assms(1,2) this w fin] obtain i where "i \<in> set w" "?ready i" using ready by blast
    with stuck show False unfolding list_all_iff by blast
  qed
  with Cons.prems(1) have now: "list_all ?ready w" and later: "waves_ok (map fst (prereq_table aps)) (finished @ w) ws cyc" by auto
  from Cons.IH [OF later] Cons.prems(2)
  have IH: "cyc = []" "\<And>k i j. k < length ws \<Longrightarrow> i \<in> set (ws ! k) \<Longrightarrow> (j, i) \<in> dep_edges aps \<Longrightarrow>
      j \<in> set ((finished @ w) @ concat (take k ws))" by auto
  have "j \<in> set finished" if "i \<in> set w" "(j, i) \<in> dep_edges aps" for i j
    using now ready that by (auto simp: list_all_iff dep_edges_def scheduled_nat [symmetric])
  with IH show ?case by (auto simp: nth_Cons less_Suc_eq_0_disj split: nat.splits)
qed simp



text \<open>A fractional ordinal is in range but names no point: its owner is reported as a cycle.\<close>

lemma fractional_ordinal_false_cycle:
  defines "p \<equiv> \<lparr>ap_title = ''fix'', ap_priority = None, ap_effort = None, ap_rationale = None, ap_tradeoff = None,
     ap_criterion = None, ap_method = None, ap_dependsOn = None, ap_weak = False\<rparr>"
  shows "wave_indices [p, p\<lparr>ap_dependsOn := Some [RefNum (3 / 2)]\<rparr>] = ([[0], [1]], [Cycle_Broken [2]])"
  unfolding p_def by code_simp

end
