(* ===== verification/Task_Store.thy ===== *)
theory Task_Store
  imports Json
begin

text \<open>
  The task-group part of the in-memory storage (\<open>MemStorage\<close> in \<open>server/storage.ts\<close>; row types in
  \<open>shared/schema.ts\<close>): groups, task definitions, iterations and executions. Identifiers and clock
  readings are arguments. Columns no modelled operation reads (project, trace, pipeline ids, and the legacy
  result columns of a definition) are left out of the rows; a partial update is a function on the row.
\<close>

section \<open>Rows\<close>

datatype task_status = T_Pending | T_Blocked | T_Ready | T_Running | T_Completed | T_Failed | T_Cancelled

datatype group_status = G_Pending | G_Running | G_Completed | G_Failed | G_Cancelled

record group_row =
  gp_id :: string
  gp_name :: string
  gp_description :: string
  gp_status :: group_status
  gp_input :: string
  gp_output :: "json option"
  gp_createdBy :: "string option"
  gp_startedAt :: "int option"
  gp_completedAt :: "int option"

record task_row =
  tk_id :: string
  tk_groupId :: string
  tk_name :: string
  tk_description :: string
  tk_status :: task_status
  tk_dependsOn :: "string list"
  tk_workspaceId :: "string option"
  tk_modelSlug :: "string option"
  tk_teamId :: "string option"
  tk_labels :: "string list"
  tk_input :: json
  tk_sortOrder :: int

record iteration_row =
  it_id :: string
  it_groupId :: string
  it_number :: nat
  it_status :: group_status
  it_input :: string
  it_output :: "json option"
  it_humanNote :: "string option"
  it_triggeredBy :: "string option"
  it_startedAt :: "int option"
  it_completedAt :: "int option"

record exec_row =
  ex_id :: string
  ex_iterationId :: string
  ex_taskId :: "string option"
  ex_taskName :: "string option"
  ex_groupId :: string
  ex_status :: task_status
  ex_output :: "json option"
  ex_summary :: "string option"
  ex_artifacts :: "json list option"
  ex_decisions :: "string list option"
  ex_errorMessage :: "string option"
  ex_modelSlug :: "string option"
  ex_startedAt :: "int option"
  ex_completedAt :: "int option"

record exec_seed =
  sd_taskId :: string
  sd_taskName :: string
  sd_status :: task_status
  sd_modelSlug :: "string option"

datatype store_error = Row_Not_Found string | Iteration_Conflict string nat

record task_store =
  st_groups :: "(string, group_row) jsmap"
  st_tasks :: "(string, task_row) jsmap"
  st_iterations :: "(string, iteration_row) jsmap"
  st_executions :: "(string, exec_row) jsmap"

definition empty_task_store :: task_store where
  "empty_task_store = \<lparr>st_groups = [], st_tasks = [], st_iterations = [], st_executions = []\<rparr>"

section \<open>Groups and definitions\<close>

definition getTaskGroup :: "task_store \<Rightarrow> string \<Rightarrow> group_row option" where
  "getTaskGroup s gid = jget (st_groups s) gid"

definition createTaskGroup_row :: "group_row \<Rightarrow> task_store \<Rightarrow> task_store" where
  "createTaskGroup_row r s = s\<lparr>st_groups := jset (gp_id r) r (st_groups s)\<rparr>"

definition updateTaskGroup :: "string \<Rightarrow> (group_row \<Rightarrow> group_row) \<Rightarrow> task_store \<Rightarrow> store_error + task_store" where
  "updateTaskGroup gid f s =
     (case jget (st_groups s) gid of
        None \<Rightarrow> Inl (Row_Not_Found gid)
      | Some r \<Rightarrow> Inr (s\<lparr>st_groups := jset gid (f r) (st_groups s)\<rparr>))"

definition deleteTaskGroup :: "string \<Rightarrow> task_store \<Rightarrow> task_store" where
  "deleteTaskGroup gid s =
     \<lparr>st_groups = jdel gid (st_groups s),
      st_tasks = filter (\<lambda>(k, t). tk_groupId t \<noteq> gid) (st_tasks s),
      st_iterations = filter (\<lambda>(k, i). it_groupId i \<noteq> gid) (st_iterations s),
      st_executions = filter (\<lambda>(k, e). ex_groupId e \<noteq> gid) (st_executions s)\<rparr>"

definition getTasksByGroup :: "task_store \<Rightarrow> string \<Rightarrow> task_row list" where
  "getTasksByGroup s gid = sort_key tk_sortOrder (filter (\<lambda>t. tk_groupId t = gid) (jvals (st_tasks s)))"

definition getTask :: "task_store \<Rightarrow> string \<Rightarrow> task_row option" where
  "getTask s tid = jget (st_tasks s) tid"

definition createTask :: "task_row \<Rightarrow> task_store \<Rightarrow> task_store" where
  "createTask r s = s\<lparr>st_tasks := jset (tk_id r) r (st_tasks s)\<rparr>"

definition updateTask :: "string \<Rightarrow> (task_row \<Rightarrow> task_row) \<Rightarrow> task_store \<Rightarrow> store_error + task_store" where
  "updateTask tid f s =
     (case jget (st_tasks s) tid of
        None \<Rightarrow> Inl (Row_Not_Found tid)
      | Some r \<Rightarrow> Inr (s\<lparr>st_tasks := jset tid (f r) (st_tasks s)\<rparr>))"

definition deleteTask :: "string \<Rightarrow> task_store \<Rightarrow> task_store" where
  "deleteTask tid s =
     s\<lparr>st_tasks := jdel tid (st_tasks s),
       st_executions := map (\<lambda>(k, e). (k, if ex_taskId e = Some tid then e\<lparr>ex_taskId := None\<rparr> else e)) (st_executions s)\<rparr>"

section \<open>Iterations and executions\<close>

definition iterationExists :: "task_store \<Rightarrow> string \<Rightarrow> nat \<Rightarrow> bool" where
  "iterationExists s gid n = list_ex (\<lambda>i. it_groupId i = gid \<and> it_number i = n) (jvals (st_iterations s))"

definition getIteration :: "task_store \<Rightarrow> string \<Rightarrow> nat \<Rightarrow> iteration_row option" where
  "getIteration s gid n = find (\<lambda>i. it_groupId i = gid \<and> it_number i = n) (jvals (st_iterations s))"

definition getLatestIteration :: "task_store \<Rightarrow> string \<Rightarrow> iteration_row option" where
  "getLatestIteration s gid =
     foldl (\<lambda>latest i. if it_groupId i \<noteq> gid then latest
                       else case latest of None \<Rightarrow> Some i
                            | Some l \<Rightarrow> if it_number i > it_number l then Some i else latest)
       None (jvals (st_iterations s))"

definition updateIteration :: "string \<Rightarrow> (iteration_row \<Rightarrow> iteration_row) \<Rightarrow> task_store \<Rightarrow> store_error + task_store" where
  "updateIteration iid f s =
     (case jget (st_iterations s) iid of
        None \<Rightarrow> Inl (Row_Not_Found iid)
      | Some r \<Rightarrow> Inr (s\<lparr>st_iterations := jset iid (f r) (st_iterations s)\<rparr>))"

definition buildExecutionRow :: "string \<Rightarrow> string \<Rightarrow> string \<Rightarrow> exec_seed \<Rightarrow> exec_row" where
  "buildExecutionRow eid iid gid seed =
     \<lparr>ex_id = eid, ex_iterationId = iid, ex_taskId = Some (sd_taskId seed), ex_taskName = Some (sd_taskName seed),
      ex_groupId = gid, ex_status = sd_status seed, ex_output = None, ex_summary = None, ex_artifacts = None,
      ex_decisions = None, ex_errorMessage = None, ex_modelSlug = sd_modelSlug seed, ex_startedAt = None,
      ex_completedAt = None\<rparr>"

text \<open>The ids of the new rows are given: one for the iteration, one per seed.\<close>

definition createIterationWithExecutions :: "int \<Rightarrow> string \<Rightarrow> string list \<Rightarrow> string \<Rightarrow> string \<Rightarrow> string option \<Rightarrow> nat \<Rightarrow>
    exec_seed list \<Rightarrow> task_store \<Rightarrow> store_error + (iteration_row \<times> exec_row list \<times> task_store)" where
  "createIterationWithExecutions now iid eids gid input triggeredBy n seeds s =
     (if iterationExists s gid n then Inl (Iteration_Conflict gid n)
      else (let it = \<lparr>it_id = iid, it_groupId = gid, it_number = n, it_status = G_Running, it_input = input,
                       it_output = None, it_humanNote = None, it_triggeredBy = triggeredBy,
                       it_startedAt = Some now, it_completedAt = None\<rparr>;
                exs = map (\<lambda>(eid, seed). buildExecutionRow eid iid gid seed) (zip eids seeds)
            in Inr (it, exs,
                 s\<lparr>st_iterations := jset iid it (st_iterations s),
                   st_executions := foldl (\<lambda>m e. jset (ex_id e) e m) (st_executions s) exs\<rparr>)))"

text \<open>Rows of one iteration are created in one tick, so the sort by creation time keeps the insertion order.\<close>

definition getExecutionsByIteration :: "task_store \<Rightarrow> string \<Rightarrow> string \<Rightarrow> exec_row list" where
  "getExecutionsByIteration s gid iid =
     filter (\<lambda>e. ex_iterationId e = iid \<and> ex_groupId e = gid) (jvals (st_executions s))"

definition getExecution :: "task_store \<Rightarrow> string \<Rightarrow> string \<Rightarrow> exec_row option" where
  "getExecution s gid eid =
     (case jget (st_executions s) eid of None \<Rightarrow> None
      | Some e \<Rightarrow> if ex_groupId e \<noteq> gid then None else Some e)"

definition updateExecution :: "string \<Rightarrow> (exec_row \<Rightarrow> exec_row) \<Rightarrow> task_store \<Rightarrow> store_error + task_store" where
  "updateExecution eid f s =
     (case jget (st_executions s) eid of
        None \<Rightarrow> Inl (Row_Not_Found eid)
      | Some r \<Rightarrow> Inr (s\<lparr>st_executions := jset eid (f r) (st_executions s)\<rparr>))"

section \<open>Facts\<close>

text \<open>Every definition is filed under its own id.\<close>

definition tasks_keyed :: "task_store \<Rightarrow> bool" where
  "tasks_keyed s = (jwf (st_tasks s) \<and> list_all (\<lambda>(k, t). tk_id t = k) (st_tasks s))"

lemma keyed_get: "tasks_keyed s \<Longrightarrow> jget (st_tasks s) k = Some t \<Longrightarrow> tk_id t = k"
  unfolding tasks_keyed_def by (auto dest!: jget_in simp: list_all_iff)

lemma group_tasks_iff:
  assumes "tasks_keyed s"
  shows "t \<in> set (getTasksByGroup s gid) \<longleftrightarrow> jget (st_tasks s) (tk_id t) = Some t \<and> tk_groupId t = gid"
proof -
  have "(\<exists>k. (k, t) \<in> set (st_tasks s)) \<longleftrightarrow> (tk_id t, t) \<in> set (st_tasks s)"
    using assms unfolding tasks_keyed_def list_all_iff by auto
  also have "\<dots> \<longleftrightarrow> jget (st_tasks s) (tk_id t) = Some t"
    using assms jwf_in_get [of "st_tasks s"] unfolding tasks_keyed_def by blast
  finally show ?thesis by (force simp: getTasksByGroup_def)
qed

lemma group_tasks_distinct:
  assumes "tasks_keyed s"
  shows "distinct (map tk_id (getTasksByGroup s gid))"
proof -
  have "map tk_id (jvals (st_tasks s)) = jkeys (st_tasks s)"
    using assms unfolding tasks_keyed_def list_all_iff by auto
  then have "distinct (map tk_id (jvals (st_tasks s)))" using assms unfolding tasks_keyed_def by metis
  then have "distinct (map tk_id (filter (\<lambda>t. tk_groupId t = gid) (jvals (st_tasks s))))"
    by (rule distinct_map_filter)
  then show ?thesis unfolding getTasksByGroup_def by (simp add: distinct_map)
qed

lemma keyed_jset: "tasks_keyed s \<Longrightarrow> tk_id t = k \<Longrightarrow> tasks_keyed (s\<lparr>st_tasks := jset k t (st_tasks s)\<rparr>)"
  unfolding tasks_keyed_def by (simp add: list_all_jset)

lemma keyed_jdel: "tasks_keyed s \<Longrightarrow> tasks_keyed (deleteTask k s)"
  unfolding tasks_keyed_def deleteTask_def by (simp add: list_all_jdel)

end
