(* ===== verification/Task_Graph.thy ===== *)
theory Task_Graph
  imports Prelude
begin

text \<open>
  Validation of task-group dependency graphs (\<open>server/services/task-graph.ts\<close>): dangling and self
  dependencies, then cycle detection by an iterative depth-first search with three colours. The search
  is a total function: its measure is the number of white nodes, then the work left on the stack.
\<close>

section \<open>The validator\<close>

record task_node =
  tn_id :: string
  tn_dependsOn :: "string list"

datatype graph_result = GraphOk | GraphBad string

datatype colour = White | Grey | Black

type_synonym colouring = "(string, colour) jsmap"
type_synonym frame = "string \<times> string list"

definition dep_errors :: "string list \<Rightarrow> task_node list \<Rightarrow> string list" where
  "dep_errors ids ts =
     concat (map (\<lambda>t. concat (map (\<lambda>dep.
        if dep = tn_id t then [''Task '' @ tn_id t @ '' cannot depend on itself'']
        else if dep \<notin> set ids then [''Task '' @ tn_id t @ '' depends on unknown task '' @ dep]
        else []) (tn_dependsOn t))) ts)"

definition adjacency_of :: "task_node list \<Rightarrow> (string, string list) jsmap" where
  "adjacency_of ts = foldl (\<lambda>m t. jset (tn_id t) (tn_dependsOn t) m) [] ts"

definition graph_nodes :: "(string, string list) jsmap \<Rightarrow> string set" where
  "graph_nodes adj = fst ` set adj \<union> \<Union> (set ` snd ` set adj)"

definition white_count :: "(string, string list) jsmap \<Rightarrow> colouring \<Rightarrow> frame list \<Rightarrow> nat" where
  "white_count adj col st =
     card {x \<in> graph_nodes adj \<union> \<Union> (set ` snd ` set st). get_or White col x = White}"

definition stack_work :: "frame list \<Rightarrow> nat" where
  "stack_work st = sum_list (map (\<lambda>f. length (snd f) + 1) st)"

text \<open>The inner loop; the head of the list is the top of the stack. \<open>Inl\<close> names the node on a cycle.\<close>

function dfs_loop :: "(string, string list) jsmap \<Rightarrow> colouring \<Rightarrow> frame list \<Rightarrow> string + colouring" where
  "dfs_loop adj col [] = Inr col"
| "dfs_loop adj col ((f, []) # st) = dfs_loop adj (jset f Black col) st"
| "dfs_loop adj col ((f, dep # deps) # st) =
     (case get_or White col dep of
        Grey \<Rightarrow> Inl dep
      | White \<Rightarrow> dfs_loop adj (jset dep Grey col) ((dep, get_or [] adj dep) # (f, deps) # st)
      | Black \<Rightarrow> dfs_loop adj col ((f, deps) # st))"
  by pat_completeness auto

lemma finite_graph_nodes [simp]: "finite (graph_nodes adj)"
  by (simp add: graph_nodes_def)

lemma adjacent_nodes: "set (get_or [] adj x) \<subseteq> graph_nodes adj"
proof (cases "jget adj x")
  case (Some ds)
  then have "(x, ds) \<in> set adj" by (rule jget_in)
  then show ?thesis using Some by (force simp: graph_nodes_def get_or_def)
qed (simp add: get_or_def)

lemma white_count_mono:
  assumes "\<Union> (set ` snd ` set st') \<subseteq> graph_nodes adj \<union> \<Union> (set ` snd ` set st)"
    and "\<And>x. get_or White col' x = White \<Longrightarrow> get_or White col x = White"
  shows "white_count adj col' st' \<le> white_count adj col st"
  unfolding white_count_def using assms by (intro card_mono) auto

lemma white_count_less:
  assumes "\<Union> (set ` snd ` set st') \<subseteq> graph_nodes adj \<union> \<Union> (set ` snd ` set st)"
    and "\<And>x. get_or White col' x = White \<Longrightarrow> get_or White col x = White"
    and "d \<in> \<Union> (set ` snd ` set st)" and "get_or White col d = White" and "get_or White col' d \<noteq> White"
  shows "white_count adj col' st' < white_count adj col st"
  unfolding white_count_def using assms by (intro psubset_card_mono) auto

termination dfs_loop
proof (relation "inv_image (less_than <*lex*> less_than) (\<lambda>(adj, col, st). (white_count adj col st, stack_work st))", goal_cases)
  case 1 show ?case by auto
next
  case (2 adj col f st)
  have "white_count adj (jset f Black col) st \<le> white_count adj col ((f, []) # st)"
    by (rule white_count_mono) (auto split: if_splits)
  then show ?case by (auto simp: stack_work_def)
next
  case (3 adj col f dep deps st)
  have "white_count adj (jset dep Grey col) ((dep, get_or [] adj dep) # (f, deps) # st) <
      white_count adj col ((f, dep # deps) # st)"
    using 3 adjacent_nodes [of adj dep] by (intro white_count_less [of _ _ _ _ _ dep]) (auto split: if_splits)
  then show ?case by simp
next
  case (4 adj col f dep deps st)
  have "white_count adj col ((f, deps) # st) \<le> white_count adj col ((f, dep # deps) # st)"
    by (rule white_count_mono) auto
  then show ?case by (auto simp: stack_work_def)
qed

text \<open>The outer loop over the ids.\<close>

fun dfs_all :: "(string, string list) jsmap \<Rightarrow> colouring \<Rightarrow> string list \<Rightarrow> string + colouring" where
  "dfs_all adj col [] = Inr col"
| "dfs_all adj col (start # ids) =
     (if get_or White col start \<noteq> White then dfs_all adj col ids
      else case dfs_loop adj (jset start Grey col) [(start, get_or [] adj start)] of
             Inl d \<Rightarrow> Inl d
           | Inr col' \<Rightarrow> dfs_all adj col' ids)"

definition validateTaskGraph :: "task_node list \<Rightarrow> graph_result" where
  "validateTaskGraph ts =
     (let ids = sadds (map tn_id ts) []
      in case dep_errors ids ts of
           e # _ \<Rightarrow> GraphBad e
         | [] \<Rightarrow>
             (case dfs_all (adjacency_of ts) (map (\<lambda>i. (i, White)) ids) ids of
                Inl d \<Rightarrow> GraphBad (''Dependency cycle detected involving task '' @ d)
              | Inr _ \<Rightarrow> GraphOk))"

section \<open>The search against reachability\<close>

definition edges :: "(string, string list) jsmap \<Rightarrow> (string \<times> string) set" where
  "edges adj = {(u, v). v \<in> set (get_or [] adj u)}"

definition blacks :: "colouring \<Rightarrow> string set" where
  "blacks col = {x. get_or White col x = Black}"

text \<open>
  A frame has handled a prefix of its node's successors: each of them is black, or is the node of
  the frame above.
\<close>

fun frames_ok :: "(string, string list) jsmap \<Rightarrow> string set \<Rightarrow> string option \<Rightarrow> frame list \<Rightarrow> bool" where
  "frames_ok adj B abv [] = True"
| "frames_ok adj B abv ((f, ds) # st) =
     ((\<exists>handled. get_or [] adj f = handled @ ds \<and> (\<forall>x \<in> set handled. x \<in> B \<or> Some x = abv) \<and>
        (\<forall>x. abv = Some x \<longrightarrow> x \<in> set handled)) \<and> frames_ok adj B (Some f) st)"

definition dfs_inv :: "(string, string list) jsmap \<Rightarrow> colouring \<Rightarrow> frame list \<Rightarrow> bool" where
  "dfs_inv adj col st =
     (distinct (map fst st) \<and> {x. get_or White col x = Grey} = fst ` set st \<and>
      (\<forall>u \<in> blacks col. set (get_or [] adj u) \<subseteq> blacks col \<and> (u, u) \<notin> (edges adj)\<^sup>+) \<and>
      frames_ok adj (blacks col) None st)"

lemma frames_ok_mono: "frames_ok adj B abv st \<Longrightarrow> B \<subseteq> B' \<Longrightarrow> frames_ok adj B' abv st"
proof (induction st arbitrary: abv)
  case (Cons fr st)
  obtain f ds where fr: "fr = (f, ds)" by force
  from Cons fr show ?case by simp blast
qed simp

lemma frames_path:
  "frames_ok adj B (Some x) st \<Longrightarrow> g \<in> fst ` set st \<Longrightarrow> (g, x) \<in> (edges adj)\<^sup>+"
proof (induction st arbitrary: x)
  case (Cons fr st)
  obtain f ds where fr: "fr = (f, ds)" by force
  from Cons.prems(1) fr have fx: "(f, x) \<in> edges adj" and st: "frames_ok adj B (Some f) st"
    by (auto simp: edges_def)
  show ?case
  proof (cases "g = f")
    case True with fx show ?thesis by blast
  next
    case False
    with Cons.prems(2) fr have "g \<in> fst ` set st" by auto
    with Cons.IH [OF st] fx show ?thesis by (meson trancl.trancl_into_trancl)
  qed
qed simp

text \<open>A node whose successors lie in a closed set that lacks the node is on no cycle.\<close>

lemma not_on_cycle:
  assumes "\<And>u. u \<in> B \<Longrightarrow> set (get_or [] adj u) \<subseteq> B" and "set (get_or [] adj f) \<subseteq> B" and "f \<notin> B"
  shows "(f, f) \<notin> (edges adj)\<^sup>+"
proof
  assume "(f, f) \<in> (edges adj)\<^sup>+"
  then obtain x where x: "(f, x) \<in> edges adj" "(x, f) \<in> (edges adj)\<^sup>*" by (meson tranclD)
  have "y \<in> B" if "(x, y) \<in> (edges adj)\<^sup>*" for y
    using that
  proof (induction rule: rtrancl_induct)
    case base show ?case using x(1) assms(2) by (auto simp: edges_def)
  next
    case (step y z) then show ?case using assms(1) by (auto simp: edges_def)
  qed
  with x(2) assms(3) show False by blast
qed

lemma dfs_loop_correct:
  "dfs_inv adj col st \<Longrightarrow>
    (case dfs_loop adj col st of
       Inl d \<Rightarrow> (d, d) \<in> (edges adj)\<^sup>+
     | Inr col' \<Rightarrow> dfs_inv adj col' [] \<and> (\<forall>x. get_or White col x \<noteq> White \<longrightarrow> get_or White col' x \<noteq> White))"
proof (induction adj col st rule: dfs_loop.induct)
  case (1 adj col) then show ?case by simp
next
  case (2 adj col f st)
  from 2(2) have d: "distinct (map fst ((f, []) # st))" and g: "{x. get_or White col x = Grey} = fst ` set ((f, []) # st)"
    and b: "\<forall>u \<in> blacks col. set (get_or [] adj u) \<subseteq> blacks col \<and> (u, u) \<notin> (edges adj)\<^sup>+"
    and fr: "set (get_or [] adj f) \<subseteq> blacks col" "frames_ok adj (blacks col) (Some f) st"
    by (auto simp: dfs_inv_def)
  have "get_or White col f = Grey" using equalityD2 [OF g] by auto
  then have fB: "f \<notin> blacks col" by (simp add: blacks_def)
  have B': "blacks (jset f Black col) = insert f (blacks col)" by (auto simp: blacks_def)
  have "(f, f) \<notin> (edges adj)\<^sup>+" using not_on_cycle [of "blacks col" adj f] b fr(1) fB by blast
  moreover have "{x. get_or White (jset f Black col) x = Grey} = fst ` set st"
  proof -
    have "{x. get_or White (jset f Black col) x = Grey} = {x. get_or White col x = Grey} - {f}" by auto
    with g d show ?thesis by auto
  qed
  moreover have "frames_ok adj (insert f (blacks col)) None st"
  proof (cases st)
    case (Cons fr2 st2)
    obtain h ds where h: "fr2 = (h, ds)" by force
    from fr(2) Cons h obtain handled where "get_or [] adj h = handled @ ds"
        "\<forall>x \<in> set handled. x \<in> blacks col \<or> x = f" "frames_ok adj (blacks col) (Some h) st2" by auto
    then show ?thesis using Cons h frames_ok_mono [of adj "blacks col" "Some h" st2 "insert f (blacks col)"]
      by (simp add: subset_insertI) blast
  qed simp
  ultimately have "dfs_inv adj (jset f Black col) st"
    using d b fr(1) by (auto simp: dfs_inv_def B')
  from 2(1) [OF this] show ?case
    by (auto split: sum.splits if_splits)
next
  case (3 adj col f dep deps st)
  from 3(3) have d: "distinct (map fst ((f, dep # deps) # st))"
    and g: "{x. get_or White col x = Grey} = fst ` set ((f, dep # deps) # st)"
    and b: "\<forall>u \<in> blacks col. set (get_or [] adj u) \<subseteq> blacks col \<and> (u, u) \<notin> (edges adj)\<^sup>+"
    and st: "frames_ok adj (blacks col) (Some f) st"
    by (auto simp: dfs_inv_def)
  from 3(3) obtain handled where h: "get_or [] adj f = handled @ dep # deps" "\<forall>x \<in> set handled. x \<in> blacks col"
    by (auto simp: dfs_inv_def)
  have e: "(f, dep) \<in> edges adj" using h by (simp add: edges_def)
  show ?case
  proof (cases "get_or White col dep")
    case Grey
    then have "dep \<in> fst ` set ((f, dep # deps) # st)" using g by blast
    then have "dep = f \<or> (dep, f) \<in> (edges adj)\<^sup>+" using frames_path [OF st] by auto
    with e have "(dep, dep) \<in> (edges adj)\<^sup>+" by (meson r_into_trancl' trancl.trancl_into_trancl)
    with Grey show ?thesis by simp
  next
    case White
    have B': "blacks (jset dep Grey col) = blacks col" using White by (auto simp: blacks_def)
    have "{x. get_or White (jset dep Grey col) x = Grey} = insert dep {x. get_or White col x = Grey}" by auto
    moreover have "dep \<notin> {x. get_or White col x = Grey}" using White by simp
    then have "dep \<notin> fst ` set ((f, dep # deps) # st)" unfolding g .
    moreover have "frames_ok adj (blacks col) None ((dep, get_or [] adj dep) # (f, deps) # st)"
      using h st by (auto intro!: exI [of _ "handled @ [dep]"])
    ultimately have "dfs_inv adj (jset dep Grey col) ((dep, get_or [] adj dep) # (f, deps) # st)"
      using d g b by (auto simp: dfs_inv_def B')
    from 3(1) [OF White this] White show ?thesis by (auto split: sum.splits if_splits)
  next
    case Black
    then have "dep \<in> blacks col" by (simp add: blacks_def)
    then have "frames_ok adj (blacks col) None ((f, deps) # st)"
      using h st by (auto intro!: exI [of _ "handled @ [dep]"])
    then have "dfs_inv adj col ((f, deps) # st)" using d g b by (auto simp: dfs_inv_def)
    from 3(2) [OF Black this] Black show ?thesis by simp
  qed
qed

lemma dfs_all_correct:
  "dfs_inv adj col [] \<Longrightarrow>
    (case dfs_all adj col ids of
       Inl d \<Rightarrow> (d, d) \<in> (edges adj)\<^sup>+
     | Inr col' \<Rightarrow> dfs_inv adj col' [] \<and> (\<forall>x. get_or White col x \<noteq> White \<or> x \<in> set ids \<longrightarrow> get_or White col' x \<noteq> White))"
proof (induction adj col ids rule: dfs_all.induct)
  case (2 adj col start ids)
  show ?case
  proof (cases "get_or White col start = White")
    case False
    with 2 show ?thesis by (auto split: sum.splits)
  next
    case True
    have "blacks (jset start Grey col) = blacks col" using True by (auto simp: blacks_def)
    moreover have "{x. get_or White (jset start Grey col) x = Grey} = insert start {x. get_or White col x = Grey}" by auto
    ultimately have inv: "dfs_inv adj (jset start Grey col) [(start, get_or [] adj start)]"
      using 2(3) by (auto simp: dfs_inv_def)
    show ?thesis
    proof (cases "dfs_loop adj (jset start Grey col) [(start, get_or [] adj start)]")
      case (Inl d)
      with dfs_loop_correct [OF inv] True show ?thesis by simp
    next
      case (Inr col1)
      with dfs_loop_correct [OF inv] have c1: "dfs_inv adj col1 []"
        "\<forall>x. get_or White (jset start Grey col) x \<noteq> White \<longrightarrow> get_or White col1 x \<noteq> White" by simp_all
      from 2(2) [OF _ Inr c1(1)] True Inr c1(2) show ?thesis by (auto split: sum.splits if_splits)
    qed
  qed
qed simp

section \<open>Correctness\<close>

text \<open>The dependency relation of a group of tasks.\<close>

definition depends_rel :: "task_node list \<Rightarrow> (string \<times> string) set" where
  "depends_rel ts = {(tn_id t, d) | t d. t \<in> set ts \<and> d \<in> set (tn_dependsOn t)}"

lemma adjacency_get:
  "get_or [] (adjacency_of ts) x = (case find (\<lambda>t. tn_id t = x) (rev ts) of None \<Rightarrow> [] | Some t \<Rightarrow> tn_dependsOn t)"
  unfolding adjacency_of_def by (induction ts rule: rev_induct) auto

lemma edges_adjacency:
  assumes "distinct (map tn_id ts)"
  shows "edges (adjacency_of ts) = depends_rel ts"
proof -
  have "get_or [] (adjacency_of ts) (tn_id t) = tn_dependsOn t" if "t \<in> set ts" for t
  proof -
    have "find (\<lambda>t'. tn_id t' = tn_id t) (rev ts) \<noteq> None" using that by (auto simp: find_None_iff)
    then obtain t' where t': "find (\<lambda>t'. tn_id t' = tn_id t) (rev ts) = Some t'" by blast
    with find_SomeD [OF this] that assms have "t' = t" by (auto simp: distinct_map inj_on_def)
    with t' show ?thesis by (simp add: adjacency_get)
  qed
  moreover have "\<exists>t \<in> set ts. tn_id t = x" if "d \<in> set (get_or [] (adjacency_of ts) x)" for x d
  proof (cases "find (\<lambda>t. tn_id t = x) (rev ts)")
    case None with that show ?thesis by (simp add: adjacency_get)
  next
    case (Some t) from find_SomeD [OF this] show ?thesis by auto
  qed
  ultimately show ?thesis by (fastforce simp: edges_def depends_rel_def)
qed

lemma dep_errors_Nil:
  "dep_errors ids ts = [] \<longleftrightarrow> (\<forall>t \<in> set ts. \<forall>d \<in> set (tn_dependsOn t). d \<noteq> tn_id t \<and> d \<in> set ids)"
proof -
  have one: "concat (map (\<lambda>dep. if dep = tn_id t then [a dep] else if dep \<notin> set ids then [b dep] else []) ds) = []
      \<longleftrightarrow> (\<forall>d \<in> set ds. d \<noteq> tn_id t \<and> d \<in> set ids)" for t ds and a b :: "string \<Rightarrow> string"
    by (induction ds) auto
  show ?thesis
  proof (induction ts)
    case (Cons t ts)
    then show ?case
      using one [of t "\<lambda>_. ''Task '' @ tn_id t @ '' cannot depend on itself''"
          "\<lambda>dep. ''Task '' @ tn_id t @ '' depends on unknown task '' @ dep" "tn_dependsOn t"]
      by (simp only: dep_errors_def list.map concat.simps append_is_Nil_conv list.set ball_simps)
  qed (simp add: dep_errors_def)
qed

lemma validate_exact:
  assumes "distinct (map tn_id ts)"
  shows "validateTaskGraph ts = GraphOk \<longleftrightarrow>
    (\<forall>t \<in> set ts. set (tn_dependsOn t) \<subseteq> tn_id ` set ts) \<and> acyclic (depends_rel ts)"
proof -
  define ids where "ids = sadds (map tn_id ts) []"
  define adj where "adj = adjacency_of ts"
  have ids: "set ids = tn_id ` set ts" by (simp add: ids_def)
  have E: "edges adj = depends_rel ts" using edges_adjacency [OF assms] by (simp add: adj_def)
  have white: "get_or White (map (\<lambda>i. (i, White)) xs) x = White" for x xs by (induction xs) auto
  have inv: "dfs_inv adj (map (\<lambda>i. (i, White)) ids) []" by (simp add: dfs_inv_def blacks_def white)
  have dfs: "(\<exists>col. dfs_all adj (map (\<lambda>i. (i, White)) ids) ids = Inr col) \<longleftrightarrow> acyclic (depends_rel ts)"
  proof (cases "dfs_all adj (map (\<lambda>i. (i, White)) ids) ids")
    case (Inl d)
    with dfs_all_correct [OF inv, of ids] show ?thesis by (auto simp: acyclic_def E)
  next
    case (Inr col)
    with dfs_all_correct [OF inv, of ids] have c: "dfs_inv adj col []" "\<forall>x \<in> set ids. get_or White col x \<noteq> White" by auto
    have "x \<in> blacks col" if "x \<in> set ids" for x
      using c that by (cases "get_or White col x") (auto simp: dfs_inv_def blacks_def)
    then have "(x, x) \<notin> (edges adj)\<^sup>+" if "x \<in> set ids" for x using c(1) that by (auto simp: dfs_inv_def)
    moreover have "x \<in> set ids" if "(x, y) \<in> (edges adj)\<^sup>+" for x y
      using that unfolding E ids by (induction rule: converse_trancl_induct) (auto simp: depends_rel_def)
    ultimately show ?thesis using Inr by (auto simp: acyclic_def E [symmetric])
  qed
  have nself: "acyclic (depends_rel ts) \<Longrightarrow> t \<in> set ts \<Longrightarrow> tn_id t \<notin> set (tn_dependsOn t)" for t
    by (auto simp: acyclic_def depends_rel_def)
  show ?thesis
  proof (cases "dep_errors ids ts")
    case Nil
    then have "\<forall>t \<in> set ts. set (tn_dependsOn t) \<subseteq> tn_id ` set ts" using ids by (auto simp: dep_errors_Nil)
    with Nil dfs show ?thesis
      by (auto simp: validateTaskGraph_def Let_def ids_def [symmetric] adj_def [symmetric] split: sum.splits)
  next
    case (Cons e es)
    then have "\<not> ((\<forall>t \<in> set ts. set (tn_dependsOn t) \<subseteq> tn_id ` set ts) \<and> acyclic (depends_rel ts))"
    proof -
      from Cons have "dep_errors ids ts \<noteq> []" by simp
      then obtain t d where td: "t \<in> set ts" "d \<in> set (tn_dependsOn t)" "d = tn_id t \<or> d \<notin> tn_id ` set ts"
        unfolding dep_errors_Nil ids by blast
      then show ?thesis using nself [of t] by (metis subsetD)
    qed
    with Cons show ?thesis by (simp add: validateTaskGraph_def Let_def ids_def [symmetric])
  qed
qed

text \<open>
  C22: for tasks with distinct ids the validator accepts exactly the valid graphs: every dependency names a
  task of the group and the dependency relation has no cycle (self-dependencies included). It always terminates with a verdict.
\<close>

theorem validate_accepts_exactly_dags:
  assumes "distinct (map tn_id ts)"
  shows "validateTaskGraph ts = GraphOk \<longleftrightarrow>
    (\<forall>t \<in> set ts. set (tn_dependsOn t) \<subseteq> tn_id ` set ts) \<and> acyclic (depends_rel ts)"
  by (rule validate_exact [OF assms])

lemma validate_accepts_exactly_dags_witness:
  "acyclic (depends_rel [\<lparr>tn_id = ''a'', tn_dependsOn = []\<rparr>, \<lparr>tn_id = ''b'', tn_dependsOn = [''a'']\<rparr>,
     \<lparr>tn_id = ''c'', tn_dependsOn = [''a'', ''b'']\<rparr>])"
proof -
  let ?ts = "[\<lparr>tn_id = ''a'', tn_dependsOn = []\<rparr>, \<lparr>tn_id = ''b'', tn_dependsOn = [''a'']\<rparr>,
     \<lparr>tn_id = ''c'', tn_dependsOn = [''a'', ''b'']\<rparr>]"
  have "validateTaskGraph ?ts = GraphOk" by code_simp
  with validate_accepts_exactly_dags [of ?ts] show ?thesis by simp
qed

end
