(* ===== verification/Task_Editor.thy ===== *)
theory Task_Editor
  imports Task_Store Task_Graph
begin

text \<open>
  Creating and editing task groups: \<open>TaskOrchestrator.createTaskGroup\<close> of
  \<open>server/services/task-orchestrator.ts\<close> and \<open>TaskGroupEditor\<close> of \<open>server/services/task-group-editor.ts\<close>.
  Both guard the stored definitions with the validator of \<open>Task_Graph\<close>; the invariant says the stored
  graph of every group is accepted by it. An edit runs as one step; a failed call returns its error and the
  store as the calls before the error left it.
\<close>

section \<open>Errors and inputs\<close>

datatype edit_error = Edit_Error nat string | Invalid_Task_Graph string | Edit_Store_Error store_error

record task_patch =
  pt_name :: "string option"
  pt_description :: "string option"
  pt_dependsOn :: "string list option"
  pt_modelSlug :: "string option"
  pt_teamId :: "string option"
  pt_input :: "json option"
  pt_sortOrder :: "int option"

record group_patch =
  pg_name :: "string option"
  pg_description :: "string option"
  pg_input :: "string option"

record new_task =
  nt_name :: string
  nt_description :: string
  nt_dependsOn :: "string list"
  nt_modelSlug :: "string option"
  nt_teamId :: "string option"
  nt_input :: "json option"
  nt_sortOrder :: "int option"
  nt_workspaceId :: "string option"

record group_params =
  gc_name :: string
  gc_description :: string
  gc_input :: string
  gc_tasks :: "new_task list"
  gc_createdBy :: "string option"

definition node_of :: "task_row \<Rightarrow> task_node" where
  "node_of t = \<lparr>tn_id = tk_id t, tn_dependsOn = tk_dependsOn t\<rparr>"

definition draft_status :: "string list \<Rightarrow> task_status" where
  "draft_status deps = (if length deps = 0 then T_Ready else T_Blocked)"

section \<open>The editor\<close>

definition requireGroup :: "string \<Rightarrow> task_store \<Rightarrow> edit_error + group_row" where
  "requireGroup gid s =
     (case getTaskGroup s gid of None \<Rightarrow> Inl (Edit_Error 404 ''Task group not found'') | Some g \<Rightarrow> Inr g)"

definition requireTaskInGroup :: "string \<Rightarrow> string \<Rightarrow> task_store \<Rightarrow> edit_error + task_row" where
  "requireTaskInGroup gid tid s =
     (case getTask s tid of
        None \<Rightarrow> Inl (Edit_Error 404 ''Task not found'')
      | Some t \<Rightarrow> if tk_groupId t \<noteq> gid then Inl (Edit_Error 404 ''Task not found'') else Inr t)"

definition assertNotRunning :: "group_row \<Rightarrow> task_store \<Rightarrow> edit_error option" where
  "assertNotRunning g s =
     (let effective = (case getLatestIteration s (gp_id g) of Some i \<Rightarrow> it_status i | None \<Rightarrow> gp_status g)
      in if effective = G_Running then Some (Edit_Error 409 ''Cannot edit while an iteration is running'') else None)"

definition assertValidGraph :: "string \<Rightarrow> string \<Rightarrow> string list \<Rightarrow> task_store \<Rightarrow> edit_error option" where
  "assertValidGraph gid tid nextDeps s =
     (case validateTaskGraph (map (\<lambda>t. \<lparr>tn_id = tk_id t, tn_dependsOn = (if tk_id t = tid then nextDeps else tk_dependsOn t)\<rparr>)
             (getTasksByGroup s gid)) of
        GraphOk \<Rightarrow> None
      | GraphBad reason \<Rightarrow> Some (Edit_Error 400 reason))"

definition some_or :: "'a option \<Rightarrow> 'a \<Rightarrow> 'a" where
  "some_or v d = (case v of None \<Rightarrow> d | Some x \<Rightarrow> x)"

definition updateGroup :: "string \<Rightarrow> group_patch \<Rightarrow> task_store \<Rightarrow> edit_error + task_store" where
  "updateGroup gid patch s =
     (case requireGroup gid s of
        Inl e \<Rightarrow> Inl e
      | Inr g \<Rightarrow>
          (case assertNotRunning g s of
             Some e \<Rightarrow> Inl e
           | None \<Rightarrow>
               (case updateTaskGroup gid (\<lambda>r. r\<lparr>gp_name := some_or (pg_name patch) (gp_name r),
                       gp_description := some_or (pg_description patch) (gp_description r),
                       gp_input := some_or (pg_input patch) (gp_input r)\<rparr>) s of
                  Inl e \<Rightarrow> Inl (Edit_Store_Error e)
                | Inr s' \<Rightarrow> Inr s')))"

text \<open>The fields a patch writes, dependencies and status last.\<close>

definition patched :: "task_patch \<Rightarrow> task_row \<Rightarrow> task_row" where
  "patched patch t =
     (let t1 = t\<lparr>tk_name := some_or (pt_name patch) (tk_name t),
                 tk_description := some_or (pt_description patch) (tk_description t),
                 tk_modelSlug := (case pt_modelSlug patch of None \<Rightarrow> tk_modelSlug t | Some m \<Rightarrow> Some m),
                 tk_teamId := (case pt_teamId patch of None \<Rightarrow> tk_teamId t | Some m \<Rightarrow> Some m),
                 tk_input := some_or (pt_input patch) (tk_input t),
                 tk_sortOrder := some_or (pt_sortOrder patch) (tk_sortOrder t)\<rparr>
      in case pt_dependsOn patch of
           None \<Rightarrow> t1
         | Some deps \<Rightarrow> t1\<lparr>tk_dependsOn := deps, tk_status := draft_status deps\<rparr>)"

definition editor_updateTask :: "string \<Rightarrow> string \<Rightarrow> task_patch \<Rightarrow> task_store \<Rightarrow> edit_error + task_store" where
  "editor_updateTask gid tid patch s =
     (case requireGroup gid s of
        Inl e \<Rightarrow> Inl e
      | Inr g \<Rightarrow>
          (case requireTaskInGroup gid tid s of
             Inl e \<Rightarrow> Inl e
           | Inr t \<Rightarrow>
               (case assertNotRunning g s of
                  Some e \<Rightarrow> Inl e
                | None \<Rightarrow>
                    (case (case pt_dependsOn patch of None \<Rightarrow> None | Some deps \<Rightarrow> assertValidGraph gid tid deps s) of
                       Some e \<Rightarrow> Inl e
                     | None \<Rightarrow>
                         (case updateTask tid (patched patch) s of
                            Inl e \<Rightarrow> Inl (Edit_Store_Error e)
                          | Inr s' \<Rightarrow> Inr s')))))"

definition new_id_sentinel :: string where "new_id_sentinel = ''__new__''"

definition addTask :: "string \<Rightarrow> string \<Rightarrow> new_task \<Rightarrow> task_store \<Rightarrow> edit_error + task_store" where
  "addTask tid gid input s =
     (case requireGroup gid s of
        Inl e \<Rightarrow> Inl e
      | Inr g \<Rightarrow>
          (case assertNotRunning g s of
             Some e \<Rightarrow> Inl e
           | None \<Rightarrow>
               (let deps = nt_dependsOn input; siblings = getTasksByGroup s gid
                in case validateTaskGraph (map node_of siblings @ [\<lparr>tn_id = new_id_sentinel, tn_dependsOn = deps\<rparr>]) of
                     GraphBad reason \<Rightarrow> Inl (Edit_Error 400 reason)
                   | GraphOk \<Rightarrow>
                       (let maxSort = foldl (\<lambda>m t. max m (tk_sortOrder t)) (-1) siblings
                        in Inr (createTask
                             \<lparr>tk_id = tid, tk_groupId = gid, tk_name = nt_name input, tk_description = nt_description input,
                              tk_status = draft_status deps, tk_dependsOn = deps, tk_workspaceId = None,
                              tk_modelSlug = nt_modelSlug input, tk_teamId = nt_teamId input, tk_labels = [],
                              tk_input = some_or (nt_input input) (JObj []),
                              tk_sortOrder = some_or (nt_sortOrder input) (maxSort + 1)\<rparr> s)))))"

text \<open>The sequence of awaited updates; it stops at the first row that is gone.\<close>

fun update_all :: "(string \<times> (task_row \<Rightarrow> task_row)) list \<Rightarrow> task_store \<Rightarrow> edit_error option \<times> task_store" where
  "update_all [] s = (None, s)"
| "update_all ((tid, f) # us) s =
     (case updateTask tid f s of Inl e \<Rightarrow> (Some (Edit_Store_Error e), s) | Inr s' \<Rightarrow> update_all us s')"

definition strip_dep :: "string \<Rightarrow> string list \<Rightarrow> string list" where
  "strip_dep tid deps = filter (\<lambda>d. d \<noteq> tid) deps"

definition stripped_row :: "string \<Rightarrow> task_row \<Rightarrow> task_row" where
  "stripped_row tid t =
     (let deps = strip_dep tid (tk_dependsOn t)
      in t\<lparr>tk_dependsOn := deps,
           tk_status := (if tk_status t = T_Blocked \<or> tk_status t = T_Ready then draft_status deps else tk_status t)\<rparr>)"

definition removeTask :: "string \<Rightarrow> string \<Rightarrow> task_store \<Rightarrow> edit_error option \<times> task_store" where
  "removeTask gid tid s =
     (case requireGroup gid s of
        Inl e \<Rightarrow> (Some e, s)
      | Inr g \<Rightarrow>
          (case requireTaskInGroup gid tid s of
             Inl e \<Rightarrow> (Some e, s)
           | Inr t \<Rightarrow>
               (case assertNotRunning g s of
                  Some e \<Rightarrow> (Some e, s)
                | None \<Rightarrow>
                    (let s1 = deleteTask tid s; remaining = getTasksByGroup s1 gid
                     in case validateTaskGraph (map (\<lambda>r. \<lparr>tn_id = tk_id r, tn_dependsOn = strip_dep tid (tk_dependsOn r)\<rparr>) remaining) of
                          GraphBad reason \<Rightarrow> (Some (Edit_Error 400 reason), s1)
                        | GraphOk \<Rightarrow>
                            update_all (map (\<lambda>r. (tk_id r, stripped_row tid))
                              (filter (\<lambda>r. tid \<in> set (tk_dependsOn r)) remaining)) s1))))"

section \<open>Creating a group\<close>

definition draft_row :: "string \<Rightarrow> nat \<Rightarrow> string \<Rightarrow> new_task \<Rightarrow> task_row" where
  "draft_row gid i tid t =
     \<lparr>tk_id = tid, tk_groupId = gid, tk_name = nt_name t, tk_description = nt_description t, tk_status = T_Pending,
      tk_dependsOn = [], tk_workspaceId = nt_workspaceId t, tk_modelSlug = nt_modelSlug t, tk_teamId = nt_teamId t,
      tk_labels = [], tk_input = some_or (nt_input t) (JObj []), tk_sortOrder = some_or (nt_sortOrder t) (int i)\<rparr>"

fun create_drafts :: "string \<Rightarrow> nat \<Rightarrow> (string \<times> new_task) list \<Rightarrow> task_store \<Rightarrow> task_store" where
  "create_drafts gid i [] s = s"
| "create_drafts gid i ((tid, t) # ts) s = create_drafts gid (Suc i) ts (createTask (draft_row gid i tid t) s)"

definition name_index :: "(string \<times> new_task) list \<Rightarrow> (string, string) jsmap" where
  "name_index its = foldl (\<lambda>m (tid, t). jset (nt_name t) tid m) [] its"

text \<open>Names to ids; the first task with an unknown name rejects the create.\<close>

fun resolve_deps :: "(string, string) jsmap \<Rightarrow> (string \<times> new_task) list \<Rightarrow> string + task_node list" where
  "resolve_deps names [] = Inr []"
| "resolve_deps names ((tid, t) # ts) =
     (let dangling = filter (\<lambda>n. jget names n = None) (nt_dependsOn t)
      in if dangling \<noteq> []
         then Inl (''Task '' @ [CHR 0x22] @ nt_name t @ [CHR 0x22] @ '' depends on unknown task(s): '' @ join_with '', '' dangling)
         else (case resolve_deps names ts of
                 Inl e \<Rightarrow> Inl e
               | Inr ns \<Rightarrow> Inr (\<lparr>tn_id = tid, tn_dependsOn = List.map_filter (jget names) (nt_dependsOn t)\<rparr> # ns)))"

definition resolved_row :: "string list \<Rightarrow> task_row \<Rightarrow> task_row" where
  "resolved_row deps t = t\<lparr>tk_dependsOn := deps, tk_status := draft_status deps\<rparr>"

definition createTaskGroup :: "string \<Rightarrow> string list \<Rightarrow> group_params \<Rightarrow> task_store \<Rightarrow> edit_error option \<times> task_store" where
  "createTaskGroup gid tids params s =
     (let s1 = createTaskGroup_row
            \<lparr>gp_id = gid, gp_name = gc_name params, gp_description = gc_description params, gp_status = G_Pending,
             gp_input = gc_input params, gp_output = None, gp_createdBy = gc_createdBy params, gp_startedAt = None,
             gp_completedAt = None\<rparr> s;
          its = zip tids (gc_tasks params); s2 = create_drafts gid 0 its s1
      in case resolve_deps (name_index its) its of
           Inl reason \<Rightarrow> (Some (Invalid_Task_Graph reason), s2)
         | Inr nodes \<Rightarrow>
             (case validateTaskGraph nodes of
                GraphBad reason \<Rightarrow> (Some (Invalid_Task_Graph reason), s2)
              | GraphOk \<Rightarrow> update_all (map (\<lambda>n. (tn_id n, resolved_row (tn_dependsOn n))) nodes) s2))"

end
