(* ===== verification/Json_Parse.thy ===== *)
theory Json_Parse
  imports Json Js_Text
begin

text \<open>
  \<open>JSON.parse\<close> and the indented \<open>JSON.stringify\<close>, for the model replies the sources read. \<open>None\<close> is
  the SyntaxError. Every call of the recursive descent consumes a character, so the length of the text
  is fuel enough. An escape of a character beyond Latin-1 is outside the representation and read as an error.
\<close>

definition json_ws :: "char \<Rightarrow> bool" where
  "json_ws c = (of_char c \<in> {9, 10, 13, 32 :: nat})"

text \<open>The rest of the text after the expected character.\<close>

definition eat :: "char \<Rightarrow> string \<Rightarrow> string option" where
  "eat c t = (case t of [] \<Rightarrow> None | x # r \<Rightarrow> if x = c then Some r else None)"

definition is_digit :: "char \<Rightarrow> bool" where
  "is_digit c = (digit_val c \<noteq> None)"

definition digits_val :: "string \<Rightarrow> nat" where
  "digits_val ds = (case parse_digits (Some 0) ds of None \<Rightarrow> 0 | Some n \<Rightarrow> n)"

text \<open>The optional fraction and exponent of a number: the value and the rest, \<open>None\<close> when digits are missing.\<close>

definition json_fraction :: "string \<Rightarrow> (rat \<times> string) option" where
  "json_fraction t =
     (case eat CHR ''.'' t of
        Some cs \<Rightarrow>
          (let ds = takeWhile is_digit cs
           in if ds = [] then None else Some (of_nat (digits_val ds) / 10 ^ length ds, dropWhile is_digit cs))
      | None \<Rightarrow> Some (0, t))"

definition json_exponent :: "string \<Rightarrow> (int \<times> string) option" where
  "json_exponent t =
     (case t of
        c # cs \<Rightarrow>
          (if c = CHR ''e'' \<or> c = CHR ''E''
           then (let neg = (case cs of s # _ \<Rightarrow> s = CHR ''-'' | [] \<Rightarrow> False);
                     cs' = (case cs of s # r \<Rightarrow> if s = CHR ''-'' \<or> s = CHR ''+'' then r else cs | [] \<Rightarrow> []);
                     ds = takeWhile is_digit cs'
                 in if ds = [] then None
                    else Some (if neg then - int (digits_val ds) else int (digits_val ds), dropWhile is_digit cs'))
           else Some (0, t))
      | [] \<Rightarrow> Some (0, t))"

definition json_number :: "string \<Rightarrow> (json \<times> string) option" where
  "json_number t =
     (let neg = (case t of c # _ \<Rightarrow> c = CHR ''-'' | [] \<Rightarrow> False);
          u = (if neg then tl t else t); ds = takeWhile is_digit u; r = dropWhile is_digit u
      in if ds = [] \<or> hd ds = CHR ''0'' \<and> length ds > 1 then None
         else case json_fraction r of
                None \<Rightarrow> None
              | Some (f, r1) \<Rightarrow>
                  (case json_exponent r1 of
                     None \<Rightarrow> None
                   | Some (e, r2) \<Rightarrow>
                       (let v = (of_nat (digits_val ds) + f) * (if e \<ge> 0 then 10 ^ nat e else 1 / 10 ^ nat (- e))
                        in Some (JNum (if neg then - v else v), r2))))"

definition hex_val :: "char \<Rightarrow> nat option" where
  "hex_val c =
     (let n = of_char c :: nat
      in if 48 \<le> n \<and> n \<le> 57 then Some (n - 48)
         else if 65 \<le> n \<and> n \<le> 70 then Some (n - 55)
         else if 97 \<le> n \<and> n \<le> 102 then Some (n - 87) else None)"

definition hex_char :: "string \<Rightarrow> char option" where
  "hex_char h =
     (case map hex_val h of
        [Some a, Some b, Some c, Some d] \<Rightarrow>
          (let n = ((a * 16 + b) * 16 + c) * 16 + d in if n < 256 then Some (char_of n) else None)
      | _ \<Rightarrow> None)"

definition escaped :: "char \<Rightarrow> char option" where
  "escaped c =
     (if c = CHR 0x22 \<or> c = CHR 0x5C \<or> c = CHR ''/'' then Some c
      else if c = CHR ''b'' then Some (CHR 0x08) else if c = CHR ''f'' then Some (CHR 0x0C)
      else if c = CHR ''n'' then Some (CHR 0x0A) else if c = CHR ''r'' then Some (CHR 0x0D)
      else if c = CHR ''t'' then Some (CHR 0x09) else None)"

text \<open>The rest of a string after its opening quote.\<close>

fun json_string :: "nat \<Rightarrow> string \<Rightarrow> (string \<times> string) option" where
  "json_string 0 t = None"
| "json_string (Suc fuel) [] = None"
| "json_string (Suc fuel) (c # cs) =
     (if c = CHR 0x22 then Some ([], cs)
      else if (of_char c :: nat) < 32 then None
      else if c = CHR 0x5C
      then (case cs of
              [] \<Rightarrow> None
            | k # r \<Rightarrow>
                (let (x, r') = (if k = CHR ''u'' then (hex_char (take 4 r), drop 4 r) else (escaped k, r))
                 in case x of None \<Rightarrow> None
                    | Some ch \<Rightarrow> map_option (\<lambda>(s, q). (ch # s, q)) (json_string fuel r')))
      else map_option (\<lambda>(s, q). (c # s, q)) (json_string fuel cs))"

fun json_value :: "nat \<Rightarrow> string \<Rightarrow> (json \<times> string) option"
  and json_elements :: "nat \<Rightarrow> string \<Rightarrow> (json list \<times> string) option"
  and json_members :: "nat \<Rightarrow> string \<Rightarrow> payload \<Rightarrow> (payload \<times> string) option" where
  "json_value 0 t = None"
| "json_value (Suc fuel) t =
     (case dropWhile json_ws t of
        [] \<Rightarrow> None
      | c # cs \<Rightarrow>
          (if c = CHR 0x7B then
             (case eat (CHR 0x7D) (dropWhile json_ws cs) of
                Some r \<Rightarrow> Some (JObj [], r)
              | None \<Rightarrow> map_option (\<lambda>(m, q). (JObj m, q)) (json_members fuel cs []))
           else if c = CHR ''['' then
             (case eat (CHR 0x5D) (dropWhile json_ws cs) of
                Some r \<Rightarrow> Some (JArr [], r)
              | None \<Rightarrow> map_option (\<lambda>(xs, q). (JArr xs, q)) (json_elements fuel cs))
           else if c = CHR 0x22 then map_option (\<lambda>(s, q). (JStr s, q)) (json_string (length cs) cs)
           else if take 4 (c # cs) = ''true'' then Some (JBool True, drop 4 (c # cs))
           else if take 5 (c # cs) = ''false'' then Some (JBool False, drop 5 (c # cs))
           else if take 4 (c # cs) = ''null'' then Some (JNull, drop 4 (c # cs))
           else json_number (c # cs)))"
| "json_elements 0 t = None"
| "json_elements (Suc fuel) t =
     (case json_value fuel t of
        None \<Rightarrow> None
      | Some (x, r) \<Rightarrow>
          (let z = dropWhile json_ws r
           in case eat (CHR 0x5D) z of
                Some q \<Rightarrow> Some ([x], q)
              | None \<Rightarrow>
                  (case eat CHR '','' z of
                     None \<Rightarrow> None
                   | Some q \<Rightarrow> map_option (\<lambda>(xs, w). (x # xs, w)) (json_elements fuel q))))"
| "json_members 0 t m = None"
| "json_members (Suc fuel) t m =
     (case eat (CHR 0x22) (dropWhile json_ws t) of
        None \<Rightarrow> None
      | Some cs \<Rightarrow>
          (case json_string (length cs) cs of
             None \<Rightarrow> None
           | Some (k, r) \<Rightarrow>
               (case eat CHR '':'' (dropWhile json_ws r) of
                  None \<Rightarrow> None
                | Some r1 \<Rightarrow>
                    (case json_value fuel r1 of
                       None \<Rightarrow> None
                     | Some (v, r2) \<Rightarrow>
                         (let z = dropWhile json_ws r2
                          in case eat (CHR 0x7D) z of
                               Some q \<Rightarrow> Some (jset k v m, q)
                             | None \<Rightarrow>
                                 (case eat CHR '','' z of
                                    None \<Rightarrow> None
                                  | Some q \<Rightarrow> json_members fuel q (jset k v m)))))))"

definition json_parse :: "string \<Rightarrow> json option" where
  "json_parse t =
     (case json_value (2 * length t + 2) t of
        None \<Rightarrow> None
      | Some (v, r) \<Rightarrow> if list_all json_ws r then Some v else None)"

text \<open>\<open>JSON.stringify(v, null, 2)\<close> at an indentation.\<close>

definition indent :: "nat \<Rightarrow> string" where
  "indent n = CHR 0x0A # replicate n (CHR '' '')"

fun json_pretty :: "nat \<Rightarrow> json \<Rightarrow> string" where
  "json_pretty n (JArr xs) =
     (if xs = [] then ''[]''
      else ''['' @ indent (n + 2) @ join_with ('','' @ indent (n + 2)) (map (json_pretty (n + 2)) xs) @ indent n @ '']'')"
| "json_pretty n (JObj ps) =
     (if ps = [] then [CHR 0x7B, CHR 0x7D]
      else [CHR 0x7B] @ indent (n + 2)
        @ join_with ('','' @ indent (n + 2)) (map (\<lambda>(k, v). json_quote k @ '': '' @ json_pretty (n + 2) v) ps)
        @ indent n @ [CHR 0x7D])"
| "json_pretty n v = json_stringify v"

lemma json_parse_example:
  "json_parse ''  [1, -2.5e1, true, null, {} ] '' =
     Some (JArr [JNum 1, JNum (- 25), JBool True, JNull, JObj []])"
  by code_simp

end
