(* ===== verification/Llm_Response.thy ===== *)
theory Llm_Response
  imports Json_Parse Task_Store
begin

text \<open>
  Prompt assembly and reply parsing of a direct LLM task
  (\<open>server/services/orchestrator/direct-llm-prompt.ts\<close>), and the call with its single bounded retry
  (\<open>completeDirectLlm\<close> of \<open>server/services/task-orchestrator.ts\<close>). The gateway is outside: the outcomes of its
  first and second call are arguments.
\<close>

section \<open>The prompt\<close>

definition truthy :: "json option \<Rightarrow> bool" where
  "truthy v = (case v of None \<Rightarrow> False | Some JNull \<Rightarrow> False | Some (JBool b) \<Rightarrow> b
     | Some (JNum q) \<Rightarrow> q \<noteq> 0 | Some (JStr t) \<Rightarrow> t \<noteq> [] | Some _ \<Rightarrow> True)"

definition collectDepOutputs :: "task_row \<Rightarrow> task_row list \<Rightarrow> exec_row list \<Rightarrow> payload" where
  "collectDepOutputs task defs execs =
     foldl (\<lambda>m depId.
        case (find (\<lambda>d. tk_id d = depId) defs, find (\<lambda>e. ex_taskId e = Some depId) execs) of
          (Some d, Some e) \<Rightarrow> (if truthy (ex_output e) then jset (tk_name d) (the (ex_output e)) m else m)
        | _ \<Rightarrow> m) [] (tk_dependsOn task)"

definition nl :: string where "nl = [CHR 0x0A]"
definition dq :: string where "dq = [CHR 0x22]"

definition buildSystemPrompt :: "task_row \<Rightarrow> group_row \<Rightarrow> iteration_row \<Rightarrow> payload \<Rightarrow> string" where
  "buildSystemPrompt task g it deps =
     ''You are completing a task as part of a larger task group.'' @ nl @
     ''Task group: '' @ gp_name g @ nl @
     ''Overall objective: '' @ it_input it @ nl @ nl @
     ''Your specific task: '' @ tk_name task @ nl @
     ''Description: '' @ tk_description task @ nl @ nl @
     (if length deps > 0 then ''Results from prerequisite tasks:'' @ nl @ json_pretty 0 (JObj deps) else []) @ nl @ nl @
     ''Respond with a JSON object:'' @ nl @
     [CHR 0x7B] @ nl @
     ''  '' @ dq @ ''summary'' @ dq @ '': '' @ dq @ ''Brief summary of what was accomplished'' @ dq @ '','' @ nl @
     ''  '' @ dq @ ''output'' @ dq @ '': '' @ [CHR 0x7B] @ '' ... any structured output ... '' @ [CHR 0x7D] @ '','' @ nl @
     ''  '' @ dq @ ''decisions'' @ dq @ '': ['' @ dq @ ''key decision 1'' @ dq @ '', '' @ dq @ ''key decision 2'' @ dq @ '']'' @ nl @
     [CHR 0x7D]"

section \<open>The reply\<close>

fun asPlainObject :: "json option \<Rightarrow> payload option" where
  "asPlainObject (Some (JObj m)) = Some m"
| "asPlainObject _ = None"

text \<open>
  \<open>/```(?:json)?\s*([\s\S]*?)```/i\<close>: the text in the first fence that is closed.
\<close>

definition fence_mark :: string where "fence_mark = replicate 3 (CHR 0x60)"

fun fence_body :: "string \<Rightarrow> string option" where
  "fence_body [] = None"
| "fence_body (c # cs) =
     (if take 3 (c # cs) = fence_mark
      then (let r = drop 3 (c # cs);
                r1 = (case strip_prefix_ci ''json'' r of Some q \<Rightarrow> q | None \<Rightarrow> r);
                r2 = dropWhile blank r1
            in case index_of fence_mark r2 of
                 Some n \<Rightarrow> Some (take n r2)
               | None \<Rightarrow> fence_body cs)
      else fence_body cs)"

text \<open>The string-aware scan for the end of the object: the number of characters up to the matching brace.\<close>

fun scan_object :: "nat \<Rightarrow> int \<Rightarrow> bool \<Rightarrow> bool \<Rightarrow> string \<Rightarrow> nat option" where
  "scan_object n depth inStr esc [] = None"
| "scan_object n depth inStr esc (ch # cs) =
     (if esc then scan_object (n + 1) depth inStr False cs
      else if ch = CHR 0x5C then scan_object (n + 1) depth inStr True cs
      else if ch = CHR 0x22 then scan_object (n + 1) depth (\<not> inStr) False cs
      else if \<not> inStr \<and> ch = CHR 0x7B then scan_object (n + 1) (depth + 1) inStr False cs
      else if \<not> inStr \<and> ch = CHR 0x7D
      then (if depth - 1 = 0 then Some (n + 1) else scan_object (n + 1) (depth - 1) inStr False cs)
      else scan_object (n + 1) depth inStr False cs)"

definition extractJsonObject :: "string \<Rightarrow> payload option" where
  "extractJsonObject content =
     (let trimmed = trim content
      in case asPlainObject (json_parse trimmed) of
           Some m \<Rightarrow> Some m
         | None \<Rightarrow>
             (case (case fence_body trimmed of None \<Rightarrow> None | Some t \<Rightarrow> asPlainObject (json_parse (trim t))) of
                Some m \<Rightarrow> Some m
              | None \<Rightarrow>
                  (case index_of [CHR 0x7B] trimmed of
                     None \<Rightarrow> None
                   | Some start \<Rightarrow>
                       (case scan_object 0 0 False False (drop start trimmed) of
                          None \<Rightarrow> None
                        | Some len \<Rightarrow> asPlainObject (json_parse (take len (drop start trimmed)))))))"

fun split_lines :: "string \<Rightarrow> string list" where
  "split_lines [] = [[]]"
| "split_lines (c # cs) =
     (if c = CHR 0x0A then [] # split_lines cs
      else case split_lines cs of [] \<Rightarrow> [[c]] | w # ws \<Rightarrow> (c # w) # ws)"

text \<open>\<open>replace(/^#+\s*/, "")\<close> and \<open>replace(/^`{1,3}(?:json)?$/i, "")\<close>.\<close>

definition strip_heading :: "string \<Rightarrow> string" where
  "strip_heading t =
     (let r = dropWhile (\<lambda>c. c = CHR ''#'') t in if length r < length t then dropWhile blank r else t)"

definition strip_fence_line :: "string \<Rightarrow> string" where
  "strip_fence_line t =
     (let ticks = takeWhile (\<lambda>c. c = CHR 0x60) t; r = dropWhile (\<lambda>c. c = CHR 0x60) t
      in if 1 \<le> length ticks \<and> length ticks \<le> 3 \<and> (r = [] \<or> strip_prefix_ci ''json'' r = Some []) then [] else t)"

definition summary_len :: nat where "summary_len = 280"

fun first_line :: "string list \<Rightarrow> string option" where
  "first_line [] = None"
| "first_line (l # ls) =
     (let t = trim (strip_fence_line (strip_heading (trim l)))
      in if t \<noteq> [] then Some (take summary_len t) else first_line ls)"

definition fallbackSummary :: "string \<Rightarrow> string" where
  "fallbackSummary content =
     (case first_line (split_lines content) of Some t \<Rightarrow> t | None \<Rightarrow> take summary_len (trim content))"

record task_result =
  res_summary :: string
  res_output :: "payload option"
  res_decisions :: "string list option"
  res_artifacts :: "json list option"

definition parseDirectLlmResponse :: "string \<Rightarrow> task_result" where
  "parseDirectLlmResponse content =
     (case extractJsonObject content of
        Some parsed \<Rightarrow>
          \<lparr>res_summary = (case jget parsed ''summary'' of
                            Some (JStr t) \<Rightarrow> if trim t \<noteq> [] then t else fallbackSummary content
                          | _ \<Rightarrow> fallbackSummary content),
           res_output = Some (case asPlainObject (jget parsed ''output'') of Some m \<Rightarrow> m | None \<Rightarrow> parsed),
           res_decisions = Some (case jget parsed ''decisions'' of Some (JArr xs) \<Rightarrow> List.map_filter json_str xs | _ \<Rightarrow> []),
           res_artifacts = (case jget parsed ''artifacts'' of Some (JArr xs) \<Rightarrow> Some xs | _ \<Rightarrow> None)\<rparr>
      | None \<Rightarrow>
          \<lparr>res_summary = fallbackSummary content, res_output = Some [(''raw'', JStr content)],
           res_decisions = None, res_artifacts = None\<rparr>)"

section \<open>The call and its retry\<close>

datatype gateway_outcome = Reply string | Gateway_Error string string

record retry_cfg =
  rc_enabled :: bool
  rc_fallbackModel :: "string option"

datatype retry_cause = Timeout_Cause | Empty_Output_Cause

record retry_note =
  rn_cause :: retry_cause
  rn_fallbackModel :: "string option"
  rn_retriedModel :: string

definition isEmptyCompletion :: "string \<Rightarrow> bool" where
  "isEmptyCompletion content = (length (trim content) = 0)"

definition contains :: "string \<Rightarrow> string \<Rightarrow> bool" where
  "contains pat t = (index_of pat t \<noteq> None)"

definition isTimeoutError :: "string \<Rightarrow> string \<Rightarrow> bool" where
  "isTimeoutError name message =
     (contains ''timeout'' (lower name) \<or> contains ''timed out'' (lower message) \<or>
      contains ''timeout'' (lower message) \<or> contains ''overall cap'' (lower message))"

text \<open>The result, or the error that propagates, with the models that were called.\<close>

definition completeDirectLlm :: "retry_cfg \<Rightarrow> string \<Rightarrow> (string \<Rightarrow> gateway_outcome) \<Rightarrow> (string \<Rightarrow> gateway_outcome) \<Rightarrow>
    (string + string \<times> retry_note option) \<times> string list" where
  "completeDirectLlm cfg model first second =
     (let retry = (\<lambda>cause.
            (let retried = (case rc_fallbackModel cfg of None \<Rightarrow> model | Some m \<Rightarrow> m)
             in (case second retried of
                   Reply content \<Rightarrow>
                     Inr (content, Some \<lparr>rn_cause = cause, rn_fallbackModel = rc_fallbackModel cfg, rn_retriedModel = retried\<rparr>)
                 | Gateway_Error n m \<Rightarrow> Inl m, [model, retried])))
      in case first model of
           Reply content \<Rightarrow>
             (if \<not> rc_enabled cfg \<or> \<not> isEmptyCompletion content then (Inr (content, None), [model])
              else retry Empty_Output_Cause)
         | Gateway_Error n m \<Rightarrow>
             (if \<not> rc_enabled cfg \<or> \<not> isTimeoutError n m then (Inl m, [model]) else retry Timeout_Cause))"

definition cause_text :: "retry_cause \<Rightarrow> string" where
  "cause_text c = (case c of Timeout_Cause \<Rightarrow> ''timeout'' | Empty_Output_Cause \<Rightarrow> ''empty output'')"

definition annotateRetry :: "task_result \<Rightarrow> retry_note option \<Rightarrow> task_result" where
  "annotateRetry r note_opt =
     (case note_opt of
        None \<Rightarrow> r
      | Some n \<Rightarrow>
          (let label = (case rn_fallbackModel n of
                          Some m \<Rightarrow> if m \<noteq> [] then ''retried (fallback: '' @ m @ '')'' else ''retried (same model)''
                        | None \<Rightarrow> ''retried (same model)'');
               retry_rec = JObj [(''retried'', JBool True), (''cause'', JStr (cause_text (rn_cause n))),
                 (''model'', JStr (rn_retriedModel n)),
                 (''fallbackModel'', case rn_fallbackModel n of None \<Rightarrow> JNull | Some m \<Rightarrow> JStr m)]
           in r\<lparr>res_output := Some (jset ''_retry'' retry_rec (case res_output r of None \<Rightarrow> [] | Some m \<Rightarrow> m)),
                res_decisions := Some ((case res_decisions r of None \<Rightarrow> [] | Some ds \<Rightarrow> ds)
                  @ [''judge/LLM call '' @ label @ '' after '' @ cause_text (rn_cause n)])\<rparr>))"

section \<open>Facts\<close>

lemma trim_nonblank: "trim t \<noteq> [] \<Longrightarrow> t \<noteq> []"
  by (auto simp: trim_def)

lemma first_line_nonempty: "first_line ls = Some t \<Longrightarrow> t \<noteq> [] \<and> length t \<le> 280"
  by (induction ls) (auto simp: Let_def summary_len_def split: if_splits)

lemma fallback_nonempty: "trim content \<noteq> [] \<Longrightarrow> fallbackSummary content \<noteq> [] \<and> length (fallbackSummary content) \<le> 280"
  by (auto simp: fallbackSummary_def summary_len_def dest: first_line_nonempty split: option.splits)

text \<open>
  a reply that is not blank always yields a result with a summary and an output; the summary is the
  model's own when its object has one that is not blank, and otherwise a line of the reply of at most 280 characters; a
  reply without an object is kept whole in the output.
\<close>

theorem reply_always_parsed:
  assumes "trim content \<noteq> []"
  defines "r \<equiv> parseDirectLlmResponse content"
  shows "res_summary r \<noteq> [] \<and>
    (length (res_summary r) \<le> 280 \<or>
       (\<exists>parsed. extractJsonObject content = Some parsed \<and> jget parsed ''summary'' = Some (JStr (res_summary r)))) \<and>
    (extractJsonObject content = None \<longrightarrow> res_output r = Some [(''raw'', JStr content)]) \<and>
    (\<forall>parsed. extractJsonObject content = Some parsed \<longrightarrow>
       res_output r = Some (case jget parsed ''output'' of Some (JObj m) \<Rightarrow> m | _ \<Rightarrow> parsed))"
proof (cases "extractJsonObject content")
  case None
  then show ?thesis using fallback_nonempty [OF assms(1)] by (simp add: r_def parseDirectLlmResponse_def)
next
  case (Some parsed)
  have "res_output r = Some (case jget parsed ''output'' of Some (JObj m) \<Rightarrow> m | _ \<Rightarrow> parsed)"
    using Some by (cases "jget parsed ''output''" rule: asPlainObject.cases) (simp_all add: r_def parseDirectLlmResponse_def)
  moreover have "res_summary r \<noteq> [] \<and> (length (res_summary r) \<le> 280 \<or> jget parsed ''summary'' = Some (JStr (res_summary r)))"
  proof (cases "\<exists>t. jget parsed ''summary'' = Some (JStr t) \<and> trim t \<noteq> []")
    case True
    with Some show ?thesis by (auto simp: r_def parseDirectLlmResponse_def dest: trim_nonblank)
  next
    case False
    then have "res_summary r = fallbackSummary content"
      using Some by (auto simp: r_def parseDirectLlmResponse_def split: option.splits json.splits)
    then show ?thesis using fallback_nonempty [OF assms(1)] by simp
  qed
  ultimately show ?thesis using Some by auto
qed

lemma reply_always_parsed_witness:
  "res_summary (parseDirectLlmResponse (''Sure: '' @ [CHR 0x7B, CHR 0x22] @ ''summary'' @ [CHR 0x22] @ '':'' @ [CHR 0x22] @ ''done''
      @ [CHR 0x22, CHR 0x7D])) = ''done'' \<and>
   res_summary (parseDirectLlmResponse ''# Plan'') \<noteq> []"
proof
  show "res_summary (parseDirectLlmResponse (''Sure: '' @ [CHR 0x7B, CHR 0x22] @ ''summary'' @ [CHR 0x22] @ '':'' @ [CHR 0x22] @ ''done''
      @ [CHR 0x22, CHR 0x7D])) = ''done''" by code_simp
  have "trim ''# Plan'' \<noteq> []" by code_simp
  from reply_always_parsed [OF this] show "res_summary (parseDirectLlmResponse ''# Plan'') \<noteq> []" by blast
qed

text \<open>
  the gateway is called at most twice, a second time exactly when the retry is enabled and the first
  call timed out or came back empty, and then under the fallback model when one is set; with the retry
  disabled the outcome of the one call is passed on unchanged.
\<close>

theorem retry_is_bounded:
  "completeDirectLlm cfg model first second = (r, calls) \<Longrightarrow>
     (length calls = 2 \<longleftrightarrow> rc_enabled cfg \<and>
        (case first model of Reply c \<Rightarrow> isEmptyCompletion c | Gateway_Error n m \<Rightarrow> isTimeoutError n m)) \<and>
     length calls \<le> 2 \<and> hd calls = model \<and>
     (length calls = 2 \<longrightarrow> calls ! 1 = (case rc_fallbackModel cfg of None \<Rightarrow> model | Some m \<Rightarrow> m) \<and>
        (\<forall>n m. second (calls ! 1) = Gateway_Error n m \<longrightarrow> r = Inl m)) \<and>
     (\<not> rc_enabled cfg \<longrightarrow> r = (case first model of Reply c \<Rightarrow> Inr (c, None) | Gateway_Error n m \<Rightarrow> Inl m))"
  by (auto simp: completeDirectLlm_def Let_def split: gateway_outcome.splits if_splits)

lemma retry_is_bounded_witness:
  "completeDirectLlm \<lparr>rc_enabled = True, rc_fallbackModel = Some ''b''\<rparr> ''a'' (\<lambda>_. Reply '' '') (\<lambda>_. Gateway_Error ''E'' ''down'')
     = (Inl ''down'', [''a'', ''b'']) \<and> length [''a'', ''b''] \<le> 2"
proof -
  have c: "completeDirectLlm \<lparr>rc_enabled = True, rc_fallbackModel = Some ''b''\<rparr> ''a'' (\<lambda>_. Reply '' '') (\<lambda>_. Gateway_Error ''E'' ''down'')
     = (Inl ''down'', [''a'', ''b''])"
    by (simp add: completeDirectLlm_def isEmptyCompletion_def trim_def blank_def)
  from c retry_is_bounded [OF c] show ?thesis by blast
qed

end
