(* ===== verification/Execution_Claims.thy ===== *)
theory Execution_Claims
  imports Prelude
begin

text \<open>
  The per-iteration claim registry (\<open>server/services/orchestrator/execution-claims.ts\<close>), the contract
  the orchestrator relies on, and the sequences of operations on it. The contract is a locale over an
  abstract registry; the registry of the code is its interpretation.
\<close>

section \<open>The registry\<close>

type_synonym claim_registry = "(string, string list) jsmap"

definition claim :: "string \<Rightarrow> string \<Rightarrow> claim_registry \<Rightarrow> bool \<times> claim_registry" where
  "claim iid eid c =
     (let s = get_or [] c iid; c1 = (if jhas c iid then c else jset iid [] c)
      in if eid \<in> set s then (False, c1) else (True, jset iid (s @ [eid]) c1))"

definition isClaimed :: "string \<Rightarrow> string \<Rightarrow> claim_registry \<Rightarrow> bool" where
  "isClaimed iid eid c = (case jget c iid of None \<Rightarrow> False | Some s \<Rightarrow> eid \<in> set s)"

definition release_claim :: "string \<Rightarrow> string \<Rightarrow> claim_registry \<Rightarrow> claim_registry" where
  "release_claim iid eid c = (case jget c iid of None \<Rightarrow> c | Some s \<Rightarrow> jset iid (sdel eid s) c)"

definition clear_claims :: "string \<Rightarrow> claim_registry \<Rightarrow> claim_registry" where
  "clear_claims iid c = jdel iid c"

section \<open>The contract\<close>

locale claims_contract =
  fixes tryClaim :: "string \<Rightarrow> string \<Rightarrow> 'c \<Rightarrow> bool \<times> 'c"
    and held :: "string \<Rightarrow> string \<Rightarrow> 'c \<Rightarrow> bool"
    and free :: "string \<Rightarrow> string \<Rightarrow> 'c \<Rightarrow> 'c"
    and forget :: "string \<Rightarrow> 'c \<Rightarrow> 'c"
  assumes try_result: "fst (tryClaim i e c) = (\<not> held i e c)"
    and held_try: "held i' e' (snd (tryClaim i e c)) = (i' = i \<and> e' = e \<or> held i' e' c)"
    and held_free: "held i' e' (free i e c) = (held i' e' c \<and> \<not> (i' = i \<and> e' = e))"
    and held_forget: "held i' e' (forget i c) = (held i' e' c \<and> i' \<noteq> i)"
begin

text \<open>A caller that finds the claim taken changes nothing, and a second claim fails until it is given back.\<close>

lemma second_claim_fails: "\<not> fst (tryClaim i e (snd (tryClaim i e c)))"
  by (simp add: try_result held_try)

lemma claim_again_after_free: "fst (tryClaim i e (free i e c))"
  by (simp add: try_result held_free)

lemma claim_again_after_forget: "fst (tryClaim i e (forget i c))"
  by (simp add: try_result held_forget)

end

lemma isClaimed_get_or: "isClaimed i e c \<longleftrightarrow> e \<in> set (get_or [] c i)"
  by (simp add: isClaimed_def get_or_def split: option.splits)

lemma get_or_claimed:
  "get_or [] (snd (claim i e c)) j = (if j = i then sadd e (get_or [] c i) else get_or [] c j)"
proof (cases "jhas c i")
  case True then show ?thesis by (auto simp: claim_def Let_def sadd_def)
next
  case False
  then have "get_or [] c i = []" by (simp add: jhas_iff get_or_absent)
  then show ?thesis using False by (simp add: claim_def Let_def sadd_def)
qed

interpretation claims: claims_contract claim isClaimed release_claim clear_claims
proof
  fix i e i' e' :: string and c :: claim_registry
  show "fst (claim i e c) = (\<not> isClaimed i e c)" by (simp add: claim_def isClaimed_get_or Let_def)
  show "isClaimed i' e' (snd (claim i e c)) = (i' = i \<and> e' = e \<or> isClaimed i' e' c)"
    by (auto simp: isClaimed_get_or get_or_claimed)
  show "isClaimed i' e' (release_claim i e c) = (isClaimed i' e' c \<and> \<not> (i' = i \<and> e' = e))"
    by (auto simp: isClaimed_def release_claim_def split: option.splits)
  show "isClaimed i' e' (clear_claims i c) = (isClaimed i' e' c \<and> i' \<noteq> i)"
    by (auto simp: isClaimed_def clear_claims_def split: option.splits)
qed

section \<open>Sequences of calls\<close>

datatype claim_call = Claim string string | Release string string | Clear string

fun claim_results :: "claim_call list \<Rightarrow> claim_registry \<Rightarrow> bool list" where
  "claim_results [] c = []"
| "claim_results (Claim i e # ops) c = (let (b, c') = claim i e c in b # claim_results ops c')"
| "claim_results (Release i e # ops) c = False # claim_results ops (release_claim i e c)"
| "claim_results (Clear i # ops) c = False # claim_results ops (clear_claims i c)"

definition frees :: "string \<Rightarrow> string \<Rightarrow> claim_call \<Rightarrow> bool" where
  "frees i e op = (op = Release i e \<or> op = Clear i)"

lemma length_claim_results [simp]: "length (claim_results ops c) = length ops"
  by (induction ops c rule: claim_results.induct) (auto split: prod.splits)

lemma later_position: "\<exists>j < k. P (ops ! j) \<Longrightarrow> \<exists>j < Suc k. P ((x # ops) ! j)"
  by (metis Suc_mono nth_Cons_Suc)

lemma won_after_claimed:
  assumes "isClaimed i e c" "k < length ops" "ops ! k = Claim i e" "claim_results ops c ! k"
  shows "\<exists>j < k. frees i e (ops ! j)"
  using assms
proof (induction ops c arbitrary: k rule: claim_results.induct)
  case (2 i' e' ops c)
  obtain b c' where bc: "claim i' e' c = (b, c')" by force
  have held: "isClaimed i e c'" using claims.held_try [of i e i' e' c] 2(2) bc by simp
  have "k \<noteq> 0" using 2(2,4,5) bc claims.try_result [of i' e' c] by (cases k) auto
  then obtain k' where k: "k = Suc k'" by (cases k) auto
  have "\<exists>j < k'. frees i e (ops ! j)" using 2(3-5) bc k by (intro 2(1) [OF bc [symmetric] refl held]) auto
  from later_position [OF this] show ?case by (simp add: k)
next
  case (3 i' e' ops c)
  show ?case
  proof (cases "i' = i \<and> e' = e")
    case True
    with 3(4) have "k \<noteq> 0" by (cases k) auto
    with True show ?thesis by (intro exI [of _ 0]) (auto simp: frees_def)
  next
    case False
    then have held: "isClaimed i e (release_claim i' e' c)" using 3(2) claims.held_free by auto
    from 3(4) obtain k' where k: "k = Suc k'" by (cases k) auto
    have "\<exists>j < k'. frees i e (ops ! j)" using 3(3-5) k by (intro 3(1) [OF held]) auto
    from later_position [OF this] show ?thesis by (simp add: k)
  qed
next
  case (4 i' ops c)
  show ?case
  proof (cases "i' = i")
    case True
    with 4(4) have "k \<noteq> 0" by (cases k) auto
    with True show ?thesis by (intro exI [of _ 0]) (auto simp: frees_def)
  next
    case False
    then have held: "isClaimed i e (clear_claims i' c)" using 4(2) claims.held_forget by auto
    from 4(4) obtain k' where k: "k = Suc k'" by (cases k) auto
    have "\<exists>j < k'. frees i e (ops ! j)" using 4(3-5) k by (intro 4(1) [OF held]) auto
    from later_position [OF this] show ?thesis by (simp add: k)
  qed
qed simp

text \<open>
  in any sequence of calls, two claims of the same execution can both win only if the claim was
  released, or its iteration cleared, between them.
\<close>

theorem claim_wins_once:
  assumes "j < k" "k < length ops" "ops ! j = Claim i e" "ops ! k = Claim i e"
    and "claim_results ops c ! j" "claim_results ops c ! k"
  shows "\<exists>m. j < m \<and> m < k \<and> frees i e (ops ! m)"
  using assms
proof (induction ops c arbitrary: j k rule: claim_results.induct)
  case (2 i' e' ops c)
  obtain b c' where bc: "claim i' e' c = (b, c')" by force
  obtain k' where k: "k = Suc k'" using 2(2) by (cases k) auto
  show ?case
  proof (cases j)
    case 0
    with 2(4) have "i' = i" "e' = e" by auto
    then have "isClaimed i e c'" using claims.held_try [of i e i e c] bc by simp
    from won_after_claimed [OF this, of k' ops] 2(3,5,7) k bc obtain m where "m < k'" "frees i e (ops ! m)" by auto
    with 0 k show ?thesis by (intro exI [of _ "Suc m"]) simp
  next
    case (Suc j')
    with 2(2-7) k bc 2(1) [OF bc [symmetric] refl, of j' k'] obtain m where "j' < m" "m < k'" "frees i e (ops ! m)" by auto
    with Suc k show ?thesis by (intro exI [of _ "Suc m"]) simp
  qed
next
  case (3 i' e' ops c)
  obtain j' k' where jk: "j = Suc j'" "k = Suc k'" using 3(2,4) by (cases j; cases k) auto
  with 3(2-7) 3(1) [of j' k'] obtain m where "j' < m" "m < k'" "frees i e (ops ! m)" by auto
  with jk show ?case by (intro exI [of _ "Suc m"]) simp
next
  case (4 i' ops c)
  obtain j' k' where jk: "j = Suc j'" "k = Suc k'" using 4(2,4) by (cases j; cases k) auto
  with 4(2-7) 4(1) [of j' k'] obtain m where "j' < m" "m < k'" "frees i e (ops ! m)" by auto
  with jk show ?case by (intro exI [of _ "Suc m"]) simp
qed simp

lemma claim_wins_once_witness:
  "claim_results [Claim ''i'' ''e'', Claim ''i'' ''e'', Release ''i'' ''e'', Claim ''i'' ''e''] [] = [True, False, False, True] \<and>
   (\<exists>m. 0 < m \<and> m < 3 \<and> frees ''i'' ''e'' ([Claim ''i'' ''e'', Claim ''i'' ''e'', Release ''i'' ''e'', Claim ''i'' ''e''] ! m))"
proof
  show r: "claim_results [Claim ''i'' ''e'', Claim ''i'' ''e'', Release ''i'' ''e'', Claim ''i'' ''e''] [] = [True, False, False, True]"
    by code_simp
  show "\<exists>m. 0 < m \<and> m < 3 \<and> frees ''i'' ''e'' ([Claim ''i'' ''e'', Claim ''i'' ''e'', Release ''i'' ''e'', Claim ''i'' ''e''] ! m)"
    using claim_wins_once [of 0 3 "[Claim ''i'' ''e'', Claim ''i'' ''e'', Release ''i'' ''e'', Claim ''i'' ''e'']" "''i''" "''e''" "[]"]
    unfolding r by simp
qed

end
