(* ===== verification/Task_Orchestrator.thy ===== *)
theory Task_Orchestrator
  imports Task_Editor Llm_Response Execution_Claims
begin

text \<open>
  Running task groups (\<open>TaskOrchestrator\<close> of \<open>server/services/task-orchestrator.ts\<close>). The class is
  single-process but interleaves at every \<open>await\<close>: an execution, with the dependency resolution its
  completion triggers, is an activity, and \<open>advance\<close> runs one activity from one await to the next.
  The writes and reads between the launch of an execution and its model call are one step.
  The answers of the gateway and the clock are arguments. \<open>startGroup\<close>, \<open>cancelGroup\<close> and \<open>retryTask\<close> run their own
  awaits as one step: two racing starts are decided by the store's uniqueness check. A store error, which needs the
  rows to be deleted under the run, ends the activity. Tracing is left out; broadcasts are the log, with the
  iteration they are sent for.
\<close>

section \<open>State\<close>

definition max_concurrent_tasks :: nat where "max_concurrent_tasks = 5"
definition default_task_model :: string where "default_task_model = ''claude-sonnet''"

record orch_cfg =
  oc_maxIterations :: nat
  oc_defaultModel :: "string option"
  oc_retry :: retry_cfg

datatype orch_event =
    Ev_Started nat nat
  | Ev_TaskStarted string
  | Ev_TaskCompleted string string
  | Ev_TaskReady string
  | Ev_TaskFailed string string
  | Ev_Progress nat nat nat
  | Ev_GroupFailed string
  | Ev_GroupCompleted nat nat

record run_ctx =
  cx_group :: group_row
  cx_iteration :: iteration_row
  cx_defs :: "task_row list"

record llm_request =
  rq_model :: string
  rq_system :: string
  rq_user :: string

text \<open>Where an activity is: the await it returns from next.\<close>

datatype activity =
    Begin_Exec exec_row
  | Asking exec_row task_row llm_request
  | Notifying
  | Unblocking "string list" "exec_row list" nat nat nat
  | Waiting "nat list"
  | Settling_Iteration json nat nat
  | Settling_Group json nat nat
  | Failing exec_row task_row string
  | Sweep_Read string
  | Sweeping "string list" string
  | Fail_Iteration string
  | Fail_Group string
  | Finished

record orch =
  or_store :: task_store
  or_claims :: claim_registry
  or_active :: "string list"
  or_acts :: "(nat, run_ctx \<times> activity) jsmap"
  or_next :: nat
  or_log :: "(string \<times> orch_event) list"

datatype start_error =
    Group_Not_Found string
  | Run_Active string
  | Iteration_Cap string nat
  | No_Ready_Tasks string
  | Not_Retryable string
  | Start_Store_Error store_error

definition note_event :: "run_ctx \<Rightarrow> orch_event \<Rightarrow> orch \<Rightarrow> orch" where
  "note_event cx ev s = s\<lparr>or_log := or_log s @ [(it_id (cx_iteration cx), ev)]\<rparr>"

definition set_act :: "nat \<Rightarrow> run_ctx \<Rightarrow> activity \<Rightarrow> orch \<Rightarrow> orch" where
  "set_act k cx a s = s\<lparr>or_acts := jset k (cx, a) (or_acts s)\<rparr>"

definition mark_settled :: "string \<Rightarrow> string \<Rightarrow> orch \<Rightarrow> orch" where
  "mark_settled gid iid s = s\<lparr>or_active := sdel gid (or_active s), or_claims := clear_claims iid (or_claims s)\<rparr>"

section \<open>Launching\<close>

fun claim_batch :: "string \<Rightarrow> nat \<Rightarrow> exec_row list \<Rightarrow> claim_registry \<Rightarrow> exec_row list \<times> claim_registry" where
  "claim_batch iid 0 es c = ([], c)"
| "claim_batch iid (Suc n) [] c = ([], c)"
| "claim_batch iid (Suc n) (e # es) c =
     (let (won, c1) = claim iid (ex_id e) c
      in if won then (let (l, c2) = claim_batch iid n es c1 in (e # l, c2)) else claim_batch iid (Suc n) es c1)"

fun spawn :: "run_ctx \<Rightarrow> exec_row list \<Rightarrow> orch \<Rightarrow> nat list \<times> orch" where
  "spawn cx [] s = ([], s)"
| "spawn cx (e # es) s =
     (let k = or_next s;
          (ks, s') = spawn cx es (s\<lparr>or_acts := jset k (cx, Begin_Exec e) (or_acts s), or_next := k + 1\<rparr>)
      in (k # ks, s'))"

definition launchBatch :: "run_ctx \<Rightarrow> exec_row list \<Rightarrow> nat \<Rightarrow> orch \<Rightarrow> nat list \<times> orch" where
  "launchBatch cx candidates slots s =
     (let (launched, c) = claim_batch (it_id (cx_iteration cx)) slots candidates (or_claims s)
      in spawn cx launched (s\<lparr>or_claims := c\<rparr>))"

section \<open>Starting, cancelling, retrying\<close>

definition human_note_heading :: string where
  "human_note_heading = ''## Human decisions and notes (previous round)''"

definition composeIterationInput :: "string \<Rightarrow> string option \<Rightarrow> string" where
  "composeIterationInput baseInput humanNote =
     (let nt = trim (case humanNote of None \<Rightarrow> [] | Some t \<Rightarrow> t)
      in if nt = [] then baseInput else baseInput @ nl @ nl @ human_note_heading @ '':'' @ nl @ nt)"

definition resolve_model :: "orch_cfg \<Rightarrow> task_row \<Rightarrow> string" where
  "resolve_model cfg t =
     (case tk_modelSlug t of Some m \<Rightarrow> m
      | None \<Rightarrow> (case oc_defaultModel cfg of Some m \<Rightarrow> m | None \<Rightarrow> default_task_model))"

definition buildSeeds :: "orch_cfg \<Rightarrow> task_row list \<Rightarrow> exec_seed list" where
  "buildSeeds cfg defs =
     map (\<lambda>d. \<lparr>sd_taskId = tk_id d, sd_taskName = tk_name d,
               sd_status = (if length (tk_dependsOn d) = 0 then T_Ready else T_Blocked),
               sd_modelSlug = Some (resolve_model cfg d)\<rparr>) defs"

definition prepareGroupStart :: "orch_cfg \<Rightarrow> int \<Rightarrow> string \<Rightarrow> string list \<Rightarrow> string \<Rightarrow> string option \<Rightarrow> orch \<Rightarrow>
    start_error + (run_ctx \<times> exec_row list \<times> orch)" where
  "prepareGroupStart cfg now iid eids gid triggeredBy s =
     (case getTaskGroup (or_store s) gid of
        None \<Rightarrow> Inl (Group_Not_Found gid)
      | Some g \<Rightarrow>
          (let latest = getLatestIteration (or_store s) gid
           in if map_option it_status latest = Some G_Running then Inl (Run_Active gid)
              else
                (let n = (case latest of None \<Rightarrow> 0 | Some i \<Rightarrow> it_number i) + 1
                 in if oc_maxIterations cfg > 0 \<and> n > oc_maxIterations cfg then Inl (Iteration_Cap gid (oc_maxIterations cfg))
                    else
                      (let defs = getTasksByGroup (or_store s) gid; seeds = buildSeeds cfg defs
                       in if \<not> list_ex (\<lambda>sd. sd_status sd = T_Ready) seeds then Inl (No_Ready_Tasks gid)
                          else
                            (let input = composeIterationInput (gp_input g) (case latest of None \<Rightarrow> None | Some i \<Rightarrow> it_humanNote i)
                             in case createIterationWithExecutions now iid eids gid input triggeredBy n seeds (or_store s) of
                                  Inl e \<Rightarrow> Inl (Start_Store_Error e)
                                | Inr (it, exs, st1) \<Rightarrow>
                                    (case updateTaskGroup gid (\<lambda>r. r\<lparr>gp_status := G_Running, gp_startedAt := Some now,
                                            gp_completedAt := None, gp_output := None\<rparr>) st1 of
                                       Inl e \<Rightarrow> Inl (Start_Store_Error e)
                                     | Inr st2 \<Rightarrow>
                                         (let cx = \<lparr>cx_group = g, cx_iteration = it, cx_defs = defs\<rparr>;
                                              ready = filter (\<lambda>e. ex_status e = T_Ready) exs
                                          in Inr (cx, ready,
                                               note_event cx (Ev_Started (length exs) (length ready))
                                                 (s\<lparr>or_store := st2, or_active := sadd gid (or_active s)\<rparr>)))))))))"

definition startGroup :: "orch_cfg \<Rightarrow> int \<Rightarrow> string \<Rightarrow> string list \<Rightarrow> string \<Rightarrow> string option \<Rightarrow> orch \<Rightarrow> start_error + orch" where
  "startGroup cfg now iid eids gid triggeredBy s =
     (case prepareGroupStart cfg now iid eids gid triggeredBy s of
        Inl e \<Rightarrow> Inl e
      | Inr (cx, ready, s1) \<Rightarrow> Inr (snd (launchBatch cx ready max_concurrent_tasks s1)))"

text \<open>The guard of the fire-and-forget start: a settled iteration is left alone.\<close>

definition failIterationBackground :: "int \<Rightarrow> run_ctx \<Rightarrow> string \<Rightarrow> orch \<Rightarrow> orch" where
  "failIterationBackground now cx err s =
     (let gid = gp_id (cx_group cx); it = cx_iteration cx;
          status = (case getIteration (or_store s) gid (it_number it) of Some i \<Rightarrow> it_status i | None \<Rightarrow> it_status it)
      in if status \<noteq> G_Running \<and> status \<noteq> G_Pending then s
         else case updateIteration (it_id it) (\<lambda>r. r\<lparr>it_status := G_Failed, it_completedAt := Some now\<rparr>) (or_store s) of
                Inl _ \<Rightarrow> s
              | Inr st1 \<Rightarrow>
                  (case updateTaskGroup gid (\<lambda>r. r\<lparr>gp_status := G_Failed, gp_completedAt := Some now\<rparr>) st1 of
                     Inl _ \<Rightarrow> s\<lparr>or_store := st1\<rparr>
                   | Inr st2 \<Rightarrow> note_event cx (Ev_GroupFailed err) (mark_settled gid (it_id it) (s\<lparr>or_store := st2\<rparr>))))"

definition cancellable :: "task_status \<Rightarrow> bool" where
  "cancellable st = (st = T_Running \<or> st = T_Ready \<or> st = T_Blocked)"

fun cancel_execs :: "exec_row list \<Rightarrow> task_store \<Rightarrow> task_store" where
  "cancel_execs [] st = st"
| "cancel_execs (e # es) st =
     cancel_execs es
       (if cancellable (ex_status e)
        then (case updateExecution (ex_id e) (\<lambda>r. r\<lparr>ex_status := T_Cancelled\<rparr>) st of Inl _ \<Rightarrow> st | Inr st' \<Rightarrow> st')
        else st)"

definition cancelGroup :: "int \<Rightarrow> string \<Rightarrow> orch \<Rightarrow> start_error + orch" where
  "cancelGroup now gid s =
     (let latest = getLatestIteration (or_store s) gid;
          s1 = (case latest of
                  None \<Rightarrow> s
                | Some i \<Rightarrow>
                    (let st1 = cancel_execs (getExecutionsByIteration (or_store s) gid (it_id i)) (or_store s)
                     in s\<lparr>or_store := (case updateIteration (it_id i) (\<lambda>r. r\<lparr>it_status := G_Cancelled, it_completedAt := Some now\<rparr>) st1 of
                                        Inl _ \<Rightarrow> st1 | Inr st2 \<Rightarrow> st2),
                          or_claims := clear_claims (it_id i) (or_claims s)\<rparr>))
      in case updateTaskGroup gid (\<lambda>r. r\<lparr>gp_status := G_Cancelled, gp_completedAt := Some now\<rparr>) (or_store s1) of
           Inl e \<Rightarrow> Inl (Start_Store_Error e)
         | Inr st3 \<Rightarrow>
             Inr (s1\<lparr>or_store := st3, or_active := sdel gid (or_active s1),
                     or_log := or_log s1 @ [(case latest of None \<Rightarrow> [] | Some i \<Rightarrow> it_id i, Ev_GroupFailed ''Cancelled by user'')]\<rparr>))"

definition reset_exec :: "exec_row \<Rightarrow> exec_row" where
  "reset_exec r = r\<lparr>ex_status := T_Ready, ex_output := None, ex_summary := None, ex_errorMessage := None,
     ex_startedAt := None, ex_completedAt := None\<rparr>"

text \<open>A failed iteration, and its group, run again.\<close>

definition reopen :: "group_row \<Rightarrow> iteration_row \<Rightarrow> task_store \<Rightarrow> task_store" where
  "reopen g it st =
     (if it_status it = G_Failed
      then (case updateIteration (it_id it) (\<lambda>r. r\<lparr>it_status := G_Running, it_completedAt := None\<rparr>) st of
              Inl _ \<Rightarrow> st
            | Inr a \<Rightarrow> (case updateTaskGroup (gp_id g) (\<lambda>r. r\<lparr>gp_status := G_Running, gp_completedAt := None\<rparr>) a of
                         Inl _ \<Rightarrow> a | Inr b \<Rightarrow> b))
      else st)"

definition retry_exec :: "group_row \<Rightarrow> iteration_row \<Rightarrow> exec_row \<Rightarrow> orch \<Rightarrow> start_error + orch" where
  "retry_exec g it ex s =
     (if ex_status ex \<noteq> T_Failed then Inl (Not_Retryable ''not failed'')
      else (case updateExecution (ex_id ex) reset_exec (reopen g it (or_store s)) of
              Inl e \<Rightarrow> Inl (Start_Store_Error e)
            | Inr st2 \<Rightarrow>
                (let cx = \<lparr>cx_group = g, cx_iteration = it, cx_defs = getTasksByGroup st2 (gp_id g)\<rparr>;
                     (won, c2) = claim (it_id it) (ex_id ex) (release_claim (it_id it) (ex_id ex) (or_claims s));
                     s1 = s\<lparr>or_store := st2, or_active := sadd (gp_id g) (or_active s), or_claims := c2\<rparr>
                 in Inr (if won then snd (spawn cx [reset_exec ex] s1) else s1))))"

definition retryTask :: "string \<Rightarrow> orch \<Rightarrow> start_error + orch" where
  "retryTask taskId s =
     (case getTask (or_store s) taskId of
        None \<Rightarrow> Inl (Not_Retryable ''task not found'')
      | Some task \<Rightarrow>
     (case getTaskGroup (or_store s) (tk_groupId task) of
        None \<Rightarrow> Inl (Not_Retryable ''group not found'')
      | Some g \<Rightarrow>
     (case getLatestIteration (or_store s) (gp_id g) of
        None \<Rightarrow> Inl (Not_Retryable ''no iteration to retry'')
      | Some it \<Rightarrow>
     (case find (\<lambda>e. ex_taskId e = Some taskId) (getExecutionsByIteration (or_store s) (gp_id g) (it_id it)) of
        None \<Rightarrow> Inl (Not_Retryable ''no execution in the latest iteration'')
      | Some ex \<Rightarrow> retry_exec g it ex s))))"

section \<open>One execution\<close>

definition find_def :: "task_row list \<Rightarrow> string option \<Rightarrow> task_row option" where
  "find_def defs tid = find (\<lambda>d. Some (tk_id d) = tid) defs"

definition deps_of_exec :: "task_row list \<Rightarrow> exec_row \<Rightarrow> string list" where
  "deps_of_exec defs e = (case find_def defs (ex_taskId e) of None \<Rightarrow> [] | Some d \<Rightarrow> tk_dependsOn d)"

definition request_of :: "orch_cfg \<Rightarrow> run_ctx \<Rightarrow> task_row \<Rightarrow> task_store \<Rightarrow> llm_request" where
  "request_of cfg cx t st =
     \<lparr>rq_model = resolve_model cfg t,
      rq_system = buildSystemPrompt t (cx_group cx) (cx_iteration cx)
        (collectDepOutputs t (cx_defs cx) (getExecutionsByIteration st (gp_id (cx_group cx)) (it_id (cx_iteration cx)))),
      rq_user = (case tk_input t of JStr x \<Rightarrow> x | v \<Rightarrow> json_stringify v)\<rparr>"

definition begin_exec :: "orch_cfg \<Rightarrow> int \<Rightarrow> nat \<Rightarrow> run_ctx \<Rightarrow> exec_row \<Rightarrow> orch \<Rightarrow> orch" where
  "begin_exec cfg now k cx e s =
     (case find_def (cx_defs cx) (ex_taskId e) of
        None \<Rightarrow> set_act k cx Finished s
      | Some t \<Rightarrow>
          (case updateExecution (ex_id e) (\<lambda>r. r\<lparr>ex_status := T_Running, ex_startedAt := Some now,
                  ex_modelSlug := Some (resolve_model cfg t)\<rparr>) (or_store s) of
             Inl _ \<Rightarrow> set_act k cx Finished s
           | Inr st \<Rightarrow>
               set_act k cx (Asking e t (request_of cfg cx t st))
                 (note_event cx (Ev_TaskStarted (tk_id t)) (s\<lparr>or_store := st\<rparr>))))"

definition completed_row :: "int \<Rightarrow> task_result \<Rightarrow> exec_row \<Rightarrow> exec_row" where
  "completed_row now r row =
     row\<lparr>ex_status := T_Completed, ex_output := map_option JObj (res_output r), ex_summary := Some (res_summary r),
         ex_artifacts := res_artifacts r, ex_decisions := res_decisions r, ex_completedAt := Some now\<rparr>"

definition answer_exec :: "orch_cfg \<Rightarrow> int \<Rightarrow> (string \<Rightarrow> gateway_outcome) \<Rightarrow> (string \<Rightarrow> gateway_outcome) \<Rightarrow> nat \<Rightarrow> run_ctx \<Rightarrow>
    exec_row \<Rightarrow> task_row \<Rightarrow> llm_request \<Rightarrow> orch \<Rightarrow> orch" where
  "answer_exec cfg now first second k cx e t rq s =
     (case fst (completeDirectLlm (oc_retry cfg) (rq_model rq) first second) of
        Inl msg \<Rightarrow> set_act k cx (Failing e t msg) s
      | Inr (content, nt) \<Rightarrow>
          (let r = annotateRetry (parseDirectLlmResponse content) nt
           in case updateExecution (ex_id e) (completed_row now r) (or_store s) of
                Inl _ \<Rightarrow> set_act k cx Finished s
              | Inr st \<Rightarrow>
                  set_act k cx Notifying
                    (note_event cx (Ev_TaskCompleted (tk_id t) (res_summary r)) (s\<lparr>or_store := st\<rparr>))))"

section \<open>Dependency resolution\<close>

definition run_execs :: "run_ctx \<Rightarrow> orch \<Rightarrow> exec_row list" where
  "run_execs cx s = getExecutionsByIteration (or_store s) (gp_id (cx_group cx)) (it_id (cx_iteration cx))"

definition count_status :: "task_status \<Rightarrow> exec_row list \<Rightarrow> nat" where
  "count_status st es = length (filter (\<lambda>e. ex_status e = st) es)"

text \<open>The blocked executions whose dependencies are all completed in the snapshot.\<close>

definition unblocked :: "task_row list \<Rightarrow> exec_row list \<Rightarrow> exec_row list" where
  "unblocked defs execs =
     (let completed = map ex_taskId (filter (\<lambda>e. ex_status e = T_Completed) execs)
      in filter (\<lambda>e. ex_status e = T_Blocked \<and> list_all (\<lambda>d. Some d \<in> set completed) (deps_of_exec defs e)) execs)"

text \<open>Back from the last update: report, launch what became ready, wait for it.\<close>

definition unblock_next :: "nat \<Rightarrow> run_ctx \<Rightarrow> string list \<Rightarrow> exec_row list \<Rightarrow> nat \<Rightarrow> nat \<Rightarrow> nat \<Rightarrow> orch \<Rightarrow> orch" where
  "unblock_next k cx todo newly running done_count all_count s =
     (if todo \<noteq> [] then set_act k cx (Unblocking todo newly running done_count all_count) s
      else (let s1 = note_event cx (Ev_Progress done_count all_count running) s;
                (ks, s2) = launchBatch cx newly (max_concurrent_tasks - running) s1
            in set_act k cx (Waiting ks) s2))"

definition notify_step :: "nat \<Rightarrow> run_ctx \<Rightarrow> orch \<Rightarrow> orch" where
  "notify_step k cx s =
     (let execs = run_execs cx s
      in unblock_next k cx (map ex_id (unblocked (cx_defs cx) execs)) [] (count_status T_Running execs)
           (count_status T_Completed execs) (length execs) s)"

definition unblock_step :: "nat \<Rightarrow> run_ctx \<Rightarrow> string list \<Rightarrow> exec_row list \<Rightarrow> nat \<Rightarrow> nat \<Rightarrow> nat \<Rightarrow> orch \<Rightarrow> orch" where
  "unblock_step k cx todo newly running done_count all_count s =
     (case todo of
        [] \<Rightarrow> unblock_next k cx [] newly running done_count all_count s
      | eid # rest \<Rightarrow>
          (case updateExecution eid (\<lambda>r. r\<lparr>ex_status := T_Ready\<rparr>) (or_store s) of
             Inl _ \<Rightarrow> set_act k cx Finished s
           | Inr st \<Rightarrow>
               (let row = the (jget (st_executions st) eid);
                    s1 = note_event cx (Ev_TaskReady (case ex_taskId row of None \<Rightarrow> [] | Some t \<Rightarrow> t)) (s\<lparr>or_store := st\<rparr>)
                in unblock_next k cx rest (newly @ [row]) running done_count all_count s1)))"

definition group_output :: "task_row list \<Rightarrow> exec_row list \<Rightarrow> json" where
  "group_output defs execs =
     (let summaries = List.map_filter
            (\<lambda>e. case ex_summary e of
                   Some sm \<Rightarrow>
                     (if ex_status e = T_Completed \<and> sm \<noteq> []
                      then Some (''- '' @ (case find_def defs (ex_taskId e) of Some d \<Rightarrow> tk_name d
                                          | None \<Rightarrow> (case ex_taskId e of None \<Rightarrow> ''null'' | Some t \<Rightarrow> t)) @ '': '' @ sm)
                      else None)
                 | None \<Rightarrow> None) execs
      in JObj [(''taskCount'', JNum (of_nat (length execs))),
               (''completedCount'', JNum (of_nat (count_status T_Completed execs))),
               (''summaries'', JStr (join_with nl summaries))])"

definition is_finished :: "orch \<Rightarrow> nat \<Rightarrow> bool" where
  "is_finished s k = (map_option snd (jget (or_acts s) k) = Some Finished)"

definition check_step :: "nat \<Rightarrow> run_ctx \<Rightarrow> nat list \<Rightarrow> orch \<Rightarrow> orch" where
  "check_step k cx children s =
     (if \<not> list_all (is_finished s) children then s
      else (let execs = run_execs cx s
            in if list_all (\<lambda>e. ex_status e = T_Completed \<or> ex_status e = T_Cancelled) execs
               then set_act k cx (Settling_Iteration (group_output (cx_defs cx) execs) (length execs) (count_status T_Completed execs)) s
               else set_act k cx Finished s))"

definition settle_iteration_step :: "int \<Rightarrow> nat \<Rightarrow> run_ctx \<Rightarrow> json \<Rightarrow> nat \<Rightarrow> nat \<Rightarrow> orch \<Rightarrow> orch" where
  "settle_iteration_step now k cx out n c s =
     (case updateIteration (it_id (cx_iteration cx))
             (\<lambda>r. r\<lparr>it_status := G_Completed, it_output := Some out, it_completedAt := Some now\<rparr>) (or_store s) of
        Inl _ \<Rightarrow> set_act k cx Finished s
      | Inr st \<Rightarrow> set_act k cx (Settling_Group out n c) (s\<lparr>or_store := st\<rparr>))"

definition settle_group_step :: "int \<Rightarrow> nat \<Rightarrow> run_ctx \<Rightarrow> json \<Rightarrow> nat \<Rightarrow> nat \<Rightarrow> orch \<Rightarrow> orch" where
  "settle_group_step now k cx out n c s =
     (case updateTaskGroup (gp_id (cx_group cx))
             (\<lambda>r. r\<lparr>gp_status := G_Completed, gp_output := Some out, gp_completedAt := Some now\<rparr>) (or_store s) of
        Inl _ \<Rightarrow> set_act k cx Finished s
      | Inr st \<Rightarrow>
          set_act k cx Finished
            (note_event cx (Ev_GroupCompleted n c)
              (mark_settled (gp_id (cx_group cx)) (it_id (cx_iteration cx)) (s\<lparr>or_store := st\<rparr>))))"

section \<open>Failure\<close>

definition fail_exec_step :: "int \<Rightarrow> nat \<Rightarrow> run_ctx \<Rightarrow> exec_row \<Rightarrow> task_row \<Rightarrow> string \<Rightarrow> orch \<Rightarrow> orch" where
  "fail_exec_step now k cx e t msg s =
     (case updateExecution (ex_id e) (\<lambda>r. r\<lparr>ex_status := T_Failed, ex_errorMessage := Some msg, ex_completedAt := Some now\<rparr>) (or_store s) of
        Inl _ \<Rightarrow> set_act k cx Finished s
      | Inr st \<Rightarrow> set_act k cx (Sweep_Read msg) (note_event cx (Ev_TaskFailed (tk_id t) msg) (s\<lparr>or_store := st\<rparr>)))"

text \<open>\<open>cancelUnreachable\<close> on a snapshot: the executions it cancels, in order.\<close>

type_synonym status_map = "(string option, task_status) jsmap"

definition status_by_task :: "exec_row list \<Rightarrow> status_map" where
  "status_by_task execs = foldl (\<lambda>m e. jset (ex_taskId e) (ex_status e) m) [] execs"

definition unfinished :: "task_status option \<Rightarrow> bool" where
  "unfinished st = (st = Some T_Blocked \<or> st = Some T_Ready \<or> st = Some T_Pending)"

definition cut_off :: "task_row list \<Rightarrow> status_map \<Rightarrow> exec_row \<Rightarrow> bool" where
  "cut_off defs m e =
     list_ex (\<lambda>d. jget m (Some d) = Some T_Failed \<or> jget m (Some d) = Some T_Cancelled) (deps_of_exec defs e)"

fun sweep_pass :: "task_row list \<Rightarrow> exec_row list \<Rightarrow> status_map \<Rightarrow> string list \<times> status_map" where
  "sweep_pass defs [] m = ([], m)"
| "sweep_pass defs (e # es) m =
     (if unfinished (jget m (ex_taskId e)) \<and> cut_off defs m e
      then (let (l, m') = sweep_pass defs es (jset (ex_taskId e) T_Cancelled m) in (ex_id e # l, m'))
      else sweep_pass defs es m)"

definition open_entries :: "status_map \<Rightarrow> nat" where
  "open_entries m = length (filter (\<lambda>p. unfinished (Some (snd p))) m)"

lemma open_entries_jset:
  "unfinished (jget m k) \<Longrightarrow> open_entries (jset k T_Cancelled m) < open_entries m"
  by (induction m) (auto simp: open_entries_def unfinished_def)

lemma sweep_pass_decreases:
  "open_entries (snd (sweep_pass defs es m)) + length (fst (sweep_pass defs es m)) \<le> open_entries m"
proof (induction defs es m rule: sweep_pass.induct)
  case (2 defs e es m)
  show ?case
  proof (cases "unfinished (jget m (ex_taskId e)) \<and> cut_off defs m e")
    case True
    with 2(1) open_entries_jset [of m "ex_taskId e"] show ?thesis by (auto simp: Let_def split: prod.splits)
  next
    case False
    have "sweep_pass defs (e # es) m = sweep_pass defs es m" by (simp only: sweep_pass.simps False if_False)
    with 2(2) [OF False] show ?thesis by metis
  qed
qed simp

function sweep_loop :: "task_row list \<Rightarrow> exec_row list \<Rightarrow> status_map \<Rightarrow> string list \<times> status_map" where
  "sweep_loop defs es m =
     (let (l, m') = sweep_pass defs es m
      in if l = [] then ([], m') else (let (l', m'') = sweep_loop defs es m' in (l @ l', m'')))"
  by pat_completeness auto

termination sweep_loop
proof (relation "measure (\<lambda>(defs, es, m). open_entries m)", goal_cases)
  case (2 defs es m p l m')
  then have "sweep_pass defs es m = (l, m')" by simp
  with 2(3) sweep_pass_decreases [of defs es m] show ?case by (cases l) auto
qed simp

declare sweep_loop.simps [simp del]

definition unreachable_execs :: "task_row list \<Rightarrow> exec_row list \<Rightarrow> string list" where
  "unreachable_execs defs execs = fst (sweep_loop defs execs (status_by_task execs))"

definition sweep_next :: "nat \<Rightarrow> run_ctx \<Rightarrow> string list \<Rightarrow> string \<Rightarrow> orch \<Rightarrow> orch" where
  "sweep_next k cx todo msg s = set_act k cx (if todo \<noteq> [] then Sweeping todo msg else Fail_Iteration msg) s"

definition sweep_step :: "int \<Rightarrow> nat \<Rightarrow> run_ctx \<Rightarrow> string list \<Rightarrow> string \<Rightarrow> orch \<Rightarrow> orch" where
  "sweep_step now k cx todo msg s =
     (case todo of
        [] \<Rightarrow> sweep_next k cx [] msg s
      | eid # rest \<Rightarrow>
          (case updateExecution eid (\<lambda>r. r\<lparr>ex_status := T_Cancelled, ex_completedAt := Some now\<rparr>) (or_store s) of
             Inl _ \<Rightarrow> set_act k cx Finished s
           | Inr st \<Rightarrow> sweep_next k cx rest msg (s\<lparr>or_store := st\<rparr>)))"

definition fail_iteration_step :: "int \<Rightarrow> nat \<Rightarrow> run_ctx \<Rightarrow> string \<Rightarrow> orch \<Rightarrow> orch" where
  "fail_iteration_step now k cx msg s =
     (case updateIteration (it_id (cx_iteration cx)) (\<lambda>r. r\<lparr>it_status := G_Failed, it_completedAt := Some now\<rparr>) (or_store s) of
        Inl _ \<Rightarrow> set_act k cx Finished s
      | Inr st \<Rightarrow> set_act k cx (Fail_Group msg) (s\<lparr>or_store := st\<rparr>))"

definition fail_group_step :: "int \<Rightarrow> nat \<Rightarrow> run_ctx \<Rightarrow> string \<Rightarrow> orch \<Rightarrow> orch" where
  "fail_group_step now k cx msg s =
     (case updateTaskGroup (gp_id (cx_group cx)) (\<lambda>r. r\<lparr>gp_status := G_Failed, gp_completedAt := Some now\<rparr>) (or_store s) of
        Inl _ \<Rightarrow> set_act k cx Finished s
      | Inr st \<Rightarrow>
          set_act k cx Finished
            (note_event cx (Ev_GroupFailed msg)
              (mark_settled (gp_id (cx_group cx)) (it_id (cx_iteration cx)) (s\<lparr>or_store := st\<rparr>))))"

section \<open>Steps\<close>

definition advance :: "orch_cfg \<Rightarrow> int \<Rightarrow> (string \<Rightarrow> gateway_outcome) \<Rightarrow> (string \<Rightarrow> gateway_outcome) \<Rightarrow> nat \<Rightarrow> orch \<Rightarrow> orch" where
  "advance cfg now first second k s =
     (case jget (or_acts s) k of
        None \<Rightarrow> s
      | Some (cx, a) \<Rightarrow>
          (case a of
             Begin_Exec e \<Rightarrow> begin_exec cfg now k cx e s
           | Asking e t rq \<Rightarrow> answer_exec cfg now first second k cx e t rq s
           | Notifying \<Rightarrow> notify_step k cx s
           | Unblocking todo newly r d n \<Rightarrow> unblock_step k cx todo newly r d n s
           | Waiting ks \<Rightarrow> check_step k cx ks s
           | Settling_Iteration out n c \<Rightarrow> settle_iteration_step now k cx out n c s
           | Settling_Group out n c \<Rightarrow> settle_group_step now k cx out n c s
           | Failing e t msg \<Rightarrow> fail_exec_step now k cx e t msg s
           | Sweep_Read msg \<Rightarrow> sweep_next k cx (unreachable_execs (cx_defs cx) (run_execs cx s)) msg s
           | Sweeping todo msg \<Rightarrow> sweep_step now k cx todo msg s
           | Fail_Iteration msg \<Rightarrow> fail_iteration_step now k cx msg s
           | Fail_Group msg \<Rightarrow> fail_group_step now k cx msg s
           | Finished \<Rightarrow> s))"

definition new_orch :: "task_store \<Rightarrow> orch" where
  "new_orch st = \<lparr>or_store = st, or_claims = [], or_active = [], or_acts = [], or_next = 0, or_log = []\<rparr>"

text \<open>The runs on a store of definitions; the ids of new rows are fresh.\<close>

inductive orch_run :: "orch_cfg \<Rightarrow> task_store \<Rightarrow> orch \<Rightarrow> bool" for cfg :: orch_cfg and st0 :: task_store where
  init: "orch_run cfg st0 (new_orch st0)"
| start: "orch_run cfg st0 s \<Longrightarrow> distinct eids \<Longrightarrow> set eids \<inter> set (jkeys (st_executions (or_store s))) = {} \<Longrightarrow>
    startGroup cfg now iid eids gid triggeredBy s = Inr s' \<Longrightarrow> orch_run cfg st0 s'"
| cancel: "orch_run cfg st0 s \<Longrightarrow> cancelGroup now gid s = Inr s' \<Longrightarrow> orch_run cfg st0 s'"
| retry: "orch_run cfg st0 s \<Longrightarrow> retryTask tid s = Inr s' \<Longrightarrow> orch_run cfg st0 s'"
| activity: "orch_run cfg st0 s \<Longrightarrow> orch_run cfg st0 (advance cfg now first second k s)"

end
