(* ===== verification/Task_Editor_Facts.thy ===== *)
theory Task_Editor_Facts
  imports Task_Editor
begin

text \<open>
  Whatever sequence of creates and edits runs, the stored definitions of every group form a graph the
  validator accepts, and the draft statuses agree with the dependencies.
\<close>

section \<open>The graph of a group\<close>

definition group_rows :: "task_store \<Rightarrow> string \<Rightarrow> task_row set" where
  "group_rows s gid = {t. jget (st_tasks s) (tk_id t) = Some t \<and> tk_groupId t = gid}"

definition rows_rel :: "task_row set \<Rightarrow> (string \<times> string) set" where
  "rows_rel T = {(tk_id t, d) | t d. t \<in> T \<and> d \<in> set (tk_dependsOn t)}"

definition dag_rows :: "task_row set \<Rightarrow> bool" where
  "dag_rows T \<longleftrightarrow> (\<forall>t \<in> T. set (tk_dependsOn t) \<subseteq> tk_id ` T) \<and> acyclic (rows_rel T)"

definition group_dag :: "task_store \<Rightarrow> string \<Rightarrow> bool" where
  "group_dag s gid = (validateTaskGraph (map node_of (getTasksByGroup s gid)) = GraphOk)"

lemma node_of_simps [simp]: "tn_id (node_of t) = tk_id t" "tn_dependsOn (node_of t) = tk_dependsOn t"
  by (simp_all add: node_of_def)

lemma depends_relI: "n \<in> set ns \<Longrightarrow> d \<in> set (tn_dependsOn n) \<Longrightarrow> (tn_id n, d) \<in> depends_rel ns"
  by (auto simp: depends_rel_def)

lemma depends_node_of: "depends_rel (map node_of ts) = rows_rel (set ts)"
proof
  show "depends_rel (map node_of ts) \<subseteq> rows_rel (set ts)" by (auto simp: depends_rel_def rows_rel_def)
  show "rows_rel (set ts) \<subseteq> depends_rel (map node_of ts)"
    using depends_relI [of "node_of t" "map node_of ts" for t] by (auto simp: rows_rel_def)
qed

lemma set_group_tasks: "tasks_keyed s \<Longrightarrow> set (getTasksByGroup s gid) = group_rows s gid"
  using group_tasks_iff by (auto simp: group_rows_def)

lemma validate_nodes:
  assumes "distinct (map tn_id ns)"
  shows "validateTaskGraph ns = GraphOk \<longleftrightarrow>
    (\<forall>n \<in> set ns. set (tn_dependsOn n) \<subseteq> tn_id ` set ns) \<and> acyclic (depends_rel ns)"
  by (rule validate_exact [OF assms])

lemma validate_rows:
  assumes "distinct (map tk_id ts)"
  shows "validateTaskGraph (map node_of ts) = GraphOk \<longleftrightarrow> dag_rows (set ts)"
proof -
  have d: "distinct (map tn_id (map node_of ts))" using assms by (simp add: comp_def)
  have "tn_id ` set (map node_of ts) = tk_id ` set ts" by (simp add: image_image)
  then show ?thesis unfolding validate_nodes [OF d] dag_rows_def by (simp add: depends_node_of)
qed

lemma group_dag_iff:
  assumes "tasks_keyed s"
  shows "group_dag s gid \<longleftrightarrow> dag_rows (group_rows s gid)"
  unfolding group_dag_def validate_rows [OF group_tasks_distinct [OF assms]] set_group_tasks [OF assms] ..

lemma dag_rows_cong:
  assumes "\<And>u. u \<in> T \<Longrightarrow> tk_id (f u) = tk_id (g u) \<and> tk_dependsOn (f u) = tk_dependsOn (g u)"
  shows "dag_rows (f ` T) = dag_rows (g ` T)"
proof -
  have rel: "rows_rel (f ` T) \<subseteq> rows_rel (g ` T)"
    if "\<And>u. u \<in> T \<Longrightarrow> tk_id (f u) = tk_id (g u) \<and> tk_dependsOn (f u) = tk_dependsOn (g u)" for f g
  proof
    fix e assume "e \<in> rows_rel (f ` T)"
    then obtain u d where u: "e = (tk_id (f u), d)" "u \<in> T" "d \<in> set (tk_dependsOn (f u))" by (auto simp: rows_rel_def)
    then have "g u \<in> g ` T" "e = (tk_id (g u), d)" "d \<in> set (tk_dependsOn (g u))" using that by auto
    then show "e \<in> rows_rel (g ` T)" unfolding rows_rel_def by blast
  qed
  have "rows_rel (f ` T) = rows_rel (g ` T)" using rel [of f g] rel [of g f] assms by (metis equalityI)
  moreover have "tk_id ` f ` T = tk_id ` g ` T" using assms by (force simp: image_image)
  ultimately show ?thesis using assms by (simp add: dag_rows_def)
qed

text \<open>A new node no edge leads to closes no cycle.\<close>

lemma acyclic_new_source:
  assumes "acyclic R" "\<And>a. (a, x) \<notin> R" "x \<notin> D"
  shows "acyclic (R \<union> {x} \<times> D)"
proof -
  have "b \<noteq> x \<and> (a = x \<or> (a, b) \<in> R\<^sup>+)" if "(a, b) \<in> (R \<union> {x} \<times> D)\<^sup>+" for a b
    using that
  proof (induction rule: trancl_induct)
    case (base b) then show ?case using assms(2,3) by auto
  next
    case (step b c)
    then have "(b, c) \<in> R" "c \<noteq> x" using assms(2,3) by auto
    with step.IH show ?case by (auto intro: trancl_into_trancl)
  qed
  with assms(1) show ?thesis by (auto simp: acyclic_def)
qed

lemma dag_insert:
  assumes "dag_rows T" "tk_id r \<notin> tk_id ` T" "set (tk_dependsOn r) \<subseteq> tk_id ` T"
  shows "dag_rows (insert r T)"
proof -
  have "rows_rel (insert r T) = rows_rel T \<union> {tk_id r} \<times> set (tk_dependsOn r)" by (auto simp: rows_rel_def)
  moreover have "acyclic (rows_rel T \<union> {tk_id r} \<times> set (tk_dependsOn r))"
  proof (rule acyclic_new_source)
    show "acyclic (rows_rel T)" using assms(1) by (simp add: dag_rows_def)
    show "(a, tk_id r) \<notin> rows_rel T" for a using assms(1,2) by (fastforce simp: dag_rows_def rows_rel_def)
    show "tk_id r \<notin> set (tk_dependsOn r)" using assms(2,3) by blast
  qed
  ultimately show ?thesis using assms(1,3) by (auto simp: dag_rows_def)
qed

lemma dag_remove:
  assumes "dag_rows T" "\<And>t. t \<in> T' \<longleftrightarrow> (\<exists>t0 \<in> T. tk_id t0 \<noteq> x \<and> t = f t0)"
    and "\<And>t. tk_id (f t) = tk_id t" "\<And>t. t \<in> T \<Longrightarrow> set (tk_dependsOn (f t)) = set (tk_dependsOn t) - {x}"
  shows "dag_rows T'"
proof -
  have T': "T' = f ` {t \<in> T. tk_id t \<noteq> x}" using assms(2) by auto
  have "rows_rel T' \<subseteq> rows_rel T" unfolding T' by (auto simp: rows_rel_def assms(3,4))
  then have "acyclic (rows_rel T')" using assms(1) acyclic_subset by (auto simp: dag_rows_def)
  moreover have "set (tk_dependsOn t) \<subseteq> tk_id ` T'" if "t \<in> T'" for t
  proof
    fix d assume d: "d \<in> set (tk_dependsOn t)"
    from that obtain t0 where t0: "t0 \<in> T" "t = f t0" unfolding T' by blast
    with d have "d \<in> set (tk_dependsOn t0)" "d \<noteq> x" by (auto simp: assms(4))
    with t0(1) assms(1) obtain t1 where "t1 \<in> T" "d = tk_id t1" by (auto simp: dag_rows_def)
    with \<open>d \<noteq> x\<close> show "d \<in> tk_id ` T'" unfolding T' by (force simp: assms(3) image_image)
  qed
  ultimately show ?thesis by (simp add: dag_rows_def)
qed

section \<open>The invariant\<close>

definition draft_ok :: "task_row \<Rightarrow> bool" where
  "draft_ok t \<longleftrightarrow> (tk_status t = T_Ready \<longrightarrow> tk_dependsOn t = []) \<and> (tk_status t = T_Blocked \<longrightarrow> tk_dependsOn t \<noteq> [])"

definition editor_ok :: "task_store \<Rightarrow> bool" where
  "editor_ok s \<longleftrightarrow>
     tasks_keyed s \<and> new_id_sentinel \<notin> set (jkeys (st_tasks s)) \<and>
     (\<forall>gid. group_dag s gid) \<and> (\<forall>k t. jget (st_tasks s) k = Some t \<longrightarrow> draft_ok t)"

lemma editor_okI:
  assumes "tasks_keyed s" "new_id_sentinel \<notin> set (jkeys (st_tasks s))"
    and "\<And>gid. dag_rows (group_rows s gid)" "\<And>k t. jget (st_tasks s) k = Some t \<Longrightarrow> draft_ok t"
  shows "editor_ok s"
  using assms by (simp add: editor_ok_def group_dag_iff)

lemma editor_okD:
  assumes "editor_ok s"
  shows "tasks_keyed s" "new_id_sentinel \<notin> set (jkeys (st_tasks s))" "dag_rows (group_rows s gid)"
    "jget (st_tasks s) k = Some t \<Longrightarrow> draft_ok t"
  using assms group_dag_iff by (auto simp: editor_ok_def)

lemma draft_ok_set: "draft_ok (t\<lparr>tk_dependsOn := deps, tk_status := draft_status deps\<rparr>)"
  by (simp add: draft_ok_def draft_status_def)

text \<open>A run of updates that keep the ids acts pointwise.\<close>

lemma update_all_ok:
  assumes "tasks_keyed s" "distinct (map fst us)" "\<forall>u \<in> set us. \<forall>t. tk_id (snd u t) = tk_id t"
    and "fst ` set us \<subseteq> set (jkeys (st_tasks s))"
  shows "\<exists>s'. update_all us s = (None, s') \<and> tasks_keyed s' \<and> set (jkeys (st_tasks s')) = set (jkeys (st_tasks s)) \<and>
    (\<forall>k. jget (st_tasks s') k = (case jget us k of None \<Rightarrow> jget (st_tasks s) k | Some f \<Rightarrow> map_option f (jget (st_tasks s) k)))"
  using assms
proof (induction us arbitrary: s)
  case (Cons u us)
  obtain k f where u: "u = (k, f)" by force
  obtain t where t: "jget (st_tasks s) k = Some t" using Cons.prems(4) u by (cases "jget (st_tasks s) k") (auto simp: jget_None_iff)
  let ?s1 = "s\<lparr>st_tasks := jset k (f t) (st_tasks s)\<rparr>"
  have up: "updateTask k f s = Inr ?s1" using t by (simp add: updateTask_def)
  have "tk_id (f t) = k" using Cons.prems(3) keyed_get [OF Cons.prems(1) t] u by simp
  from keyed_jset [OF Cons.prems(1) this] have k1: "tasks_keyed ?s1" .
  have keys: "set (jkeys (st_tasks ?s1)) = set (jkeys (st_tasks s))" using jget_in [OF t] by force
  have "distinct (map fst us)" "fst ` set us \<subseteq> set (jkeys (st_tasks ?s1))" "k \<notin> fst ` set us"
    using Cons.prems(2,4) u unfolding keys by auto
  with Cons.IH [OF k1] Cons.prems(3) obtain s' where s': "update_all us ?s1 = (None, s')" "tasks_keyed s'"
    "set (jkeys (st_tasks s')) = set (jkeys (st_tasks ?s1))"
    "\<forall>k. jget (st_tasks s') k = (case jget us k of None \<Rightarrow> jget (st_tasks ?s1) k | Some f \<Rightarrow> map_option f (jget (st_tasks ?s1) k))"
    by (metis list.set_intros(2))
  have "jget us k = None" using \<open>k \<notin> fst ` set us\<close> by (simp add: map_of_eq_None_iff)
  with s' t up keys show ?case by (auto simp: u split: option.splits)
qed simp

section \<open>Every edit keeps it\<close>

lemma group_rows_same: "st_tasks s' = st_tasks s \<Longrightarrow> group_rows s' gid = group_rows s gid"
  by (simp add: group_rows_def)

lemma group_rows_update:
  assumes "jget (st_tasks s) k = Some t" "tk_id t = k" "tk_id t' = k" "tk_groupId t' = tk_groupId t"
  shows "group_rows (s\<lparr>st_tasks := jset k t' (st_tasks s)\<rparr>) h = (\<lambda>u. if tk_id u = k then t' else u) ` group_rows s h"
proof (rule set_eqI)
  fix u
  show "u \<in> group_rows (s\<lparr>st_tasks := jset k t' (st_tasks s)\<rparr>) h \<longleftrightarrow>
      u \<in> (\<lambda>u. if tk_id u = k then t' else u) ` group_rows s h"
  proof (cases "tk_id u = k")
    case True
    have "u \<in> group_rows (s\<lparr>st_tasks := jset k t' (st_tasks s)\<rparr>) h \<longleftrightarrow> u = t' \<and> tk_groupId t = h"
      using True assms(4) by (auto simp: group_rows_def)
    also have "\<dots> \<longleftrightarrow> u = t' \<and> t \<in> group_rows s h" using assms(1,2) by (simp add: group_rows_def)
    also have "\<dots> \<longleftrightarrow> u \<in> (\<lambda>u. if tk_id u = k then t' else u) ` group_rows s h"
    proof
      assume "u = t' \<and> t \<in> group_rows s h"
      then show "u \<in> (\<lambda>u. if tk_id u = k then t' else u) ` group_rows s h" using assms(2) by (intro image_eqI [of _ _ t]) auto
    next
      assume "u \<in> (\<lambda>u. if tk_id u = k then t' else u) ` group_rows s h"
      then obtain v where v: "v \<in> group_rows s h" "u = (if tk_id v = k then t' else v)" by blast
      with True have "tk_id v = k" by (auto split: if_splits)
      with v assms(1) show "u = t' \<and> t \<in> group_rows s h" by (auto simp: group_rows_def)
    qed
    finally show ?thesis .
  next
    case False
    then show ?thesis using assms(3) by (auto simp: group_rows_def image_iff)
  qed
qed

lemma group_rows_pointwise:
  assumes keyed: "tasks_keyed s"
    and get: "\<And>k. jget (st_tasks s') k = (if k = x then None else map_option f (jget (st_tasks s) k))"
    and f: "\<And>t. tk_id (f t) = tk_id t" "\<And>t. tk_groupId (f t) = tk_groupId t"
  shows "group_rows s' h = f ` {r \<in> group_rows s h. tk_id r \<noteq> x}"
proof
  show "f ` {r \<in> group_rows s h. tk_id r \<noteq> x} \<subseteq> group_rows s' h" by (auto simp: group_rows_def get f)
  show "group_rows s' h \<subseteq> f ` {r \<in> group_rows s h. tk_id r \<noteq> x}"
  proof
    fix u assume "u \<in> group_rows s' h"
    then obtain r where r: "tk_id u \<noteq> x" "jget (st_tasks s) (tk_id u) = Some r" "u = f r" "tk_groupId u = h"
      by (auto simp: group_rows_def get split: if_splits)
    moreover have "tk_id r = tk_id u" by (rule keyed_get [OF keyed r(2)])
    moreover have "tk_groupId r = h" using r(3,4) f(2) by simp
    ultimately have "r \<in> {r \<in> group_rows s h. tk_id r \<noteq> x}" by (simp add: group_rows_def)
    with r(3) show "u \<in> f ` {r \<in> group_rows s h. tk_id r \<noteq> x}" by blast
  qed
qed

lemma editor_ok_same: "st_tasks s' = st_tasks s \<Longrightarrow> editor_ok s \<Longrightarrow> editor_ok s'"
  by (simp add: editor_ok_def tasks_keyed_def group_dag_def getTasksByGroup_def)

lemma updateGroup_ok: "editor_ok s \<Longrightarrow> updateGroup gid patch s = Inr s' \<Longrightarrow> editor_ok s'"
  by (rule editor_ok_same [of s'  s])
    (auto simp: updateGroup_def updateTaskGroup_def split: sum.splits option.splits)

text \<open>A new row whose id is fresh and whose dependencies are tasks of its group.\<close>

lemma editor_ok_insert:
  assumes ok: "editor_ok s" and fresh: "tk_id r \<notin> set (jkeys (st_tasks s))" "tk_id r \<noteq> new_id_sentinel"
    and deps: "set (tk_dependsOn r) \<subseteq> tk_id ` group_rows s (tk_groupId r)" and draft: "draft_ok r"
  shows "editor_ok (createTask r s)"
proof -
  have none: "jget (st_tasks s) (tk_id r) = None" using fresh(1) by (simp add: jget_None_iff)
  have rows: "group_rows (createTask r s) gid = (if gid = tk_groupId r then insert r (group_rows s gid) else group_rows s gid)" for gid
    using none by (auto simp: group_rows_def createTask_def)
  show ?thesis
  proof (rule editor_okI)
    show "tasks_keyed (createTask r s)"
      using keyed_jset [OF editor_okD(1) [OF ok] refl] by (simp add: createTask_def)
    show "new_id_sentinel \<notin> set (jkeys (st_tasks (createTask r s)))"
      using editor_okD(2) [OF ok] fresh(2) by (simp add: createTask_def)
    have "tk_id r \<notin> tk_id ` group_rows s gid" for gid using none by (auto simp: group_rows_def)
    with dag_insert [OF editor_okD(3) [OF ok]] deps editor_okD(3) [OF ok]
    show "dag_rows (group_rows (createTask r s) gid)" for gid unfolding rows by auto
    show "draft_ok t" if "jget (st_tasks (createTask r s)) k = Some t" for k t
      using that draft editor_okD(4) [OF ok] by (auto simp: createTask_def split: if_splits)
  qed
qed

lemma addTask_ok:
  assumes ok: "editor_ok s" and fresh: "tid \<notin> set (jkeys (st_tasks s))" "tid \<noteq> new_id_sentinel"
    and add: "addTask tid gid input s = Inr s'"
  shows "editor_ok s'"
proof -
  let ?sib = "getTasksByGroup s gid"
  let ?ns = "map node_of ?sib @ [\<lparr>tn_id = new_id_sentinel, tn_dependsOn = nt_dependsOn input\<rparr>]"
  from add obtain r where s': "s' = createTask r s" and v: "validateTaskGraph ?ns = GraphOk"
    and r: "tk_id r = tid" "tk_groupId r = gid" "tk_dependsOn r = nt_dependsOn input" "tk_status r = draft_status (nt_dependsOn input)"
    by (auto simp: addTask_def Let_def split: sum.splits option.splits graph_result.splits)
  have set: "set ?sib = group_rows s gid" using set_group_tasks [OF editor_okD(1) [OF ok]] .
  have "new_id_sentinel \<notin> tk_id ` set ?sib"
  proof
    assume "new_id_sentinel \<in> tk_id ` set ?sib"
    then obtain t where "jget (st_tasks s) new_id_sentinel = Some t" unfolding set by (auto simp: group_rows_def)
    then show False using editor_okD(2) [OF ok] by (metis jget_None_iff option.distinct(1))
  qed
  then have "distinct (map tn_id ?ns)"
    using group_tasks_distinct [OF editor_okD(1) [OF ok], of gid] by (auto simp: comp_def)
  from v validate_nodes [OF this]
  have deps: "set (nt_dependsOn input) \<subseteq> insert new_id_sentinel (tk_id ` set ?sib)"
    and ac: "acyclic (depends_rel ?ns)" by (auto simp: image_image)
  have "(new_id_sentinel, d) \<in> depends_rel ?ns" if "d \<in> set (nt_dependsOn input)" for d
    using that depends_relI [of "\<lparr>tn_id = new_id_sentinel, tn_dependsOn = nt_dependsOn input\<rparr>" ?ns] by simp
  with ac have "new_id_sentinel \<notin> set (nt_dependsOn input)" by (auto simp: acyclic_def)
  with deps have "set (tk_dependsOn r) \<subseteq> tk_id ` group_rows s (tk_groupId r)" unfolding r set by blast
  moreover have "draft_ok r" using r(3,4) by (simp add: draft_ok_def draft_status_def)
  ultimately show ?thesis unfolding s' using editor_ok_insert [OF ok] fresh r(1) by simp
qed

lemma patched_id [simp]: "tk_id (patched patch t) = tk_id t" "tk_groupId (patched patch t) = tk_groupId t"
  by (simp_all add: patched_def Let_def split: option.splits)

lemma patched_deps:
  "tk_dependsOn (patched patch t) = (case pt_dependsOn patch of None \<Rightarrow> tk_dependsOn t | Some deps \<Rightarrow> deps)"
  by (simp add: patched_def Let_def split: option.splits)

lemma patched_draft: "draft_ok t \<Longrightarrow> draft_ok (patched patch t)"
  by (auto simp: patched_def Let_def draft_ok_def draft_status_def split: option.splits)

lemma editor_updateTask_ok:
  assumes ok: "editor_ok s" and up: "editor_updateTask gid tid patch s = Inr s'"
  shows "editor_ok s'"
proof -
  from up obtain t where t: "jget (st_tasks s) tid = Some t" "tk_groupId t = gid"
    and s': "s' = s\<lparr>st_tasks := jset tid (patched patch t) (st_tasks s)\<rparr>"
    and g: "case pt_dependsOn patch of None \<Rightarrow> True | Some deps \<Rightarrow> assertValidGraph gid tid deps s = None"
    by (auto simp: editor_updateTask_def requireTaskInGroup_def getTask_def updateTask_def split: sum.splits option.splits if_splits)
  have id: "tk_id t = tid" by (rule keyed_get [OF editor_okD(1) [OF ok] t(1)])
  let ?new = "\<lambda>u. if tk_id u = tid then patched patch t else u"
  have rows: "group_rows s' h = ?new ` group_rows s h" for h
    unfolding s' by (rule group_rows_update) (use t(1) id in simp_all)
  show ?thesis
  proof (rule editor_okI)
    show "tasks_keyed s'" unfolding s' by (rule keyed_jset [OF editor_okD(1) [OF ok]]) (simp add: id)
    show "new_id_sentinel \<notin> set (jkeys (st_tasks s'))"
      using editor_okD(2) [OF ok] jget_in [OF t(1)] by (force simp: s')
    show "draft_ok u" if "jget (st_tasks s') k = Some u" for k u
      using that t(1) editor_okD(4) [OF ok] patched_draft by (auto simp: s' split: if_splits)
    show "dag_rows (group_rows s' h)" for h
    proof (cases "\<exists>deps. pt_dependsOn patch = Some deps \<and> h = gid")
      case False
      then have "tk_dependsOn (?new u) = tk_dependsOn u" if "u \<in> group_rows s h" for u
        using that t id by (auto simp: group_rows_def patched_deps split: option.splits)
      then have "dag_rows (group_rows s' h) = dag_rows ((\<lambda>u. u) ` group_rows s h)"
        unfolding rows using id by (intro dag_rows_cong) auto
      then show ?thesis using editor_okD(3) [OF ok, of h] by simp
    next
      case True
      then obtain deps where deps: "pt_dependsOn patch = Some deps" and h: "h = gid" by blast
      let ?swap = "\<lambda>u. u\<lparr>tk_dependsOn := (if tk_id u = tid then deps else tk_dependsOn u)\<rparr>"
      have nodes: "map node_of (map ?swap (getTasksByGroup s gid)) =
          map (\<lambda>u. \<lparr>tn_id = tk_id u, tn_dependsOn = (if tk_id u = tid then deps else tk_dependsOn u)\<rparr>) (getTasksByGroup s gid)"
        by (simp add: node_of_def)
      have v: "validateTaskGraph (map node_of (map ?swap (getTasksByGroup s gid))) = GraphOk"
        unfolding nodes using g deps by (auto simp: assertValidGraph_def split: graph_result.splits)
      have "distinct (map tk_id (map ?swap (getTasksByGroup s gid)))"
        using group_tasks_distinct [OF editor_okD(1) [OF ok]] by (simp add: comp_def)
      from v [unfolded validate_rows [OF this]] have "dag_rows (?swap ` group_rows s gid)"
        by (simp add: set_group_tasks [OF editor_okD(1) [OF ok]])
      moreover have "dag_rows (?new ` group_rows s gid) = dag_rows (?swap ` group_rows s gid)"
        by (rule dag_rows_cong) (simp add: id patched_deps deps)
      ultimately show ?thesis unfolding rows h by simp
    qed
  qed
qed

lemma group_rows_delete: "tasks_keyed s \<Longrightarrow> group_rows (deleteTask k s) h = {t \<in> group_rows s h. tk_id t \<noteq> k}"
  by (auto simp: group_rows_def deleteTask_def)

lemma dag_strip:
  assumes "dag_rows T"
  shows "dag_rows ((\<lambda>t. t\<lparr>tk_dependsOn := strip_dep k (tk_dependsOn t)\<rparr>) ` {t \<in> T. tk_id t \<noteq> k})"
  by (rule dag_remove [OF assms, of _ k "\<lambda>t. t\<lparr>tk_dependsOn := strip_dep k (tk_dependsOn t)\<rparr>"]) (auto simp: strip_dep_def)

lemma strip_nodes_valid:
  assumes ok: "editor_ok s"
  shows "validateTaskGraph (map (\<lambda>r. \<lparr>tn_id = tk_id r, tn_dependsOn = strip_dep k (tk_dependsOn r)\<rparr>)
     (getTasksByGroup (deleteTask k s) gid)) = GraphOk"
proof -
  let ?rem = "getTasksByGroup (deleteTask k s) gid"
  let ?f = "\<lambda>t. t\<lparr>tk_dependsOn := strip_dep k (tk_dependsOn t)\<rparr>"
  have keyed: "tasks_keyed (deleteTask k s)" by (rule keyed_jdel [OF editor_okD(1) [OF ok]])
  have nodes: "map (\<lambda>r. \<lparr>tn_id = tk_id r, tn_dependsOn = strip_dep k (tk_dependsOn r)\<rparr>) ?rem = map node_of (map ?f ?rem)"
    by (simp add: node_of_def)
  have set: "set (map ?f ?rem) = ?f ` {t \<in> group_rows s gid. tk_id t \<noteq> k}"
    by (simp add: set_group_tasks [OF keyed] group_rows_delete [OF editor_okD(1) [OF ok]])
  have "distinct (map tk_id (map ?f ?rem))"
    using group_tasks_distinct [OF keyed, of gid] by (simp add: comp_def)
  from validate_rows [OF this] dag_strip [OF editor_okD(3) [OF ok, of gid], of k]
  show ?thesis unfolding nodes set by blast
qed

lemma removeTask_ok:
  assumes ok: "editor_ok s" and rm: "removeTask gid tid s = (e, s')"
  shows "editor_ok s' \<and> (\<forall>msg. e \<noteq> Some (Edit_Error 400 msg))"
proof (cases "s' = s \<and> (\<forall>msg. e \<noteq> Some (Edit_Error 400 msg))")
  case True then show ?thesis using ok by simp
next
  case False
  let ?s1 = "deleteTask tid s"
  let ?rem = "getTasksByGroup ?s1 gid"
  let ?us = "map (\<lambda>r. (tk_id r, stripped_row tid)) (filter (\<lambda>r. tid \<in> set (tk_dependsOn r)) ?rem)"
  obtain t where t: "jget (st_tasks s) tid = Some t" "tk_groupId t = gid" and up: "update_all ?us ?s1 = (e, s')"
    using rm False strip_nodes_valid [OF ok, of tid gid]
    by (auto simp: removeTask_def requireTaskInGroup_def requireGroup_def assertNotRunning_def getTask_def Let_def
        split: sum.splits option.splits if_splits)
  have keyed: "tasks_keyed ?s1" by (rule keyed_jdel [OF editor_okD(1) [OF ok]])
  have rem: "set ?rem = {r \<in> group_rows s gid. tk_id r \<noteq> tid}"
    by (simp add: set_group_tasks [OF keyed] group_rows_delete [OF editor_okD(1) [OF ok]])
  have d: "distinct (map fst ?us)"
    using distinct_map_filter [OF group_tasks_distinct [OF keyed, of gid]] by (simp add: comp_def)
  have keeps: "tk_id (stripped_row tid r) = tk_id r" "tk_groupId (stripped_row tid r) = tk_groupId r" for r
    by (simp_all add: stripped_row_def Let_def)
  have sub: "fst ` set ?us \<subseteq> set (jkeys (st_tasks ?s1))"
  proof
    fix k assume "k \<in> fst ` set ?us"
    then obtain r where "r \<in> set ?rem" "k = tk_id r" by auto
    then have "jget (st_tasks ?s1) k = Some r" using group_tasks_iff [OF keyed] by blast
    then show "k \<in> set (jkeys (st_tasks ?s1))" by (metis jget_None_iff option.distinct(1))
  qed
  have "\<forall>u \<in> set ?us. \<forall>t. tk_id (snd u t) = tk_id t" by (auto simp: keeps)
  from update_all_ok [OF keyed d this sub] up
  have e: "e = None" and keyed': "tasks_keyed s'" and keys: "set (jkeys (st_tasks s')) = set (jkeys (st_tasks ?s1))"
    and get: "\<And>k. jget (st_tasks s') k = (case jget ?us k of None \<Rightarrow> jget (st_tasks ?s1) k | Some f \<Rightarrow> map_option f (jget (st_tasks ?s1) k))"
    by auto
  have us: "jget ?us k = (if \<exists>r \<in> set ?rem. tk_id r = k \<and> tid \<in> set (tk_dependsOn r) then Some (stripped_row tid) else None)" for k
  proof (cases "\<exists>r \<in> set ?rem. tk_id r = k \<and> tid \<in> set (tk_dependsOn r)")
    case True
    then have "(k, stripped_row tid) \<in> set ?us" by auto
    with d show ?thesis using True by (simp only: jwf_in_get if_True)
  next
    case False
    then have "k \<notin> fst ` set ?us" by auto
    then show ?thesis using False by (simp only: map_of_eq_None_iff if_False simp_thms)
  qed
  let ?f = "\<lambda>r. if tk_groupId r = gid \<and> tid \<in> set (tk_dependsOn r) then stripped_row tid r else r"
  have get': "jget (st_tasks s') k = (if k = tid then None else map_option ?f (jget (st_tasks s) k))" for k
  proof (cases "k = tid \<or> jget (st_tasks s) k = None")
    case True then show ?thesis by (auto simp: get deleteTask_def split: option.splits)
  next
    case False
    then obtain r where r: "jget (st_tasks s) k = Some r" by auto
    have idr: "tk_id r = k" by (rule keyed_get [OF editor_okD(1) [OF ok] r])
    have dep: "(\<exists>r' \<in> set ?rem. tk_id r' = k \<and> tid \<in> set (tk_dependsOn r')) \<longleftrightarrow> tk_groupId r = gid \<and> tid \<in> set (tk_dependsOn r)"
    proof
      assume "\<exists>r' \<in> set ?rem. tk_id r' = k \<and> tid \<in> set (tk_dependsOn r')"
      then obtain r' where "r' \<in> group_rows s gid" "tk_id r' = k" "tid \<in> set (tk_dependsOn r')" unfolding rem by blast
      with r show "tk_groupId r = gid \<and> tid \<in> set (tk_dependsOn r)" by (simp add: group_rows_def)
    next
      assume d: "tk_groupId r = gid \<and> tid \<in> set (tk_dependsOn r)"
      with False r idr have "r \<in> set ?rem" unfolding rem by (simp add: group_rows_def)
      with idr d show "\<exists>r' \<in> set ?rem. tk_id r' = k \<and> tid \<in> set (tk_dependsOn r')" by blast
    qed
    have "jget (st_tasks ?s1) k = Some r" using False r by (simp add: deleteTask_def)
    then show ?thesis using False r dep by (simp add: get us)
  qed
  have rows: "group_rows s' h = ?f ` {r \<in> group_rows s h. tk_id r \<noteq> tid}" for h
    by (rule group_rows_pointwise [OF editor_okD(1) [OF ok] get']) (simp_all add: keeps)
  have "editor_ok s'"
  proof (rule editor_okI)
    show "tasks_keyed s'" by (rule keyed')
    show "new_id_sentinel \<notin> set (jkeys (st_tasks s'))"
      unfolding keys using editor_okD(2) [OF ok] by (simp add: deleteTask_def)
    show "draft_ok u" if "jget (st_tasks s') k = Some u" for k u
      using that editor_okD(4) [OF ok]
      by (auto simp: get' stripped_row_def Let_def draft_ok_def draft_status_def split: option.splits if_splits)
    show "dag_rows (group_rows s' h)" for h
    proof (cases "h = gid")
      case True
      have "set (tk_dependsOn (?f r)) = set (tk_dependsOn r) - {tid}" if "r \<in> group_rows s gid" for r
        using that by (auto simp: group_rows_def stripped_row_def Let_def strip_dep_def)
      moreover have "t \<in> ?f ` {r \<in> group_rows s gid. tk_id r \<noteq> tid} \<longleftrightarrow> (\<exists>t0 \<in> group_rows s gid. tk_id t0 \<noteq> tid \<and> t = ?f t0)" for t
        by blast
      moreover have "tk_id (?f r) = tk_id r" for r by (simp add: keeps)
      ultimately show ?thesis unfolding rows True
        using dag_remove [OF editor_okD(3) [OF ok, of gid], of "?f ` {r \<in> group_rows s gid. tk_id r \<noteq> tid}" tid ?f] by blast
    next
      case False
      have "tid \<notin> tk_id ` group_rows s h" using t(1,2) False by (auto simp: group_rows_def)
      then have "group_rows s' h = (\<lambda>r. r) ` group_rows s h" unfolding rows using False
        by (intro image_cong) (auto simp: group_rows_def)
      then show ?thesis using editor_okD(3) [OF ok] by simp
    qed
  qed
  with e show ?thesis by simp
qed

section \<open>Creating\<close>

lemma create_drafts_ok:
  assumes "editor_ok s" "distinct (map fst its)" "fst ` set its \<inter> set (jkeys (st_tasks s)) = {}"
    and "new_id_sentinel \<notin> fst ` set its"
  shows "editor_ok (create_drafts gid i its s) \<and>
    (\<forall>k \<in> fst ` set its. \<exists>r. jget (st_tasks (create_drafts gid i its s)) k = Some r \<and> tk_groupId r = gid) \<and>
    (\<forall>k. k \<notin> fst ` set its \<longrightarrow> jget (st_tasks (create_drafts gid i its s)) k = jget (st_tasks s) k)"
  using assms
proof (induction its arbitrary: i s)
  case (Cons p its)
  obtain tid t where p: "p = (tid, t)" by force
  let ?s1 = "createTask (draft_row gid i tid t) s"
  have s1: "st_tasks ?s1 = jset tid (draft_row gid i tid t) (st_tasks s)" by (simp add: createTask_def draft_row_def)
  have "editor_ok ?s1"
    using Cons.prems p by (intro editor_ok_insert) (auto simp: draft_row_def draft_ok_def)
  moreover have "fst ` set its \<inter> set (jkeys (st_tasks ?s1)) = {}" using Cons.prems(2,3) p unfolding s1 by auto
  ultimately have IH: "editor_ok (create_drafts gid (Suc i) its ?s1)"
    "\<forall>k \<in> fst ` set its. \<exists>r. jget (st_tasks (create_drafts gid (Suc i) its ?s1)) k = Some r \<and> tk_groupId r = gid"
    "\<And>k. k \<notin> fst ` set its \<Longrightarrow> jget (st_tasks (create_drafts gid (Suc i) its ?s1)) k = jget (st_tasks ?s1) k"
    using Cons.IH [of ?s1 "Suc i"] Cons.prems(2,4) by auto
  have "tid \<notin> fst ` set its" using Cons.prems(2) p by auto
  then have "jget (st_tasks (create_drafts gid (Suc i) its ?s1)) tid = Some (draft_row gid i tid t)"
    using IH(3) s1 by simp
  then show ?case using IH s1 by (auto simp: p draft_row_def)
qed simp

lemma resolve_deps_ids: "resolve_deps names its = Inr ns \<Longrightarrow> map tn_id ns = map fst its"
  by (induction names its arbitrary: ns rule: resolve_deps.induct) (auto simp: Let_def split: sum.splits if_splits)

lemma createTaskGroup_ok:
  assumes ok: "editor_ok s" and ids: "distinct tids" "set tids \<inter> set (jkeys (st_tasks s)) = {}" "new_id_sentinel \<notin> set tids"
    and fresh: "\<And>k t. jget (st_tasks s) k = Some t \<Longrightarrow> tk_groupId t \<noteq> gid"
    and create: "createTaskGroup gid tids params s = (e, s')"
  shows "editor_ok s'"
proof -
  define its where "its = zip tids (gc_tasks params)"
  define s1 where "s1 = createTaskGroup_row
            \<lparr>gp_id = gid, gp_name = gc_name params, gp_description = gc_description params, gp_status = G_Pending,
             gp_input = gc_input params, gp_output = None, gp_createdBy = gc_createdBy params, gp_startedAt = None,
             gp_completedAt = None\<rparr> s"
  define s2 where "s2 = create_drafts gid 0 its s1"
  have t1: "st_tasks s1 = st_tasks s" by (simp add: s1_def createTaskGroup_row_def)
  have its: "map fst its = take (length (gc_tasks params)) tids" by (simp add: its_def map_fst_zip_take min_def)
  have d: "distinct (map fst its)" using ids(1) unfolding its by simp
  have "fst ` set its \<subseteq> set tids" using set_take_subset [of "length (gc_tasks params)" tids] by (simp add: its [symmetric])
  then have "fst ` set its \<inter> set (jkeys (st_tasks s1)) = {}" "new_id_sentinel \<notin> fst ` set its" using ids t1 by auto
  from create_drafts_ok [OF editor_ok_same [OF t1 ok] d this, of gid 0]
  have ok2: "editor_ok s2" and new: "\<And>k. k \<in> fst ` set its \<Longrightarrow> \<exists>r. jget (st_tasks s2) k = Some r \<and> tk_groupId r = gid"
    and old: "\<And>k. k \<notin> fst ` set its \<Longrightarrow> jget (st_tasks s2) k = jget (st_tasks s) k"
    unfolding s2_def t1 by auto
  show ?thesis
  proof (cases "s' = s2")
    case True then show ?thesis using ok2 by simp
  next
    case False
    then obtain ns where ns: "resolve_deps (name_index its) its = Inr ns" "validateTaskGraph ns = GraphOk"
      and up: "update_all (map (\<lambda>n. (tn_id n, resolved_row (tn_dependsOn n))) ns) s2 = (e, s')"
      using create by (auto simp: createTaskGroup_def Let_def its_def [symmetric] s1_def [symmetric] s2_def [symmetric]
          split: sum.splits graph_result.splits)
    let ?us = "map (\<lambda>n. (tn_id n, resolved_row (tn_dependsOn n))) ns"
    have keys: "map fst ?us = map fst its" using resolve_deps_ids [OF ns(1)] by (simp add: comp_def)
    have keyset: "fst ` set ?us = fst ` set its" using arg_cong [OF keys, of set] unfolding set_map .
    have du: "distinct (map fst ?us)" using d unfolding keys .
    have "fst ` set ?us \<subseteq> set (jkeys (st_tasks s2))"
    proof
      fix k assume "k \<in> fst ` set ?us"
      then obtain r where "jget (st_tasks s2) k = Some r" using new keyset by blast
      then show "k \<in> set (jkeys (st_tasks s2))" by (metis jget_None_iff option.distinct(1))
    qed
    note in_store = this
    have "\<forall>u \<in> set ?us. \<forall>t. tk_id (snd u t) = tk_id t" by (auto simp: resolved_row_def)
    from update_all_ok [OF editor_okD(1) [OF ok2] du this in_store] up
    have keyed': "tasks_keyed s'" and keys': "set (jkeys (st_tasks s')) = set (jkeys (st_tasks s2))"
      and get: "\<And>k. jget (st_tasks s') k = (case jget ?us k of None \<Rightarrow> jget (st_tasks s2) k | Some f \<Rightarrow> map_option f (jget (st_tasks s2) k))"
      by auto
    have out: "jget (st_tasks s') k = jget (st_tasks s) k" if "k \<notin> fst ` set its" for k
    proof -
      have "jget ?us k = None" using that keyset by (simp only: map_of_eq_None_iff simp_thms)
      then show ?thesis using old [OF that] by (simp only: get option.case)
    qed
    have ins: "\<exists>r. jget (st_tasks s') (tn_id n) = Some (resolved_row (tn_dependsOn n) r) \<and> tk_groupId r = gid \<and> tk_id r = tn_id n"
      if "n \<in> set ns" for n
    proof -
      have "(tn_id n, resolved_row (tn_dependsOn n)) \<in> set ?us" using that by auto
      then have g: "jget ?us (tn_id n) = Some (resolved_row (tn_dependsOn n))" using jwf_in_get [OF du] by blast
      have "tn_id n \<in> fst ` set its" using that unfolding keyset [symmetric] by force
      from new [OF this] obtain r where r: "jget (st_tasks s2) (tn_id n) = Some r" "tk_groupId r = gid" by blast
      with keyed_get [OF editor_okD(1) [OF ok2] r(1)] g show ?thesis by (simp only: get option.case option.map) blast
    qed
    have mem: "k \<in> fst ` set its \<longleftrightarrow> (\<exists>n \<in> set ns. tn_id n = k)" for k unfolding keyset [symmetric] by force
    show ?thesis
    proof (rule editor_okI)
      show "tasks_keyed s'" by (rule keyed')
      show "new_id_sentinel \<notin> set (jkeys (st_tasks s'))" unfolding keys' by (rule editor_okD(2) [OF ok2])
      show "draft_ok t" if g: "jget (st_tasks s') k = Some t" for k t
      proof (cases "k \<in> fst ` set its")
        case True
        then obtain n where "n \<in> set ns" "tn_id n = k" using mem by blast
        with ins [of n] g show ?thesis by (auto simp: resolved_row_def draft_ok_set)
      next
        case False then show ?thesis using g out editor_okD(4) [OF ok] by simp
      qed
      show "dag_rows (group_rows s' h)" for h
      proof (cases "h = gid")
        case False
        have "group_rows s' h = group_rows s h"
        proof (rule set_eqI)
          fix u show "u \<in> group_rows s' h \<longleftrightarrow> u \<in> group_rows s h"
          proof (cases "tk_id u \<in> fst ` set its")
            case True
            then obtain n where n: "n \<in> set ns" "tn_id n = tk_id u" using mem by blast
            have "jget (st_tasks s) (tk_id u) = None"
              using True \<open>fst ` set its \<inter> set (jkeys (st_tasks s1)) = {}\<close> t1 unfolding jget_None_iff by auto
            moreover have "\<not> (jget (st_tasks s') (tk_id u) = Some u \<and> tk_groupId u = h)"
              using ins [OF n(1)] n(2) False by (auto simp: resolved_row_def)
            ultimately show ?thesis by (simp add: group_rows_def)
          qed (simp add: group_rows_def out)
        qed
        then show ?thesis using editor_okD(3) [OF ok] by simp
      next
        case True
        define R :: "task_node \<Rightarrow> task_row" where "R = (\<lambda>n. the (jget (st_tasks s') (tn_id n)))"
        have R: "jget (st_tasks s') (tn_id n) = Some (R n) \<and> tk_id (R n) = tn_id n \<and> tk_dependsOn (R n) = tn_dependsOn n \<and> tk_groupId (R n) = gid"
          if "n \<in> set ns" for n
          using ins [OF that] by (auto simp: R_def resolved_row_def)
        have rows: "group_rows s' h = R ` set ns"
        proof
          show "R ` set ns \<subseteq> group_rows s' h" using R True by (auto simp: group_rows_def)
          show "group_rows s' h \<subseteq> R ` set ns"
          proof
            fix u assume u: "u \<in> group_rows s' h"
            then have "tk_id u \<in> fst ` set its" using out fresh True by (auto simp: group_rows_def) metis
            then obtain n where "n \<in> set ns" "tn_id n = tk_id u" using mem by blast
            with R u show "u \<in> R ` set ns" by (force simp: group_rows_def)
          qed
        qed
        have "distinct (map tn_id ns)" using du by (simp add: comp_def)
        note v = ns(2) [unfolded validate_nodes [OF this]]
        have "rows_rel (R ` set ns) \<subseteq> depends_rel ns"
          using R depends_relI [of _ ns] by (fastforce simp: rows_rel_def)
        then have "acyclic (rows_rel (R ` set ns))" using v acyclic_subset by blast
        moreover have "tk_id ` R ` set ns = tn_id ` set ns" using R by (force simp: image_image)
        ultimately show ?thesis using v R by (auto simp: dag_rows_def rows)
      qed
    qed
  qed
qed

section \<open>Reachable stores\<close>

lemma deleteTaskGroup_ok:
  assumes ok: "editor_ok s"
  shows "editor_ok (deleteTaskGroup gid s)"
proof -
  let ?s = "deleteTaskGroup gid s"
  have wf: "jwf (st_tasks s)" using editor_okD(1) [OF ok] by (simp add: tasks_keyed_def)
  have sub: "set (st_tasks ?s) = {(k, t) \<in> set (st_tasks s). tk_groupId t \<noteq> gid}" by (auto simp: deleteTaskGroup_def)
  have wf': "jwf (st_tasks ?s)" unfolding deleteTaskGroup_def using jwf_filter [OF wf] by simp
  have get: "jget (st_tasks ?s) k = Some t \<longleftrightarrow> jget (st_tasks s) k = Some t \<and> tk_groupId t \<noteq> gid" for k t
  proof -
    have "jget (st_tasks ?s) k = Some t \<longleftrightarrow> (k, t) \<in> set (st_tasks ?s)" using jwf_in_get [OF wf'] by blast
    also have "\<dots> \<longleftrightarrow> (k, t) \<in> set (st_tasks s) \<and> tk_groupId t \<noteq> gid" unfolding sub by blast
    also have "\<dots> \<longleftrightarrow> jget (st_tasks s) k = Some t \<and> tk_groupId t \<noteq> gid" using jwf_in_get [OF wf] by blast
    finally show ?thesis .
  qed
  have rows: "group_rows ?s h = (if h = gid then {} else group_rows s h)" for h
    unfolding group_rows_def get by auto
  show ?thesis
  proof (rule editor_okI)
    show "tasks_keyed ?s" unfolding tasks_keyed_def
    proof
      show "list_all (\<lambda>(k, t). tk_id t = k) (st_tasks ?s)"
        unfolding list_all_iff sub using editor_okD(1) [OF ok] unfolding tasks_keyed_def list_all_iff by blast
    qed (rule wf')
    have "fst ` set (st_tasks ?s) \<subseteq> fst ` set (st_tasks s)" unfolding sub by auto
    with editor_okD(2) [OF ok] show "new_id_sentinel \<notin> set (jkeys (st_tasks ?s))" by auto
    show "dag_rows (group_rows ?s h)" for h
      unfolding rows using editor_okD(3) [OF ok] by (simp add: dag_rows_def rows_rel_def acyclic_def)
    show "draft_ok t" if "jget (st_tasks ?s) k = Some t" for k t
      using that editor_okD(4) [OF ok] unfolding get by blast
  qed
qed

text \<open>
  The stores that creates, edits, deletes and runs lead to. Ids are fresh uuids; a run changes groups, iterations and
  executions but no definition.
\<close>

inductive editor_reachable :: "task_store \<Rightarrow> bool" where
  start: "editor_reachable empty_task_store"
| create: "editor_reachable s \<Longrightarrow> distinct tids \<Longrightarrow> set tids \<inter> set (jkeys (st_tasks s)) = {} \<Longrightarrow>
    new_id_sentinel \<notin> set tids \<Longrightarrow> list_all (\<lambda>t. tk_groupId t \<noteq> gid) (jvals (st_tasks s)) \<Longrightarrow>
    createTaskGroup gid tids params s = (e, s') \<Longrightarrow> editor_reachable s'"
| add: "editor_reachable s \<Longrightarrow> tid \<notin> set (jkeys (st_tasks s)) \<Longrightarrow> tid \<noteq> new_id_sentinel \<Longrightarrow>
    addTask tid gid input s = Inr s' \<Longrightarrow> editor_reachable s'"
| patch: "editor_reachable s \<Longrightarrow> editor_updateTask gid tid p s = Inr s' \<Longrightarrow> editor_reachable s'"
| relabel: "editor_reachable s \<Longrightarrow> updateGroup gid gp s = Inr s' \<Longrightarrow> editor_reachable s'"
| remove: "editor_reachable s \<Longrightarrow> removeTask gid tid s = (e, s') \<Longrightarrow> editor_reachable s'"
| delete: "editor_reachable s \<Longrightarrow> editor_reachable (deleteTaskGroup gid s)"
| run: "editor_reachable s \<Longrightarrow> st_tasks s' = st_tasks s \<Longrightarrow> editor_reachable s'"

lemma editor_reachable_ok: "editor_reachable s \<Longrightarrow> editor_ok s"
proof (induction rule: editor_reachable.induct)
  case start
  have rows: "group_rows empty_task_store h = {}" for h by (simp add: group_rows_def empty_task_store_def)
  show ?case
    by (rule editor_okI) (simp_all only: rows, simp_all add: empty_task_store_def tasks_keyed_def dag_rows_def rows_rel_def acyclic_def)
next
  case (create s tids gid params e s')
  have "tk_groupId t \<noteq> gid" if "jget (st_tasks s) k = Some t" for k t
    using jget_in [OF that] create.hyps(5) by (force simp: list_all_iff)
  then show ?case using createTaskGroup_ok [OF create.IH create.hyps(2,3,4) _ create.hyps(6)] by blast
next
  case (add s tid gid input s')
  then show ?case using addTask_ok by blast
qed (auto intro: editor_updateTask_ok updateGroup_ok deleteTaskGroup_ok editor_ok_same dest: removeTask_ok)

text \<open>
  C5: whatever creates and edits have run, the stored tasks of every group form a graph the validator
  accepts (no unknown, self or cyclic dependency), a ready draft has no dependencies and a blocked one
  has some, and removing a task is never refused because of the graph it would leave.
\<close>

theorem edited_groups_stay_dags:
  assumes "editor_reachable s"
  shows "validateTaskGraph (map node_of (getTasksByGroup s gid)) = GraphOk \<and>
    (\<forall>k t. jget (st_tasks s) k = Some t \<longrightarrow>
      (tk_status t = T_Ready \<longrightarrow> tk_dependsOn t = []) \<and> (tk_status t = T_Blocked \<longrightarrow> tk_dependsOn t \<noteq> [])) \<and>
    (\<forall>tid msg. fst (removeTask gid tid s) \<noteq> Some (Edit_Error 400 msg))"
proof -
  have ok: "editor_ok s" by (rule editor_reachable_ok [OF assms])
  moreover have "fst (removeTask gid tid s) \<noteq> Some (Edit_Error 400 msg)" for tid msg
    using removeTask_ok [OF ok, of gid tid "fst (removeTask gid tid s)" "snd (removeTask gid tid s)"] by simp
  ultimately show ?thesis by (auto simp: editor_ok_def group_dag_def draft_ok_def)
qed

definition sample_task :: "string \<Rightarrow> string list \<Rightarrow> new_task" where
  "sample_task name deps =
     \<lparr>nt_name = name, nt_description = ''d'', nt_dependsOn = deps, nt_modelSlug = None, nt_teamId = None,
      nt_input = None, nt_sortOrder = None, nt_workspaceId = None\<rparr>"

definition sample_group :: "new_task list \<Rightarrow> group_params" where
  "sample_group ts = \<lparr>gc_name = ''g'', gc_description = ''d'', gc_input = ''in'', gc_tasks = ts, gc_createdBy = None\<rparr>"

definition sample_store :: task_store where
  "sample_store = snd (createTaskGroup ''g1'' [''t1'', ''t2''] (sample_group [sample_task ''a'' [], sample_task ''b'' [''a'']]) empty_task_store)"

lemma sample_store_reachable: "editor_reachable sample_store"
proof (rule editor_reachable.create [OF editor_reachable.start])
  show "createTaskGroup ''g1'' [''t1'', ''t2''] (sample_group [sample_task ''a'' [], sample_task ''b'' [''a'']]) empty_task_store
      = (fst (createTaskGroup ''g1'' [''t1'', ''t2''] (sample_group [sample_task ''a'' [], sample_task ''b'' [''a'']]) empty_task_store), sample_store)"
    by (simp add: sample_store_def)
qed (simp_all add: empty_task_store_def new_id_sentinel_def)

lemma edited_groups_stay_dags_witness:
  "map (\<lambda>t. (tk_id t, tk_dependsOn t, tk_status t)) (getTasksByGroup sample_store ''g1'')
     = [(''t1'', [], T_Ready), (''t2'', [''t1''], T_Blocked)] \<and>
   validateTaskGraph (map node_of (getTasksByGroup sample_store ''g1'')) = GraphOk"
proof
  show "map (\<lambda>t. (tk_id t, tk_dependsOn t, tk_status t)) (getTasksByGroup sample_store ''g1'')
     = [(''t1'', [], T_Ready), (''t2'', [''t1''], T_Blocked)]" by code_simp
  show "validateTaskGraph (map node_of (getTasksByGroup sample_store ''g1'')) = GraphOk"
    using edited_groups_stay_dags [OF sample_store_reachable, of "''g1''"] by simp
qed

section \<open>A rejected create\<close>

lemma update_all_keeps:
  "jget (st_tasks s) k \<noteq> None \<Longrightarrow> jget (st_tasks (snd (update_all us s))) k \<noteq> None \<and> st_groups (snd (update_all us s)) = st_groups s"
proof (induction us s rule: update_all.induct)
  case (2 tid f us s)
  show ?case
  proof (cases "updateTask tid f s")
    case (Inr s1)
    then have "jget (st_tasks s1) k \<noteq> None" "st_groups s1 = st_groups s"
      using 2(2) by (auto simp: updateTask_def split: option.splits)
    with 2(1) [OF Inr] Inr show ?thesis by simp
  qed (use 2(2) in simp)
qed simp

lemma create_drafts_keeps:
  "st_groups (create_drafts gid i its s) = st_groups s \<and>
   (jget (st_tasks s) k \<noteq> None \<or> k \<in> fst ` set its \<longrightarrow> jget (st_tasks (create_drafts gid i its s)) k \<noteq> None)"
  by (induction gid i its s rule: create_drafts.induct) (auto simp: createTask_def draft_row_def)

text \<open>
  a create that is rejected because of its dependency graph has already stored the group and its
  draft tasks, and leaves them behind.
\<close>

theorem rejected_create_leaves_rows:
  assumes "createTaskGroup gid tids params s = (Some e, s')" "gc_tasks params \<noteq> []" "length tids = length (gc_tasks params)"
  shows "jget (st_groups s') gid \<noteq> None \<and> (\<forall>tid \<in> set tids. jget (st_tasks s') tid \<noteq> None)"
proof -
  define its where "its = zip tids (gc_tasks params)"
  define s1 where "s1 = createTaskGroup_row
            \<lparr>gp_id = gid, gp_name = gc_name params, gp_description = gc_description params, gp_status = G_Pending,
             gp_input = gc_input params, gp_output = None, gp_createdBy = gc_createdBy params, gp_startedAt = None,
             gp_completedAt = None\<rparr> s"
  define s2 where "s2 = create_drafts gid 0 its s1"
  have "fst ` set its = set tids" using assms(3) map_fst_zip [of tids "gc_tasks params"] by (metis its_def set_map)
  then have s2: "jget (st_tasks s2) tid \<noteq> None" if "tid \<in> set tids" for tid
    using create_drafts_keeps [of gid 0 its s1 tid] that by (simp add: s2_def)
  have g2: "jget (st_groups s2) gid \<noteq> None"
    using create_drafts_keeps [of gid 0 its s1] by (simp add: s2_def s1_def createTaskGroup_row_def)
  have "s' = s2 \<or> (\<exists>us. s' = snd (update_all us s2))"
    using assms(1) by (auto simp: createTaskGroup_def Let_def its_def [symmetric] s1_def [symmetric] s2_def [symmetric]
        split: sum.splits graph_result.splits) (metis snd_conv)
  then show ?thesis
  proof
    assume "\<exists>us. s' = snd (update_all us s2)"
    then obtain us where s': "s' = snd (update_all us s2)" by blast
    have "jget (st_tasks s') tid \<noteq> None \<and> st_groups s' = st_groups s2" if "tid \<in> set tids" for tid
      unfolding s' by (rule update_all_keeps [OF s2 [OF that]])
    moreover have "tids \<noteq> []" using assms(2,3) by auto
    ultimately show ?thesis using g2 by (metis list.set_sel(1))
  qed (use g2 s2 in simp)
qed

lemma rejected_create_leaves_rows_witness:
  "\<exists>s'. createTaskGroup ''g1'' [''t1'', ''t2''] (sample_group [sample_task ''a'' [''b''], sample_task ''b'' [''a'']]) empty_task_store
      = (Some (Invalid_Task_Graph ''Dependency cycle detected involving task t1''), s') \<and>
     jget (st_groups s') ''g1'' \<noteq> None \<and> jget (st_tasks s') ''t2'' \<noteq> None"
proof -
  let ?c = "createTaskGroup ''g1'' [''t1'', ''t2''] (sample_group [sample_task ''a'' [''b''], sample_task ''b'' [''a'']]) empty_task_store"
  have "fst ?c = Some (Invalid_Task_Graph ''Dependency cycle detected involving task t1'')" by code_simp
  then have c: "?c = (Some (Invalid_Task_Graph ''Dependency cycle detected involving task t1''), snd ?c)" by (metis prod.collapse)
  have "gc_tasks (sample_group [sample_task ''a'' [''b''], sample_task ''b'' [''a'']]) \<noteq> []"
    "length [''t1'', ''t2''] = length (gc_tasks (sample_group [sample_task ''a'' [''b''], sample_task ''b'' [''a'']]))"
    by (simp_all add: sample_group_def)
  from rejected_create_leaves_rows [OF c this] c show ?thesis by force
qed

end
