(* ===== verification/Orchestrator_Facts.thy ===== *)
theory Orchestrator_Facts
  imports Task_Orchestrator Task_Editor_Facts
begin

text \<open>
  What holds of every interleaving of a task group's executions: a task starts only after all its
  dependencies completed in the same iteration; and what a failure does to the executions it cuts off.
\<close>

section \<open>The invariant\<close>

type_synonym orch_log = "(string \<times> orch_event) list"
type_synonym task_map = "(string, task_row) jsmap"

definition completed_in :: "orch_log \<Rightarrow> string \<Rightarrow> string \<Rightarrow> bool" where
  "completed_in L iid d = (\<exists>sm. (iid, Ev_TaskCompleted d sm) \<in> set L)"

definition deps_done :: "task_map \<Rightarrow> orch_log \<Rightarrow> string \<Rightarrow> string \<Rightarrow> bool" where
  "deps_done T L iid tid = (\<forall>t d. jget T tid = Some t \<longrightarrow> d \<in> set (tk_dependsOn t) \<longrightarrow> completed_in L iid d)"

definition log_ok :: "task_map \<Rightarrow> orch_log \<Rightarrow> bool" where
  "log_ok T L = (\<forall>pre post iid tid. L = pre @ (iid, Ev_TaskStarted tid) # post \<longrightarrow> deps_done T pre iid tid)"

definition may_run :: "task_map \<Rightarrow> orch_log \<Rightarrow> exec_row \<Rightarrow> bool" where
  "may_run T L e = (\<forall>tid. ex_taskId e = Some tid \<longrightarrow> deps_done T L (ex_iterationId e) tid)"

definition row_ok :: "task_map \<Rightarrow> orch_log \<Rightarrow> string \<Rightarrow> exec_row \<Rightarrow> bool" where
  "row_ok T L k e \<longleftrightarrow>
     ex_id e = k \<and>
     (\<forall>tid t. ex_taskId e = Some tid \<longrightarrow> jget T tid = Some t \<longrightarrow> tk_groupId t = ex_groupId e) \<and>
     (ex_status e \<noteq> T_Blocked \<and> ex_status e \<noteq> T_Cancelled \<and> ex_status e \<noteq> T_Pending \<longrightarrow> may_run T L e) \<and>
     (ex_status e = T_Completed \<longrightarrow> (\<forall>tid. ex_taskId e = Some tid \<longrightarrow> completed_in L (ex_iterationId e) tid))"

definition rows_ok :: "task_map \<Rightarrow> orch_log \<Rightarrow> task_store \<Rightarrow> bool" where
  "rows_ok T L st = (jwf (st_executions st) \<and> (\<forall>k e. jget (st_executions st) k = Some e \<longrightarrow> row_ok T L k e))"

definition same_exec :: "exec_row \<Rightarrow> exec_row \<Rightarrow> bool" where
  "same_exec a b \<longleftrightarrow> ex_id a = ex_id b \<and> ex_taskId a = ex_taskId b \<and> ex_iterationId a = ex_iterationId b \<and> ex_groupId a = ex_groupId b"

definition held :: "task_map \<Rightarrow> orch_log \<Rightarrow> task_store \<Rightarrow> run_ctx \<Rightarrow> exec_row \<Rightarrow> bool" where
  "held T L st cx e \<longleftrightarrow>
     may_run T L e \<and> ex_iterationId e = it_id (cx_iteration cx) \<and> ex_groupId e = gp_id (cx_group cx) \<and>
     (\<exists>row. jget (st_executions st) (ex_id e) = Some row \<and> same_exec row e)"

fun act_ok :: "task_map \<Rightarrow> orch_log \<Rightarrow> task_store \<Rightarrow> run_ctx \<Rightarrow> activity \<Rightarrow> bool" where
  "act_ok T L st cx (Begin_Exec e) = held T L st cx e"
| "act_ok T L st cx (Asking e t rq) = (held T L st cx e \<and> ex_taskId e = Some (tk_id t))"
| "act_ok T L st cx (Failing e t msg) = held T L st cx e"
| "act_ok T L st cx (Unblocking todo newly r d n) =
     ((\<forall>eid \<in> set todo. \<exists>e. ex_id e = eid \<and> held T L st cx e) \<and> (\<forall>e \<in> set newly. held T L st cx e))"
| "act_ok T L st cx a = True"

definition ctx_ok :: "task_store \<Rightarrow> run_ctx \<Rightarrow> bool" where
  "ctx_ok st cx = (cx_defs cx = getTasksByGroup st (gp_id (cx_group cx)))"

definition groups_keyed :: "task_store \<Rightarrow> bool" where
  "groups_keyed st = (\<forall>k g. jget (st_groups st) k = Some g \<longrightarrow> gp_id g = k)"

definition orch_inv :: "task_store \<Rightarrow> orch \<Rightarrow> bool" where
  "orch_inv st0 s \<longleftrightarrow>
     st_tasks (or_store s) = st_tasks st0 \<and> groups_keyed (or_store s) \<and> rows_ok (st_tasks st0) (or_log s) (or_store s) \<and>
     log_ok (st_tasks st0) (or_log s) \<and>
     (\<forall>k cx a. jget (or_acts s) k = Some (cx, a) \<longrightarrow> ctx_ok st0 cx \<and> act_ok (st_tasks st0) (or_log s) (or_store s) cx a)"

section \<open>Monotonicity\<close>

definition exec_le :: "task_store \<Rightarrow> task_store \<Rightarrow> bool" where
  "exec_le st st' \<longleftrightarrow>
     (\<forall>k e. jget (st_executions st) k = Some e \<longrightarrow> (\<exists>e'. jget (st_executions st') k = Some e' \<and> same_exec e' e))"

lemma same_exec_refl [simp]: "same_exec a a" and same_exec_trans: "same_exec a b \<Longrightarrow> same_exec b c \<Longrightarrow> same_exec a c"
  by (simp_all add: same_exec_def)

lemma exec_le_same: "st_executions st' = st_executions st \<Longrightarrow> exec_le st st'"
  by (auto simp: exec_le_def)

lemma completed_in_mono: "completed_in L i d \<Longrightarrow> set L \<subseteq> set L' \<Longrightarrow> completed_in L' i d"
  by (auto simp: completed_in_def)

lemma deps_done_mono: "deps_done T L i d \<Longrightarrow> set L \<subseteq> set L' \<Longrightarrow> deps_done T L' i d"
  unfolding deps_done_def by (blast intro: completed_in_mono)

lemma may_run_mono: "may_run T L e \<Longrightarrow> set L \<subseteq> set L' \<Longrightarrow> may_run T L' e"
  unfolding may_run_def by (blast intro: deps_done_mono)

lemma row_ok_mono: "row_ok T L k e \<Longrightarrow> set L \<subseteq> set L' \<Longrightarrow> row_ok T L' k e"
  unfolding row_ok_def by (blast intro: completed_in_mono may_run_mono)

lemma rows_ok_mono: "rows_ok T L st \<Longrightarrow> set L \<subseteq> set L' \<Longrightarrow> rows_ok T L' st"
  unfolding rows_ok_def by (blast intro: row_ok_mono)

lemma held_mono:
  assumes "held T L st cx e" "set L \<subseteq> set L'" "exec_le st st'"
  shows "held T L' st' cx e"
proof -
  from assms(1) obtain row where row: "jget (st_executions st) (ex_id e) = Some row" "same_exec row e"
    and h: "may_run T L e" "ex_iterationId e = it_id (cx_iteration cx)" "ex_groupId e = gp_id (cx_group cx)"
    by (auto simp: held_def)
  from assms(3) row(1) obtain row' where "jget (st_executions st') (ex_id e) = Some row'" "same_exec row' row"
    by (auto simp: exec_le_def)
  with row(2) h may_run_mono [OF h(1) assms(2)] show ?thesis by (auto simp: held_def intro: same_exec_trans)
qed

lemma act_ok_mono: "act_ok T L st cx a \<Longrightarrow> set L \<subseteq> set L' \<Longrightarrow> exec_le st st' \<Longrightarrow> act_ok T L' st' cx a"
  by (cases a) (auto intro: held_mono, blast intro: held_mono)

lemma log_ok_snoc:
  "log_ok T (L @ [(i, ev)]) \<longleftrightarrow> log_ok T L \<and> (\<forall>tid. ev = Ev_TaskStarted tid \<longrightarrow> deps_done T L i tid)"
proof
  assume a: "log_ok T (L @ [(i, ev)])"
  have "deps_done T pre iid tid" if "L = pre @ (iid, Ev_TaskStarted tid) # post" for pre post iid tid
    using a that unfolding log_ok_def by (metis append.assoc append_Cons)
  moreover have "deps_done T L i tid" if "ev = Ev_TaskStarted tid" for tid
    using a that unfolding log_ok_def by blast
  ultimately show "log_ok T L \<and> (\<forall>tid. ev = Ev_TaskStarted tid \<longrightarrow> deps_done T L i tid)" by (auto simp: log_ok_def)
next
  assume a: "log_ok T L \<and> (\<forall>tid. ev = Ev_TaskStarted tid \<longrightarrow> deps_done T L i tid)"
  show "log_ok T (L @ [(i, ev)])"
    unfolding log_ok_def
  proof (intro allI impI)
    fix pre post iid tid
    assume e: "L @ [(i, ev)] = pre @ (iid, Ev_TaskStarted tid) # post"
    show "deps_done T pre iid tid"
    proof (cases post rule: rev_cases)
      case Nil with e a show ?thesis by auto
    next
      case (snoc ps p)
      with e have "L = pre @ (iid, Ev_TaskStarted tid) # ps" by (metis append.assoc append_Cons append1_eq_conv)
      with a show ?thesis by (auto simp: log_ok_def)
    qed
  qed
qed

text \<open>How the invariant moves: the store and the log grow, and the activities that are new are in order.\<close>

lemma orch_invI:
  assumes inv: "orch_inv st0 s"
    and "st_tasks (or_store s') = st_tasks (or_store s)" and "set (or_log s) \<subseteq> set (or_log s')"
    and gk: "groups_keyed (or_store s')"
    and le: "exec_le (or_store s) (or_store s')"
    and "rows_ok (st_tasks st0) (or_log s') (or_store s')"
    and "log_ok (st_tasks st0) (or_log s')"
    and acts: "\<And>k cx a. jget (or_acts s') k = Some (cx, a) \<Longrightarrow>
      jget (or_acts s) k = Some (cx, a) \<or> ctx_ok st0 cx \<and> act_ok (st_tasks st0) (or_log s') (or_store s') cx a"
  shows "orch_inv st0 s'"
proof -
  have "ctx_ok st0 cx \<and> act_ok (st_tasks st0) (or_log s') (or_store s') cx a"
    if "jget (or_acts s') k = Some (cx, a)" for k cx a
    using acts [OF that] inv act_ok_mono [OF _ assms(3) le] by (auto simp: orch_inv_def)
  then show ?thesis using assms by (auto simp: orch_inv_def)
qed

lemma orch_invD:
  assumes "orch_inv st0 s"
  shows "st_tasks (or_store s) = st_tasks st0" "rows_ok (st_tasks st0) (or_log s) (or_store s)"
    "log_ok (st_tasks st0) (or_log s)"
    "groups_keyed (or_store s)"
    "jget (or_acts s) k = Some (cx, a) \<Longrightarrow> ctx_ok st0 cx \<and> act_ok (st_tasks st0) (or_log s) (or_store s) cx a"
  using assms by (auto simp: orch_inv_def)

lemma set_act_inv:
  assumes "orch_inv st0 s" "ctx_ok st0 cx" "act_ok (st_tasks st0) (or_log s) (or_store s) cx a"
  shows "orch_inv st0 (set_act k cx a s)"
  using assms by (intro orch_invI [OF assms(1)]) (auto simp: set_act_def orch_inv_def exec_le_same split: if_splits)

lemma note_event_inv:
  assumes "orch_inv st0 s" "\<And>tid. ev = Ev_TaskStarted tid \<Longrightarrow> deps_done (st_tasks st0) (or_log s) (it_id (cx_iteration cx)) tid"
  shows "orch_inv st0 (note_event cx ev s)"
proof (rule orch_invI [OF assms(1)])
  show "log_ok (st_tasks st0) (or_log (note_event cx ev s))"
    using assms orch_invD(3) [OF assms(1)] by (auto simp: note_event_def log_ok_snoc)
  show "rows_ok (st_tasks st0) (or_log (note_event cx ev s)) (or_store (note_event cx ev s))"
    using rows_ok_mono [OF orch_invD(2) [OF assms(1)], of "or_log (note_event cx ev s)"] by (auto simp: note_event_def)
qed (use orch_invD(4) [OF assms(1)] in \<open>auto simp: note_event_def exec_le_same\<close>)

text \<open>Parts no invariant speaks of.\<close>

lemma orch_inv_frame:
  assumes "orch_inv st0 s" "or_acts s' = or_acts s" "or_log s' = or_log s"
    and "st_tasks (or_store s') = st_tasks (or_store s)" "st_executions (or_store s') = st_executions (or_store s)"
    and "groups_keyed (or_store s')"
  shows "orch_inv st0 s'"
  using assms orch_invD [OF assms(1)] by (intro orch_invI [OF assms(1)]) (auto simp: exec_le_same rows_ok_def)

lemma mark_settled_inv: "orch_inv st0 s \<Longrightarrow> orch_inv st0 (mark_settled gid iid s)"
  by (frule orch_invD(4), erule orch_inv_frame) (simp_all add: mark_settled_def)

lemma updateIteration_same:
  "updateIteration i f st = Inr st' \<Longrightarrow>
    st_tasks st' = st_tasks st \<and> st_executions st' = st_executions st \<and> st_groups st' = st_groups st"
  by (auto simp: updateIteration_def split: option.splits)

lemma updateTaskGroup_same:
  "updateTaskGroup g f st = Inr st' \<Longrightarrow> st_tasks st' = st_tasks st \<and> st_executions st' = st_executions st"
  by (auto simp: updateTaskGroup_def split: option.splits)

lemma groups_keyed_same: "st_groups st' = st_groups st \<Longrightarrow> groups_keyed st \<Longrightarrow> groups_keyed st'"
  by (simp add: groups_keyed_def)

lemma updateTaskGroup_keyed:
  "updateTaskGroup g f st = Inr st' \<Longrightarrow> (\<And>r. gp_id (f r) = gp_id r) \<Longrightarrow> groups_keyed st \<Longrightarrow> groups_keyed st'"
  by (fastforce simp: updateTaskGroup_def groups_keyed_def split: option.splits if_splits)

text \<open>An update of an execution that keeps its identity and writes a status the log allows.\<close>

lemma updateExecution_inv:
  assumes inv: "orch_inv st0 s" and up: "updateExecution eid f (or_store s) = Inr st"
    and same: "\<And>r. same_exec (f r) r"
    and row: "\<And>r. jget (st_executions (or_store s)) eid = Some r \<Longrightarrow> row_ok (st_tasks st0) (or_log s') eid (f r)"
    and s': "or_store s' = st" "or_acts s' = or_acts s" "set (or_log s) \<subseteq> set (or_log s')" "log_ok (st_tasks st0) (or_log s')"
  shows "orch_inv st0 s' \<and> exec_le (or_store s) st"
proof -
  from up obtain r where r: "jget (st_executions (or_store s)) eid = Some r"
    and st: "st = (or_store s)\<lparr>st_executions := jset eid (f r) (st_executions (or_store s))\<rparr>"
    by (auto simp: updateExecution_def split: option.splits)
  have le: "exec_le (or_store s) st" using r same by (auto simp: exec_le_def st)
  have "rows_ok (st_tasks st0) (or_log s') st"
    using rows_ok_mono [OF orch_invD(2) [OF inv] s'(3)] row [OF r] by (auto simp: rows_ok_def st)
  with le show ?thesis
    using s' inv by (intro conjI orch_invI [OF inv]) (auto simp: st groups_keyed_def orch_invD(4) [OF inv, unfolded groups_keyed_def])
qed

lemma row_status_ok:
  "row_ok T L k r \<Longrightarrow> same_exec (f r) r \<Longrightarrow> ex_status (f r) = T_Blocked \<or> ex_status (f r) = T_Cancelled \<or> ex_status (f r) = T_Pending \<Longrightarrow>
    row_ok T L k (f r)"
  by (auto simp: row_ok_def same_exec_def)

lemma row_running_ok:
  "row_ok T L k r \<Longrightarrow> same_exec (f r) r \<Longrightarrow> may_run T L (f r) \<Longrightarrow> ex_status (f r) \<noteq> T_Completed \<Longrightarrow> row_ok T L k (f r)"
  by (auto simp: row_ok_def same_exec_def)

lemma may_run_same: "same_exec a b \<Longrightarrow> may_run T L a = may_run T L b"
  by (simp add: may_run_def same_exec_def)

section \<open>Steps keep it\<close>

lemma find_def_iff:
  assumes "tasks_keyed st0" "ctx_ok st0 cx"
  shows "find_def (cx_defs cx) tid = Some t \<longleftrightarrow>
    tid = Some (tk_id t) \<and> jget (st_tasks st0) (tk_id t) = Some t \<and> tk_groupId t = gp_id (cx_group cx)"
proof
  assume "find_def (cx_defs cx) tid = Some t"
  then have "t \<in> set (cx_defs cx) \<and> Some (tk_id t) = tid" unfolding find_def_def by (rule find_SomeD)
  then show "tid = Some (tk_id t) \<and> jget (st_tasks st0) (tk_id t) = Some t \<and> tk_groupId t = gp_id (cx_group cx)"
    using assms(2) group_tasks_iff [OF assms(1)] by (auto simp: ctx_ok_def)
next
  assume a: "tid = Some (tk_id t) \<and> jget (st_tasks st0) (tk_id t) = Some t \<and> tk_groupId t = gp_id (cx_group cx)"
  then have t: "t \<in> set (cx_defs cx)" using assms(2) group_tasks_iff [OF assms(1)] by (auto simp: ctx_ok_def)
  then have "find_def (cx_defs cx) tid \<noteq> None" using a by (auto simp: find_def_def find_None_iff)
  then obtain u where u: "find_def (cx_defs cx) tid = Some u" by blast
  then have "u \<in> set (cx_defs cx) \<and> Some (tk_id u) = tid" unfolding find_def_def by (rule find_SomeD)
  with a t assms group_tasks_distinct [OF assms(1), of "gp_id (cx_group cx)"] have "u = t"
    by (auto simp: ctx_ok_def distinct_map inj_on_def)
  with u show "find_def (cx_defs cx) tid = Some t" by simp
qed

lemma iteration_rows:
  assumes "rows_ok T L st" "e \<in> set (getExecutionsByIteration st gid iid)"
  shows "jget (st_executions st) (ex_id e) = Some e \<and> row_ok T L (ex_id e) e \<and> ex_iterationId e = iid \<and> ex_groupId e = gid"
proof -
  from assms(2) obtain k where k: "(k, e) \<in> set (st_executions st)" and "ex_iterationId e = iid" "ex_groupId e = gid"
    by (auto simp: getExecutionsByIteration_def)
  moreover from assms(1) have wf: "jwf (st_executions st)" unfolding rows_ok_def by blast
  from k have "jget (st_executions st) k = Some e" unfolding jwf_in_get [OF wf] .
  moreover from this assms(1) have "row_ok T L k e" unfolding rows_ok_def by blast
  moreover from this have "ex_id e = k" by (simp add: row_ok_def)
  ultimately show ?thesis by simp
qed

lemma held_status:
  assumes "held T L st cx e" "jget (st_executions st) (ex_id e) = Some r"
  shows "same_exec r e"
  using assms by (auto simp: held_def)

lemma begin_exec_inv:
  assumes keyed: "tasks_keyed st0" and inv: "orch_inv st0 s" and cx: "ctx_ok st0 cx" and h: "held (st_tasks st0) (or_log s) (or_store s) cx e"
  shows "orch_inv st0 (begin_exec cfg now k cx e s)"
proof (cases "find_def (cx_defs cx) (ex_taskId e)")
  case None
  then show ?thesis by (simp add: begin_exec_def set_act_inv [OF inv cx])
next
  case (Some t)
  then have t: "ex_taskId e = Some (tk_id t)" using find_def_iff [OF keyed cx] by blast
  let ?f = "\<lambda>r. r\<lparr>ex_status := T_Running, ex_startedAt := Some now, ex_modelSlug := Some (resolve_model cfg t)\<rparr>"
  show ?thesis
  proof (cases "updateExecution (ex_id e) ?f (or_store s)")
    case (Inl x)
    then show ?thesis using Some by (simp add: begin_exec_def set_act_inv [OF inv cx])
  next
    case (Inr st)
    have "orch_inv st0 (s\<lparr>or_store := st\<rparr>) \<and> exec_le (or_store s) st"
    proof (rule updateExecution_inv [OF inv Inr])
      fix r assume r: "jget (st_executions (or_store s)) (ex_id e) = Some r"
      then have ok: "row_ok (st_tasks st0) (or_log s) (ex_id e) r" using orch_invD(2) [OF inv] by (simp add: rows_ok_def)
      have "same_exec r e" by (rule held_status [OF h r])
      then have "may_run (st_tasks st0) (or_log s) (?f r)" using h by (auto simp: held_def may_run_def same_exec_def)
      with ok show "row_ok (st_tasks st0) (or_log (s\<lparr>or_store := st\<rparr>)) (ex_id e) (?f r)"
        by (simp add: row_running_ok [of _ _ _ r ?f] same_exec_def)
    qed (use orch_invD(3) [OF inv] in \<open>simp_all add: same_exec_def\<close>)
    then have i1: "orch_inv st0 (s\<lparr>or_store := st\<rparr>)" and le: "exec_le (or_store s) st" by simp_all
    have "deps_done (st_tasks st0) (or_log s) (it_id (cx_iteration cx)) (tk_id t)"
      using h t by (auto simp: held_def may_run_def)
    then have i2: "orch_inv st0 (note_event cx (Ev_TaskStarted (tk_id t)) (s\<lparr>or_store := st\<rparr>))"
      by (intro note_event_inv [OF i1]) simp
    have "held (st_tasks st0) (or_log (note_event cx (Ev_TaskStarted (tk_id t)) (s\<lparr>or_store := st\<rparr>))) st cx e"
      by (rule held_mono [OF h _ le]) (auto simp: note_event_def)
    then show ?thesis using Some Inr t by (simp add: begin_exec_def) (intro set_act_inv [OF i2 cx], simp add: note_event_def)
  qed
qed

lemma answer_exec_inv:
  assumes inv: "orch_inv st0 s" and cx: "ctx_ok st0 cx" and h: "held (st_tasks st0) (or_log s) (or_store s) cx e"
    and t: "ex_taskId e = Some (tk_id t)"
  shows "orch_inv st0 (answer_exec cfg now first second k cx e t rq s)"
proof (cases "fst (completeDirectLlm (oc_retry cfg) (rq_model rq) first second)")
  case (Inl msg)
  then show ?thesis by (simp add: answer_exec_def set_act_inv [OF inv cx] h)
next
  case (Inr p)
  obtain content nt where p: "p = (content, nt)" by force
  define r0 where "r0 = annotateRetry (parseDirectLlmResponse content) nt"
  show ?thesis
  proof (cases "updateExecution (ex_id e) (completed_row now r0) (or_store s)")
    case (Inl x)
    then show ?thesis using Inr p by (simp add: answer_exec_def r0_def set_act_inv [OF inv cx])
  next
    case up: (Inr st)
    let ?s = "note_event cx (Ev_TaskCompleted (tk_id t) (res_summary r0)) (s\<lparr>or_store := st\<rparr>)"
    have "orch_inv st0 ?s \<and> exec_le (or_store s) st"
    proof (rule updateExecution_inv [OF inv up])
      fix r assume r: "jget (st_executions (or_store s)) (ex_id e) = Some r"
      then have ok: "row_ok (st_tasks st0) (or_log s) (ex_id e) r" using orch_invD(2) [OF inv] by (simp add: rows_ok_def)
      have same: "same_exec r e" by (rule held_status [OF h r])
      have "may_run (st_tasks st0) (or_log s) r" using h same by (auto simp: held_def may_run_def same_exec_def)
      then have "may_run (st_tasks st0) (or_log ?s) r" by (rule may_run_mono) (auto simp: note_event_def)
      moreover have "completed_in (or_log ?s) (ex_iterationId r) (tk_id t)"
        using h same by (auto simp: completed_in_def note_event_def held_def same_exec_def)
      ultimately show "row_ok (st_tasks st0) (or_log ?s) (ex_id e) (completed_row now r0 r)"
        using ok same t by (auto simp: row_ok_def completed_row_def may_run_def same_exec_def)
    qed (use orch_invD(3) [OF inv] in \<open>auto simp: same_exec_def completed_row_def note_event_def log_ok_snoc\<close>)
    then have "orch_inv st0 ?s" by simp
    then show ?thesis using Inr p up by (simp add: answer_exec_def r0_def [symmetric] set_act_inv [OF _ cx])
  qed
qed

lemma claim_batch_sub: "set (fst (claim_batch iid n es c)) \<subseteq> set es"
proof (induction iid n es c rule: claim_batch.induct)
  case (3 iid n e es c)
  obtain won c1 where "claim iid (ex_id e) c = (won, c1)" by force
  with 3 show ?case by (cases won) (auto split: prod.splits, (metis fst_conv subsetD)+)
qed simp_all

lemma spawn_inv:
  assumes "orch_inv st0 s" "ctx_ok st0 cx" "\<forall>e \<in> set es. held (st_tasks st0) (or_log s) (or_store s) cx e"
  shows "orch_inv st0 (snd (spawn cx es s)) \<and> or_log (snd (spawn cx es s)) = or_log s \<and> or_store (snd (spawn cx es s)) = or_store s"
  using assms
proof (induction cx es s rule: spawn.induct)
  case (2 cx e es s)
  let ?s1 = "s\<lparr>or_acts := jset (or_next s) (cx, Begin_Exec e) (or_acts s), or_next := or_next s + 1\<rparr>"
  have "orch_inv st0 ?s1"
    using 2(2-4) orch_invD [OF 2(2)] by (intro orch_invI [OF 2(2)]) (auto simp: exec_le_same split: if_splits)
  with 2(1) [OF refl] 2(3,4) show ?case by (auto simp: Let_def split: prod.splits)
qed simp

lemma launchBatch_inv:
  assumes "orch_inv st0 s" "ctx_ok st0 cx" "\<forall>e \<in> set es. held (st_tasks st0) (or_log s) (or_store s) cx e"
  shows "orch_inv st0 (snd (launchBatch cx es slots s))"
proof -
  obtain l c where lc: "claim_batch (it_id (cx_iteration cx)) slots es (or_claims s) = (l, c)" by force
  have "set l \<subseteq> set es" using claim_batch_sub [of "it_id (cx_iteration cx)" slots es "or_claims s"] lc by simp
  moreover have "orch_inv st0 (s\<lparr>or_claims := c\<rparr>)" by (rule orch_inv_frame [OF assms(1)]) (simp_all add: orch_invD(4) [OF assms(1)])
  ultimately show ?thesis using spawn_inv [of st0 "s\<lparr>or_claims := c\<rparr>" cx l] assms(2,3) lc by (auto simp: launchBatch_def)
qed

lemma unblock_next_inv:
  assumes "orch_inv st0 s" "ctx_ok st0 cx"
    and "\<forall>eid \<in> set todo. \<exists>e. ex_id e = eid \<and> held (st_tasks st0) (or_log s) (or_store s) cx e"
    and "\<forall>e \<in> set newly. held (st_tasks st0) (or_log s) (or_store s) cx e"
  shows "orch_inv st0 (unblock_next k cx todo newly r d n s)"
proof (cases "todo = []")
  case False
  then show ?thesis using assms by (simp add: unblock_next_def set_act_inv)
next
  case True
  let ?s1 = "note_event cx (Ev_Progress d n r) s"
  have i1: "orch_inv st0 ?s1" by (rule note_event_inv [OF assms(1)]) simp
  have "\<forall>e \<in> set newly. held (st_tasks st0) (or_log ?s1) (or_store ?s1) cx e"
    using assms(4) held_mono [of "st_tasks st0" "or_log s" "or_store s" cx _ "or_log ?s1" "or_store ?s1"]
    by (auto simp: note_event_def exec_le_same)
  then have i2: "orch_inv st0 (snd (launchBatch cx newly slots ?s1))" for slots by (rule launchBatch_inv [OF i1 assms(2)])
  obtain ks s2 where l: "launchBatch cx newly (max_concurrent_tasks - r) ?s1 = (ks, s2)" by force
  with i2 [of "max_concurrent_tasks - r"] have "orch_inv st0 s2" by simp
  then have "orch_inv st0 (set_act k cx (Waiting ks) s2)" by (rule set_act_inv [OF _ assms(2)]) simp
  with True l show ?thesis by (simp add: unblock_next_def Let_def)
qed

lemma unblocked_held:
  assumes keyed: "tasks_keyed st0" and inv: "orch_inv st0 s" and cx: "ctx_ok st0 cx" and e: "e \<in> set (unblocked (cx_defs cx) (run_execs cx s))"
  shows "held (st_tasks st0) (or_log s) (or_store s) cx e"
proof -
  have rows: "rows_ok (st_tasks st0) (or_log s) (or_store s)" by (rule orch_invD(2) [OF inv])
  from e have mem: "e \<in> set (run_execs cx s)"
    and deps: "\<And>d. d \<in> set (deps_of_exec (cx_defs cx) e) \<Longrightarrow>
      \<exists>e' \<in> set (run_execs cx s). ex_status e' = T_Completed \<and> ex_taskId e' = Some d"
    by (auto simp: unblocked_def Let_def list_all_iff, force)
  note me = iteration_rows [OF rows mem [unfolded run_execs_def]]
  have "deps_done (st_tasks st0) (or_log s) (ex_iterationId e) tid" if tid: "ex_taskId e = Some tid" for tid
    unfolding deps_done_def
  proof (intro allI impI)
    fix t d assume t: "jget (st_tasks st0) tid = Some t" and d: "d \<in> set (tk_dependsOn t)"
    have id: "tk_id t = tid" by (rule keyed_get [OF keyed t])
    have "tk_groupId t = gp_id (cx_group cx)" using me tid t by (auto simp: row_ok_def)
    then have "find_def (cx_defs cx) (ex_taskId e) = Some t" using find_def_iff [OF keyed cx] tid t id by simp
    then have "d \<in> set (deps_of_exec (cx_defs cx) e)" using d by (simp add: deps_of_exec_def)
    from deps [OF this] obtain e' where e': "e' \<in> set (run_execs cx s)" "ex_status e' = T_Completed" "ex_taskId e' = Some d" by blast
    from iteration_rows [OF rows e'(1) [unfolded run_execs_def]] e'(2,3) me
    show "completed_in (or_log s) (ex_iterationId e) d" by (auto simp: row_ok_def)
  qed
  with me show ?thesis by (auto simp: held_def may_run_def)
qed

lemma notify_inv:
  assumes "tasks_keyed st0" "orch_inv st0 s" "ctx_ok st0 cx"
  shows "orch_inv st0 (notify_step k cx s)"
  unfolding notify_step_def Let_def
  using unblocked_held [OF assms] by (intro unblock_next_inv [OF assms(2,3)]) auto

lemma unblock_step_inv:
  assumes inv: "orch_inv st0 s" and cx: "ctx_ok st0 cx"
    and todo: "\<forall>eid \<in> set todo. \<exists>e. ex_id e = eid \<and> held (st_tasks st0) (or_log s) (or_store s) cx e"
    and newly: "\<forall>e \<in> set newly. held (st_tasks st0) (or_log s) (or_store s) cx e"
  shows "orch_inv st0 (unblock_step k cx todo newly rc d n s)"
proof (cases todo)
  case Nil
  then show ?thesis using unblock_next_inv [OF inv cx] newly by (simp add: unblock_step_def)
next
  case (Cons eid rest)
  let ?f = "\<lambda>r. r\<lparr>ex_status := T_Ready\<rparr>"
  from todo Cons obtain e where e: "ex_id e = eid" "held (st_tasks st0) (or_log s) (or_store s) cx e" by auto
  show ?thesis
  proof (cases "updateExecution eid ?f (or_store s)")
    case (Inl x)
    then show ?thesis using Cons by (simp add: unblock_step_def set_act_inv [OF inv cx])
  next
    case (Inr st)
    have st: "orch_inv st0 (s\<lparr>or_store := st\<rparr>) \<and> exec_le (or_store s) st"
    proof (rule updateExecution_inv [OF inv Inr])
      fix r assume r: "jget (st_executions (or_store s)) eid = Some r"
      then have ok: "row_ok (st_tasks st0) (or_log s) eid r" using orch_invD(2) [OF inv] by (simp add: rows_ok_def)
      have "same_exec r e" using held_status [OF e(2)] e(1) r by simp
      then have "may_run (st_tasks st0) (or_log s) (?f r)" using e(2) by (auto simp: held_def may_run_def same_exec_def)
      with ok show "row_ok (st_tasks st0) (or_log (s\<lparr>or_store := st\<rparr>)) eid (?f r)"
        by (simp add: row_running_ok [of _ _ _ r ?f] same_exec_def)
    qed (use orch_invD(3) [OF inv] in \<open>simp_all add: same_exec_def\<close>)
    obtain row where row: "jget (st_executions st) eid = Some row"
      using Inr by (auto simp: updateExecution_def split: option.splits)
    let ?s1 = "note_event cx (Ev_TaskReady (case ex_taskId row of None \<Rightarrow> [] | Some t \<Rightarrow> t)) (s\<lparr>or_store := st\<rparr>)"
    have i1: "orch_inv st0 ?s1" using st by (intro note_event_inv) simp_all
    have mono: "held (st_tasks st0) (or_log ?s1) (or_store ?s1) cx x" if "held (st_tasks st0) (or_log s) (or_store s) cx x" for x
      by (rule held_mono [OF that]) (use st in \<open>auto simp: note_event_def\<close>)
    have "held (st_tasks st0) (or_log ?s1) (or_store ?s1) cx e" by (rule mono [OF e(2)])
    moreover have "or_store ?s1 = st" by (simp add: note_event_def)
    ultimately have "same_exec row e" using held_status [of _ _ st cx e row] e(1) row by metis
    with \<open>held (st_tasks st0) (or_log ?s1) (or_store ?s1) cx e\<close> row e(1)
    have "held (st_tasks st0) (or_log ?s1) (or_store ?s1) cx row"
      by (auto simp: held_def may_run_def same_exec_def note_event_def)
    then have hn: "\<forall>x \<in> set (newly @ [row]). held (st_tasks st0) (or_log ?s1) (or_store ?s1) cx x"
      using newly mono by (metis Un_iff empty_iff empty_set set_ConsD set_append)
    have "\<forall>i \<in> set rest. \<exists>x. ex_id x = i \<and> held (st_tasks st0) (or_log ?s1) (or_store ?s1) cx x"
      using todo mono unfolding Cons by (meson list.set_intros(2))
    from unblock_next_inv [OF i1 cx this hn] have "orch_inv st0 (unblock_next k cx rest (newly @ [row]) rc d n ?s1)" .
    then show ?thesis using Cons Inr row by (simp add: unblock_step_def Let_def)
  qed
qed

lemma settle_row_inv:
  assumes inv: "orch_inv st0 s" and cx: "ctx_ok st0 cx" and up: "updateIteration i f (or_store s) = Inr st"
    and a: "act_ok (st_tasks st0) (or_log s) st cx a"
  shows "orch_inv st0 (set_act k cx a (s\<lparr>or_store := st\<rparr>))"
proof -
  have "orch_inv st0 (s\<lparr>or_store := st\<rparr>)"
    using updateIteration_same [OF up] groups_keyed_same [OF _ orch_invD(4) [OF inv]] by (intro orch_inv_frame [OF inv]) auto
  then show ?thesis by (rule set_act_inv [OF _ cx]) (use a in simp)
qed

lemma settle_group_inv:
  assumes inv: "orch_inv st0 s" and cx: "ctx_ok st0 cx" and up: "updateTaskGroup g f (or_store s) = Inr st"
    and id: "\<And>r. gp_id (f r) = gp_id r" and ev: "\<And>tid. ev \<noteq> Ev_TaskStarted tid"
  shows "orch_inv st0 (set_act k cx Finished (note_event cx ev (mark_settled gid iid (s\<lparr>or_store := st\<rparr>))))"
proof -
  have "orch_inv st0 (s\<lparr>or_store := st\<rparr>)"
    using updateTaskGroup_same [OF up] updateTaskGroup_keyed [OF up id orch_invD(4) [OF inv]] by (intro orch_inv_frame [OF inv]) auto
  then have "orch_inv st0 (note_event cx ev (mark_settled gid iid (s\<lparr>or_store := st\<rparr>)))"
    by (intro note_event_inv mark_settled_inv) (simp_all add: ev)
  then show ?thesis by (rule set_act_inv [OF _ cx]) simp
qed

lemma check_inv: "orch_inv st0 s \<Longrightarrow> ctx_ok st0 cx \<Longrightarrow> orch_inv st0 (check_step k cx children s)"
  by (simp add: check_step_def Let_def set_act_inv)

lemma settle_steps_inv:
  assumes "orch_inv st0 s" "ctx_ok st0 cx"
  shows "orch_inv st0 (settle_iteration_step now k cx out n c s)" "orch_inv st0 (settle_group_step now k cx out n c s)"
    "orch_inv st0 (fail_iteration_step now k cx msg s)" "orch_inv st0 (fail_group_step now k cx msg s)"
  unfolding settle_iteration_step_def settle_group_step_def fail_iteration_step_def fail_group_step_def
  by (auto simp: set_act_inv [OF assms] split: sum.split intro!: settle_row_inv [OF assms] settle_group_inv [OF assms])

lemma fail_exec_inv:
  assumes inv: "orch_inv st0 s" and cx: "ctx_ok st0 cx" and h: "held (st_tasks st0) (or_log s) (or_store s) cx e"
  shows "orch_inv st0 (fail_exec_step now k cx e t msg s)"
proof (cases "updateExecution (ex_id e) (\<lambda>r. r\<lparr>ex_status := T_Failed, ex_errorMessage := Some msg, ex_completedAt := Some now\<rparr>) (or_store s)")
  case (Inl x)
  then show ?thesis by (simp add: fail_exec_step_def set_act_inv [OF inv cx])
next
  case (Inr st)
  let ?f = "\<lambda>r. r\<lparr>ex_status := T_Failed, ex_errorMessage := Some msg, ex_completedAt := Some now\<rparr>"
  have "orch_inv st0 (s\<lparr>or_store := st\<rparr>) \<and> exec_le (or_store s) st"
  proof (rule updateExecution_inv [OF inv Inr])
    fix r assume r: "jget (st_executions (or_store s)) (ex_id e) = Some r"
    then have ok: "row_ok (st_tasks st0) (or_log s) (ex_id e) r" using orch_invD(2) [OF inv] by (simp add: rows_ok_def)
    have "same_exec r e" by (rule held_status [OF h r])
    then have "may_run (st_tasks st0) (or_log s) (?f r)" using h by (auto simp: held_def may_run_def same_exec_def)
    with ok show "row_ok (st_tasks st0) (or_log (s\<lparr>or_store := st\<rparr>)) (ex_id e) (?f r)"
      by (simp add: row_running_ok [of _ _ _ r ?f] same_exec_def)
  qed (use orch_invD(3) [OF inv] in \<open>simp_all add: same_exec_def\<close>)
  then have "orch_inv st0 (note_event cx (Ev_TaskFailed (tk_id t) msg) (s\<lparr>or_store := st\<rparr>))"
    by (intro note_event_inv) simp_all
  then show ?thesis using Inr by (simp add: fail_exec_step_def set_act_inv [OF _ cx])
qed

lemma cancel_row_inv:
  assumes inv: "orch_inv st0 s" and up: "updateExecution eid f (or_store s) = Inr st"
    and f: "\<And>r. same_exec (f r) r \<and> ex_status (f r) = T_Cancelled"
  shows "orch_inv st0 (s\<lparr>or_store := st\<rparr>)"
proof -
  have "orch_inv st0 (s\<lparr>or_store := st\<rparr>) \<and> exec_le (or_store s) st"
  proof (rule updateExecution_inv [OF inv up])
    fix r assume r: "jget (st_executions (or_store s)) eid = Some r"
    then have "row_ok (st_tasks st0) (or_log s) eid r" using orch_invD(2) [OF inv] by (simp add: rows_ok_def)
    then show "row_ok (st_tasks st0) (or_log (s\<lparr>or_store := st\<rparr>)) eid (f r)" using row_status_ok [of _ _ _ r f] f by simp
  qed (use f orch_invD(3) [OF inv] in simp_all)
  then show ?thesis by simp
qed

lemma sweep_next_inv: "orch_inv st0 s \<Longrightarrow> ctx_ok st0 cx \<Longrightarrow> orch_inv st0 (sweep_next k cx todo msg s)"
  by (simp add: sweep_next_def set_act_inv)

lemma sweep_inv:
  assumes "orch_inv st0 s" "ctx_ok st0 cx"
  shows "orch_inv st0 (sweep_step now k cx todo msg s)"
  unfolding sweep_step_def
  by (auto simp: same_exec_def split: list.split sum.split
      intro!: sweep_next_inv set_act_inv [OF assms] assms cancel_row_inv [OF assms(1)])

lemma advance_inv:
  assumes "tasks_keyed st0" "orch_inv st0 s"
  shows "orch_inv st0 (advance cfg now first second k s)"
proof (cases "jget (or_acts s) k")
  case None
  then show ?thesis using assms(2) by (simp add: advance_def)
next
  case (Some p)
  obtain cx a where p: "p = (cx, a)" by force
  with Some orch_invD(5) [OF assms(2), of k cx a]
  have cx: "ctx_ok st0 cx" and a: "act_ok (st_tasks st0) (or_log s) (or_store s) cx a" by simp_all
  then show ?thesis
    unfolding advance_def Some p
    by (cases a) (auto intro: begin_exec_inv [OF assms cx] answer_exec_inv [OF assms(2) cx] notify_inv [OF assms cx]
        unblock_step_inv [OF assms(2) cx] check_inv [OF assms(2) cx] settle_steps_inv [OF assms(2) cx]
        fail_exec_inv [OF assms(2) cx] sweep_next_inv [OF assms(2) cx] sweep_inv [OF assms(2) cx] assms(2))
qed

lemma new_orch_inv: "st_executions st0 = [] \<Longrightarrow> groups_keyed st0 \<Longrightarrow> orch_inv st0 (new_orch st0)"
  by (simp add: orch_inv_def new_orch_def rows_ok_def log_ok_def)

lemma cancel_execs_inv:
  "orch_inv st0 s \<Longrightarrow> orch_inv st0 (s\<lparr>or_store := cancel_execs es (or_store s)\<rparr>)"
proof (induction es arbitrary: s)
  case (Cons e es)
  let ?st = "if cancellable (ex_status e)
    then (case updateExecution (ex_id e) (\<lambda>r. r\<lparr>ex_status := T_Cancelled\<rparr>) (or_store s) of Inl _ \<Rightarrow> or_store s | Inr st' \<Rightarrow> st')
    else or_store s"
  have "orch_inv st0 (s\<lparr>or_store := ?st\<rparr>)"
    using Cons.prems by (auto simp: same_exec_def split: sum.split intro: cancel_row_inv [OF Cons.prems])
  from Cons.IH [OF this] show ?case by simp
qed simp

section \<open>Starts, cancels and retries keep it\<close>

lemma jget_foldl_jset:
  "distinct (map ex_id es) \<Longrightarrow>
    jget (foldl (\<lambda>m e. jset (ex_id e) e m) m es) k = (case find (\<lambda>e. ex_id e = k) es of Some e \<Rightarrow> Some e | None \<Rightarrow> jget m k)"
proof (induction es arbitrary: m)
  case (Cons e es)
  have "find (\<lambda>x. ex_id x = ex_id e) es = None" using Cons.prems unfolding find_None_iff by (metis distinct.simps(2) image_eqI list.map(2) set_map)
  with Cons show ?case by (auto split: option.splits)
qed simp

lemma jwf_foldl_jset: "jwf m \<Longrightarrow> jwf (foldl (\<lambda>m e. jset (ex_id e) e m) m es)"
  by (induction es arbitrary: m) auto

lemma seeded_rows:
  assumes "e \<in> set (map (\<lambda>(eid, seed). buildExecutionRow eid iid gid seed) (zip eids (buildSeeds cfg defs)))"
  shows "\<exists>d \<in> set defs. ex_taskId e = Some (tk_id d) \<and> ex_iterationId e = iid \<and> ex_groupId e = gid \<and>
    ex_status e = (if tk_dependsOn d = [] then T_Ready else T_Blocked)"
proof -
  from assms obtain eid seed where z: "(eid, seed) \<in> set (zip eids (buildSeeds cfg defs))"
    and e: "e = buildExecutionRow eid iid gid seed" by auto
  have "seed \<in> set (buildSeeds cfg defs)" using z by (rule set_zip_rightD)
  then obtain d where "d \<in> set defs" "seed = \<lparr>sd_taskId = tk_id d, sd_taskName = tk_name d,
      sd_status = (if length (tk_dependsOn d) = 0 then T_Ready else T_Blocked), sd_modelSlug = Some (resolve_model cfg d)\<rparr>"
    unfolding buildSeeds_def by auto
  then show ?thesis by (intro bexI [of _ d]) (simp_all add: e buildExecutionRow_def)
qed

lemma seeded_ids:
  "map ex_id (map (\<lambda>(eid, seed). buildExecutionRow eid iid gid seed) (zip eids seeds)) = take (length seeds) eids"
proof -
  have "ex_id \<circ> (\<lambda>(eid, seed). buildExecutionRow eid iid gid seed) = fst" by (auto simp: buildExecutionRow_def fun_eq_iff)
  then show ?thesis by (simp add: map_fst_zip_take min.commute take_map) (metis map_fst_zip_take min_def take_all_iff linorder_linear take_take)
qed

lemma seeded_may_run:
  assumes keyed: "tasks_keyed st0" and d: "d \<in> set (getTasksByGroup st0 gid)"
    and e: "ex_taskId e = Some (tk_id d)" "ex_groupId e = gid"
    "ex_status e = (if tk_dependsOn d = [] then T_Ready else T_Blocked)"
  shows "row_ok (st_tasks st0) L (ex_id e) e" "ex_status e = T_Ready \<Longrightarrow> may_run (st_tasks st0) L e"
proof -
  have get: "jget (st_tasks st0) (tk_id d) = Some d" "tk_groupId d = gid" using d group_tasks_iff [OF keyed] by auto
  show r: "may_run (st_tasks st0) L e" if "ex_status e = T_Ready"
    using that get e by (auto simp: may_run_def deps_done_def split: if_splits)
  show "row_ok (st_tasks st0) L (ex_id e) e"
    using get e r by (auto simp: row_ok_def split: if_splits)
qed

lemma getLatestIteration_group: "getLatestIteration st gid = Some i \<Longrightarrow> it_groupId i = gid"
proof -
  have "foldl (\<lambda>latest i. if it_groupId i \<noteq> gid then latest
                       else case latest of None \<Rightarrow> Some i
                            | Some l \<Rightarrow> if it_number i > it_number l then Some i else latest) acc xs = Some i \<Longrightarrow>
      (\<forall>j. acc = Some j \<longrightarrow> it_groupId j = gid) \<Longrightarrow> it_groupId i = gid" for acc xs
    by (induction xs arbitrary: acc) (auto split: if_splits option.splits)
  then show "getLatestIteration st gid = Some i \<Longrightarrow> it_groupId i = gid" unfolding getLatestIteration_def by blast
qed

lemma prepareGroupStart_inv:
  assumes keyed: "tasks_keyed st0" and inv: "orch_inv st0 s"
    and eids: "distinct eids" "set eids \<inter> set (jkeys (st_executions (or_store s))) = {}"
    and run: "prepareGroupStart cfg now iid eids gid triggeredBy s = Inr (cx, ready, s1)"
  shows "orch_inv st0 s1 \<and> ctx_ok st0 cx \<and> (\<forall>e \<in> set ready. held (st_tasks st0) (or_log s1) (or_store s1) cx e)"
proof -
  have tasks: "getTasksByGroup (or_store s) gid = getTasksByGroup st0 gid"
    using orch_invD(1) [OF inv] by (simp add: getTasksByGroup_def)
  let ?defs = "getTasksByGroup st0 gid"
  let ?seeds = "buildSeeds cfg ?defs"
  define exs where "exs = map (\<lambda>(eid, seed). buildExecutionRow eid iid gid seed) (zip eids ?seeds)"
  from run obtain g it exs0 n input st1 st2 where g: "getTaskGroup (or_store s) gid = Some g"
    and c: "createIterationWithExecutions now iid eids gid input triggeredBy n ?seeds (or_store s) = Inr (it, exs0, st1)"
    and u: "updateTaskGroup gid (\<lambda>r. r\<lparr>gp_status := G_Running, gp_startedAt := Some now, gp_completedAt := None, gp_output := None\<rparr>) st1 = Inr st2"
    and cx: "cx = \<lparr>cx_group = g, cx_iteration = it, cx_defs = ?defs\<rparr>"
    and ready: "ready = filter (\<lambda>e. ex_status e = T_Ready) exs0"
    and s1: "s1 = note_event cx (Ev_Started (length exs0) (length ready)) (s\<lparr>or_store := st2, or_active := sadd gid (or_active s)\<rparr>)"
    unfolding prepareGroupStart_def Let_def tasks
    by (auto split: option.splits if_splits sum.splits)
  from c have exs0: "exs0 = exs" and it: "it_id it = iid" and st1: "st_tasks st1 = st_tasks (or_store s)" "st_groups st1 = st_groups (or_store s)"
    "st_executions st1 = foldl (\<lambda>m e. jset (ex_id e) e m) (st_executions (or_store s)) exs"
    unfolding exs_def by (auto simp: createIterationWithExecutions_def Let_def split: if_splits)
  have ids: "map ex_id exs = take (length ?seeds) eids" unfolding exs_def by (rule seeded_ids)
  have dist: "distinct (map ex_id exs)" unfolding ids using eids(1) by simp
  have fresh: "ex_id e \<notin> set (jkeys (st_executions (or_store s)))" if "e \<in> set exs" for e
    using that eids(2) ids in_set_takeD [of "ex_id e" "length ?seeds" eids] by (metis IntI empty_iff image_eqI set_map)
  have find_ex: "find (\<lambda>x. ex_id x = ex_id e) exs = Some e" if "e \<in> set exs" for e
  proof -
    from that have "find (\<lambda>x. ex_id x = ex_id e) exs \<noteq> None" unfolding find_None_iff by blast
    then obtain x where x: "find (\<lambda>x. ex_id x = ex_id e) exs = Some x" by blast
    with find_SomeD [OF x] that dist show ?thesis by (auto simp: distinct_map inj_on_def)
  qed
  have gid: "gp_id g = gid" using g orch_invD(4) [OF inv] by (auto simp: getTaskGroup_def groups_keyed_def)
  have exec2: "st_executions st2 = st_executions st1" "st_tasks st2 = st_tasks st1" using updateTaskGroup_same [OF u] by auto
  have get: "jget (st_executions st2) k = (case find (\<lambda>e. ex_id e = k) exs of Some e \<Rightarrow> Some e | None \<Rightarrow> jget (st_executions (or_store s)) k)" for k
    unfolding exec2 st1 by (rule jget_foldl_jset [OF dist])
  have seeded: "row_ok (st_tasks st0) L (ex_id e) e \<and> (ex_status e = T_Ready \<longrightarrow> may_run (st_tasks st0) L e) \<and>
      ex_iterationId e = iid \<and> ex_groupId e = gid" if "e \<in> set exs" for e L
    using seeded_rows [OF that [unfolded exs_def]] seeded_may_run [OF keyed] by blast
  have old: "jget (st_executions (or_store s)) k = None" if "find (\<lambda>e. ex_id e = k) exs = Some e" for k e
    using fresh [of e] find_SomeD [OF that] by (metis jget_None_iff)
  have rows: "rows_ok (st_tasks st0) (or_log s1) st2"
    unfolding rows_ok_def
  proof (intro conjI allI impI)
    from orch_invD(2) [OF inv] have "jwf (st_executions (or_store s))" unfolding rows_ok_def by blast
    then show "jwf (st_executions st2)" unfolding exec2 st1 by (rule jwf_foldl_jset)
    fix k e assume "jget (st_executions st2) k = Some e"
    then consider "find (\<lambda>e. ex_id e = k) exs = Some e" | "jget (st_executions (or_store s)) k = Some e"
      unfolding get by (auto split: option.splits)
    then show "row_ok (st_tasks st0) (or_log s1) k e"
    proof cases
      case 1
      from find_SomeD [OF 1] seeded show ?thesis by blast
    next
      case 2
      then have "row_ok (st_tasks st0) (or_log s) k e" using orch_invD(2) [OF inv] unfolding rows_ok_def by blast
      then show ?thesis by (rule row_ok_mono) (auto simp: s1 note_event_def)
    qed
  qed
  have le: "exec_le (or_store s) st2"
    unfolding exec_le_def get using old by (auto split: option.split)
  have "orch_inv st0 s1"
  proof (rule orch_invI [OF inv])
    show "log_ok (st_tasks st0) (or_log s1)" using orch_invD(3) [OF inv] by (simp add: s1 note_event_def log_ok_snoc)
    show "groups_keyed (or_store s1)"
      using updateTaskGroup_keyed [OF u] groups_keyed_same [OF st1(2) orch_invD(4) [OF inv]] by (simp add: s1 note_event_def)
    show "rows_ok (st_tasks st0) (or_log s1) (or_store s1)" using rows by (simp add: s1 note_event_def)
    show "exec_le (or_store s) (or_store s1)" using le by (simp add: s1 note_event_def)
  qed (auto simp: s1 note_event_def exec2 st1)
  moreover have "ctx_ok st0 cx" by (simp add: cx ctx_ok_def gid)
  moreover have "held (st_tasks st0) (or_log s1) (or_store s1) cx e" if "e \<in> set ready" for e
  proof -
    from that have e: "e \<in> set exs" "ex_status e = T_Ready" by (simp_all add: ready exs0)
    have "jget (st_executions (or_store s1)) (ex_id e) = Some e" using get [of "ex_id e"] find_ex [OF e(1)] by (simp add: s1 note_event_def)
    with seeded [OF e(1), of "or_log s1"] e(2) show ?thesis by (simp add: held_def cx it gid)
  qed
  ultimately show ?thesis by blast
qed

lemma startGroup_inv:
  assumes keyed: "tasks_keyed st0" and inv: "orch_inv st0 s"
    and eids: "distinct eids" "set eids \<inter> set (jkeys (st_executions (or_store s))) = {}"
    and run: "startGroup cfg now iid eids gid triggeredBy s = Inr s'"
  shows "orch_inv st0 s'"
proof -
  from run obtain cx ready s1 where p: "prepareGroupStart cfg now iid eids gid triggeredBy s = Inr (cx, ready, s1)"
    and s': "s' = snd (launchBatch cx ready max_concurrent_tasks s1)"
    by (auto simp: startGroup_def split: sum.splits)
  from prepareGroupStart_inv [OF keyed inv eids p] show ?thesis unfolding s' by (blast intro: launchBatch_inv)
qed

lemma cancelGroup_inv:
  assumes inv: "orch_inv st0 s" and run: "cancelGroup now gid s = Inr s'"
  shows "orch_inv st0 s'"
proof -
  define s1 where "s1 = (case getLatestIteration (or_store s) gid of
                  None \<Rightarrow> s
                | Some i \<Rightarrow>
                    (let st1 = cancel_execs (getExecutionsByIteration (or_store s) gid (it_id i)) (or_store s)
                     in s\<lparr>or_store := (case updateIteration (it_id i) (\<lambda>r. r\<lparr>it_status := G_Cancelled, it_completedAt := Some now\<rparr>) st1 of
                                        Inl _ \<Rightarrow> st1 | Inr st2 \<Rightarrow> st2),
                          or_claims := clear_claims (it_id i) (or_claims s)\<rparr>))"
  have i1: "orch_inv st0 s1"
  proof (cases "getLatestIteration (or_store s) gid")
    case None
    then show ?thesis using inv by (simp add: s1_def)
  next
    case (Some i)
    let ?st1 = "cancel_execs (getExecutionsByIteration (or_store s) gid (it_id i)) (or_store s)"
    have a: "orch_inv st0 (s\<lparr>or_store := ?st1\<rparr>)" by (rule cancel_execs_inv [OF inv])
    let ?st2 = "case updateIteration (it_id i) (\<lambda>r. r\<lparr>it_status := G_Cancelled, it_completedAt := Some now\<rparr>) ?st1 of Inl _ \<Rightarrow> ?st1 | Inr st2 \<Rightarrow> st2"
    have b: "st_tasks ?st2 = st_tasks ?st1 \<and> st_executions ?st2 = st_executions ?st1 \<and> st_groups ?st2 = st_groups ?st1"
      using updateIteration_same by (auto split: sum.split)
    show ?thesis
      by (rule orch_inv_frame [OF a]) (use Some b groups_keyed_same [OF _ orch_invD(4) [OF a]] in \<open>simp_all add: s1_def Let_def\<close>)
  qed
  obtain st3 ev where u: "updateTaskGroup gid (\<lambda>r. r\<lparr>gp_status := G_Cancelled, gp_completedAt := Some now\<rparr>) (or_store s1) = Inr st3"
    and s': "s' = s1\<lparr>or_store := st3, or_active := sdel gid (or_active s1), or_log := or_log s1 @ [(ev, Ev_GroupFailed ''Cancelled by user'')]\<rparr>"
    using run by (auto simp: cancelGroup_def Let_def s1_def [symmetric] split: sum.splits)
  have "orch_inv st0 (s1\<lparr>or_store := st3, or_active := sdel gid (or_active s1)\<rparr>)"
    by (rule orch_inv_frame [OF i1]) (use updateTaskGroup_same [OF u] updateTaskGroup_keyed [OF u _ orch_invD(4) [OF i1]] in simp_all)
  from orch_invD [OF this] show ?thesis
    unfolding s' by (intro orch_invI [OF \<open>orch_inv st0 (s1\<lparr>or_store := st3, or_active := sdel gid (or_active s1)\<rparr>)\<close>])
      (auto simp: exec_le_same log_ok_snoc intro: rows_ok_mono)
qed

lemma reopen_same: "st_tasks (reopen g it st) = st_tasks st \<and> st_executions (reopen g it st) = st_executions st"
  unfolding reopen_def by (auto dest!: updateIteration_same updateTaskGroup_same split: sum.split)

lemma reopen_keyed:
  assumes "groups_keyed st"
  shows "groups_keyed (reopen g it st)"
proof -
  have "groups_keyed a" if "updateIteration i f st = Inr a" for i f a
    using updateIteration_same [OF that] groups_keyed_same [OF _ assms] by blast
  then show ?thesis unfolding reopen_def using assms by (auto split: sum.split intro: updateTaskGroup_keyed)
qed

lemma retryTask_inv:
  assumes inv: "orch_inv st0 s" and run: "retryTask tid s = Inr s'"
  shows "orch_inv st0 s'"
proof -
  from run obtain task :: task_row and g it ex where g: "getTaskGroup (or_store s) (tk_groupId task) = Some g"
    and ex: "find (\<lambda>e. ex_taskId e = Some tid) (getExecutionsByIteration (or_store s) (gp_id g) (it_id it)) = Some ex"
    and run1: "retry_exec g it ex s = Inr s'"
    by (auto simp: retryTask_def split: option.splits)
  obtain won c2 where cl: "claim (it_id it) (ex_id ex) (release_claim (it_id it) (ex_id ex) (or_claims s)) = (won, c2)" by force
  let ?st1 = "reopen g it (or_store s)"
  from run1 cl obtain st2 where failed: "ex_status ex = T_Failed"
    and u: "updateExecution (ex_id ex) reset_exec ?st1 = Inr st2"
    and s': "s' = (let cx = \<lparr>cx_group = g, cx_iteration = it, cx_defs = getTasksByGroup st2 (gp_id g)\<rparr>;
        s1 = s\<lparr>or_store := st2, or_active := sadd (gp_id g) (or_active s), or_claims := c2\<rparr>
      in if won then snd (spawn cx [reset_exec ex] s1) else s1)"
    unfolding retry_exec_def by (simp add: Let_def split: sum.splits if_splits)
  note same1 = reopen_same [of g it "or_store s"]
  have i1: "orch_inv st0 (s\<lparr>or_store := ?st1\<rparr>)"
    by (intro orch_inv_frame [OF inv]) (simp_all add: same1 reopen_keyed orch_invD(4) [OF inv])
  have rows: "rows_ok (st_tasks st0) (or_log s) (or_store s)" by (rule orch_invD(2) [OF inv])
  have me: "jget (st_executions (or_store s)) (ex_id ex) = Some ex" "row_ok (st_tasks st0) (or_log s) (ex_id ex) ex"
    "ex_iterationId ex = it_id it" "ex_groupId ex = gp_id g"
    using iteration_rows [OF rows] find_SomeD [OF ex] by blast+
  then have run_ok: "may_run (st_tasks st0) (or_log s) ex" using failed by (simp add: row_ok_def)
  have same: "same_exec (reset_exec r) r" for r by (simp add: same_exec_def reset_exec_def)
  have "orch_inv st0 (s\<lparr>or_store := st2\<rparr>) \<and> exec_le ?st1 st2"
  proof (rule updateExecution_inv [OF i1, of "ex_id ex" reset_exec, simplified, OF u same])
    fix r assume "jget (st_executions ?st1) (ex_id ex) = Some r"
    then have r: "r = ex" using me same1 by simp
    have "may_run (st_tasks st0) (or_log s) (reset_exec ex)" using run_ok may_run_same [OF same] by simp
    then show "row_ok (st_tasks st0) (or_log (s\<lparr>or_store := st2\<rparr>)) (ex_id ex) (reset_exec r)"
      using row_running_ok [OF me(2), of reset_exec, OF same] by (simp add: r reset_exec_def)
  qed (use orch_invD(3) [OF inv] in simp_all)
  then have i2: "orch_inv st0 (s\<lparr>or_store := st2\<rparr>)" and le: "exec_le ?st1 st2" by simp_all
  let ?s1 = "s\<lparr>or_store := st2, or_active := sadd (gp_id g) (or_active s), or_claims := c2\<rparr>"
  have i3: "orch_inv st0 ?s1" by (rule orch_inv_frame [OF i2]) (use orch_invD(4) [OF i2] in simp_all)
  let ?cx = "\<lparr>cx_group = g, cx_iteration = it, cx_defs = getTasksByGroup st2 (gp_id g)\<rparr>"
  have cx: "ctx_ok st0 ?cx" using orch_invD(1) [OF i2] by (simp add: ctx_ok_def getTasksByGroup_def)
  have "jget (st_executions st2) (ex_id ex) = Some (reset_exec ex)"
    using u me(1) same1 by (auto simp: updateExecution_def split: option.splits)
  then have "held (st_tasks st0) (or_log ?s1) (or_store ?s1) ?cx (reset_exec ex)"
    using run_ok may_run_same [OF same [of ex]] me by (simp add: held_def reset_exec_def)
  with spawn_inv [OF i3 cx, of "[reset_exec ex]"] i3 show ?thesis by (simp add: s' Let_def)
qed

lemma orch_run_inv:
  assumes "orch_run cfg st0 s" "tasks_keyed st0" "groups_keyed st0" "st_executions st0 = []"
  shows "orch_inv st0 s"
  using assms
proof (induction rule: orch_run.induct)
  case init
  then show ?case by (intro new_orch_inv)
next
  case (start s eids now iid gid triggeredBy s')
  then show ?case using startGroup_inv by blast
qed (auto intro: cancelGroup_inv retryTask_inv advance_inv)

end
