(* ===== verification/Orchestrator_Runs.thy ===== *)
theory Orchestrator_Runs
  imports Orchestrator_Facts
begin

text \<open>
  The runs of a task group: dependencies are respected by every interleaving; a group the editor built always
  starts; a failure cancels exactly what depends on it; and two runs the code gets wrong, a sixth ready task that
  nothing launches and a cancelled group that ends completed.
\<close>

section \<open>Dependencies\<close>

text \<open>
  C1: whatever the interleaving of executions, starts, cancels and retries, a task is announced as started in an
  iteration only after every one of its dependencies completed in that same iteration.
\<close>

theorem launch_after_dependencies:
  assumes "orch_run cfg st0 s" "tasks_keyed st0" "groups_keyed st0" "st_executions st0 = []"
    and "or_log s = pre @ (iid, Ev_TaskStarted tid) # post"
    and "getTask st0 tid = Some t" "d \<in> set (tk_dependsOn t)"
  shows "\<exists>summary. (iid, Ev_TaskCompleted d summary) \<in> set pre"
proof -
  have "deps_done (st_tasks st0) pre iid tid"
    using orch_invD(3) [OF orch_run_inv [OF assms(1-4)]] assms(5) unfolding log_ok_def by blast
  with assms(6,7) show ?thesis by (auto simp: deps_done_def completed_in_def getTask_def)
qed

definition sample_cfg :: orch_cfg where
  "sample_cfg = \<lparr>oc_maxIterations = 0, oc_defaultModel = None, oc_retry = \<lparr>rc_enabled = False, rc_fallbackModel = None\<rparr>\<rparr>"

text \<open>Activities advance in the given order; every model answers alike.\<close>

definition drive :: "gateway_outcome \<Rightarrow> nat list \<Rightarrow> orch \<Rightarrow> orch" where
  "drive gw ks s = fold (advance sample_cfg 0 (\<lambda>_. gw) (\<lambda>_. gw)) ks s"

definition started :: "task_store \<Rightarrow> string list \<Rightarrow> orch" where
  "started st eids =
     (case startGroup sample_cfg 0 ''i1'' eids ''g1'' None (new_orch st) of Inl _ \<Rightarrow> new_orch st | Inr s \<Rightarrow> s)"

lemma drive_run: "orch_run sample_cfg st0 s \<Longrightarrow> orch_run sample_cfg st0 (drive gw ks s)"
  unfolding drive_def by (induction ks arbitrary: s) (simp_all add: orch_run.activity)

lemma started_run:
  assumes "distinct eids" "st_executions st = []"
  shows "orch_run sample_cfg st (started st eids)"
proof (cases "startGroup sample_cfg 0 ''i1'' eids ''g1'' None (new_orch st)")
  case (Inl e)
  then show ?thesis by (simp add: started_def orch_run.init)
next
  case (Inr s)
  have "orch_run sample_cfg st s"
    by (rule orch_run.start [OF orch_run.init assms(1) _ Inr]) (simp add: new_orch_def assms(2))
  with Inr show ?thesis by (simp add: started_def)
qed

definition two_task_run :: orch where
  "two_task_run = drive (Reply ''done'') [0, 0, 0, 0, 1] (started sample_store [''e1'', ''e2''])"

lemma launch_after_dependencies_witness:
  "map snd (or_log two_task_run) =
     [Ev_Started 2 1, Ev_TaskStarted ''t1'', Ev_TaskCompleted ''t1'' ''done'', Ev_TaskReady ''t2'', Ev_Progress 1 2 0,
      Ev_TaskStarted ''t2''] \<and>
   (\<exists>summary. (''i1'', Ev_TaskCompleted ''t1'' summary) \<in> set (take 5 (or_log two_task_run)))"
proof
  show "map snd (or_log two_task_run) =
     [Ev_Started 2 1, Ev_TaskStarted ''t1'', Ev_TaskCompleted ''t1'' ''done'', Ev_TaskReady ''t2'', Ev_Progress 1 2 0,
      Ev_TaskStarted ''t2'']" by code_simp
  have keyed: "tasks_keyed sample_store" using editor_reachable_ok [OF sample_store_reachable] by (simp add: editor_ok_def)
  have "map (\<lambda>(k, g). gp_id g = k) (st_groups sample_store) = [True]" by code_simp
  then have "\<forall>p \<in> set (st_groups sample_store). gp_id (snd p) = fst p" by auto
  then have groups: "groups_keyed sample_store" using jget_in by (fastforce simp: groups_keyed_def)
  have ex: "st_executions sample_store = []" by code_simp
  have run: "orch_run sample_cfg sample_store two_task_run"
    unfolding two_task_run_def by (rule drive_run [OF started_run [OF _ ex]]) simp
  have log: "or_log two_task_run = take 5 (or_log two_task_run) @ (''i1'', Ev_TaskStarted ''t2'') # []" by code_simp
  have "map_option tk_dependsOn (getTask sample_store ''t2'') = Some [''t1'']" by code_simp
  then obtain t where t: "getTask sample_store ''t2'' = Some t" "''t1'' \<in> set (tk_dependsOn t)" by auto
  show "\<exists>summary. (''i1'', Ev_TaskCompleted ''t1'' summary) \<in> set (take 5 (or_log two_task_run))"
    by (rule launch_after_dependencies [OF run keyed groups ex log t])
qed

section \<open>Starting\<close>

lemma dag_has_source:
  assumes "finite T" "T \<noteq> {}" "dag_rows T"
  shows "\<exists>t \<in> T. tk_dependsOn t = []"
proof -
  have "rows_rel T \<subseteq> (\<Union>t \<in> T. {tk_id t} \<times> set (tk_dependsOn t))" by (auto simp: rows_rel_def)
  then have "finite (rows_rel T)" by (rule finite_subset) (use assms(1) in auto)
  then have "wf ((rows_rel T)\<inverse>)" using assms(3) by (intro finite_acyclic_wf_converse) (auto simp: dag_rows_def)
  then obtain z where z: "z \<in> tk_id ` T" "\<And>y. (y, z) \<in> (rows_rel T)\<inverse> \<Longrightarrow> y \<notin> tk_id ` T"
    using assms(2) wf_eq_minimal by (metis image_is_empty all_not_in_conv)
  then obtain t where t: "t \<in> T" "z = tk_id t" by blast
  have "set (tk_dependsOn t) = {}"
  proof (rule ccontr)
    assume "set (tk_dependsOn t) \<noteq> {}"
    then obtain d where d: "d \<in> set (tk_dependsOn t)" by (metis all_not_in_conv)
    with t have "(d, z) \<in> (rows_rel T)\<inverse>" by (auto simp: rows_rel_def)
    with z(2) have "d \<notin> tk_id ` T" by blast
    with d t assms(3) show False by (auto simp: dag_rows_def)
  qed
  with t show ?thesis by auto
qed

text \<open>
  a group built by the editor always has a task that can run first: unless the group is empty, starting it is
  never refused for lack of ready tasks.
\<close>

theorem nonempty_group_can_start:
  assumes "editor_reachable (or_store s)" "getTasksByGroup (or_store s) gid \<noteq> []"
  shows "startGroup cfg now iid eids gid triggeredBy s \<noteq> Inl (No_Ready_Tasks gid)"
proof -
  let ?ts = "getTasksByGroup (or_store s) gid"
  have ok: "editor_ok (or_store s)" by (rule editor_reachable_ok [OF assms(1)])
  then have "dag_rows (set ?ts)"
    using validate_rows [OF group_tasks_distinct] by (auto simp: editor_ok_def group_dag_def)
  then obtain t where "t \<in> set ?ts" "tk_dependsOn t = []" using dag_has_source [of "set ?ts"] assms(2) by auto
  then have "list_ex (\<lambda>sd. sd_status sd = T_Ready) (buildSeeds cfg ?ts)"
    by (force simp: buildSeeds_def list_ex_iff)
  then show ?thesis
    by (auto simp: startGroup_def prepareGroupStart_def Let_def split: option.splits sum.splits if_splits)
qed

lemma nonempty_group_can_start_witness:
  "startGroup sample_cfg 0 ''i1'' [''e1'', ''e2''] ''g1'' None (new_orch sample_store) \<noteq> Inl (No_Ready_Tasks ''g1'')"
proof (rule nonempty_group_can_start)
  show "editor_reachable (or_store (new_orch sample_store))" using sample_store_reachable by (simp add: new_orch_def)
  have "length (getTasksByGroup (or_store (new_orch sample_store)) ''g1'') = 2" by code_simp
  then show "getTasksByGroup (or_store (new_orch sample_store)) ''g1'' \<noteq> []" by auto
qed

section \<open>A sixth ready task\<close>

definition six_tasks :: task_store where
  "six_tasks = snd (createTaskGroup ''g1'' [''t1'', ''t2'', ''t3'', ''t4'', ''t5'', ''t6'']
     (sample_group (map (\<lambda>n. sample_task n []) [''a'', ''b'', ''c'', ''d'', ''e'', ''f''])) empty_task_store)"

definition six_task_run :: orch where
  "six_task_run = drive (Reply ''done'') [0, 0, 0, 0, 0, 1, 1, 1, 1, 1, 2, 2, 2, 2, 2, 3, 3, 3, 3, 3, 4, 4, 4, 4, 4]
     (started six_tasks [''e1'', ''e2'', ''e3'', ''e4'', ''e5'', ''e6''])"

definition quiescent :: "orch \<Rightarrow> bool" where
  "quiescent s = list_all (\<lambda>(k, cx, a). a = Finished) (or_acts s)"

lemma quiescent_stays: "quiescent s \<Longrightarrow> advance cfg now first second k s = s"
  by (auto simp: quiescent_def advance_def list_all_iff split: option.split dest!: jget_in)

lemma six_task_run_end:
  "(let s = six_task_run in
     (quiescent s, map (\<lambda>p. ex_status (snd p)) (st_executions (or_store s)),
      map_option gp_status (getTaskGroup (or_store s) ''g1''), map_option it_status (getLatestIteration (or_store s) ''g1'')))
   = (True, [T_Completed, T_Completed, T_Completed, T_Completed, T_Completed, T_Ready], Some G_Running, Some G_Running)"
  by code_simp

text \<open>
  a start launches five of the ready executions and a completion launches only those it unblocked, so a sixth
  task without dependencies is never run: all five launched activities end, nothing can move any more, the sixth
  execution is still ready, and its iteration and group stay running.
\<close>

theorem sixth_ready_task_never_runs:
  "orch_run sample_cfg six_tasks six_task_run \<and>
   (\<forall>cfg now first second k. advance cfg now first second k six_task_run = six_task_run) \<and>
   map (\<lambda>p. ex_status (snd p)) (st_executions (or_store six_task_run))
     = [T_Completed, T_Completed, T_Completed, T_Completed, T_Completed, T_Ready] \<and>
   map_option gp_status (getTaskGroup (or_store six_task_run) ''g1'') = Some G_Running \<and>
   map_option it_status (getLatestIteration (or_store six_task_run) ''g1'') = Some G_Running"
proof (intro conjI allI)
  show "orch_run sample_cfg six_tasks six_task_run"
    unfolding six_task_run_def by (rule drive_run [OF started_run]) (simp, code_simp)
  have "quiescent six_task_run" using six_task_run_end by (simp add: Let_def)
  then show "advance cfg now first second k six_task_run = six_task_run" for cfg now first second k
    by (rule quiescent_stays)
qed (use six_task_run_end in \<open>simp_all add: Let_def\<close>)

section \<open>A cancelled group\<close>

definition one_task :: task_store where
  "one_task = snd (createTaskGroup ''g1'' [''t1''] (sample_group [sample_task ''a'' []]) empty_task_store)"

definition cancelled_run :: orch where
  "cancelled_run =
     (case cancelGroup 0 ''g1'' (drive (Reply ''done'') [0] (started one_task [''e1''])) of
        Inl _ \<Rightarrow> new_orch one_task | Inr s \<Rightarrow> s)"

text \<open>
  cancelling does not stop the executions in flight: when the gateway answers, the cancelled execution, its
  iteration and its group all become completed.
\<close>

theorem cancelled_group_completes:
  "orch_run sample_cfg one_task (drive (Reply ''done'') [0, 0, 0, 0, 0] cancelled_run) \<and>
   map_option gp_status (getTaskGroup (or_store cancelled_run) ''g1'') = Some G_Cancelled \<and>
   map_option gp_status (getTaskGroup (or_store (drive (Reply ''done'') [0, 0, 0, 0, 0] cancelled_run)) ''g1'') = Some G_Completed \<and>
   map_option it_status (getLatestIteration (or_store (drive (Reply ''done'') [0, 0, 0, 0, 0] cancelled_run)) ''g1'') = Some G_Completed"
proof (intro conjI)
  have st: "st_executions one_task = []" by code_simp
  have pre: "orch_run sample_cfg one_task (drive (Reply ''done'') [0] (started one_task [''e1'']))"
    by (rule drive_run [OF started_run [OF _ st]]) simp
  have "orch_run sample_cfg one_task cancelled_run"
  proof (cases "cancelGroup 0 ''g1'' (drive (Reply ''done'') [0] (started one_task [''e1'']))")
    case (Inl e)
    then show ?thesis by (simp add: cancelled_run_def orch_run.init)
  next
    case (Inr s)
    then show ?thesis using orch_run.cancel [OF pre Inr] by (simp add: cancelled_run_def)
  qed
  then show "orch_run sample_cfg one_task (drive (Reply ''done'') [0, 0, 0, 0, 0] cancelled_run)" by (rule drive_run)
qed code_simp+

end
