(* ===== verification/Failure_Sweep.thy ===== *)
theory Failure_Sweep
  imports Task_Orchestrator
begin

text \<open>
  What a failure cancels (\<open>cancelUnreachable\<close> of \<open>server/services/task-orchestrator.ts\<close>): the fixpoint loop ends
  and cancels exactly the unfinished executions that depend, directly or through others, on a failed or cancelled one.
\<close>

section \<open>The specification\<close>

inductive doomed :: "task_row list \<Rightarrow> exec_row list \<Rightarrow> string option \<Rightarrow> bool" for defs :: "task_row list" and execs :: "exec_row list" where
  direct: "e \<in> set execs \<Longrightarrow> unfinished (Some (ex_status e)) \<Longrightarrow> d \<in> set (deps_of_exec defs e) \<Longrightarrow>
    x \<in> set execs \<Longrightarrow> ex_taskId x = Some d \<Longrightarrow> ex_status x = T_Failed \<or> ex_status x = T_Cancelled \<Longrightarrow> doomed defs execs (ex_taskId e)"
| through: "e \<in> set execs \<Longrightarrow> unfinished (Some (ex_status e)) \<Longrightarrow> d \<in> set (deps_of_exec defs e) \<Longrightarrow>
    doomed defs execs (Some d) \<Longrightarrow> doomed defs execs (ex_taskId e)"

definition one_row_per_task :: "exec_row list \<Rightarrow> bool" where
  "one_row_per_task execs = (\<forall>e \<in> set execs. \<forall>x \<in> set execs. ex_taskId e = ex_taskId x \<longrightarrow> ex_taskId e \<noteq> None \<longrightarrow> e = x)"

section \<open>The loop\<close>

lemma status_by_task_get:
  "jget (status_by_task execs) k = map_option ex_status (find (\<lambda>e. ex_taskId e = k) (rev execs))"
  unfolding status_by_task_def by (induction execs rule: rev_induct) auto

lemma status_of_row:
  assumes "one_row_per_task execs" "e \<in> set execs" "ex_taskId e = Some t"
  shows "jget (status_by_task execs) (Some t) = Some (ex_status e)"
proof -
  have "find (\<lambda>x. ex_taskId x = Some t) (rev execs) \<noteq> None" using assms(2,3) unfolding find_None_iff by auto
  then obtain x where x: "find (\<lambda>x. ex_taskId x = Some t) (rev execs) = Some x" by blast
  with find_SomeD [OF x] assms have "x = e" unfolding one_row_per_task_def by (metis option.distinct(1) set_rev)
  with x show ?thesis by (simp add: status_by_task_get)
qed

lemma row_of_status:
  assumes "jget (status_by_task execs) k = Some st"
  shows "\<exists>e \<in> set execs. ex_taskId e = k \<and> ex_status e = st"
proof -
  from assms obtain e where e: "find (\<lambda>e. ex_taskId e = k) (rev execs) = Some e" and "ex_status e = st"
    by (auto simp: status_by_task_get)
  with find_SomeD [OF e] show ?thesis by auto
qed

text \<open>The map during the sweep: the cancelled tasks are overlaid on the snapshot.\<close>

definition overlay :: "exec_row list \<Rightarrow> string option set \<Rightarrow> status_map \<Rightarrow> bool" where
  "overlay execs C m = (\<forall>t. jget m (Some t) = (if Some t \<in> C then Some T_Cancelled else jget (status_by_task execs) (Some t)))"

lemma cut_off_task: "cut_off defs m e \<Longrightarrow> \<exists>t. ex_taskId e = Some t"
  unfolding cut_off_def deps_of_exec_def find_def_def
  by (cases "find (\<lambda>d. Some (tk_id d) = ex_taskId e) defs") (auto dest!: find_SomeD intro: sym)

lemma cut_off_doomed:
  assumes uniq: "one_row_per_task execs" and o: "overlay execs C m" and C: "\<forall>t \<in> C. doomed defs execs t"
    and e: "e \<in> set execs" "unfinished (jget m (ex_taskId e))" "cut_off defs m e"
  shows "doomed defs execs (ex_taskId e) \<and> ex_taskId e \<notin> C"
proof -
  obtain t where t: "ex_taskId e = Some t" using cut_off_task [OF e(3)] by blast
  have n: "Some t \<notin> C" using e(2) o t by (auto simp: overlay_def unfinished_def split: if_splits)
  then have u: "unfinished (Some (ex_status e))" using e(2) o t status_of_row [OF uniq e(1) t] by (simp add: overlay_def)
  from e(3) obtain d where d: "d \<in> set (deps_of_exec defs e)" "jget m (Some d) = Some T_Failed \<or> jget m (Some d) = Some T_Cancelled"
    by (auto simp: cut_off_def list_ex_iff)
  have "doomed defs execs (ex_taskId e)"
  proof (cases "Some d \<in> C")
    case True
    with C have "doomed defs execs (Some d)" by blast
    with e(1) u d(1) show ?thesis by (rule doomed.through)
  next
    case False
    with d(2) o obtain st where st: "jget (status_by_task execs) (Some d) = Some st" "st = T_Failed \<or> st = T_Cancelled"
      by (auto simp: overlay_def)
    from row_of_status [OF st(1)] obtain x where "x \<in> set execs" "ex_taskId x = Some d" "ex_status x = st" by blast
    with e(1) u d(1) st(2) show ?thesis by (intro doomed.direct [of e execs d defs x]) auto
  qed
  with n t show ?thesis by simp
qed

lemma sweep_pass_sound:
  assumes "one_row_per_task execs"
  shows "overlay execs C m \<Longrightarrow> \<forall>t \<in> C. doomed defs execs t \<Longrightarrow> set es \<subseteq> set execs \<Longrightarrow> sweep_pass defs es m = (l, m') \<Longrightarrow>
    \<exists>C'. overlay execs C' m' \<and> C \<subseteq> C' \<and> (\<forall>t \<in> C'. doomed defs execs t) \<and> set l = ex_id ` {e \<in> set execs. ex_taskId e \<in> C' - C}"
proof (induction es arbitrary: C m l)
  case Nil
  then show ?case by (intro exI [of _ C]) simp
next
  case (Cons e es)
  show ?case
  proof (cases "unfinished (jget m (ex_taskId e)) \<and> cut_off defs m e")
    case False
    have "sweep_pass defs (e # es) m = sweep_pass defs es m" by (simp only: sweep_pass.simps False if_False)
    with Cons show ?thesis by simp
  next
    case True
    obtain t where t: "ex_taskId e = Some t" using cut_off_task True by blast
    have e: "e \<in> set execs" using Cons.prems(3) by simp
    from cut_off_doomed [OF assms Cons.prems(1,2) e] True have dm: "doomed defs execs (Some t)" "Some t \<notin> C" by (simp_all add: t)
    obtain l1 where l1: "sweep_pass defs es (jset (Some t) T_Cancelled m) = (l1, m')" "l = ex_id e # l1"
      using Cons.prems(4) True t by (auto split: prod.splits)
    have "overlay execs (insert (Some t) C) (jset (Some t) T_Cancelled m)" using Cons.prems(1) by (auto simp: overlay_def)
    moreover have "\<forall>u \<in> insert (Some t) C. doomed defs execs u" using dm Cons.prems(2) by blast
    ultimately obtain C' where C': "overlay execs C' m'" "insert (Some t) C \<subseteq> C'" "\<forall>u \<in> C'. doomed defs execs u"
      "set l1 = ex_id ` {x \<in> set execs. ex_taskId x \<in> C' - insert (Some t) C}"
      using Cons.IH [OF _ _ _ l1(1), of "insert (Some t) C"] Cons.prems(3) by auto
    have same: "x = e" if "x \<in> set execs" "ex_taskId x = Some t" for x
      using assms e t that unfolding one_row_per_task_def by (metis option.distinct(1))
    have "x \<in> set execs \<and> ex_taskId x \<in> C' - C \<longleftrightarrow> x = e \<or> x \<in> set execs \<and> ex_taskId x \<in> C' - insert (Some t) C" for x
      by (cases "ex_taskId x = Some t") (use same [of x] e t dm(2) C'(2) in auto)
    then have "{x \<in> set execs. ex_taskId x \<in> C' - C} = insert e {x \<in> set execs. ex_taskId x \<in> C' - insert (Some t) C}" by blast
    with C' l1(2) show ?thesis by (intro exI [of _ C']) auto
  qed
qed

lemma sweep_pass_stable:
  "sweep_pass defs es m = ([], m') \<Longrightarrow> m' = m \<and> (\<forall>e \<in> set es. \<not> (unfinished (jget m (ex_taskId e)) \<and> cut_off defs m e))"
proof (induction defs es m rule: sweep_pass.induct)
  case (2 defs e es m)
  then have n: "\<not> (unfinished (jget m (ex_taskId e)) \<and> cut_off defs m e)" by (auto split: if_splits prod.splits)
  have "sweep_pass defs (e # es) m = sweep_pass defs es m" by (simp only: sweep_pass.simps n if_False)
  with 2(2) [OF n] 2(3) n show ?case by auto
qed simp

lemma stable_complete:
  assumes uniq: "one_row_per_task execs" and o: "overlay execs C m"
    and stable: "\<forall>e \<in> set execs. \<not> (unfinished (jget m (ex_taskId e)) \<and> cut_off defs m e)"
  shows "doomed defs execs k \<Longrightarrow> k \<in> C"
proof (induction rule: doomed.induct)
  case (direct e d x)
  show ?case
  proof (rule ccontr)
    assume n: "ex_taskId e \<notin> C"
    have "jget m (Some d) = Some T_Failed \<or> jget m (Some d) = Some T_Cancelled"
      using o status_of_row [OF uniq direct(4,5)] direct(6) by (auto simp: overlay_def)
    then have cut: "cut_off defs m e" using direct(3) by (auto simp: cut_off_def list_ex_iff)
    then obtain t where t: "ex_taskId e = Some t" using cut_off_task by blast
    then have "unfinished (jget m (ex_taskId e))"
      using o n status_of_row [OF uniq direct(1) t] direct(2) by (simp add: overlay_def)
    with cut stable direct(1) show False by blast
  qed
next
  case (through e d)
  show ?case
  proof (rule ccontr)
    assume n: "ex_taskId e \<notin> C"
    have "jget m (Some d) = Some T_Cancelled" using o through(5) by (simp add: overlay_def)
    then have cut: "cut_off defs m e" using through(3) by (auto simp: cut_off_def list_ex_iff)
    then obtain t where t: "ex_taskId e = Some t" using cut_off_task by blast
    then have "unfinished (jget m (ex_taskId e))"
      using o n status_of_row [OF uniq through(1) t] through(2) by (simp add: overlay_def)
    with cut stable through(1) show False by blast
  qed
qed

lemma sweep_loop_exact:
  "overlay execs C m \<Longrightarrow> \<forall>t \<in> C. doomed defs execs t \<Longrightarrow> one_row_per_task execs \<Longrightarrow>
    set (fst (sweep_loop defs execs m)) = ex_id ` {e \<in> set execs. doomed defs execs (ex_taskId e) \<and> ex_taskId e \<notin> C}"
proof (induction defs execs m arbitrary: C rule: sweep_loop.induct)
  case (1 defs es m)
  obtain l m' where p: "sweep_pass defs es m = (l, m')" by force
  from sweep_pass_sound [OF 1(4) 1(2,3) subset_refl p] obtain C' where
    C': "overlay es C' m'" "C \<subseteq> C'" "\<forall>t \<in> C'. doomed defs es t" "set l = ex_id ` {e \<in> set es. ex_taskId e \<in> C' - C}" by blast
  show ?case
  proof (cases "l = []")
    case True
    from sweep_pass_stable [OF p [unfolded True]] have "\<forall>e \<in> set es. \<not> (unfinished (jget m (ex_taskId e)) \<and> cut_off defs m e)" by blast
    then have "doomed defs es (ex_taskId e) \<Longrightarrow> ex_taskId e \<in> C" for e using stable_complete [OF 1(4) 1(2)] by blast
    then show ?thesis using p True by (subst sweep_loop.simps) auto
  next
    case False
    obtain l' m'' where q: "sweep_loop defs es m' = (l', m'')" by force
    from 1(1) [OF p [symmetric] refl False C'(1,3) 1(4)] q have "set l' = ex_id ` {e \<in> set es. doomed defs es (ex_taskId e) \<and> ex_taskId e \<notin> C'}" by simp
    moreover have "{e \<in> set es. doomed defs es (ex_taskId e) \<and> ex_taskId e \<notin> C}
        = {e \<in> set es. ex_taskId e \<in> C' - C} \<union> {e \<in> set es. doomed defs es (ex_taskId e) \<and> ex_taskId e \<notin> C'}"
      using C'(2,3) by blast
    ultimately show ?thesis using p q False C'(4) by (subst sweep_loop.simps) (simp add: image_Un)
  qed
qed

text \<open>
  C19: when a task fails, the sweep cancels exactly the unfinished executions that depend, through any number of other
  unfinished executions, on a failed or cancelled one (one execution per task in the iteration).
\<close>

theorem failure_cancels_exactly_dependents:
  assumes "one_row_per_task execs"
  shows "set (unreachable_execs defs execs) = ex_id ` {e \<in> set execs. doomed defs execs (ex_taskId e)}"
  using sweep_loop_exact [of execs "{}" "status_by_task execs" defs] assms by (simp add: unreachable_execs_def overlay_def)

definition sample_exec :: "string \<Rightarrow> task_status \<Rightarrow> exec_row" where
  "sample_exec t st = (buildExecutionRow (''e'' @ t) ''i'' ''g'' \<lparr>sd_taskId = t, sd_taskName = t, sd_status = st, sd_modelSlug = None\<rparr>)"

definition sample_def :: "string \<Rightarrow> string list \<Rightarrow> task_row" where
  "sample_def i deps =
     \<lparr>tk_id = i, tk_groupId = ''g'', tk_name = i, tk_description = [], tk_status = T_Blocked, tk_dependsOn = deps,
      tk_workspaceId = None, tk_modelSlug = None, tk_teamId = None, tk_labels = [], tk_input = JNull, tk_sortOrder = 0\<rparr>"

definition chain_defs :: "task_row list" where
  "chain_defs = [sample_def ''a'' [], sample_def ''b'' [''a''], sample_def ''c'' [''b''], sample_def ''d'' []]"

definition chain_execs :: "exec_row list" where
  "chain_execs = [sample_exec ''c'' T_Blocked, sample_exec ''b'' T_Blocked, sample_exec ''a'' T_Failed, sample_exec ''d'' T_Running]"

lemma failure_cancels_exactly_dependents_witness:
  "ex_id ` {e \<in> set chain_execs. doomed chain_defs chain_execs (ex_taskId e)} = {''eb'', ''ec''}"
proof -
  have "one_row_per_task chain_execs" by code_simp
  moreover have "unreachable_execs chain_defs chain_execs = [''eb'', ''ec'']" by code_simp
  ultimately show ?thesis using failure_cancels_exactly_dependents [of chain_execs chain_defs] by simp
qed

end
