(* ===== verification/Rate_Limit.thy ===== *)
theory Rate_Limit
  imports Llm_Response
begin

text \<open>
  The classifier of usage and rate limit errors and the reader of a provider's cooldown hint
  (\<open>server/gateway/rate-limit.ts\<close>). The regular expressions are written out as scans of the text; an integer
  literal beyond the range of doubles is not finite.
\<close>

section \<open>Searching\<close>

text \<open>The positions of a text, each with the character before it.\<close>

fun found :: "(char option \<Rightarrow> string \<Rightarrow> bool) \<Rightarrow> char option \<Rightarrow> string \<Rightarrow> bool" where
  "found here before [] = here before []"
| "found here before (c # cs) = (here before (c # cs) \<or> found here (Some c) cs)"

definition word_char :: "char \<Rightarrow> bool" where
  "word_char c = (alnum (lower_char c) \<and> (of_char c :: nat) < 128 \<or> c = CHR ''_'')"

text \<open>A prefix, ignoring case, with an optional separator after its first part.\<close>

definition strip_sep_ci :: "string \<Rightarrow> (char \<Rightarrow> bool) \<Rightarrow> string \<Rightarrow> string \<Rightarrow> string option" where
  "strip_sep_ci a sep b t =
     (case strip_prefix_ci a t of
        None \<Rightarrow> None
      | Some r \<Rightarrow>
          (case r of
             c # cs \<Rightarrow> (if sep c \<and> strip_prefix_ci b cs \<noteq> None then strip_prefix_ci b cs else strip_prefix_ci b r)
           | [] \<Rightarrow> strip_prefix_ci b []))"

section \<open>The classifier\<close>

definition rate_limit_phrases :: "string list" where
  "rate_limit_phrases = [''too many requests'', ''usage limit'', ''resource_exhausted'', ''insufficient_quota'',
     ''overloaded_error'', ''retry-after'']"

definition status_429 :: "char option \<Rightarrow> string \<Rightarrow> bool" where
  "status_429 before t =
     ((case before of None \<Rightarrow> True | Some c \<Rightarrow> \<not> word_char c) \<and>
      (case strip_prefix_ci ''429'' t of
         None \<Rightarrow> False
       | Some [] \<Rightarrow> True
       | Some (c # cs) \<Rightarrow> \<not> word_char c))"

definition rate_limit_here :: "char option \<Rightarrow> string \<Rightarrow> bool" where
  "rate_limit_here before t =
     (strip_sep_ci ''rate'' (\<lambda>c. blank c \<or> c = CHR ''_'' \<or> c = CHR ''-'') ''limit'' t \<noteq> None \<or>
      status_429 before t \<or> list_ex (\<lambda>p. strip_prefix_ci p t \<noteq> None) rate_limit_phrases)"

definition isRateLimitError :: "string \<Rightarrow> bool" where
  "isRateLimitError t =
     (if t = [] then False
      else if contains ''quota'' (lower t) \<and> (contains ''exceed'' (lower t) \<or> contains ''exhaust'' (lower t)) then True
      else found rate_limit_here None t)"

section \<open>The cooldown hint\<close>

definition retry_head :: "string \<Rightarrow> string option" where
  "retry_head t =
     (case strip_sep_ci ''retry'' (\<lambda>c. blank c \<or> c = CHR ''-'') ''after'' t of
        Some r \<Rightarrow> Some r
      | None \<Rightarrow> strip_prefix_ci ''try again in'' t)"

definition letter :: "char \<Rightarrow> bool" where
  "letter c = (let n = of_char (lower_char c) :: nat in 97 \<le> n \<and> n \<le> 122 \<and> (of_char c :: nat) < 128)"

text \<open>The number and the unit after the phrase.\<close>

definition retry_tail :: "string \<Rightarrow> (nat \<times> string) option" where
  "retry_tail t =
     (let a = dropWhile blank t;
          b = dropWhile blank (case a of c # cs \<Rightarrow> if c = CHR '':'' then cs else a | [] \<Rightarrow> []);
          ds = takeWhile (\<lambda>c. digit_val c \<noteq> None) b;
          u = takeWhile letter (dropWhile blank (drop (length ds) b))
      in case parse_digits None ds of None \<Rightarrow> None | Some n \<Rightarrow> Some (n, lower u))"

fun first_retry :: "string \<Rightarrow> (nat \<times> string) option" where
  "first_retry t =
     (case Option.bind (retry_head t) retry_tail of
        Some r \<Rightarrow> Some r
      | None \<Rightarrow> (case t of [] \<Rightarrow> None | c # cs \<Rightarrow> first_retry cs))"

definition max_double :: nat where
  "max_double = 2 ^ 1024 - 2 ^ 970"

definition parseRetryAfterSeconds :: "string \<Rightarrow> nat option" where
  "parseRetryAfterSeconds t =
     (case first_retry t of
        None \<Rightarrow> None
      | Some (n, u) \<Rightarrow>
          (if \<not> n < max_double then None
           else Some (if take 1 u = ''h'' then n * 3600 else if take 1 u = ''m'' then n * 60 else n)))"

section \<open>What the hints mean\<close>

lemma digit_val_digit: "d < 10 \<Longrightarrow> digit_val (char_of (48 + d)) = Some d"
  by (simp add: digit_val_def)

lemma show_nat_digits: "list_all (\<lambda>c. digit_val c \<noteq> None) (show_nat n)"
proof (induction n rule: show_nat.induct)
  case (1 n)
  then show ?case by (subst show_nat.simps) (simp add: digit_val_digit)
qed

lemma parse_digits_append:
  "list_all (\<lambda>c. digit_val c \<noteq> None) xs \<Longrightarrow> xs \<noteq> [] \<or> acc \<noteq> None \<Longrightarrow>
    parse_digits acc (xs @ [c]) =
      (case digit_val c of None \<Rightarrow> parse_digits acc xs | Some d \<Rightarrow> Some (10 * the (parse_digits acc xs) + d))"
  by (induction xs arbitrary: acc) (auto split: option.splits)

lemma show_nat_nonempty: "show_nat n \<noteq> []"
  by (subst show_nat.simps) simp

lemma parse_show_nat: "parse_digits None (show_nat n) = Some n"
proof (induction n rule: show_nat.induct)
  case (1 n)
  show ?case
  proof (cases "n < 10")
    case True
    then show ?thesis by (subst show_nat.simps) (simp add: digit_val_digit)
  next
    case False
    with 1 have "parse_digits None (show_nat (n div 10) @ [char_of (48 + n mod 10)]) = Some (10 * (n div 10) + n mod 10)"
      using show_nat_digits [of "n div 10"] show_nat_nonempty [of "n div 10"]
      by (subst parse_digits_append) (simp_all add: digit_val_digit)
    with False show ?thesis by (subst show_nat.simps) simp
  qed
qed

lemma strip_prefix_ci_append: "list_all (\<lambda>c. lower_char c = c) p \<Longrightarrow> strip_prefix_ci p (p @ t) = Some t"
  by (induction p) simp_all

lemma retry_after_head: "retry_head (''retry after '' @ t) = Some (CHR '' '' # t)"
proof -
  have "strip_prefix_ci ''retry'' (''retry'' @ ('' after '' @ t)) = Some ('' after '' @ t)"
    by (rule strip_prefix_ci_append) code_simp
  moreover have "strip_prefix_ci ''after'' (''after'' @ ('' '' @ t)) = Some ('' '' @ t)"
    by (rule strip_prefix_ci_append) code_simp
  moreover have "blank (CHR '' '')" by code_simp
  ultimately show ?thesis by (simp add: retry_head_def strip_sep_ci_def)
qed

lemma retry_tail_unit:
  assumes "list_all letter u" "lower u = u"
  shows "retry_tail (CHR '' '' # show_nat n @ u) = Some (n, u)"
proof -
  have sp: "blank (CHR '' '')" by code_simp
  obtain c cs where c: "show_nat n = c # cs" using show_nat_nonempty [of n] by (cases "show_nat n") auto
  have dig: "digit_val c \<noteq> None" using show_nat_digits [of n] c by simp
  have nb: "\<not> blank x \<and> x \<noteq> CHR '':''" if "digit_val x \<noteq> None" for x
    using that by (auto simp: digit_val_def blank_def Let_def split: if_splits)
  have lt: "digit_val x = None \<and> \<not> blank x" if "letter x" for x
    using that by (auto simp: letter_def digit_val_def blank_def lower_char_def Let_def split: if_splits)
  have tn: "takeWhile (\<lambda>c. digit_val c \<noteq> None) u = []"
    using assms(1) lt [of "hd u"] by (cases u) auto
  have tw: "takeWhile (\<lambda>c. digit_val c \<noteq> None) (show_nat n @ u) = show_nat n"
    using show_nat_digits [of n] tn by (subst takeWhile_append2) (auto simp: list_all_iff)
  have dw: "dropWhile blank u = u"
    using assms(1) lt by (cases u) auto
  have tl: "takeWhile letter u = u" using assms(1) by (simp add: takeWhile_eq_all_conv list_all_iff)
  have "dropWhile blank (show_nat n @ u) = show_nat n @ u" using c nb [OF dig] by simp
  moreover from this sp have "dropWhile blank (CHR '' '' # show_nat n @ u) = show_nat n @ u" by simp
  moreover have "(case show_nat n @ u of [] \<Rightarrow> [] | x # xs \<Rightarrow> if x = CHR '':'' then xs else show_nat n @ u) = show_nat n @ u"
    using c nb [OF dig] by simp
  ultimately show ?thesis
    unfolding retry_tail_def Let_def by (simp only: tw dw tl
        append_Nil2 drop_append diff_self_eq_0 drop_all le_refl drop_0 append_Nil parse_show_nat assms(2) option.case)
qed

lemma retry_after_unit:
  assumes "n < max_double" "list_all letter u" "lower u = u"
  shows "parseRetryAfterSeconds (''retry after '' @ show_nat n @ u) =
    Some (if take 1 u = ''h'' then n * 3600 else if take 1 u = ''m'' then n * 60 else n)"
proof -
  have "first_retry (''retry after '' @ show_nat n @ u) = Some (n, u)"
    by (subst first_retry.simps) (simp add: retry_after_head [simplified] retry_tail_unit [OF assms(2,3)])
  with assms(1) show ?thesis by (simp add: parseRetryAfterSeconds_def)
qed

text \<open>
  a provider's cooldown hint is read back as what it says: after "retry after", a number with no unit or with
  the unit s means seconds, m minutes and h hours; any other unit that begins with m is read as minutes too,
  milliseconds among them.
\<close>

theorem retry_hint_roundtrip:
  assumes "n < max_double"
  shows "parseRetryAfterSeconds (''retry after '' @ show_nat n) = Some n \<and>
    parseRetryAfterSeconds (''retry after '' @ show_nat n @ ''s'') = Some n \<and>
    parseRetryAfterSeconds (''retry after '' @ show_nat n @ ''m'') = Some (60 * n) \<and>
    parseRetryAfterSeconds (''retry after '' @ show_nat n @ ''h'') = Some (3600 * n) \<and>
    parseRetryAfterSeconds (''retry after '' @ show_nat n @ ''ms'') = Some (60 * n)"
proof -
  have "list_all letter ''s''" "list_all letter ''m''" "list_all letter ''h''" "list_all letter ''ms''"
    "lower ''s'' = ''s''" "lower ''m'' = ''m''" "lower ''h'' = ''h''" "lower ''ms'' = ''ms''" "lower [] = []" by code_simp+
  with retry_after_unit [OF assms, of "[]"] retry_after_unit [OF assms, of "''s''"] retry_after_unit [OF assms, of "''m''"]
    retry_after_unit [OF assms, of "''h''"] retry_after_unit [OF assms, of "''ms''"]
  show ?thesis by (simp add: mult.commute)
qed

lemma retry_hint_roundtrip_witness:
  "show_nat 500 = ''500'' \<and> parseRetryAfterSeconds ''retry after 500s'' = Some 500 \<and>
   parseRetryAfterSeconds ''retry after 500ms'' = Some 30000"
proof -
  have s: "show_nat 500 = ''500''" by code_simp
  have "(500 :: nat) < max_double" by (simp add: max_double_def)
  from retry_hint_roundtrip [OF this] s show ?thesis by simp
qed

end
