(* ===== verification/Loop_Fsm.thy ===== *)
theory Loop_Fsm
  imports Convergence Rate_Limit Js_Date
begin

text \<open>
  The state machine of a consilium loop (\<open>server/services/consilium/consilium-loop-controller.ts\<close>,
  \<open>shared/schema.ts\<close>): the pure reducer \<open>reduce\<close> with its helpers. The extra columns of a transition are an
  update of the row; the clock is an argument.
\<close>

section \<open>Rows\<close>

datatype loop_state =
    Pending | Building_Context | Reviewing | Deciding | Developing | Awaiting_Merge | Throttled
  | Converged | Stopped_Cap | Escalated | Failed_Loop | Cancelled_Loop | Stopped

datatype loop_phase = Review_Phase | Develop_Phase

datatype review_mode = Single_Verifier | Full_Dispute

record loop_row =
  lo_id :: string
  lo_groupId :: string
  lo_state :: loop_state
  lo_round :: nat
  lo_maxRounds :: nat
  lo_repoPath :: string
  lo_lastReviewedCommit :: "string option"
  lo_reviewRef :: "string option"
  lo_reviewGate :: bool
  lo_reviewMode :: "review_mode option"
  lo_currentIterationNumber :: "nat option"
  lo_reviewRedrive :: "(nat \<times> nat) option"
  lo_devGroupId :: "string option"
  lo_prRef :: "string option"
  lo_headCommitAtReview :: "string option"
  lo_openP0 :: "nat option"
  lo_error :: "string option"
  lo_throttledPhase :: "loop_phase option"
  lo_throttledUntil :: "int option"
  lo_resumeAttempts :: nat
  lo_createdBy :: "string option"
  lo_updatedAt :: int
  lo_completedAt :: "int option"

fun is_terminal :: "loop_state \<Rightarrow> bool" where
  "is_terminal Converged = True"
| "is_terminal Stopped_Cap = True"
| "is_terminal Escalated = True"
| "is_terminal Failed_Loop = True"
| "is_terminal Cancelled_Loop = True"
| "is_terminal Stopped = True"
| "is_terminal _ = False"

definition isDevelopPromotable :: "loop_state \<Rightarrow> bool \<Rightarrow> bool" where
  "isDevelopPromotable st reviewGate =
     (st = Stopped_Cap \<or> st = Converged \<or> st = Escalated \<or> (reviewGate \<and> st = Deciding))"

section \<open>Events and transitions\<close>

datatype loop_event =
    Start
  | Context_Built
  | Review_Completed convergence_verdict
  | Review_Failed string
  | Review_Throttled
  | Decided convergence_verdict "nat list"
  | Dev_Completed "string option" string "string option" "string option" bool
  | Merge_Approved
  | Develop_Requested
  | Rereview_Requested
  | Retry_Requested loop_phase
  | Cancel "string option" "string option"
  | Finish "string option" "string option"

record loop_transition =
  tr_from :: loop_state
  tr_to :: loop_state
  tr_extra :: "loop_row \<Rightarrow> loop_row"

record reduce_opts =
  ro_verifyBeforeMerge :: bool
  ro_reviewGate :: bool
  ro_throttleCooldownSeconds :: nat

text \<open>The options a caller omits.\<close>

definition no_opts :: reduce_opts where
  "no_opts = \<lparr>ro_verifyBeforeMerge = False, ro_reviewGate = False, ro_throttleCooldownSeconds = 300\<rparr>"

section \<open>Helpers\<close>

definition anti_stall_min_round :: nat where "anti_stall_min_round = 3"

definition throttled_error_message :: string where
  "throttled_error_message = ''Agent usage/rate limit reached '' @ map char_of [226, 128, 148 :: nat] @
     '' paused; retry when your quota resets.''"

text \<open>The last three counts, newest last, do not decrease.\<close>

definition isAntiStall :: "nat list \<Rightarrow> nat \<Rightarrow> bool" where
  "isAntiStall series rd =
     (if rd < anti_stall_min_round \<or> length series < 3 then False
      else (case drop (length series - 3) series of
              [a, b, c] \<Rightarrow> c \<ge> b \<and> b \<ge> a
            | _ \<Rightarrow> False))"

definition resolveReviewMode :: "review_mode option \<Rightarrow> bool \<Rightarrow> review_mode" where
  "resolveReviewMode m verifyReviewEnabled =
     (case m of Some x \<Rightarrow> x | None \<Rightarrow> if verifyReviewEnabled then Single_Verifier else Full_Dispute)"

text \<open>The dash of the source is written as its UTF-8 bytes.\<close>

definition compose_explanation :: "string \<Rightarrow> int \<Rightarrow> string option \<Rightarrow> string option \<Rightarrow> string" where
  "compose_explanation what t actor reason =
     (let who = (case actor of Some a \<Rightarrow> if a \<noteq> [] \<and> trim a \<noteq> [] then trim a else ''system'' | None \<Rightarrow> ''system'');
          base = what @ '' by '' @ who @ '' at '' @ toISOString t
      in case map_option trim reason of
           Some r \<Rightarrow> if r \<noteq> [] then base @ '' '' @ map char_of [226, 128, 148 :: nat] @ '' '' @ r else base
         | None \<Rightarrow> base)"

definition composeCancelExplanation :: "int \<Rightarrow> string option \<Rightarrow> string option \<Rightarrow> string" where
  "composeCancelExplanation = compose_explanation ''Cancelled''"

definition composeFinishExplanation :: "int \<Rightarrow> string option \<Rightarrow> string option \<Rightarrow> string" where
  "composeFinishExplanation = compose_explanation ''Finished''"

text \<open>The action points a development round takes up.\<close>

datatype dev_scope = Scope_P0 | Scope_Top | Scope_All

definition tier_rank :: "action_point \<Rightarrow> nat" where
  "tier_rank ap =
     (if ap_priority ap = Some ''P0'' then 0
      else if ap_priority ap = Some ''P1'' then 1
      else if ap_priority ap = Some ''P2'' then 2
      else if ap_priority ap = Some ''P3'' then 3 else 4)"

text \<open>The minimum of an empty list only filters the empty list.\<close>

definition filterDevScope :: "action_point list \<Rightarrow> dev_scope option \<Rightarrow> action_point list" where
  "filterDevScope aps scope =
     (case scope of
        Some Scope_P0 \<Rightarrow> filter (\<lambda>ap. ap_priority ap = Some p0_priority) aps
      | Some Scope_Top \<Rightarrow> filter (\<lambda>ap. tier_rank ap = foldr min (map tier_rank aps) 4) aps
      | _ \<Rightarrow> aps)"

section \<open>The reducer\<close>

definition trans :: "loop_state \<Rightarrow> loop_state \<Rightarrow> (loop_row \<Rightarrow> loop_row) \<Rightarrow> loop_transition" where
  "trans a b f = \<lparr>tr_from = a, tr_to = b, tr_extra = f\<rparr>"

definition decide :: "int \<Rightarrow> convergence_verdict \<Rightarrow> nat list \<Rightarrow> bool \<Rightarrow> loop_transition" where
  "decide now verdict priorOpenP0 vbm =
     (let rd = length priorOpenP0
      in if cv_converged verdict
         then (if vbm \<and> rd \<ge> 2 then trans Deciding Awaiting_Merge (\<lambda>r. r\<lparr>lo_completedAt := Some now\<rparr>)
               else trans Deciding Converged (\<lambda>r. r\<lparr>lo_completedAt := Some now\<rparr>))
         else if isAntiStall priorOpenP0 rd then trans Deciding Escalated (\<lambda>r. r\<lparr>lo_completedAt := Some now\<rparr>)
         else trans Deciding Developing id)"

text \<open>The events every non-terminal state takes, and the ones only a human sends.\<close>

definition reduce_command :: "int \<Rightarrow> loop_state \<Rightarrow> loop_event \<Rightarrow> reduce_opts \<Rightarrow> loop_transition option" where
  "reduce_command now st ev opts =
     (case ev of
        Cancel reason actor \<Rightarrow>
          (if is_terminal st then None
           else Some (trans st Cancelled_Loop
             (\<lambda>r. r\<lparr>lo_completedAt := Some now, lo_error := Some (composeCancelExplanation now actor reason)\<rparr>)))
      | Finish reason actor \<Rightarrow>
          (if is_terminal st then None
           else Some (trans st Stopped
             (\<lambda>r. r\<lparr>lo_completedAt := Some now, lo_error := Some (composeFinishExplanation now actor reason)\<rparr>)))
      | Develop_Requested \<Rightarrow>
          (if st = Stopped_Cap \<or> st = Converged \<or> st = Escalated \<or> (ro_reviewGate opts \<and> st = Deciding)
           then Some (trans st Developing (\<lambda>r. r\<lparr>lo_completedAt := None, lo_error := None\<rparr>)) else None)
      | Rereview_Requested \<Rightarrow> (if st = Deciding then Some (trans Deciding Building_Context id) else None)
      | Retry_Requested phase \<Rightarrow>
          (if st \<noteq> Throttled then None
           else Some (trans Throttled (if phase = Develop_Phase then Developing else Building_Context)
             (\<lambda>r. r\<lparr>lo_throttledPhase := None, lo_error := None, lo_throttledUntil := None, lo_resumeAttempts := 0\<rparr>)))
      | _ \<Rightarrow> None)"

fun reduce_state :: "int \<Rightarrow> loop_state \<Rightarrow> loop_event \<Rightarrow> reduce_opts \<Rightarrow> loop_transition option" where
  "reduce_state now Pending ev opts = (if ev = Start then Some (trans Pending Building_Context id) else None)"
| "reduce_state now Building_Context ev opts = (if ev = Context_Built then Some (trans Building_Context Reviewing id) else None)"
| "reduce_state now Reviewing ev opts =
     (case ev of
        Review_Completed _ \<Rightarrow> Some (trans Reviewing Deciding id)
      | Review_Failed err \<Rightarrow>
          Some (trans Reviewing Failed_Loop (\<lambda>r. r\<lparr>lo_error := Some err, lo_completedAt := Some now\<rparr>))
      | Review_Throttled \<Rightarrow>
          Some (trans Reviewing Throttled
            (\<lambda>r. r\<lparr>lo_throttledPhase := Some Review_Phase, lo_error := Some throttled_error_message,
                  lo_throttledUntil := Some (now + 1000 * int (ro_throttleCooldownSeconds opts))\<rparr>))
      | _ \<Rightarrow> None)"
| "reduce_state now Deciding ev opts =
     (case ev of Decided v prior \<Rightarrow> Some (decide now v prior (ro_verifyBeforeMerge opts)) | _ \<Rightarrow> None)"
| "reduce_state now Developing ev opts =
     (case ev of
        Dev_Completed prRef headCommit err integrationBase rateLimited \<Rightarrow>
          (if rateLimited
           then (let secs = (case parseRetryAfterSeconds (case err of None \<Rightarrow> [] | Some e \<Rightarrow> e) of
                               Some n \<Rightarrow> n | None \<Rightarrow> ro_throttleCooldownSeconds opts)
                 in Some (trans Developing Throttled
                      (\<lambda>r. r\<lparr>lo_throttledPhase := Some Develop_Phase, lo_error := Some throttled_error_message,
                            lo_throttledUntil := Some (now + 1000 * int secs)\<rparr>)))
           else (let has_error = (case err of None \<Rightarrow> False | Some e \<Rightarrow> e \<noteq> [])
                 in Some (trans Developing (if ro_verifyBeforeMerge opts \<and> \<not> has_error then Building_Context else Awaiting_Merge)
                      (\<lambda>r. (let r1 = r\<lparr>lo_prRef := prRef, lo_headCommitAtReview := Some headCommit\<rparr>
                            in if has_error then r1\<lparr>lo_error := err\<rparr> else r1)))))
      | _ \<Rightarrow> None)"
| "reduce_state now Awaiting_Merge ev opts =
     (if ev = Merge_Approved
      then (if ro_verifyBeforeMerge opts then Some (trans Awaiting_Merge Converged (\<lambda>r. r\<lparr>lo_completedAt := Some now\<rparr>))
            else Some (trans Awaiting_Merge Building_Context id))
      else None)"
| "reduce_state now _ ev opts = None"

fun is_command :: "loop_event \<Rightarrow> bool" where
  "is_command (Cancel _ _) = True"
| "is_command (Finish _ _) = True"
| "is_command Develop_Requested = True"
| "is_command Rereview_Requested = True"
| "is_command (Retry_Requested _) = True"
| "is_command _ = False"

definition reduce :: "int \<Rightarrow> loop_state \<Rightarrow> loop_event \<Rightarrow> reduce_opts \<Rightarrow> loop_transition option" where
  "reduce now st ev opts = (if is_command ev then reduce_command now st ev opts else reduce_state now st ev opts)"

end
