(* ===== verification/Loop_Store.thy ===== *)
theory Loop_Store
  imports Loop_Fsm
begin

text \<open>
  The consilium loops and their rounds in the in-memory storage (\<open>MemStorage\<close> of \<open>server/storage.ts\<close>): the
  compare-and-swap on the state, the two redrive claims and the unique round append. The fields of a round
  that only display code reads are left out.
\<close>

section \<open>State\<close>

record round_row =
  rr_id :: string
  rr_loopId :: string
  rr_round :: nat
  rr_iterationNumber :: nat
  rr_converged :: "bool option"
  rr_openP0 :: "nat option"
  rr_openActionPoints :: "action_point list option"
  rr_verdict :: "round_verdict option"
  rr_participants :: "json list option"
  rr_baselineCommit :: "string option"
  rr_headCommit :: "string option"
  rr_testSummary :: "string option"

record loop_store =
  ls_loops :: "(string, loop_row) jsmap"
  ls_rounds :: "(string, round_row) jsmap"

definition empty_loop_store :: loop_store where
  "empty_loop_store = \<lparr>ls_loops = [], ls_rounds = []\<rparr>"

section \<open>Loops\<close>

definition isLoopActive :: "loop_row \<Rightarrow> bool" where
  "isLoopActive r = (\<not> is_terminal (lo_state r))"

definition group_active :: "loop_store \<Rightarrow> string \<Rightarrow> bool" where
  "group_active s gid = list_ex (\<lambda>l. lo_groupId l = gid \<and> isLoopActive l) (jvals (ls_loops s))"

definition createLoop :: "int \<Rightarrow> loop_row \<Rightarrow> loop_store \<Rightarrow> string + loop_store" where
  "createLoop now row s =
     (if \<not> is_terminal (lo_state row) \<and> group_active s (lo_groupId row)
      then Inl ''consilium_loops_one_active_per_group''
      else Inr (s\<lparr>ls_loops := jset (lo_id row) (row\<lparr>lo_updatedAt := now\<rparr>) (ls_loops s)\<rparr>))"

definition getLoop :: "loop_store \<Rightarrow> string \<Rightarrow> loop_row option" where
  "getLoop s i = jget (ls_loops s) i"

definition getActiveLoopByGroup :: "loop_store \<Rightarrow> string \<Rightarrow> loop_row option" where
  "getActiveLoopByGroup s gid = find (\<lambda>l. lo_groupId l = gid \<and> isLoopActive l) (jvals (ls_loops s))"

definition updateLoop :: "int \<Rightarrow> string \<Rightarrow> (loop_row \<Rightarrow> loop_row) \<Rightarrow> loop_store \<Rightarrow> (loop_row \<times> loop_store) option" where
  "updateLoop now i f s =
     (case jget (ls_loops s) i of
        None \<Rightarrow> None
      | Some r \<Rightarrow> (let r' = (f r)\<lparr>lo_updatedAt := now\<rparr> in Some (r', s\<lparr>ls_loops := jset i r' (ls_loops s)\<rparr>)))"

definition casLoopState :: "int \<Rightarrow> string \<Rightarrow> loop_state \<Rightarrow> loop_state \<Rightarrow> (loop_row \<Rightarrow> loop_row) \<Rightarrow> loop_store \<Rightarrow>
    (loop_row \<times> loop_store) option" where
  "casLoopState now i expected nxt extra s =
     (case jget (ls_loops s) i of
        None \<Rightarrow> None
      | Some r \<Rightarrow>
          (if lo_state r \<noteq> expected then None
           else (let r' = (extra r)\<lparr>lo_state := nxt, lo_updatedAt := now\<rparr> in Some (r', s\<lparr>ls_loops := jset i r' (ls_loops s)\<rparr>))))"

definition claimRedrive :: "int \<Rightarrow> string \<Rightarrow> loop_state \<Rightarrow> int \<Rightarrow> loop_store \<Rightarrow> (loop_row \<times> loop_store) option" where
  "claimRedrive now i expected graceMs s =
     (case jget (ls_loops s) i of
        None \<Rightarrow> None
      | Some r \<Rightarrow>
          (if lo_state r \<noteq> expected then None
           else if \<not> (if expected = Reviewing then lo_currentIterationNumber r = None
                       else if expected = Developing then lo_devGroupId r = None else False) then None
           else if now - lo_updatedAt r < graceMs then None
           else (let r' = r\<lparr>lo_updatedAt := now\<rparr> in Some (r', s\<lparr>ls_loops := jset i r' (ls_loops s)\<rparr>))))"

definition claimReviewRedrive :: "int \<Rightarrow> string \<Rightarrow> nat \<Rightarrow> int \<Rightarrow> loop_store \<Rightarrow> (loop_row \<times> loop_store) option" where
  "claimReviewRedrive now i expectedIteration staleThreshold s =
     (case jget (ls_loops s) i of
        None \<Rightarrow> None
      | Some r \<Rightarrow>
          (if lo_state r \<noteq> Reviewing then None
           else if lo_currentIterationNumber r \<noteq> Some expectedIteration then None
           else if lo_updatedAt r \<ge> staleThreshold then None
           else (let r' = r\<lparr>lo_updatedAt := now\<rparr> in Some (r', s\<lparr>ls_loops := jset i r' (ls_loops s)\<rparr>))))"

section \<open>Rounds\<close>

text \<open>\<open>None\<close> is the unique violation.\<close>

definition appendLoopRound :: "round_row \<Rightarrow> loop_store \<Rightarrow> loop_store option" where
  "appendLoopRound row s =
     (if list_ex (\<lambda>r. rr_loopId r = rr_loopId row \<and> rr_round r = rr_round row) (jvals (ls_rounds s)) then None
      else Some (s\<lparr>ls_rounds := jset (rr_id row) row (ls_rounds s)\<rparr>))"

definition getLoopRounds :: "loop_store \<Rightarrow> string \<Rightarrow> round_row list" where
  "getLoopRounds s i = sort_key rr_round (filter (\<lambda>r. rr_loopId r = i) (jvals (ls_rounds s)))"

text \<open>The first row of the round gets the summary.\<close>

definition updateLoopRoundTestSummary :: "string \<Rightarrow> nat \<Rightarrow> string \<Rightarrow> loop_store \<Rightarrow> loop_store" where
  "updateLoopRoundTestSummary i rd summary s =
     (case find (\<lambda>(k, r). rr_loopId r = i \<and> rr_round r = rd) (ls_rounds s) of
        None \<Rightarrow> s
      | Some (k, r) \<Rightarrow> s\<lparr>ls_rounds := jset (rr_id r) (r\<lparr>rr_testSummary := Some summary\<rparr>) (ls_rounds s)\<rparr>)"

section \<open>Facts\<close>

lemma getLoop_simps [simp]:
  "updateLoop now i f s = Some (r, s') \<Longrightarrow> getLoop s' k = (if k = i then Some r else getLoop s k)"
  "casLoopState now i a b f s = Some (r, s') \<Longrightarrow> getLoop s' k = (if k = i then Some r else getLoop s k)"
  "claimRedrive now i a g s = Some (r, s') \<Longrightarrow> getLoop s' k = (if k = i then Some r else getLoop s k)"
  "claimReviewRedrive now i n g s = Some (r, s') \<Longrightarrow> getLoop s' k = (if k = i then Some r else getLoop s k)"
  by (auto simp: getLoop_def updateLoop_def casLoopState_def claimRedrive_def claimReviewRedrive_def Let_def
      split: option.splits if_splits)

lemma cas_row:
  "casLoopState now i a b f s = Some (r, s') \<Longrightarrow>
    \<exists>r0. getLoop s i = Some r0 \<and> lo_state r0 = a \<and> r = (f r0)\<lparr>lo_state := b, lo_updatedAt := now\<rparr> \<and> ls_rounds s' = ls_rounds s"
  by (auto simp: getLoop_def casLoopState_def Let_def split: option.splits if_splits)

lemma update_row:
  "updateLoop now i f s = Some (r, s') \<Longrightarrow>
    \<exists>r0. getLoop s i = Some r0 \<and> r = (f r0)\<lparr>lo_updatedAt := now\<rparr> \<and> ls_rounds s' = ls_rounds s"
  by (auto simp: getLoop_def updateLoop_def Let_def split: option.splits)

end
