(* ===== verification/Loop_Controller.thy ===== *)
theory Loop_Controller
  imports Loop_Store Task_Orchestrator
begin

text \<open>
  The controller around the reducer (\<open>ConsiliumLoopController\<close> of
  \<open>server/services/consilium/consilium-loop-controller.ts\<close>), over the loop store and the task orchestrator.
  A call of the class is one step; the develop commands are two, the reservation of a slot and the launch, so that
  commands interleave between them. The registries hold references to
  run objects that the background work settles later. What git, the models and the clock answer is a record of
  the call. The planner, which only writes the archetype columns, the spec hook and logging are left out.
\<close>

section \<open>State\<close>

record loop_cfg =
  lf_pollIntervalMs :: int
  lf_reviewStallTimeoutMs :: int
  lf_reviewMaxRedrives :: nat
  lf_taskTimeoutMs :: int
  lf_directReview :: bool
  lf_verifyBeforeMerge :: bool
  lf_verifyReview :: bool
  lf_autoResume :: bool
  lf_cooldownSeconds :: nat
  lf_maxAutoResumeAttempts :: nat
  lf_orch :: orch_cfg

record dev_result =
  dv_prRef :: "string option"
  dv_headCommit :: string
  dv_error :: "string option"
  dv_integrationBase :: "string option"
  dv_rateLimited :: bool
  dv_testSummary :: "string option"

record sdlc_run =
  sd_round :: nat
  sd_done :: bool
  sd_result :: "dev_result option"
  sd_viaCommand :: bool

record review_result =
  rv_converged :: bool
  rv_openP0 :: nat
  rv_openActionPoints :: "action_point list"
  rv_judge :: "round_verdict option"
  rv_participants :: "json list option"
  rv_error :: "string option"
  rv_rateLimited :: bool

record review_run =
  rn_round :: nat
  rn_done :: bool
  rn_result :: "review_result option"

text \<open>The work the controller launches: a review of a round, a development of a round.\<close>

datatype dispatch = Dispatch_Review string nat | Dispatch_Dev string nat bool

record loop_ctl =
  lc_store :: loop_store
  lc_orch :: orch
  lc_sdlcObjects :: "(nat, sdlc_run) jsmap"
  lc_sdlcRuns :: "(string, nat) jsmap"
  lc_reviewObjects :: "(nat, review_run) jsmap"
  lc_reviewRuns :: "(string, nat) jsmap"
  lc_next :: nat
  lc_inFlight :: "string list"
  lc_reservations :: nat
  lc_dispatched :: "dispatch list"

datatype diff_outcome = Diff_Ok string | Diff_Unresolved string | Diff_Error string

record loop_world =
  lw_now :: int
  lw_head :: string
  lw_diff :: diff_outcome
  lw_iterationId :: string
  lw_executionIds :: "string list"
  lw_roundId :: string
  lw_verifier :: task_row
  lw_lastLlm :: "int option"
  lw_repoAllowed :: bool
  lw_repoWorkspace :: bool

section \<open>Constants and configuration\<close>

definition sdlc_dev_grace_ms :: int where "sdlc_dev_grace_ms = 660000"
definition review_runner_waves :: int where "review_runner_waves = 3"
definition max_concurrent_dev_handoffs :: nat where "max_concurrent_dev_handoffs = 3"
definition review_run_failed :: string where "review_run_failed = ''review run failed''"

definition redriveGraceMs :: "loop_cfg \<Rightarrow> loop_state \<Rightarrow> int" where
  "redriveGraceMs cfg st =
     (let base = max (2 * lf_pollIntervalMs cfg) 30000
      in if st = Developing then max base (lf_taskTimeoutMs cfg + sdlc_dev_grace_ms)
         else if st = Reviewing \<and> lf_directReview cfg then max base (lf_taskTimeoutMs cfg * review_runner_waves)
         else base)"

definition reviewRedriveCount :: "loop_row \<Rightarrow> nat" where
  "reviewRedriveCount l = (case lo_reviewRedrive l of Some (rd, n) \<Rightarrow> if rd = lo_round l then n else 0 | None \<Rightarrow> 0)"

definition opts_of :: "loop_cfg \<Rightarrow> reduce_opts" where
  "opts_of cfg = \<lparr>ro_verifyBeforeMerge = lf_verifyBeforeMerge cfg, ro_reviewGate = False,
     ro_throttleCooldownSeconds = lf_cooldownSeconds cfg\<rparr>"

section \<open>The registries\<close>

definition sdlc_of :: "loop_ctl \<Rightarrow> string \<Rightarrow> sdlc_run option" where
  "sdlc_of c i = Option.bind (jget (lc_sdlcRuns c) i) (jget (lc_sdlcObjects c))"

definition review_of :: "loop_ctl \<Rightarrow> string \<Rightarrow> review_run option" where
  "review_of c i = Option.bind (jget (lc_reviewRuns c) i) (jget (lc_reviewObjects c))"

definition inFlightDevCommandCount :: "loop_ctl \<Rightarrow> nat" where
  "inFlightDevCommandCount c =
     length (filter (\<lambda>(i, k). case jget (lc_sdlcObjects c) k of Some r \<Rightarrow> \<not> sd_done r \<and> sd_viaCommand r | None \<Rightarrow> False) (lc_sdlcRuns c))"

definition dispatchSdlc :: "loop_row \<Rightarrow> bool \<Rightarrow> loop_ctl \<Rightarrow> loop_ctl" where
  "dispatchSdlc l viaCommand c =
     c\<lparr>lc_sdlcObjects := jset (lc_next c) \<lparr>sd_round = lo_round l, sd_done = False, sd_result = None, sd_viaCommand = viaCommand\<rparr> (lc_sdlcObjects c),
       lc_sdlcRuns := jset (lo_id l) (lc_next c) (lc_sdlcRuns c), lc_next := lc_next c + 1,
       lc_dispatched := lc_dispatched c @ [Dispatch_Dev (lo_id l) (lo_round l) viaCommand]\<rparr>"

definition settled_good_pr :: "nat \<Rightarrow> dev_result \<Rightarrow> sdlc_run \<Rightarrow> bool" where
  "settled_good_pr rd res e =
     (sd_done e \<and> sd_round e = rd \<and> (case sd_result e of Some x \<Rightarrow> dv_prRef x \<noteq> None \<and> dv_prRef x \<noteq> Some [] | None \<Rightarrow> False) \<and>
      (dv_prRef res = None \<or> dv_prRef res = Some []))"

definition settleSdlcRun :: "string \<Rightarrow> nat \<Rightarrow> dev_result \<Rightarrow> loop_ctl \<Rightarrow> loop_ctl" where
  "settleSdlcRun i k res c =
     (case jget (lc_sdlcObjects c) k of
        None \<Rightarrow> c
      | Some run \<Rightarrow>
          (let kept = (case sdlc_of c i of Some e \<Rightarrow> if settled_good_pr (sd_round run) res e then sd_result e else Some res
                       | None \<Rightarrow> Some res)
           in c\<lparr>lc_sdlcObjects := jset k (run\<lparr>sd_done := True, sd_result := kept\<rparr>) (lc_sdlcObjects c)\<rparr>))"

definition sdlc_settled :: "string \<Rightarrow> nat \<Rightarrow> dev_result \<Rightarrow> loop_ctl \<Rightarrow> loop_ctl" where
  "sdlc_settled i k res c =
     (let c1 = settleSdlcRun i k res c
      in case (jget (lc_sdlcObjects c) k, dv_testSummary res) of
           (Some run, Some t) \<Rightarrow>
             (if trim t \<noteq> [] then c1\<lparr>lc_store := updateLoopRoundTestSummary i (sd_round run) t (lc_store c1)\<rparr> else c1)
         | _ \<Rightarrow> c1)"

definition dispatchReview :: "loop_row \<Rightarrow> loop_ctl \<Rightarrow> loop_ctl" where
  "dispatchReview l c =
     c\<lparr>lc_reviewObjects := jset (lc_next c) \<lparr>rn_round = lo_round l, rn_done = False, rn_result = None\<rparr> (lc_reviewObjects c),
       lc_reviewRuns := jset (lo_id l) (lc_next c) (lc_reviewRuns c), lc_next := lc_next c + 1,
       lc_dispatched := lc_dispatched c @ [Dispatch_Review (lo_id l) (lo_round l)]\<rparr>"

definition has_error :: "review_result \<Rightarrow> bool" where
  "has_error r = (rv_error r \<noteq> None \<and> rv_error r \<noteq> Some [])"

definition settleReviewRun :: "string \<Rightarrow> nat \<Rightarrow> review_result \<Rightarrow> loop_ctl \<Rightarrow> loop_ctl" where
  "settleReviewRun i k res c =
     (case jget (lc_reviewObjects c) k of
        None \<Rightarrow> c
      | Some run \<Rightarrow>
          (let kept = (case review_of c i of
                         Some e \<Rightarrow> (if rn_done e \<and> rn_round e = rn_round run \<and> has_error res \<and>
                                      (case rn_result e of Some x \<Rightarrow> \<not> has_error x | None \<Rightarrow> False)
                                   then rn_result e else Some res)
                       | None \<Rightarrow> Some res)
           in c\<lparr>lc_reviewObjects := jset k (run\<lparr>rn_done := True, rn_result := kept\<rparr>) (lc_reviewObjects c)\<rparr>))"

section \<open>Verdicts\<close>

definition titled :: "json \<Rightarrow> bool" where
  "titled v = (case v of JObj ob \<Rightarrow> (case jget ob ''title'' of Some (JStr _) \<Rightarrow> True | _ \<Rightarrow> False) | _ \<Rightarrow> False)"

fun pickJudge_loop :: "json option list \<Rightarrow> json option \<Rightarrow> json option" where
  "pickJudge_loop [] fallback = fallback"
| "pickJudge_loop (v # vs) fallback =
     (case v of
        Some (JObj ob) \<Rightarrow>
          (let points = (case jget ob ''action_points'' of Some (JArr xs) \<Rightarrow> list_ex titled xs | _ \<Rightarrow> False);
               convergence = jget ob ''convergence'' \<noteq> None;
               verdict = (case jget ob ''verdict'' of Some (JStr _) \<Rightarrow> True | _ \<Rightarrow> False)
           in if points \<or> convergence then v
              else if verdict then pickJudge_loop vs (if fallback = None then v else fallback)
              else pickJudge_loop vs fallback)
      | _ \<Rightarrow> pickJudge_loop vs fallback)"

definition pickJudgeOutput :: "json option list \<Rightarrow> json option" where
  "pickJudgeOutput outputs = pickJudge_loop outputs None"

definition currentRoundRow :: "loop_row \<Rightarrow> loop_ctl \<Rightarrow> round_row option" where
  "currentRoundRow l c = find (\<lambda>r. rr_round r = lo_round l) (getLoopRounds (lc_store c) (lo_id l))"

definition runner_round :: "loop_row \<Rightarrow> loop_ctl \<Rightarrow> round_row option" where
  "runner_round l c =
     (if lo_currentIterationNumber l \<noteq> None then None
      else case currentRoundRow l c of Some r \<Rightarrow> if rr_participants r \<noteq> None then Some r else None | None \<Rightarrow> None)"

text \<open>\<open>None\<close>: no current iteration or row.\<close>

definition resolveJudgeOutput :: "loop_row \<Rightarrow> loop_ctl \<Rightarrow> json option" where
  "resolveJudgeOutput l c =
     (case lo_currentIterationNumber l of
        None \<Rightarrow> None
      | Some n \<Rightarrow>
          (case getIteration (or_store (lc_orch c)) (lo_groupId l) n of
             None \<Rightarrow> None
           | Some it \<Rightarrow>
               pickJudgeOutput (map ex_output (getExecutionsByIteration (or_store (lc_orch c)) (lo_groupId l) (it_id it)))))"

definition resolveVerdict :: "loop_row \<Rightarrow> loop_ctl \<Rightarrow> convergence_verdict option" where
  "resolveVerdict l c =
     (case runner_round l c of
        Some r \<Rightarrow>
          Some \<lparr>cv_converged = (case rr_converged r of Some b \<Rightarrow> b | None \<Rightarrow> False),
                cv_openP0 = (case rr_openP0 r of Some n \<Rightarrow> n | None \<Rightarrow> 0),
                cv_openActionPoints = (case rr_openActionPoints r of Some ps \<Rightarrow> ps | None \<Rightarrow> [])\<rparr>
      | None \<Rightarrow> (case resolveJudgeOutput l c of None \<Rightarrow> None | Some v \<Rightarrow> Some (readConvergence (Some v))))"

definition resolveDevActionPoints :: "loop_row \<Rightarrow> loop_ctl \<Rightarrow> action_point list" where
  "resolveDevActionPoints l c =
     (case runner_round l c of
        Some r \<Rightarrow> (case rr_verdict r of Some v \<Rightarrow> rv_actionPoints v | None \<Rightarrow> [])
      | None \<Rightarrow> (case resolveJudgeOutput l c of None \<Rightarrow> [] | Some v \<Rightarrow> extractActionPoints (Some v)))"

section \<open>Commits and rounds\<close>

definition commit :: "loop_world \<Rightarrow> loop_row \<Rightarrow> loop_transition \<Rightarrow> (loop_row \<Rightarrow> loop_row) \<Rightarrow> loop_ctl \<Rightarrow> (loop_row \<times> loop_ctl) option" where
  "commit w l t cols c =
     (case casLoopState (lw_now w) (lo_id l) (tr_from t) (tr_to t) (\<lambda>r. cols (tr_extra t r)) (lc_store c) of
        None \<Rightarrow> None
      | Some (won, st) \<Rightarrow> Some (won, c\<lparr>lc_store := st\<rparr>))"

definition update_loop :: "loop_world \<Rightarrow> loop_row \<Rightarrow> (loop_row \<Rightarrow> loop_row) \<Rightarrow> loop_ctl \<Rightarrow> loop_row \<times> loop_ctl" where
  "update_loop w l f c =
     (case updateLoop (lw_now w) (lo_id l) f (lc_store c) of
        None \<Rightarrow> (l, c)
      | Some (r, st) \<Rightarrow> (r, c\<lparr>lc_store := st\<rparr>))"

definition round_audit :: "loop_world \<Rightarrow> loop_row \<Rightarrow> convergence_verdict \<Rightarrow> review_result option \<Rightarrow> loop_ctl \<Rightarrow> round_row" where
  "round_audit w l v audit c =
     \<lparr>rr_id = lw_roundId w, rr_loopId = lo_id l, rr_round = lo_round l,
      rr_iterationNumber = (case lo_currentIterationNumber l of Some n \<Rightarrow> n | None \<Rightarrow> lo_round l),
      rr_converged = Some (cv_converged v), rr_openP0 = Some (cv_openP0 v),
      rr_openActionPoints = Some (cv_openActionPoints v),
      rr_verdict = (case audit of Some a \<Rightarrow> rv_judge a | None \<Rightarrow> readJudgeVerdict (resolveJudgeOutput l c)),
      rr_participants = (case audit of Some a \<Rightarrow> rv_participants a | None \<Rightarrow> None),
      rr_baselineCommit = lo_lastReviewedCommit l, rr_headCommit = Some (lw_head w), rr_testSummary = None\<rparr>"

text \<open>A second append of a round changes nothing.\<close>

definition recordRound :: "loop_world \<Rightarrow> loop_row \<Rightarrow> convergence_verdict \<Rightarrow> review_result option \<Rightarrow> loop_ctl \<Rightarrow> loop_ctl" where
  "recordRound w l v audit c =
     (case appendLoopRound (round_audit w l v audit c) (lc_store c) of None \<Rightarrow> c | Some st \<Rightarrow> c\<lparr>lc_store := st\<rparr>)"

section \<open>Launching a review\<close>

definition verifier_task_name :: string where "verifier_task_name = ''Verifier''"

text \<open>All tasks of the group give way to one verifier task, unless it is already alone.\<close>

definition swapToSingleVerifier :: "loop_world \<Rightarrow> loop_row \<Rightarrow> task_store \<Rightarrow> task_store" where
  "swapToSingleVerifier w l st =
     (case getTasksByGroup st (lo_groupId l) of
        [t] \<Rightarrow> (if tk_name t = verifier_task_name then st
               else createTask ((lw_verifier w)\<lparr>tk_groupId := lo_groupId l\<rparr>) (deleteTask (tk_id t) st))
      | ts \<Rightarrow> createTask ((lw_verifier w)\<lparr>tk_groupId := lo_groupId l\<rparr>) (foldl (\<lambda>s t. deleteTask (tk_id t) s) st ts))"

datatype review_start =
    Round_Started "loop_row \<Rightarrow> loop_row"
  | Ref_Unresolvable string
  | Context_Failed string
  | Start_Threw start_error

definition startReviewRound :: "loop_cfg \<Rightarrow> loop_world \<Rightarrow> bool \<Rightarrow> loop_row \<Rightarrow> loop_ctl \<Rightarrow> review_start \<times> loop_ctl" where
  "startReviewRound cfg w relaunch l c =
     (let nextRound = (if relaunch then lo_round l else lo_round l + 1)
      in if lf_directReview cfg
         then (case lw_diff w of
                 Diff_Unresolved msg \<Rightarrow> (Ref_Unresolvable msg, c)
               | _ \<Rightarrow>
                   (Round_Started (\<lambda>r. r\<lparr>lo_round := nextRound, lo_openP0 := None, lo_currentIterationNumber := None\<rparr>),
                    dispatchReview (l\<lparr>lo_round := nextRound\<rparr>) c))
         else (case lw_diff w of
                 Diff_Unresolved msg \<Rightarrow> (Ref_Unresolvable msg, c)
               | Diff_Error msg \<Rightarrow> (Context_Failed msg, c)
               | Diff_Ok input \<Rightarrow>
                   (case updateTaskGroup (lo_groupId l) (\<lambda>g. g\<lparr>gp_input := input\<rparr>) (or_store (lc_orch c)) of
                      Inl e \<Rightarrow> (Start_Threw (Start_Store_Error e), c)
                    | Inr st1 \<Rightarrow>
                        (let st2 = (if nextRound > 1 \<and> resolveReviewMode (lo_reviewMode l) (lf_verifyReview cfg) = Single_Verifier
                                    then swapToSingleVerifier w l st1 else st1);
                             o1 = (lc_orch c)\<lparr>or_store := st2\<rparr>
                         in case startGroup (lf_orch cfg) (lw_now w) (lw_iterationId w) (lw_executionIds w) (lo_groupId l) (lo_createdBy l) o1 of
                              Inl e \<Rightarrow> (Start_Threw e, c\<lparr>lc_orch := o1\<rparr>)
                            | Inr o2 \<Rightarrow>
                                (Round_Started (\<lambda>r. r\<lparr>lo_round := nextRound,
                                     lo_currentIterationNumber := map_option it_number (getLatestIteration (or_store o2) (lo_groupId l)),
                                     lo_openP0 := None\<rparr>),
                                 c\<lparr>lc_orch := o2, lc_dispatched := lc_dispatched c @ [Dispatch_Review (lo_id l) nextRound]\<rparr>)))))"

definition failUnresolvedReview :: "loop_world \<Rightarrow> loop_row \<Rightarrow> string \<Rightarrow> loop_ctl \<Rightarrow> (loop_row \<times> loop_ctl) option" where
  "failUnresolvedReview w l reason c =
     (case reduce (lw_now w) Reviewing (Review_Failed reason) no_opts of
        None \<Rightarrow> None | Some t \<Rightarrow> commit w l t id c)"

section \<open>Launching a development\<close>

definition startDevHandoff :: "loop_world \<Rightarrow> loop_row \<Rightarrow> convergence_verdict \<Rightarrow> bool \<Rightarrow> loop_ctl \<Rightarrow> (loop_row \<Rightarrow> loop_row) \<times> loop_ctl" where
  "startDevHandoff w l v viaCommand c =
     (\<lambda>r. r\<lparr>lo_openP0 := Some (cv_openP0 v)\<rparr>, dispatchSdlc l viaCommand (recordRound w l v None c))"

section \<open>Side effects of a won transition\<close>

text \<open>The columns to add, or the failure that reached the caller.\<close>

definition branch_name :: "string \<Rightarrow> nat \<Rightarrow> string" where
  "branch_name i rd = ''consilium/loop-'' @ i @ ''/round-'' @ show_nat rd"

definition runSideEffect :: "loop_cfg \<Rightarrow> loop_world \<Rightarrow> loop_row \<Rightarrow> loop_transition \<Rightarrow> loop_event \<Rightarrow> loop_ctl \<Rightarrow>
    (start_error + (loop_row \<Rightarrow> loop_row) option) \<times> loop_ctl" where
  "runSideEffect cfg w l t ev c =
     (if tr_to t = Reviewing
      then (case startReviewRound cfg w False l c of
              (Ref_Unresolvable msg, c1) \<Rightarrow>
                (Inr None, (case failUnresolvedReview w l msg c1 of None \<Rightarrow> c1 | Some (_, c2) \<Rightarrow> c2))
            | (Context_Failed msg, c1) \<Rightarrow> (Inr (Some (\<lambda>r. r\<lparr>lo_error := Some msg\<rparr>)), c1)
            | (Round_Started f, c1) \<Rightarrow> (Inr (Some f), c1)
            | (Start_Threw e, c1) \<Rightarrow> (Inl e, c1))
      else if tr_from t = Reviewing
      then (Inr None,
            (case review_of c (lo_id l) of
               Some run \<Rightarrow>
                 (if rn_round run = lo_round l \<and> rn_done run
                  then (case rn_result run of
                          Some res \<Rightarrow>
                            (let c1 = (case ev of
                                         Review_Completed v \<Rightarrow> if \<not> has_error res then recordRound w l v (Some res) c else c
                                       | _ \<Rightarrow> c)
                             in c1\<lparr>lc_reviewRuns := jdel (lo_id l) (lc_reviewRuns c1)\<rparr>)
                        | None \<Rightarrow> c)
                  else c)
             | None \<Rightarrow> c))
      else (case ev of
              Decided v prior \<Rightarrow>
                (if tr_to t = Developing then (let (f, c1) = startDevHandoff w l v False c in (Inr (Some f), c1))
                 else if tr_to t = Awaiting_Merge
                 then (Inr None, recordRound w l v None (c\<lparr>lc_sdlcRuns := jdel (lo_id l) (lc_sdlcRuns c)\<rparr>))
                 else if tr_to t = Converged \<or> tr_to t = Stopped_Cap \<or> tr_to t = Escalated then (Inr None, recordRound w l v None c)
                 else (Inr None, c))
            | Dev_Completed prRef head err base limited \<Rightarrow>
                (if tr_to t = Building_Context
                 then (Inr (Some (\<lambda>r. let r1 = r\<lparr>lo_reviewRef := Some (branch_name (lo_id l) (lo_round l))\<rparr>
                                     in case base of Some b \<Rightarrow> if b \<noteq> [] then r1\<lparr>lo_lastReviewedCommit := Some b\<rparr> else r1 | None \<Rightarrow> r1)), c)
                 else if tr_to t = Awaiting_Merge then (Inr None, c\<lparr>lc_sdlcRuns := jdel (lo_id l) (lc_sdlcRuns c)\<rparr>)
                 else (Inr None, c))
            | _ \<Rightarrow> (Inr None, c)))"

section \<open>Events\<close>

definition group_status_text :: "group_status \<Rightarrow> string" where
  "group_status_text st =
     (case st of G_Pending \<Rightarrow> ''pending'' | G_Running \<Rightarrow> ''running'' | G_Completed \<Rightarrow> ''completed''
      | G_Failed \<Rightarrow> ''failed'' | G_Cancelled \<Rightarrow> ''cancelled'')"

text \<open>The legacy path: the settled iteration of the task group.\<close>

definition iteration_event :: "loop_row \<Rightarrow> loop_ctl \<Rightarrow> loop_event option" where
  "iteration_event l c =
     (case lo_currentIterationNumber l of
        None \<Rightarrow> None
      | Some n \<Rightarrow>
          (case getIteration (or_store (lc_orch c)) (lo_groupId l) n of
             None \<Rightarrow> None
           | Some it \<Rightarrow>
               (if it_status it = G_Completed
                then (case resolveVerdict l c of
                        None \<Rightarrow> Some (Review_Failed ''judge verdict unreadable'')
                      | Some v \<Rightarrow> Some (Review_Completed v))
                else if it_status it = G_Failed \<or> it_status it = G_Cancelled
                then Some (Review_Failed (''consilium iteration '' @ group_status_text (it_status it)))
                else None)))"

definition deriveReviewEvent :: "loop_row \<Rightarrow> loop_ctl \<Rightarrow> loop_event option" where
  "deriveReviewEvent l c =
     (case review_of c (lo_id l) of
        Some run \<Rightarrow>
          (if rn_round run = lo_round l
           then (case (rn_done run, rn_result run) of
                   (True, Some res) \<Rightarrow>
                     (if has_error res
                      then Some (if rv_rateLimited res then Review_Throttled else Review_Failed review_run_failed)
                      else Some (Review_Completed \<lparr>cv_converged = rv_converged res, cv_openP0 = rv_openP0 res,
                             cv_openActionPoints = rv_openActionPoints res\<rparr>))
                 | _ \<Rightarrow> None)
           else iteration_event l c)
      | None \<Rightarrow> iteration_event l c)"

definition deriveDecideEvent :: "loop_row \<Rightarrow> loop_ctl \<Rightarrow> loop_event option" where
  "deriveDecideEvent l c =
     (case resolveVerdict l c of
        None \<Rightarrow> None
      | Some v \<Rightarrow>
          Some (Decided v
            (map (\<lambda>r. case rr_openP0 r of Some n \<Rightarrow> n | None \<Rightarrow> 0)
               (filter (\<lambda>r. rr_round r < lo_round l) (getLoopRounds (lc_store c) (lo_id l))) @ [cv_openP0 v])))"

definition deriveDevEvent :: "loop_row \<Rightarrow> loop_ctl \<Rightarrow> loop_event option" where
  "deriveDevEvent l c =
     (case sdlc_of c (lo_id l) of
        None \<Rightarrow> None
      | Some run \<Rightarrow>
          (if sd_round run \<noteq> lo_round l \<or> \<not> sd_done run then None
           else case sd_result run of
                  None \<Rightarrow> None
                | Some r \<Rightarrow> Some (Dev_Completed (dv_prRef r) (dv_headCommit r) (dv_error r) (dv_integrationBase r) (dv_rateLimited r))))"

definition deriveEvent :: "loop_row \<Rightarrow> loop_ctl \<Rightarrow> loop_event option" where
  "deriveEvent l c =
     (case lo_state l of
        Pending \<Rightarrow> Some Start
      | Building_Context \<Rightarrow> Some Context_Built
      | Reviewing \<Rightarrow> deriveReviewEvent l c
      | Deciding \<Rightarrow> deriveDecideEvent l c
      | Developing \<Rightarrow> deriveDevEvent l c
      | _ \<Rightarrow> None)"

section \<open>Redrives\<close>

datatype tick_result = Row loop_row | Nothing | Threw start_error

text \<open>The crash redrive; \<open>None\<close> lets the tick go on.\<close>

definition redriveStranded :: "loop_cfg \<Rightarrow> loop_world \<Rightarrow> loop_row \<Rightarrow> loop_ctl \<Rightarrow> tick_result option \<times> loop_ctl" where
  "redriveStranded cfg w l c =
     (if \<not> (lo_state l = Reviewing \<and> lo_currentIterationNumber l = None \<or> lo_state l = Developing \<and> lo_devGroupId l = None)
      then (None, c)
      else if lo_state l = Developing \<and> (case sdlc_of c (lo_id l) of Some run \<Rightarrow> sd_round run = lo_round l | None \<Rightarrow> False) then (None, c)
      else if lo_state l = Reviewing \<and> (case review_of c (lo_id l) of Some run \<Rightarrow> rn_round run = lo_round l | None \<Rightarrow> False) then (None, c)
      else if lw_now w - lo_updatedAt l < redriveGraceMs cfg (lo_state l) then (None, c)
      else
        (case claimRedrive (lw_now w) (lo_id l) (lo_state l) (redriveGraceMs cfg (lo_state l)) (lc_store c) of
           None \<Rightarrow> (None, c)
         | Some (claimed, st) \<Rightarrow>
             (let c1 = c\<lparr>lc_store := st\<rparr>
              in if lo_state claimed = Reviewing
                 then (case startReviewRound cfg w False claimed c1 of
                         (Ref_Unresolvable msg, c2) \<Rightarrow>
                           (case failUnresolvedReview w claimed msg c2 of None \<Rightarrow> (None, c2) | Some (r, c3) \<Rightarrow> (Some (Row r), c3))
                       | (Context_Failed msg, c2) \<Rightarrow>
                           (let (r, c3) = update_loop w claimed (\<lambda>r. r\<lparr>lo_error := Some msg\<rparr>) c2 in (Some (Row r), c3))
                       | (Round_Started f, c2) \<Rightarrow> (let (r, c3) = update_loop w claimed f c2 in (Some (Row r), c3))
                       | (Start_Threw e, c2) \<Rightarrow> (Some (Threw e), c2))
                 else (case resolveVerdict claimed c1 of
                         None \<Rightarrow> (None, c1)
                       | Some v \<Rightarrow>
                           (let (f, c2) = startDevHandoff w claimed v False c1; (r, c3) = update_loop w claimed f c2
                            in (Some (Row r), c3))))))"

text \<open>The last sign of life of a review: rows of the loop, its iteration and executions, and model calls.\<close>

definition reviewLastActivityMs :: "loop_world \<Rightarrow> loop_row \<Rightarrow> iteration_row \<Rightarrow> loop_ctl \<Rightarrow> int" where
  "reviewLastActivityMs w l it c =
     (let execs = getExecutionsByIteration (or_store (lc_orch c)) (lo_groupId l) (it_id it);
          times = List.map_filter id ([Some (lo_updatedAt l), it_startedAt it, it_completedAt it] @
            concat (map (\<lambda>e. [ex_startedAt e, ex_completedAt e]) execs) @ [lw_lastLlm w])
      in foldl max (lo_updatedAt l) times)"

definition stall_message :: "int \<Rightarrow> nat \<Rightarrow> string" where
  "stall_message idleMin used =
     ''Review stalled: no activity for '' @ show_int idleMin @ ''m and re-launched '' @ show_nat used @
     '' time(s) without progress (in-process review workers likely died repeatedly '' @ map char_of [226, 128, 148 :: nat] @
     '' e.g. a restart); marked failed for re-run.''"

text \<open>The winner of the claim re-runs the round, or fails it when the redrives are used up.\<close>

definition relaunch_review :: "loop_cfg \<Rightarrow> loop_world \<Rightarrow> loop_row \<Rightarrow> iteration_row \<Rightarrow> int \<Rightarrow> loop_ctl \<Rightarrow> tick_result option \<times> loop_ctl" where
  "relaunch_review cfg w claimed it idleMin c =
     (let used = reviewRedriveCount claimed
      in if used \<ge> lf_reviewMaxRedrives cfg
         then (case reduce (lw_now w) Reviewing (Review_Failed (stall_message idleMin used)) no_opts of
                 None \<Rightarrow> (None, c)
               | Some t \<Rightarrow> (case commit w claimed t id c of None \<Rightarrow> (None, c) | Some (r, c1) \<Rightarrow> (Some (Row r), c1)))
         else
           (let (_, c1) = update_loop w claimed (\<lambda>r. r\<lparr>lo_currentIterationNumber := None\<rparr>) c;
                o1 = (case updateIteration (it_id it) (\<lambda>i. i\<lparr>it_status := G_Cancelled, it_completedAt := Some (lw_now w)\<rparr>) (or_store (lc_orch c1)) of
                        Inl _ \<Rightarrow> lc_orch c1 | Inr st \<Rightarrow> (lc_orch c1)\<lparr>or_store := st\<rparr>)
            in case startReviewRound cfg w True claimed (c1\<lparr>lc_orch := o1\<rparr>) of
                 (Ref_Unresolvable msg, c2) \<Rightarrow>
                   (case failUnresolvedReview w claimed msg c2 of None \<Rightarrow> (None, c2) | Some (r, c3) \<Rightarrow> (Some (Row r), c3))
               | (Context_Failed msg, c2) \<Rightarrow>
                   (let (r, c3) = update_loop w claimed (\<lambda>r. r\<lparr>lo_error := Some msg\<rparr>) c2 in (Some (Row r), c3))
               | (Round_Started f, c2) \<Rightarrow>
                   (let (r, c3) = update_loop w claimed (\<lambda>r. (f r)\<lparr>lo_reviewRedrive := Some (lo_round claimed, used + 1)\<rparr>) c2
                    in (Some (Row r), c3))
               | (Start_Threw e, c2) \<Rightarrow> (Some (Threw e), c2)))"

definition recoverStalledReview :: "loop_cfg \<Rightarrow> loop_world \<Rightarrow> loop_row \<Rightarrow> loop_ctl \<Rightarrow> tick_result option \<times> loop_ctl" where
  "recoverStalledReview cfg w l c =
     (case (lo_state l = Reviewing, lo_currentIterationNumber l) of
        (True, Some n) \<Rightarrow>
          (case getIteration (or_store (lc_orch c)) (lo_groupId l) n of
             None \<Rightarrow> (None, c)
           | Some it \<Rightarrow>
               (let timeout = lf_reviewStallTimeoutMs cfg; idle = lw_now w - reviewLastActivityMs w l it c
                in if it_status it \<noteq> G_Running \<or> idle < timeout then (None, c)
                   else
                     (case claimReviewRedrive (lw_now w) (lo_id l) n (lw_now w - timeout) (lc_store c) of
                        None \<Rightarrow> (None, c)
                      | Some (claimed, st) \<Rightarrow> relaunch_review cfg w claimed it (max 1 ((idle + 30000) div 60000)) (c\<lparr>lc_store := st\<rparr>))))
      | _ \<Rightarrow> (None, c))"

section \<open>Commands\<close>

datatype command_error =
  Not_Found | Not_Gated | Wrong_State | Round_Cap | No_Action_Points | Repo_Not_Allowed | Repo_Not_Workspace
  | Active_Loop_Exists | Cas_Lost | Busy

datatype command_result = Done loop_row | Refused command_error | Raised start_error

definition dev_verdict :: "action_point list \<Rightarrow> convergence_verdict" where
  "dev_verdict aps =
     \<lparr>cv_converged = False, cv_openP0 = length (filter (\<lambda>ap. ap_priority ap = Some p0_priority) aps), cv_openActionPoints = aps\<rparr>"

text \<open>The slot and the lock of a human development, taken in one synchronous step.\<close>

definition reserve_dev :: "string \<Rightarrow> loop_ctl \<Rightarrow> command_error option \<times> loop_ctl" where
  "reserve_dev i c =
     (if inFlightDevCommandCount c + lc_reservations c \<ge> max_concurrent_dev_handoffs then (Some Busy, c)
      else if i \<in> set (lc_inFlight c) then (Some Cas_Lost, c)
      else (None, c\<lparr>lc_reservations := lc_reservations c + 1, lc_inFlight := sadd i (lc_inFlight c)\<rparr>))"

definition release_dev :: "string \<Rightarrow> loop_ctl \<Rightarrow> loop_ctl" where
  "release_dev i c = c\<lparr>lc_reservations := lc_reservations c - 1, lc_inFlight := sdel i (lc_inFlight c)\<rparr>"

definition launch_dev :: "loop_world \<Rightarrow> loop_row \<Rightarrow> loop_transition option \<Rightarrow> action_point list \<Rightarrow> loop_ctl \<Rightarrow> command_result \<times> loop_ctl" where
  "launch_dev w l tr aps c =
     (case tr of
        None \<Rightarrow> (Refused Wrong_State, release_dev (lo_id l) c)
      | Some t \<Rightarrow>
          (case commit w l t id c of
             None \<Rightarrow> (Refused Cas_Lost, release_dev (lo_id l) c)
           | Some (won, c1) \<Rightarrow>
               (let (f, c2) = startDevHandoff w won (dev_verdict aps) True c1; (r, c3) = update_loop w won f c2
                in (Done r, release_dev (lo_id l) c3))))"

definition develop_reserve :: "loop_world \<Rightarrow> string \<Rightarrow> dev_scope option \<Rightarrow> loop_ctl \<Rightarrow>
    (command_error + loop_row \<times> action_point list) \<times> loop_ctl" where
  "develop_reserve w i scope c =
     (case getLoop (lc_store c) i of
        None \<Rightarrow> (Inl Not_Found, c)
      | Some l \<Rightarrow>
          (if \<not> isDevelopPromotable (lo_state l) (lo_reviewGate l) then (Inl Wrong_State, c)
           else
             (let aps = filterDevScope (resolveDevActionPoints l c) scope
              in if length aps = 0 then (Inl No_Action_Points, c)
                 else if \<not> lw_repoAllowed w then (Inl Repo_Not_Allowed, c)
                 else if \<not> lw_repoWorkspace w then (Inl Repo_Not_Workspace, c)
                 else if getActiveLoopByGroup (lc_store c) (lo_groupId l) \<noteq> None then (Inl Active_Loop_Exists, c)
                 else (case reserve_dev i c of
                         (Some e, c1) \<Rightarrow> (Inl e, c1)
                       | (None, c1) \<Rightarrow> (Inr (l, aps), c1)))))"

definition develop_launch :: "loop_world \<Rightarrow> loop_row \<Rightarrow> action_point list \<Rightarrow> loop_ctl \<Rightarrow> command_result \<times> loop_ctl" where
  "develop_launch w l aps c =
     launch_dev w l (reduce (lw_now w) (lo_state l) Develop_Requested (no_opts\<lparr>ro_reviewGate := lo_reviewGate l\<rparr>)) aps c"

definition develop :: "loop_world \<Rightarrow> string \<Rightarrow> dev_scope option \<Rightarrow> loop_ctl \<Rightarrow> command_result \<times> loop_ctl" where
  "develop w i scope c =
     (case develop_reserve w i scope c of
        (Inl e, c1) \<Rightarrow> (Refused e, c1)
      | (Inr (l, aps), c1) \<Rightarrow> develop_launch w l aps c1)"

definition retryThrottledDevelop :: "loop_world \<Rightarrow> loop_row \<Rightarrow> loop_ctl \<Rightarrow> command_result \<times> loop_ctl" where
  "retryThrottledDevelop w l c =
     (let aps = resolveDevActionPoints l c
      in if length aps = 0 then (Refused No_Action_Points, c)
         else if \<not> lw_repoAllowed w then (Refused Repo_Not_Allowed, c)
         else if \<not> lw_repoWorkspace w then (Refused Repo_Not_Workspace, c)
         else (case reserve_dev (lo_id l) c of
                 (Some e, c1) \<Rightarrow> (Refused e, c1)
               | (None, c1) \<Rightarrow>
                   launch_dev w l (reduce (lw_now w) (lo_state l) (Retry_Requested Develop_Phase) no_opts) aps c1))"

text \<open>From a claimed building-context row into the review of a round.\<close>

definition enter_review :: "loop_cfg \<Rightarrow> loop_world \<Rightarrow> loop_row \<Rightarrow> loop_ctl \<Rightarrow> (loop_row \<times> loop_transition \<times> loop_ctl) option" where
  "enter_review cfg w l c =
     (case reduce (lw_now w) (lo_state l) Context_Built no_opts of
        None \<Rightarrow> None
      | Some t \<Rightarrow> (case commit w l t id c of None \<Rightarrow> None | Some (won, c1) \<Rightarrow> Some (won, t, c1)))"

definition retryThrottledReview :: "loop_cfg \<Rightarrow> loop_world \<Rightarrow> loop_row \<Rightarrow> loop_ctl \<Rightarrow> command_result \<times> loop_ctl" where
  "retryThrottledReview cfg w l c =
     (if lo_id l \<in> set (lc_inFlight c) then (Refused Cas_Lost, c)
      else
        (case reduce (lw_now w) (lo_state l) (Retry_Requested Review_Phase) no_opts of
           None \<Rightarrow> (Refused Wrong_State, c)
         | Some t \<Rightarrow>
             (case commit w l t id c of
                None \<Rightarrow> (Refused Cas_Lost, c)
              | Some (building, c1) \<Rightarrow>
                  (case enter_review cfg w building c1 of
                     None \<Rightarrow> (Refused Cas_Lost, c1)
                   | Some (won, _, c2) \<Rightarrow>
                       (case startReviewRound cfg w True won c2 of
                          (Ref_Unresolvable msg, c3) \<Rightarrow>
                            (case failUnresolvedReview w won msg c3 of None \<Rightarrow> (Refused Cas_Lost, c3) | Some (r, c4) \<Rightarrow> (Done r, c4))
                        | (Context_Failed msg, c3) \<Rightarrow>
                            (let (r, c4) = update_loop w won (\<lambda>r. r\<lparr>lo_error := Some msg\<rparr>) c3 in (Done r, c4))
                        | (Round_Started f, c3) \<Rightarrow> (let (r, c4) = update_loop w won f c3 in (Done r, c4))
                        | (Start_Threw e, c3) \<Rightarrow> (Raised e, c3))))))"

definition retryThrottled :: "loop_cfg \<Rightarrow> loop_world \<Rightarrow> string \<Rightarrow> loop_ctl \<Rightarrow> command_result \<times> loop_ctl" where
  "retryThrottled cfg w i c =
     (case getLoop (lc_store c) i of
        None \<Rightarrow> (Refused Not_Found, c)
      | Some l \<Rightarrow>
          (if lo_state l \<noteq> Throttled then (Refused Wrong_State, c)
           else if lo_throttledPhase l = Some Develop_Phase then retryThrottledDevelop w l c
           else retryThrottledReview cfg w l c))"

definition requestReReview :: "loop_cfg \<Rightarrow> loop_world \<Rightarrow> string \<Rightarrow> loop_ctl \<Rightarrow> command_result \<times> loop_ctl" where
  "requestReReview cfg w i c =
     (case getLoop (lc_store c) i of
        None \<Rightarrow> (Refused Not_Found, c)
      | Some l \<Rightarrow>
          (if \<not> lo_reviewGate l then (Refused Not_Gated, c)
           else if lo_state l \<noteq> Deciding then (Refused Wrong_State, c)
           else if lo_round l \<ge> lo_maxRounds l then (Refused Round_Cap, c)
           else if i \<in> set (lc_inFlight c) then (Refused Cas_Lost, c)
           else
             (case reduce (lw_now w) (lo_state l) Rereview_Requested no_opts of
                None \<Rightarrow> (Refused Wrong_State, c)
              | Some t \<Rightarrow>
                  (case commit w l t id c of
                     None \<Rightarrow> (Refused Cas_Lost, c)
                   | Some (building, c1) \<Rightarrow>
                       (case enter_review cfg w building c1 of
                          None \<Rightarrow> (Refused Cas_Lost, c1)
                        | Some (won, t2, c2) \<Rightarrow>
                            (case runSideEffect cfg w won t2 Context_Built c2 of
                               (Inl e, c3) \<Rightarrow> (Raised e, c3)
                             | (Inr None, c3) \<Rightarrow> (Done won, c3)
                             | (Inr (Some f), c3) \<Rightarrow> (let (r, c4) = update_loop w won f c3 in (Done r, c4))))))))"

text \<open>The merge gate; the head is read from the repository.\<close>

definition onMergeApproved :: "loop_cfg \<Rightarrow> loop_world \<Rightarrow> string \<Rightarrow> loop_ctl \<Rightarrow> loop_row option \<times> loop_ctl" where
  "onMergeApproved cfg w i c =
     (case getLoop (lc_store c) i of
        None \<Rightarrow> (None, c)
      | Some l \<Rightarrow>
          (if lo_state l \<noteq> Awaiting_Merge then (None, c)
           else
             (case reduce (lw_now w) (lo_state l) Merge_Approved (opts_of cfg) of
                None \<Rightarrow> (None, c)
              | Some t \<Rightarrow>
                  (let merged = lw_head w;
                       reviewed = (case lo_headCommitAtReview l of None \<Rightarrow> [] | Some h \<Rightarrow> h);
                       err = (if merged \<noteq> [] \<and> reviewed \<noteq> [] \<and> merged \<noteq> reviewed
                              then Some (''merged HEAD '' @ merged @ '' differs from reviewed HEAD '' @ reviewed) else None)
                   in case commit w l t (\<lambda>r. r\<lparr>lo_lastReviewedCommit := (if merged \<noteq> [] then Some merged else lo_headCommitAtReview l),
                                               lo_error := err\<rparr>) c of
                        None \<Rightarrow> (None, c)
                      | Some (won, c1) \<Rightarrow> (Some won, c1)))))"

definition end_loop :: "loop_world \<Rightarrow> string \<Rightarrow> loop_event \<Rightarrow> loop_ctl \<Rightarrow> loop_row option \<times> loop_ctl" where
  "end_loop w i ev c =
     (case getLoop (lc_store c) i of
        None \<Rightarrow> (None, c)
      | Some l \<Rightarrow>
          (if is_terminal (lo_state l) then (None, c)
           else
             (case reduce (lw_now w) (lo_state l) ev no_opts of
                None \<Rightarrow> (None, c)
              | Some t \<Rightarrow>
                  (let o1 = (case cancelGroup (lw_now w) (lo_groupId l) (lc_orch c) of Inl _ \<Rightarrow> lc_orch c | Inr s \<Rightarrow> s);
                       c1 = c\<lparr>lc_orch := o1, lc_sdlcRuns := jdel i (lc_sdlcRuns c)\<rparr>
                   in case commit w l t id c1 of None \<Rightarrow> (None, c1) | Some (won, c2) \<Rightarrow> (Some won, c2)))))"

definition cancel :: "loop_world \<Rightarrow> string \<Rightarrow> string option \<Rightarrow> string option \<Rightarrow> loop_ctl \<Rightarrow> loop_row option \<times> loop_ctl" where
  "cancel w i reason actor c = end_loop w i (Cancel reason actor) c"

definition stop :: "loop_world \<Rightarrow> string \<Rightarrow> string option \<Rightarrow> string option \<Rightarrow> loop_ctl \<Rightarrow> loop_row option \<times> loop_ctl" where
  "stop w i reason actor c = end_loop w i (Finish reason actor) c"

section \<open>The tick\<close>

definition auto_resumable :: "loop_cfg \<Rightarrow> loop_world \<Rightarrow> loop_row \<Rightarrow> bool" where
  "auto_resumable cfg w l =
     (lo_state l = Throttled \<and> lf_autoResume cfg \<and>
      (case lo_throttledUntil l of Some t \<Rightarrow> lw_now w \<ge> t | None \<Rightarrow> False) \<and>
      lo_resumeAttempts l < lf_maxAutoResumeAttempts cfg)"

definition auto_resume :: "loop_cfg \<Rightarrow> loop_world \<Rightarrow> loop_row \<Rightarrow> loop_ctl \<Rightarrow> tick_result \<times> loop_ctl" where
  "auto_resume cfg w l c =
     (case casLoopState (lw_now w) (lo_id l) Throttled Throttled (\<lambda>r. r\<lparr>lo_resumeAttempts := lo_resumeAttempts l + 1\<rparr>) (lc_store c) of
        None \<Rightarrow> (Nothing, c)
      | Some (_, st) \<Rightarrow>
          (case retryThrottled cfg w (lo_id l) (c\<lparr>lc_store := st\<rparr>) of
             (Done r, c1) \<Rightarrow> (Row r, c1)
           | (Refused _, c1) \<Rightarrow> (Nothing, c1)
           | (Raised e, c1) \<Rightarrow> (Threw e, c1)))"

text \<open>What follows the event: the cap, the reducer, the review gate, the claim and the side effect.\<close>

definition advance_loop :: "loop_cfg \<Rightarrow> loop_world \<Rightarrow> loop_row \<Rightarrow> loop_event \<Rightarrow> loop_ctl \<Rightarrow> tick_result \<times> loop_ctl" where
  "advance_loop cfg w l ev c =
     (case (case ev of Decided v prior \<Rightarrow> if \<not> cv_converged v \<and> lo_round l \<ge> lo_maxRounds l then Some v else None | _ \<Rightarrow> None) of
        Some v \<Rightarrow>
          (case commit w l (trans Deciding Stopped_Cap (\<lambda>r. r\<lparr>lo_completedAt := Some (lw_now w)\<rparr>)) id c of
             None \<Rightarrow> (Nothing, c)
           | Some (won, c1) \<Rightarrow> (Row won, recordRound w won v None c1))
      | None \<Rightarrow>
          (case reduce (lw_now w) (lo_state l) ev (opts_of cfg) of
             None \<Rightarrow> (Nothing, c)
           | Some t \<Rightarrow>
               (case (if lo_reviewGate l \<and> tr_to t = Developing then (case ev of Decided v prior \<Rightarrow> Some v | _ \<Rightarrow> None) else None) of
                  Some v \<Rightarrow> (Row l, recordRound w l v None c)
                | None \<Rightarrow>
                    (case commit w l t id c of
                       None \<Rightarrow> (Nothing, c)
                     | Some (won, c1) \<Rightarrow>
                         (case runSideEffect cfg w won t ev c1 of
                            (Inl e, c2) \<Rightarrow> (Threw e, c2)
                          | (Inr None, c2) \<Rightarrow> (Row won, c2)
                          | (Inr (Some f), c2) \<Rightarrow> (let (r, c3) = update_loop w won f c2 in (Row r, c3)))))))"

definition tickInner :: "loop_cfg \<Rightarrow> loop_world \<Rightarrow> string \<Rightarrow> loop_ctl \<Rightarrow> tick_result \<times> loop_ctl" where
  "tickInner cfg w i c =
     (case getLoop (lc_store c) i of
        None \<Rightarrow> (Nothing, c)
      | Some l \<Rightarrow>
          (if is_terminal (lo_state l) then (Nothing, c)
           else
             (case redriveStranded cfg w l c of
                (Some r, c1) \<Rightarrow> (r, c1)
              | (None, c1) \<Rightarrow>
                  (if auto_resumable cfg w l then auto_resume cfg w l c1
                   else
                     (case deriveEvent l c1 of
                        None \<Rightarrow> (case recoverStalledReview cfg w l c1 of (Some r, c2) \<Rightarrow> (r, c2) | (None, c2) \<Rightarrow> (Nothing, c2))
                      | Some ev \<Rightarrow> advance_loop cfg w l ev c1)))))"

definition tick :: "loop_cfg \<Rightarrow> loop_world \<Rightarrow> string \<Rightarrow> loop_ctl \<Rightarrow> tick_result \<times> loop_ctl" where
  "tick cfg w i c = (if i \<in> set (lc_inFlight c) then (Nothing, c) else tickInner cfg w i c)"

definition start :: "loop_cfg \<Rightarrow> loop_world \<Rightarrow> string \<Rightarrow> loop_ctl \<Rightarrow> tick_result \<times> loop_ctl" where
  "start cfg w i c =
     (case getLoop (lc_store c) i of
        None \<Rightarrow> (Nothing, c)
      | Some l \<Rightarrow> (if lo_state l \<noteq> Pending then (Nothing, c) else tick cfg w i c))"

text \<open>One sweep of the poller, newest loop first; a tick that throws does not stop it.\<close>

definition sweep :: "loop_cfg \<Rightarrow> (string \<Rightarrow> loop_world) \<Rightarrow> loop_ctl \<Rightarrow> loop_ctl" where
  "sweep cfg w c = foldl (\<lambda>c l. snd (tick cfg (w (lo_id l)) (lo_id l) c)) c (rev (jvals (ls_loops (lc_store c))))"

end
