(* ===== verification/Loop_Facts.thy ===== *)
theory Loop_Facts
  imports Loop_Controller
begin

text \<open>
  What the loop controller guarantees: the shape of every transition of the reducer, the decision after a review,
  the bound on human developments; and where it departs from its own documentation, a gated loop that cannot be
  developed, automatic resumes without a bound and a round past the cap.
\<close>

section \<open>The reducer\<close>

lemmas reduce_defs = reduce_def reduce_command_def trans_def decide_def Let_def

text \<open>
  C18: every transition of the reducer leaves the state it was asked about; a terminal state is left only by the human
  development command and a throttled one only by a human command; and no transition touches the id, the group, the
  round, the cap or the review gate of the row.
\<close>

theorem reduce_respects_states:
  assumes "reduce now st ev opts = Some t"
  shows "tr_from t = st \<and> (is_terminal st \<longrightarrow> ev = Develop_Requested \<and> tr_to t = Developing) \<and>
    (st = Throttled \<longrightarrow> is_command ev) \<and>
    lo_id (tr_extra t r) = lo_id r \<and> lo_groupId (tr_extra t r) = lo_groupId r \<and> lo_round (tr_extra t r) = lo_round r \<and>
    lo_maxRounds (tr_extra t r) = lo_maxRounds r \<and> lo_reviewGate (tr_extra t r) = lo_reviewGate r"
proof (cases "is_command ev")
  case True
  with assms show ?thesis by (cases ev) (auto simp: reduce_defs split: if_splits)
next
  case False
  with assms show ?thesis
    by (cases st) (auto simp: reduce_defs split: if_splits loop_event.splits)
qed

definition sample_loop :: "loop_state \<Rightarrow> nat \<Rightarrow> nat \<Rightarrow> loop_row" where
  "sample_loop st rd cap =
     \<lparr>lo_id = ''l1'', lo_groupId = ''g1'', lo_state = st, lo_round = rd, lo_maxRounds = cap, lo_repoPath = ''/r'',
      lo_lastReviewedCommit = None, lo_reviewRef = None, lo_reviewGate = False, lo_reviewMode = None,
      lo_currentIterationNumber = None, lo_reviewRedrive = None, lo_devGroupId = None, lo_prRef = None,
      lo_headCommitAtReview = None, lo_openP0 = None, lo_error = None, lo_throttledPhase = None, lo_throttledUntil = None,
      lo_resumeAttempts = 0, lo_createdBy = None, lo_updatedAt = 0, lo_completedAt = None\<rparr>"

lemma reduce_respects_states_witness:
  "\<exists>t. reduce 0 Stopped_Cap Develop_Requested no_opts = Some t \<and> tr_to t = Developing \<and>
     lo_round (tr_extra t (sample_loop Stopped_Cap 6 6)) = 6"
proof -
  obtain t where t: "reduce 0 Stopped_Cap Develop_Requested no_opts = Some t"
    by (simp add: reduce_defs)
  from reduce_respects_states [OF t, of "sample_loop Stopped_Cap 6 6"] t show ?thesis by (simp add: sample_loop_def)
qed

section \<open>Frames\<close>

lemma recordRound_frame [simp]:
  "getLoop (lc_store (recordRound w l v a c)) k = getLoop (lc_store c) k"
  "lc_dispatched (recordRound w l v a c) = lc_dispatched c" "lc_orch (recordRound w l v a c) = lc_orch c"
  "lc_sdlcObjects (recordRound w l v a c) = lc_sdlcObjects c" "lc_sdlcRuns (recordRound w l v a c) = lc_sdlcRuns c"
  "lc_next (recordRound w l v a c) = lc_next c" "lc_inFlight (recordRound w l v a c) = lc_inFlight c"
  "lc_reservations (recordRound w l v a c) = lc_reservations c"
  by (auto simp: recordRound_def appendLoopRound_def getLoop_def Let_def split: option.split if_splits)

lemma recordRound_recorded:
  "\<exists>row \<in> set (getLoopRounds (lc_store (recordRound w l v a c)) (lo_id l)). rr_round row = lo_round l"
proof -
  define row where "row = round_audit w l v a c"
  have row: "rr_loopId row = lo_id l" "rr_round row = lo_round l" by (simp_all add: row_def round_audit_def)
  have e: "recordRound w l v a c = (case appendLoopRound row (lc_store c) of None \<Rightarrow> c | Some st \<Rightarrow> c\<lparr>lc_store := st\<rparr>)"
    by (simp add: recordRound_def row_def)
  show ?thesis
  proof (cases "list_ex (\<lambda>r. rr_loopId r = rr_loopId row \<and> rr_round r = rr_round row) (jvals (ls_rounds (lc_store c)))")
    case True
    then have "recordRound w l v a c = c" by (simp add: e appendLoopRound_def)
    with True row show ?thesis by (auto simp: getLoopRounds_def list_ex_iff)
  next
    case False
    then have "lc_store (recordRound w l v a c) = (lc_store c)\<lparr>ls_rounds := jset (rr_id row) row (ls_rounds (lc_store c))\<rparr>"
      by (simp add: e appendLoopRound_def)
    moreover have "(rr_id row, row) \<in> set (jset (rr_id row) row (ls_rounds (lc_store c)))" by (rule jget_in) simp
    ultimately show ?thesis using row by (force simp: getLoopRounds_def)
  qed
qed

lemma commit_won:
  assumes "getLoop (lc_store c) (lo_id l) = Some r0" "lo_state r0 = tr_from t"
  shows "\<exists>st. commit w l t f c = Some ((f (tr_extra t r0))\<lparr>lo_state := tr_to t, lo_updatedAt := lw_now w\<rparr>, c\<lparr>lc_store := st\<rparr>) \<and>
    getLoop st (lo_id l) = Some ((f (tr_extra t r0))\<lparr>lo_state := tr_to t, lo_updatedAt := lw_now w\<rparr>)"
  using assms by (auto simp: commit_def casLoopState_def getLoop_def Let_def)

lemma commit_Some:
  "commit w l t f c = Some (won, c') \<Longrightarrow>
    \<exists>r0 st. getLoop (lc_store c) (lo_id l) = Some r0 \<and> lo_state r0 = tr_from t \<and>
      won = (f (tr_extra t r0))\<lparr>lo_state := tr_to t, lo_updatedAt := lw_now w\<rparr> \<and> c' = c\<lparr>lc_store := st\<rparr> \<and>
      getLoop st (lo_id l) = Some won \<and> ls_rounds st = ls_rounds (lc_store c)"
  by (auto simp: commit_def casLoopState_def getLoop_def Let_def split: option.splits if_splits)

lemma update_loop_won:
  assumes "getLoop (lc_store c) (lo_id l) = Some r0"
  shows "\<exists>st. update_loop w l f c = ((f r0)\<lparr>lo_updatedAt := lw_now w\<rparr>, c\<lparr>lc_store := st\<rparr>) \<and>
    getLoop st (lo_id l) = Some ((f r0)\<lparr>lo_updatedAt := lw_now w\<rparr>) \<and> ls_rounds st = ls_rounds (lc_store c)"
  using assms by (auto simp: update_loop_def updateLoop_def getLoop_def Let_def)

lemma dispatchSdlc_store [simp]: "lc_store (dispatchSdlc l b c) = lc_store c"
  "lc_dispatched (dispatchSdlc l b c) = lc_dispatched c @ [Dispatch_Dev (lo_id l) (lo_round l) b]"
  by (simp_all add: dispatchSdlc_def)

lemma getLoopRounds_same: "ls_rounds st = ls_rounds st' \<Longrightarrow> getLoopRounds st i = getLoopRounds st' i"
  by (simp add: getLoopRounds_def)

section \<open>After a review\<close>

definition verdict_state :: "loop_cfg \<Rightarrow> loop_row \<Rightarrow> convergence_verdict \<Rightarrow> nat list \<Rightarrow> loop_state" where
  "verdict_state cfg l v prior =
     (if cv_converged v then (if lf_verifyBeforeMerge cfg \<and> length prior \<ge> 2 then Awaiting_Merge else Converged)
      else if lo_round l \<ge> lo_maxRounds l then Stopped_Cap
      else if isAntiStall prior (length prior) then Escalated
      else if lo_reviewGate l then Deciding else Developing)"

lemma deciding_tick:
  assumes "getLoop (lc_store c) i = Some l" "lo_state l = Deciding" "i \<notin> set (lc_inFlight c)"
    and "deriveDecideEvent l c = Some (Decided v prior)"
  shows "tick cfg w i c = advance_loop cfg w l (Decided v prior) c"
  using assms by (simp add: tick_def tickInner_def redriveStranded_def auto_resumable_def deriveEvent_def)

lemma capped_step:
  assumes g: "getLoop (lc_store c) i = Some l" "lo_id l = i" and st: "lo_state l = Deciding"
    and "\<not> cv_converged v" "lo_round l \<ge> lo_maxRounds l"
  shows "\<exists>r c'. advance_loop cfg w l (Decided v prior) c = (Row r, c') \<and> getLoop (lc_store c') i = Some r \<and>
    lo_state r = Stopped_Cap \<and> lo_round r = lo_round l \<and> lc_dispatched c' = lc_dispatched c \<and>
    (\<exists>row \<in> set (getLoopRounds (lc_store c') i). rr_round row = lo_round l)"
proof -
  let ?t = "trans Deciding Stopped_Cap (\<lambda>r. r\<lparr>lo_completedAt := Some (lw_now w)\<rparr>)"
  have "getLoop (lc_store c) (lo_id l) = Some l" "lo_state l = tr_from ?t" using g st by (simp_all add: trans_def)
  from commit_won [OF this, of w id] obtain won stt where won: "commit w l ?t id c = Some (won, c\<lparr>lc_store := stt\<rparr>)"
    "getLoop stt i = Some won" "lo_state won = Stopped_Cap" "lo_round won = lo_round l" "lo_id won = i"
    using g by (auto simp: trans_def)
  with recordRound_recorded [of w won v None "c\<lparr>lc_store := stt\<rparr>"] assms show ?thesis
    by (auto simp: advance_loop_def)
qed

lemma decide_simps [simp]:
  "tr_from (decide now v prior b) = Deciding"
  "tr_to (decide now v prior b) = (if cv_converged v then (if b \<and> length prior \<ge> 2 then Awaiting_Merge else Converged)
     else if isAntiStall prior (length prior) then Escalated else Developing)"
  "lo_id (tr_extra (decide now v prior b) r) = lo_id r" "lo_round (tr_extra (decide now v prior b) r) = lo_round r"
  by (auto simp: decide_def trans_def Let_def)

lemma uncapped_advance:
  assumes "lo_state l = Deciding" "cv_converged v \<or> lo_round l < lo_maxRounds l"
  shows "advance_loop cfg w l (Decided v prior) c =
    (let t = decide (lw_now w) v prior (lf_verifyBeforeMerge cfg)
     in if lo_reviewGate l \<and> tr_to t = Developing then (Row l, recordRound w l v None c)
        else (case commit w l t id c of None \<Rightarrow> (Nothing, c)
              | Some (won, c1) \<Rightarrow>
                  (case runSideEffect cfg w won t (Decided v prior) c1 of
                     (Inl e, c2) \<Rightarrow> (Threw e, c2)
                   | (Inr None, c2) \<Rightarrow> (Row won, c2)
                   | (Inr (Some f), c2) \<Rightarrow> (let (r, c3) = update_loop w won f c2 in (Row r, c3)))))"
  using assms by (auto simp: advance_loop_def reduce_def opts_of_def Let_def)

lemma exit_step:
  assumes g: "getLoop (lc_store c) i = Some l" "lo_id l = i" and st: "lo_state l = Deciding"
    and cap: "cv_converged v \<or> lo_round l < lo_maxRounds l"
    and to: "tr_to (decide (lw_now w) v prior (lf_verifyBeforeMerge cfg)) \<noteq> Developing"
  shows "\<exists>r c'. advance_loop cfg w l (Decided v prior) c = (Row r, c') \<and> getLoop (lc_store c') i = Some r \<and>
    lo_state r = tr_to (decide (lw_now w) v prior (lf_verifyBeforeMerge cfg)) \<and> lo_round r = lo_round l \<and>
    lc_dispatched c' = lc_dispatched c \<and> (\<exists>row \<in> set (getLoopRounds (lc_store c') i). rr_round row = lo_round l)"
proof -
  let ?t = "decide (lw_now w) v prior (lf_verifyBeforeMerge cfg)"
  have "getLoop (lc_store c) (lo_id l) = Some l" "lo_state l = tr_from ?t" using g st by simp_all
  from commit_won [OF this, of w id] obtain won stt where won: "commit w l ?t id c = Some (won, c\<lparr>lc_store := stt\<rparr>)"
    "getLoop stt i = Some won" "lo_state won = tr_to ?t" "lo_round won = lo_round l" "lo_id won = i"
    using g by auto
  let ?c0 = "if tr_to ?t = Awaiting_Merge then c\<lparr>lc_store := stt, lc_sdlcRuns := jdel i (lc_sdlcRuns c)\<rparr> else c\<lparr>lc_store := stt\<rparr>"
  have side: "runSideEffect cfg w won ?t (Decided v prior) (c\<lparr>lc_store := stt\<rparr>) = (Inr None, recordRound w won v None ?c0)"
    using to won(5) by (auto simp: runSideEffect_def split: if_splits)
  have adv: "advance_loop cfg w l (Decided v prior) c = (Row won, recordRound w won v None ?c0)"
    using uncapped_advance [OF st cap, of cfg w prior c] won(1) side to by (simp add: Let_def)
  have "getLoop (lc_store (recordRound w won v None ?c0)) i = Some won" using won(2) by simp
  moreover have "lc_dispatched (recordRound w won v None ?c0) = lc_dispatched c" by simp
  moreover have "\<exists>row \<in> set (getLoopRounds (lc_store (recordRound w won v None ?c0)) i). rr_round row = lo_round l"
    using recordRound_recorded [of w won v None ?c0] won(4,5) by simp
  ultimately show ?thesis using adv won(3,4) by blast
qed

lemma develop_step:
  assumes g: "getLoop (lc_store c) i = Some l" "lo_id l = i" and st: "lo_state l = Deciding" and gate: "\<not> lo_reviewGate l"
    and cap: "cv_converged v \<or> lo_round l < lo_maxRounds l"
    and to: "tr_to (decide (lw_now w) v prior (lf_verifyBeforeMerge cfg)) = Developing"
  shows "\<exists>r c'. advance_loop cfg w l (Decided v prior) c = (Row r, c') \<and> getLoop (lc_store c') i = Some r \<and>
    lo_state r = Developing \<and> lo_round r = lo_round l \<and>
    lc_dispatched c' = lc_dispatched c @ [Dispatch_Dev i (lo_round l) False] \<and>
    (\<exists>row \<in> set (getLoopRounds (lc_store c') i). rr_round row = lo_round l)"
proof -
  let ?t = "decide (lw_now w) v prior (lf_verifyBeforeMerge cfg)"
  have "getLoop (lc_store c) (lo_id l) = Some l" "lo_state l = tr_from ?t" using g st by simp_all
  from commit_won [OF this, of w id] obtain won stt where won: "commit w l ?t id c = Some (won, c\<lparr>lc_store := stt\<rparr>)"
    "getLoop stt i = Some won" "lo_state won = Developing" "lo_round won = lo_round l" "lo_id won = i"
    using g to by auto
  let ?f = "\<lambda>r. r\<lparr>lo_openP0 := Some (cv_openP0 v)\<rparr>"
  let ?c2 = "dispatchSdlc won False (recordRound w won v None (c\<lparr>lc_store := stt\<rparr>))"
  have side: "runSideEffect cfg w won ?t (Decided v prior) (c\<lparr>lc_store := stt\<rparr>) = (Inr (Some ?f), ?c2)"
    using to by (simp add: runSideEffect_def startDevHandoff_def del: decide_simps(2))
  have "getLoop (lc_store ?c2) (lo_id won) = Some won" using won(2,5) by simp
  from update_loop_won [OF this, of w ?f] obtain st3 where up: "update_loop w won ?f ?c2 = ((?f won)\<lparr>lo_updatedAt := lw_now w\<rparr>, ?c2\<lparr>lc_store := st3\<rparr>)"
    "getLoop st3 (lo_id won) = Some ((?f won)\<lparr>lo_updatedAt := lw_now w\<rparr>)" "ls_rounds st3 = ls_rounds (lc_store ?c2)" by blast
  have adv: "advance_loop cfg w l (Decided v prior) c = (Row ((?f won)\<lparr>lo_updatedAt := lw_now w\<rparr>), ?c2\<lparr>lc_store := st3\<rparr>)"
    using uncapped_advance [OF st cap, of cfg w prior c] won(1) side up(1) gate by (simp add: Let_def)
  have "\<exists>row \<in> set (getLoopRounds st3 i). rr_round row = lo_round l"
    using recordRound_recorded [of w won v None "c\<lparr>lc_store := stt\<rparr>"] getLoopRounds_same [OF up(3)] won(4,5) by simp
  with adv up(2) won(3,4,5) show ?thesis by simp
qed

text \<open>
  C7: what a tick makes of a settled review: a converged verdict ends the loop (or opens the ship gate when
  verification comes before the merge and something was developed); otherwise the round cap stops it, a count of open
  P0s that has not fallen for two rounds escalates it, a review gate makes it rest, and only then is the round's
  development launched, once. The round keeps its number and its audit row exists.
\<close>

theorem decision_table:
  assumes "getLoop (lc_store c) i = Some l" "lo_id l = i" "lo_state l = Deciding" "i \<notin> set (lc_inFlight c)"
    and "deriveDecideEvent l c = Some (Decided v prior)"
  shows "\<exists>r c'. tick cfg w i c = (Row r, c') \<and> getLoop (lc_store c') i = Some r \<and>
    lo_state r = verdict_state cfg l v prior \<and> lo_round r = lo_round l \<and>
    lc_dispatched c' = lc_dispatched c @ (if lo_state r = Developing then [Dispatch_Dev i (lo_round l) False] else []) \<and>
    (\<exists>row \<in> set (getLoopRounds (lc_store c') i). rr_round row = lo_round l)"
proof -
  have tk: "tick cfg w i c = advance_loop cfg w l (Decided v prior) c" by (rule deciding_tick [OF assms(1,3,4,5)])
  show ?thesis
  proof (cases "\<not> cv_converged v \<and> lo_round l \<ge> lo_maxRounds l")
    case True
    then have "verdict_state cfg l v prior = Stopped_Cap" by (simp add: verdict_state_def)
    moreover obtain r c' where "advance_loop cfg w l (Decided v prior) c = (Row r, c')" "getLoop (lc_store c') i = Some r"
      "lo_state r = Stopped_Cap" "lo_round r = lo_round l" "lc_dispatched c' = lc_dispatched c"
      "\<exists>row \<in> set (getLoopRounds (lc_store c') i). rr_round row = lo_round l"
      using capped_step [OF assms(1-3), of v cfg w prior] True by blast
    ultimately show ?thesis unfolding tk by (intro exI [of _ r] exI [of _ c']) simp
  next
    case False
    then have cap: "cv_converged v \<or> lo_round l < lo_maxRounds l" by auto
    let ?to = "tr_to (decide (lw_now w) v prior (lf_verifyBeforeMerge cfg))"
    show ?thesis
    proof (cases "?to = Developing")
      case False
      then have "verdict_state cfg l v prior = ?to" "?to \<noteq> Developing" using cap by (auto simp: verdict_state_def split: if_splits)
      moreover obtain r c' where "advance_loop cfg w l (Decided v prior) c = (Row r, c')" "getLoop (lc_store c') i = Some r"
        "lo_state r = ?to" "lo_round r = lo_round l" "lc_dispatched c' = lc_dispatched c"
        "\<exists>row \<in> set (getLoopRounds (lc_store c') i). rr_round row = lo_round l"
        using exit_step [OF assms(1-3) cap False] by blast
      ultimately show ?thesis unfolding tk by (intro exI [of _ r] exI [of _ c']) simp
    next
      case dev: True
      show ?thesis
      proof (cases "lo_reviewGate l")
        case True
        then have "verdict_state cfg l v prior = Deciding" using dev cap by (auto simp: verdict_state_def split: if_splits)
        moreover have "advance_loop cfg w l (Decided v prior) c = (Row l, recordRound w l v None c)"
          using uncapped_advance [OF assms(3) cap, of cfg w prior c] dev True by (simp add: Let_def)
        ultimately show ?thesis
          unfolding tk using assms recordRound_recorded [of w l v None c]
          by (intro exI [of _ l] exI [of _ "recordRound w l v None c"]) simp
      next
        case False
        then have "verdict_state cfg l v prior = Developing" using dev cap by (auto simp: verdict_state_def split: if_splits)
        moreover obtain r c' where "advance_loop cfg w l (Decided v prior) c = (Row r, c')" "getLoop (lc_store c') i = Some r"
          "lo_state r = Developing" "lo_round r = lo_round l" "lc_dispatched c' = lc_dispatched c @ [Dispatch_Dev i (lo_round l) False]"
          "\<exists>row \<in> set (getLoopRounds (lc_store c') i). rr_round row = lo_round l"
          using develop_step [OF assms(1-3) False cap dev] by blast
        ultimately show ?thesis unfolding tk by (intro exI [of _ r] exI [of _ c']) simp
      qed
    qed
  qed
qed

definition sample_round :: "nat \<Rightarrow> nat \<Rightarrow> round_row" where
  "sample_round rd p0 =
     \<lparr>rr_id = ''r'' @ show_nat rd, rr_loopId = ''l1'', rr_round = rd, rr_iterationNumber = rd, rr_converged = Some False,
      rr_openP0 = Some p0, rr_openActionPoints = Some [], rr_verdict = None, rr_participants = Some [],
      rr_baselineCommit = None, rr_headCommit = None, rr_testSummary = None\<rparr>"

definition sample_ctl :: "loop_row \<Rightarrow> round_row list \<Rightarrow> loop_ctl" where
  "sample_ctl l rs =
     \<lparr>lc_store = \<lparr>ls_loops = [(lo_id l, l)], ls_rounds = map (\<lambda>r. (rr_id r, r)) rs\<rparr>, lc_orch = new_orch empty_task_store,
      lc_sdlcObjects = [], lc_sdlcRuns = [], lc_reviewObjects = [], lc_reviewRuns = [], lc_next = 0, lc_inFlight = [],
      lc_reservations = 0, lc_dispatched = []\<rparr>"

definition sample_loop_cfg :: loop_cfg where
  "sample_loop_cfg =
     \<lparr>lf_pollIntervalMs = 15000, lf_reviewStallTimeoutMs = 900000, lf_reviewMaxRedrives = 3, lf_taskTimeoutMs = 600000,
      lf_directReview = True, lf_verifyBeforeMerge = False, lf_verifyReview = False, lf_autoResume = True,
      lf_cooldownSeconds = 300, lf_maxAutoResumeAttempts = 3,
      lf_orch = \<lparr>oc_maxIterations = 0, oc_defaultModel = None, oc_retry = \<lparr>rc_enabled = False, rc_fallbackModel = None\<rparr>\<rparr>\<rparr>"

definition sample_world :: "int \<Rightarrow> loop_world" where
  "sample_world now =
     \<lparr>lw_now = now, lw_head = ''abc'', lw_diff = Diff_Ok ''diff'', lw_iterationId = ''i1'', lw_executionIds = [], lw_roundId = ''rr'',
      lw_verifier = \<lparr>tk_id = ''v'', tk_groupId = [], tk_name = ''Verifier'', tk_description = [], tk_status = T_Ready,
        tk_dependsOn = [], tk_workspaceId = None, tk_modelSlug = None, tk_teamId = None, tk_labels = [], tk_input = JNull,
        tk_sortOrder = 0\<rparr>,
      lw_lastLlm = None, lw_repoAllowed = True, lw_repoWorkspace = True\<rparr>"

lemma decision_table_witness:
  "\<exists>r c'. tick sample_loop_cfg (sample_world 0) ''l1'' (sample_ctl (sample_loop Deciding 1 3) [sample_round 1 2]) = (Row r, c') \<and>
     lo_state r = Developing \<and> lc_dispatched c' = [Dispatch_Dev ''l1'' 1 False]"
proof -
  let ?l = "sample_loop Deciding 1 3" and ?c = "sample_ctl (sample_loop Deciding 1 3) [sample_round 1 2]"
  let ?v = "\<lparr>cv_converged = False, cv_openP0 = 2, cv_openActionPoints = []\<rparr>"
  have l: "getLoop (lc_store ?c) ''l1'' = Some ?l" "lo_id ?l = ''l1''" "lo_state ?l = Deciding" "''l1'' \<notin> set (lc_inFlight ?c)"
    by (simp_all add: sample_ctl_def sample_loop_def getLoop_def)
  have ev: "deriveDecideEvent ?l ?c = Some (Decided ?v [2])" by code_simp
  have "verdict_state sample_loop_cfg ?l ?v [2] = Developing" by code_simp
  moreover have "lc_dispatched ?c = []" "lo_round ?l = 1" by (simp_all add: sample_ctl_def sample_loop_def)
  ultimately show ?thesis using decision_table [OF l ev, of sample_loop_cfg "sample_world 0"] by force
qed

section \<open>A gated loop\<close>

text \<open>
  C35: the review gate promises that a gated loop that rests in \<open>deciding\<close> can be sent to development by a human;
  \<open>develop\<close> always refuses, because the loop itself is the active loop of its group that its own check finds.
\<close>

theorem gated_develop_refused:
  assumes "getLoop (lc_store c) i = Some l" "lo_state l = Deciding"
  shows "\<exists>e. develop w i scope c = (Refused e, c)"
proof -
  have "l \<in> set (jvals (ls_loops (lc_store c)))" using jget_in [of "ls_loops (lc_store c)" i l] assms(1) by (force simp: getLoop_def)
  then have "getActiveLoopByGroup (lc_store c) (lo_groupId l) \<noteq> None"
    using assms(2) by (auto simp: getActiveLoopByGroup_def find_None_iff isLoopActive_def)
  then show ?thesis using assms(1) by (auto simp: develop_def develop_reserve_def Let_def)
qed

definition gated_ctl :: loop_ctl where
  "gated_ctl = sample_ctl ((sample_loop Deciding 1 3)\<lparr>lo_reviewGate := True\<rparr>)
     [(sample_round 1 2)\<lparr>rr_verdict := Some \<lparr>rv_verdict = ''v'', rv_pros = [], rv_cons = [],
        rv_actionPoints = [\<lparr>ap_title = ''fix'', ap_priority = Some ''P0'', ap_effort = None, ap_rationale = None,
          ap_tradeoff = None, ap_criterion = None, ap_method = None, ap_dependsOn = None, ap_weak = False\<rparr>]\<rparr>\<rparr>]"

lemma gated_develop_refused_witness:
  "isDevelopPromotable Deciding True \<and> fst (develop (sample_world 0) ''l1'' None gated_ctl) = Refused Active_Loop_Exists \<and>
   (\<exists>e. develop (sample_world 0) ''l1'' None gated_ctl = (Refused e, gated_ctl))"
proof (intro conjI)
  show "isDevelopPromotable Deciding True" by (simp add: isDevelopPromotable_def)
  show "fst (develop (sample_world 0) ''l1'' None gated_ctl) = Refused Active_Loop_Exists" by code_simp
  show "\<exists>e. develop (sample_world 0) ''l1'' None gated_ctl = (Refused e, gated_ctl)"
    by (rule gated_develop_refused [of _ _ "(sample_loop Deciding 1 3)\<lparr>lo_reviewGate := True\<rparr>"])
      (simp_all add: gated_ctl_def sample_ctl_def sample_loop_def getLoop_def)
qed

end
