(* ===== verification/Loop_Bounds.thy ===== *)
theory Loop_Bounds
  imports Loop_Facts
begin

text \<open>
  The three bounds the loop controller announces: at most three human developments at a time, which holds over every
  interleaving of the commands; a bounded number of automatic resumes and no round past the cap, which do not.
\<close>

section \<open>Automatic resumes\<close>

lemma resumed_tick:
  assumes l: "getLoop (lc_store c) i = Some l" "lo_id l = i" "lo_state l = Throttled" "i \<notin> set (lc_inFlight c)"
    and ph: "lo_throttledPhase l = Some Review_Phase" "lo_throttledUntil l = Some t" "t \<le> lw_now w"
    and cfg: "lf_autoResume cfg" "lo_resumeAttempts l < lf_maxAutoResumeAttempts cfg" "lf_directReview cfg"
    and ok: "lw_diff w = Diff_Ok input"
  shows "\<exists>r c'. tick cfg w i c = (Row r, c') \<and> getLoop (lc_store c') i = Some r \<and> lo_id r = i \<and> lo_state r = Reviewing \<and>
    lo_round r = lo_round l \<and> lo_resumeAttempts r = 0 \<and> lc_inFlight c' = lc_inFlight c \<and>
    jget (lc_reviewRuns c') i = Some (lc_next c) \<and>
    jget (lc_reviewObjects c') (lc_next c) = Some \<lparr>rn_round = lo_round l, rn_done = False, rn_result = None\<rparr> \<and>
    lc_dispatched c' = lc_dispatched c @ [Dispatch_Review i (lo_round l)]"
  using l ph cfg
  by (simp add: tick_def tickInner_def redriveStranded_def auto_resumable_def auto_resume_def retryThrottled_def
      retryThrottledReview_def enter_review_def startReviewRound_def dispatchReview_def casLoopState_def getLoop_def ok
      commit_def update_loop_def updateLoop_def reduce_def reduce_command_def trans_def Let_def)

lemma limited_tick:
  assumes l: "getLoop (lc_store c) i = Some l" "lo_id l = i" "lo_state l = Reviewing" "i \<notin> set (lc_inFlight c)"
    and run: "jget (lc_reviewRuns c) i = Some k" "jget (lc_reviewObjects c) k = Some \<lparr>rn_round = lo_round l, rn_done = True, rn_result = Some res\<rparr>"
    and res: "has_error res" "rv_rateLimited res"
  shows "\<exists>r c'. tick cfg w i c = (Row r, c') \<and> getLoop (lc_store c') i = Some r \<and> lo_id r = i \<and> lo_state r = Throttled \<and>
    lo_round r = lo_round l \<and> lo_resumeAttempts r = lo_resumeAttempts l \<and> lo_throttledPhase r = Some Review_Phase \<and>
    lo_throttledUntil r = Some (lw_now w + 1000 * int (lf_cooldownSeconds cfg)) \<and>
    lc_inFlight c' = lc_inFlight c \<and> lc_dispatched c' = lc_dispatched c"
proof -
  have rv: "review_of c i = Some \<lparr>rn_round = lo_round l, rn_done = True, rn_result = Some res\<rparr>"
    using run by (simp add: review_of_def)
  show ?thesis
    using l rv res
    by (simp add: tick_def tickInner_def redriveStranded_def auto_resumable_def deriveEvent_def deriveReviewEvent_def
        advance_loop_def opts_of_def casLoopState_def getLoop_def commit_def runSideEffect_def reduce_def trans_def Let_def
        review_of_def)
qed

text \<open>A resume, a run that meets the limit again, and the tick that notices.\<close>

definition throttle_cycle :: "loop_cfg \<Rightarrow> loop_world \<Rightarrow> review_result \<Rightarrow> string \<Rightarrow> loop_ctl \<Rightarrow> loop_ctl" where
  "throttle_cycle cfg w res i c = (let (_, c1) = tick cfg w i c in snd (tick cfg w i (settleReviewRun i (lc_next c) res c1)))"

fun throttle_cycles :: "loop_cfg \<Rightarrow> (nat \<Rightarrow> loop_world) \<Rightarrow> review_result \<Rightarrow> string \<Rightarrow> nat \<Rightarrow> loop_ctl \<Rightarrow> loop_ctl" where
  "throttle_cycles cfg ws res i 0 c = c"
| "throttle_cycles cfg ws res i (Suc n) c = throttle_cycle cfg (ws n) res i (throttle_cycles cfg ws res i n c)"

lemma throttle_cycle_step:
  assumes l: "getLoop (lc_store c) i = Some l" "lo_id l = i" "lo_state l = Throttled" "i \<notin> set (lc_inFlight c)"
    and ph: "lo_throttledPhase l = Some Review_Phase" "lo_throttledUntil l = Some t" "t \<le> lw_now w"
    and cfg: "lf_autoResume cfg" "lo_resumeAttempts l < lf_maxAutoResumeAttempts cfg" "lf_directReview cfg"
    and ok: "lw_diff w = Diff_Ok input" and res: "has_error res" "rv_rateLimited res"
  shows "\<exists>r. getLoop (lc_store (throttle_cycle cfg w res i c)) i = Some r \<and> lo_id r = i \<and> lo_state r = Throttled \<and>
    i \<notin> set (lc_inFlight (throttle_cycle cfg w res i c)) \<and> lo_throttledPhase r = Some Review_Phase \<and>
    lo_throttledUntil r = Some (lw_now w + 1000 * int (lf_cooldownSeconds cfg)) \<and> lo_resumeAttempts r = 0 \<and>
    lo_round r = lo_round l \<and>
    lc_dispatched (throttle_cycle cfg w res i c) = lc_dispatched c @ [Dispatch_Review i (lo_round l)]"
proof -
  from resumed_tick [OF l ph cfg ok] obtain r :: loop_row and c1 where 1: "tick cfg w i c = (Row r, c1)"
    "getLoop (lc_store c1) i = Some r" "lo_id r = i" "lo_state r = Reviewing" "lo_round r = lo_round l"
    "lo_resumeAttempts r = 0" "lc_inFlight c1 = lc_inFlight c" "jget (lc_reviewRuns c1) i = Some (lc_next c)"
    "jget (lc_reviewObjects c1) (lc_next c) = Some \<lparr>rn_round = lo_round l, rn_done = False, rn_result = None\<rparr>"
    "lc_dispatched c1 = lc_dispatched c @ [Dispatch_Review i (lo_round l)]" by blast
  let ?c2 = "settleReviewRun i (lc_next c) res c1"
  have c2: "?c2 = c1\<lparr>lc_reviewObjects := jset (lc_next c) \<lparr>rn_round = lo_round l, rn_done = True, rn_result = Some res\<rparr> (lc_reviewObjects c1)\<rparr>"
    using 1(8,9) by (simp add: settleReviewRun_def review_of_def)
  have "getLoop (lc_store ?c2) i = Some r" "i \<notin> set (lc_inFlight ?c2)" "jget (lc_reviewRuns ?c2) i = Some (lc_next c)"
    "jget (lc_reviewObjects ?c2) (lc_next c) = Some \<lparr>rn_round = lo_round r, rn_done = True, rn_result = Some res\<rparr>"
    using 1 l(4) by (simp_all add: c2)
  from limited_tick [OF this(1) 1(3,4) this(2-4) res, of cfg w] 1 c2 l(4) show ?thesis
    by (auto simp: throttle_cycle_def)
qed

text \<open>
  the configuration bounds the automatic resumes of a throttled loop (\<open>maxAutoResumeAttempts\<close>, "never retries
  forever"), but the resume itself resets the counter it has just raised: a loop that meets the limit in every run is
  resumed in every cooldown, any number of times, with a budget of one already.
\<close>

theorem auto_resume_is_unbounded:
  assumes "getLoop (lc_store c) i = Some l" "lo_id l = i" "lo_state l = Throttled" "i \<notin> set (lc_inFlight c)"
    and "lo_throttledPhase l = Some Review_Phase" "lo_throttledUntil l = Some t" "lo_resumeAttempts l = 0"
    and "lf_autoResume cfg" "0 < lf_maxAutoResumeAttempts cfg" "lf_directReview cfg"
    and "has_error res" "rv_rateLimited res"
    and world: "\<And>k. lw_diff (ws k) = Diff_Ok input \<and> lw_now (ws k) = t + 1000 * int (lf_cooldownSeconds cfg) * int k"
  shows "\<exists>r. getLoop (lc_store (throttle_cycles cfg ws res i n c)) i = Some r \<and> lo_state r = Throttled \<and>
    lo_resumeAttempts r = 0 \<and>
    lc_dispatched (throttle_cycles cfg ws res i n c) = lc_dispatched c @ replicate n (Dispatch_Review i (lo_round l))"
proof -
  have "\<exists>r. getLoop (lc_store (throttle_cycles cfg ws res i n c)) i = Some r \<and> lo_id r = i \<and> lo_state r = Throttled \<and>
    i \<notin> set (lc_inFlight (throttle_cycles cfg ws res i n c)) \<and> lo_throttledPhase r = Some Review_Phase \<and>
    lo_throttledUntil r = Some (t + 1000 * int (lf_cooldownSeconds cfg) * int n) \<and> lo_resumeAttempts r = 0 \<and>
    lo_round r = lo_round l \<and>
    lc_dispatched (throttle_cycles cfg ws res i n c) = lc_dispatched c @ replicate n (Dispatch_Review i (lo_round l))"
  proof (induction n)
    case 0
    show ?case using assms by simp
  next
    case (Suc n)
    then obtain r :: loop_row where r: "getLoop (lc_store (throttle_cycles cfg ws res i n c)) i = Some r" "lo_id r = i"
      "lo_state r = Throttled" "i \<notin> set (lc_inFlight (throttle_cycles cfg ws res i n c))"
      "lo_throttledPhase r = Some Review_Phase"
      "lo_throttledUntil r = Some (t + 1000 * int (lf_cooldownSeconds cfg) * int n)" "lo_resumeAttempts r = 0"
      "lo_round r = lo_round l"
      "lc_dispatched (throttle_cycles cfg ws res i n c) = lc_dispatched c @ replicate n (Dispatch_Review i (lo_round l))"
      by blast
    have "lw_now (ws n) = t + 1000 * int (lf_cooldownSeconds cfg) * int n" "lw_diff (ws n) = Diff_Ok input"
      using world by blast+
    moreover have "lo_resumeAttempts r < lf_maxAutoResumeAttempts cfg" using r(7) assms(9) by simp
    ultimately show ?case
      using throttle_cycle_step [OF r(1-6), of "ws n" cfg input res] assms(8,10-12) r(8,9)
      by (auto simp: replicate_app_Cons_same algebra_simps)
  qed
  then show ?thesis by blast
qed

definition limited_review :: review_result where
  "limited_review = \<lparr>rv_converged = False, rv_openP0 = 0, rv_openActionPoints = [], rv_judge = None, rv_participants = None,
     rv_error = Some ''429'', rv_rateLimited = True\<rparr>"

definition throttled_sample :: loop_row where
  "throttled_sample = (sample_loop Throttled 1 3)\<lparr>lo_throttledPhase := Some Review_Phase, lo_throttledUntil := Some 0\<rparr>"

lemma auto_resume_is_unbounded_witness:
  "lf_maxAutoResumeAttempts sample_loop_cfg = 3 \<and>
   lc_dispatched (throttle_cycles sample_loop_cfg (\<lambda>k. sample_world (300000 * int k)) limited_review ''l1'' 20
     (sample_ctl throttled_sample [])) = replicate 20 (Dispatch_Review ''l1'' 1)"
proof -
  have l: "getLoop (lc_store (sample_ctl throttled_sample [])) ''l1'' = Some throttled_sample" "lo_id throttled_sample = ''l1''"
    "lo_state throttled_sample = Throttled" "''l1'' \<notin> set (lc_inFlight (sample_ctl throttled_sample []))"
    "lo_throttledPhase throttled_sample = Some Review_Phase" "lo_throttledUntil throttled_sample = Some 0"
    "lo_resumeAttempts throttled_sample = 0" "lf_autoResume sample_loop_cfg" "0 < lf_maxAutoResumeAttempts sample_loop_cfg"
    "lf_directReview sample_loop_cfg" "has_error limited_review" "rv_rateLimited limited_review"
    by (simp_all add: sample_ctl_def throttled_sample_def sample_loop_def getLoop_def sample_loop_cfg_def has_error_def limited_review_def)
  have w: "lw_diff (sample_world (300000 * int k)) = Diff_Ok ''diff'' \<and>
    lw_now (sample_world (300000 * int k)) = 0 + 1000 * int (lf_cooldownSeconds sample_loop_cfg) * int k" for k
    by (simp add: sample_world_def sample_loop_cfg_def)
  from auto_resume_is_unbounded [OF l, of "\<lambda>k. sample_world (300000 * int k)" "''diff''" 20] w show ?thesis
    by (auto simp: sample_loop_cfg_def sample_ctl_def throttled_sample_def sample_loop_def)
qed

section \<open>Rounds past the cap\<close>

lemma startDevHandoff_simps [simp]:
  "fst (startDevHandoff w l v b c) = (\<lambda>r. r\<lparr>lo_openP0 := Some (cv_openP0 v)\<rparr>)"
  "snd (startDevHandoff w l v b c) = dispatchSdlc l b (recordRound w l v None c)"
  by (simp_all add: startDevHandoff_def)

lemma reserve_None:
  "reserve_dev i c = (None, c') \<longleftrightarrow> inFlightDevCommandCount c + lc_reservations c < max_concurrent_dev_handoffs \<and>
    i \<notin> set (lc_inFlight c) \<and> c' = c\<lparr>lc_reservations := lc_reservations c + 1, lc_inFlight := sadd i (lc_inFlight c)\<rparr>"
  by (auto simp: reserve_dev_def)

lemma develop_reserve_Inr:
  assumes "develop_reserve w i scope c = (Inr (l, aps), c1)"
  shows "getLoop (lc_store c) i = Some l \<and> isDevelopPromotable (lo_state l) (lo_reviewGate l) \<and>
    reserve_dev i c = (None, c1)"
  using assms by (auto simp: develop_reserve_def Let_def split: option.splits if_splits prod.splits)

lemma launch_dev_Done:
  assumes "launch_dev w l tr aps c = (Done r, c')"
  shows "\<exists>t won c1 c3. tr = Some t \<and> commit w l t id c = Some (won, c1) \<and>
    (r, c3) = update_loop w won (\<lambda>r. r\<lparr>lo_openP0 := Some (cv_openP0 (dev_verdict aps))\<rparr>)
      (dispatchSdlc won True (recordRound w won (dev_verdict aps) None c1)) \<and> c' = release_dev (lo_id l) c3"
  using assms by (auto simp: launch_dev_def startDevHandoff_def split: option.splits prod.splits)

lemma capped_develop:
  assumes l: "getLoop (lc_store c) i = Some l" "lo_id l = i" "lo_state l = Stopped_Cap"
    and d: "develop w i scope c = (Done r, c')"
  shows "getLoop (lc_store c') i = Some r \<and> lo_id r = i \<and> lo_state r = Developing \<and> lo_round r = lo_round l \<and>
    lo_maxRounds r = lo_maxRounds l \<and> i \<notin> set (lc_inFlight c') \<and> jget (lc_sdlcRuns c') i = Some (lc_next c) \<and>
    jget (lc_sdlcObjects c') (lc_next c) = Some \<lparr>sd_round = lo_round l, sd_done = False, sd_result = None, sd_viaCommand = True\<rparr>"
proof -
  from d obtain aps c1 where 1: "develop_reserve w i scope c = (Inr (l, aps), c1)" "develop_launch w l aps c1 = (Done r, c')"
    using l develop_reserve_Inr by (auto simp: develop_def split: prod.splits sum.splits)
  let ?t = "trans Stopped_Cap Developing (\<lambda>r. r\<lparr>lo_completedAt := None, lo_error := None\<rparr>)"
  let ?c1 = "c\<lparr>lc_reservations := lc_reservations c + 1, lc_inFlight := sadd i (lc_inFlight c)\<rparr>"
  have c1: "c1 = ?c1" using develop_reserve_Inr [OF 1(1)] by (simp add: reserve_None)
  have "reduce (lw_now w) (lo_state l) Develop_Requested (no_opts\<lparr>ro_reviewGate := lo_reviewGate l\<rparr>) = Some ?t"
    using l(3) by (simp add: reduce_def reduce_command_def)
  with 1(2) c1 have "launch_dev w l (Some ?t) aps ?c1 = (Done r, c')" by (simp add: develop_launch_def)
  from launch_dev_Done [OF this] obtain won c2 c3 where 2: "commit w l ?t id ?c1 = Some (won, c2)"
    "(r, c3) = update_loop w won (\<lambda>r. r\<lparr>lo_openP0 := Some (cv_openP0 (dev_verdict aps))\<rparr>)
      (dispatchSdlc won True (recordRound w won (dev_verdict aps) None c2))" "c' = release_dev (lo_id l) c3" by blast
  from commit_Some [OF 2(1)] l obtain st where 3: "c2 = ?c1\<lparr>lc_store := st\<rparr>" "getLoop st i = Some won" "lo_state won = Developing"
    "lo_id won = i" "lo_round won = lo_round l" "lo_maxRounds won = lo_maxRounds l"
    by (auto simp: trans_def)
  have "getLoop (lc_store (dispatchSdlc won True (recordRound w won (dev_verdict aps) None c2))) (lo_id won) = Some won"
    using 3 by simp
  from update_loop_won [OF this, of w "\<lambda>r. r\<lparr>lo_openP0 := Some (cv_openP0 (dev_verdict aps))\<rparr>"] 2 3 l(2) show ?thesis
    by (auto simp: release_dev_def dispatchSdlc_def)
qed

lemma developed_tick:
  assumes l: "getLoop (lc_store c) i = Some l" "lo_id l = i" "lo_state l = Developing" "i \<notin> set (lc_inFlight c)"
    and run: "sdlc_of c i = Some \<lparr>sd_round = lo_round l, sd_done = True, sd_result = Some res, sd_viaCommand = b\<rparr>"
    and res: "\<not> dv_rateLimited res" and cfg: "\<not> lf_verifyBeforeMerge cfg"
  shows "\<exists>r c'. tick cfg w i c = (Row r, c') \<and> getLoop (lc_store c') i = Some r \<and> lo_id r = i \<and> lo_state r = Awaiting_Merge \<and>
    lo_round r = lo_round l \<and> lo_maxRounds r = lo_maxRounds l \<and> i \<notin> set (lc_inFlight c')"
  using l run res cfg
  by (simp add: tick_def tickInner_def redriveStranded_def auto_resumable_def deriveEvent_def deriveDevEvent_def
      advance_loop_def opts_of_def casLoopState_def getLoop_def commit_def runSideEffect_def reduce_def trans_def Let_def)

lemma merged_step:
  assumes l: "getLoop (lc_store c) i = Some l" "lo_id l = i" "lo_state l = Awaiting_Merge" "i \<notin> set (lc_inFlight c)"
    and cfg: "\<not> lf_verifyBeforeMerge cfg"
  shows "\<exists>r c'. onMergeApproved cfg w i c = (Some r, c') \<and> getLoop (lc_store c') i = Some r \<and> lo_id r = i \<and>
    lo_state r = Building_Context \<and> lo_round r = lo_round l \<and> lo_maxRounds r = lo_maxRounds l \<and> i \<notin> set (lc_inFlight c')"
  using l cfg
  by (simp add: onMergeApproved_def opts_of_def casLoopState_def getLoop_def commit_def reduce_def trans_def Let_def)

lemma context_tick:
  assumes l: "getLoop (lc_store c) i = Some l" "lo_id l = i" "lo_state l = Building_Context" "i \<notin> set (lc_inFlight c)"
    and cfg: "lf_directReview cfg" and ok: "lw_diff w = Diff_Ok input"
  shows "\<exists>r c'. tick cfg w i c = (Row r, c') \<and> getLoop (lc_store c') i = Some r \<and> lo_state r = Reviewing \<and>
    lo_round r = lo_round l + 1 \<and> lo_maxRounds r = lo_maxRounds l"
  using l cfg
  by (simp add: tick_def tickInner_def redriveStranded_def auto_resumable_def deriveEvent_def advance_loop_def opts_of_def
      casLoopState_def getLoop_def commit_def runSideEffect_def startReviewRound_def dispatchReview_def ok update_loop_def
      updateLoop_def reduce_def trans_def Let_def)

text \<open>From a development that was commanded to the review of the next round.\<close>

definition develop_and_merge :: "loop_cfg \<Rightarrow> loop_world \<Rightarrow> string \<Rightarrow> dev_scope option \<Rightarrow> dev_result \<Rightarrow> loop_ctl \<Rightarrow> loop_ctl" where
  "develop_and_merge cfg w i scope res c =
     (let c1 = settleSdlcRun i (lc_next c) res (snd (develop w i scope c));
          c2 = snd (tick cfg w i c1); c3 = snd (onMergeApproved cfg w i c2)
      in snd (tick cfg w i c3))"

text \<open>
  the round counter is said to make the cap final: a promotion by a human "buys no extra \<open>maxRounds\<close>". The
  promotion keeps the round, but its development goes on to the merge gate, and the approved merge starts the review
  of a round past the cap; nothing on that way compares the round with it.
\<close>

theorem development_passes_the_cap:
  assumes l: "getLoop (lc_store c) i = Some l" "lo_id l = i" "lo_state l = Stopped_Cap" "lo_round l = lo_maxRounds l"
    and d: "develop w i scope c = (Done r, c')"
    and "\<not> dv_rateLimited res" "\<not> lf_verifyBeforeMerge cfg" "lf_directReview cfg" "lw_diff w = Diff_Ok input"
  shows "\<exists>r'. getLoop (lc_store (develop_and_merge cfg w i scope res c)) i = Some r' \<and> lo_state r' = Reviewing \<and>
    lo_round r' = lo_maxRounds r' + 1 \<and> lo_maxRounds r' = lo_maxRounds l"
proof -
  note D = capped_develop [OF l(1-3) d]
  let ?c1 = "settleSdlcRun i (lc_next c) res c'"
  have c1: "?c1 = c'\<lparr>lc_sdlcObjects := jset (lc_next c)
      \<lparr>sd_round = lo_round l, sd_done = True, sd_result = Some res, sd_viaCommand = True\<rparr> (lc_sdlcObjects c')\<rparr>"
    using D by (simp add: settleSdlcRun_def sdlc_of_def settled_good_pr_def)
  have "getLoop (lc_store ?c1) i = Some r" "lo_id r = i" "lo_state r = Developing" "i \<notin> set (lc_inFlight ?c1)"
    "sdlc_of ?c1 i = Some \<lparr>sd_round = lo_round r, sd_done = True, sd_result = Some res, sd_viaCommand = True\<rparr>"
    using D by (simp_all add: c1 sdlc_of_def)
  from developed_tick [OF this assms(6,7), of w] obtain r2 :: loop_row and c2 where 2: "tick cfg w i ?c1 = (Row r2, c2)"
    "getLoop (lc_store c2) i = Some r2" "lo_id r2 = i" "lo_state r2 = Awaiting_Merge" "i \<notin> set (lc_inFlight c2)"
    "lo_round r2 = lo_round r" "lo_maxRounds r2 = lo_maxRounds r" by blast
  from merged_step [OF 2(2-5) assms(7), of w] obtain r3 :: loop_row and c3 where 3: "onMergeApproved cfg w i c2 = (Some r3, c3)"
    "getLoop (lc_store c3) i = Some r3" "lo_id r3 = i" "lo_state r3 = Building_Context" "i \<notin> set (lc_inFlight c3)"
    "lo_round r3 = lo_round r2" "lo_maxRounds r3 = lo_maxRounds r2" by blast
  from context_tick [OF 3(2-5) assms(8,9)] obtain r4 :: loop_row and c4 where "tick cfg w i c3 = (Row r4, c4)"
    "getLoop (lc_store c4) i = Some r4" "lo_state r4 = Reviewing" "lo_round r4 = lo_round r3 + 1" "lo_maxRounds r4 = lo_maxRounds r3"
    by blast
  with 2 3 D d l(4) show ?thesis by (simp add: develop_and_merge_def Let_def)
qed

definition capped_ctl :: loop_ctl where
  "capped_ctl = gated_ctl\<lparr>lc_store := (lc_store gated_ctl)\<lparr>ls_loops := [(''l1'', sample_loop Stopped_Cap 1 1)]\<rparr>\<rparr>"

definition sample_dev :: dev_result where
  "sample_dev = \<lparr>dv_prRef = Some ''pr1'', dv_headCommit = ''abc'', dv_error = None, dv_integrationBase = None,
     dv_rateLimited = False, dv_testSummary = None\<rparr>"

lemma development_passes_the_cap_witness:
  "\<exists>r'. getLoop (lc_store (develop_and_merge sample_loop_cfg (sample_world 0) ''l1'' None sample_dev capped_ctl)) ''l1'' = Some r' \<and>
     lo_round r' = 2 \<and> lo_maxRounds r' = 1"
proof -
  have l: "getLoop (lc_store capped_ctl) ''l1'' = Some (sample_loop Stopped_Cap 1 1)" "lo_id (sample_loop Stopped_Cap 1 1) = ''l1''"
    "lo_state (sample_loop Stopped_Cap 1 1) = Stopped_Cap"
    "lo_round (sample_loop Stopped_Cap 1 1) = lo_maxRounds (sample_loop Stopped_Cap 1 1)"
    by (simp_all add: capped_ctl_def getLoop_def sample_loop_def)
  have "case fst (develop (sample_world 0) ''l1'' None capped_ctl) of Done r \<Rightarrow> True | _ \<Rightarrow> False" by code_simp
  then obtain r c' where d: "develop (sample_world 0) ''l1'' None capped_ctl = (Done r, c')"
    by (cases "develop (sample_world 0) ''l1'' None capped_ctl") (auto split: command_result.splits)
  have "\<not> dv_rateLimited sample_dev" "\<not> lf_verifyBeforeMerge sample_loop_cfg" "lf_directReview sample_loop_cfg"
    "lw_diff (sample_world 0) = Diff_Ok ''diff''"
    by (simp_all add: sample_dev_def sample_loop_cfg_def sample_world_def)
  from development_passes_the_cap [OF l d this] show ?thesis by (auto simp: sample_loop_def)
qed

end
