(* ===== verification/Loop_Slots.thy ===== *)
theory Loop_Slots
  imports Loop_Bounds
begin

text \<open>
  The concurrency cap of human developments: \<open>slots n c\<close> says that the commands in flight and \<open>n\<close> reservations fit
  under the cap. Every call of the controller keeps it; a reservation and its launch move \<open>n\<close> by one.
\<close>

section \<open>Counting\<close>

lemma count_update:
  "length (filter P (jset k v m)) \<le> length (filter P m) + (if P (k, v) then 1 else 0)"
  by (induction m) auto

lemma count_update_False: "\<not> P (k, v) \<Longrightarrow> length (filter P (jset k v m)) \<le> length (filter P m)"
  using count_update [of P k v m] by simp

lemma count_delete: "length (filter P (jdel k m)) \<le> length (filter P m)"
  by (induction m) auto

lemma count_mono: "\<forall>x \<in> set m. Q x \<longrightarrow> P x \<Longrightarrow> length (filter Q m) \<le> length (filter P m)"
  by (induction m) auto

definition counted :: "(nat, sdlc_run) jsmap \<Rightarrow> string \<times> nat \<Rightarrow> bool" where
  "counted obs = (\<lambda>(i, k). case jget obs k of Some r \<Rightarrow> \<not> sd_done r \<and> sd_viaCommand r | None \<Rightarrow> False)"

lemma count_def': "inFlightDevCommandCount c = length (filter (counted (lc_sdlcObjects c)) (lc_sdlcRuns c))"
  by (simp add: inFlightDevCommandCount_def counted_def)

definition slots :: "nat \<Rightarrow> loop_ctl \<Rightarrow> bool" where
  "slots n c \<longleftrightarrow> lc_reservations c = n \<and> (\<forall>(i, k) \<in> set (lc_sdlcRuns c). k < lc_next c) \<and>
     inFlightDevCommandCount c + n \<le> max_concurrent_dev_handoffs"

text \<open>Only four fields matter.\<close>

lemma slots_frame:
  assumes "slots n c" "lc_sdlcObjects c' = lc_sdlcObjects c" "lc_sdlcRuns c' = lc_sdlcRuns c"
    "lc_reservations c' = lc_reservations c" "lc_next c \<le> lc_next c'"
  shows "slots n c'"
  using assms by (fastforce simp: slots_def count_def')

lemma slots_store [simp]:
  "slots n (c\<lparr>lc_store := st\<rparr>) = slots n c" "slots n (c\<lparr>lc_orch := ob\<rparr>) = slots n c"
  "slots n (c\<lparr>lc_reviewRuns := rs\<rparr>) = slots n c" "slots n (c\<lparr>lc_reviewObjects := ob'\<rparr>) = slots n c"
  by (simp_all add: slots_def count_def')

lemma slots_jdel: "slots n c \<Longrightarrow> slots n (c\<lparr>lc_sdlcRuns := jdel i (lc_sdlcRuns c)\<rparr>)"
  using count_delete [of "counted (lc_sdlcObjects c)" i "lc_sdlcRuns c"]
  by (auto simp: slots_def count_def' AList.delete_eq)

section \<open>Each operation\<close>

lemma slots_recordRound [intro]: "slots n c \<Longrightarrow> slots n (recordRound w l v a c)"
  by (erule slots_frame) simp_all

lemma slots_commit: "slots n c \<Longrightarrow> commit w l t f c = Some (r, c') \<Longrightarrow> slots n c'"
  by (auto simp: commit_def split: option.splits)

lemma slots_update: "slots n c \<Longrightarrow> slots n (snd (update_loop w l f c))"
  by (auto simp: update_loop_def split: option.splits)

lemma count_fresh:
  assumes "\<forall>(i, k) \<in> set m. k < nx"
  shows "length (filter (counted (jset nx r obs)) m) = length (filter (counted obs) m)"
  by (rule arg_cong [where f = length], rule filter_cong) (use assms in \<open>auto simp: counted_def\<close>)

lemma dispatchSdlc_count:
  assumes "\<forall>(i, k) \<in> set (lc_sdlcRuns c). k < lc_next c"
  shows "inFlightDevCommandCount (dispatchSdlc l b c) \<le> inFlightDevCommandCount c + (if b then 1 else 0) \<and>
    (\<forall>(i, k) \<in> set (lc_sdlcRuns (dispatchSdlc l b c)). k < lc_next (dispatchSdlc l b c)) \<and>
    lc_reservations (dispatchSdlc l b c) = lc_reservations c"
proof -
  let ?r = "\<lparr>sd_round = lo_round l, sd_done = False, sd_result = None, sd_viaCommand = b\<rparr>"
  let ?obs = "jset (lc_next c) ?r (lc_sdlcObjects c)"
  have "length (filter (counted ?obs) (jset (lo_id l) (lc_next c) (lc_sdlcRuns c))) \<le>
      length (filter (counted ?obs) (lc_sdlcRuns c)) + (if b then 1 else 0)"
    using count_update [of "counted ?obs" "lo_id l" "lc_next c" "lc_sdlcRuns c"] by (simp add: counted_def)
  with count_fresh [OF assms, of ?r "lc_sdlcObjects c"]
  have "inFlightDevCommandCount (dispatchSdlc l b c) \<le> inFlightDevCommandCount c + (if b then 1 else 0)"
    by (simp add: dispatchSdlc_def count_def')
  moreover have "set (jset a k m) \<subseteq> insert (a, k) (set m)" for a k and m :: "(string, nat) jsmap"
    by (induction m) auto
  ultimately show ?thesis using assms by (fastforce simp: dispatchSdlc_def)
qed

lemma slots_dispatchSdlc: "slots n c \<Longrightarrow> slots n (dispatchSdlc l False c)"
  using dispatchSdlc_count [of c l False] by (auto simp: slots_def)

lemma slots_handoff: "slots n c \<Longrightarrow> slots n (snd (startDevHandoff w l v False c))"
  by (simp add: slots_dispatchSdlc slots_recordRound)

lemma slots_dispatchReview: "slots n c \<Longrightarrow> slots n (dispatchReview l c)"
  by (erule slots_frame) (simp_all add: dispatchReview_def)

lemma count_done:
  "length (filter (counted (jset k (run\<lparr>sd_done := True, sd_result := x\<rparr>) obs)) m) \<le> length (filter (counted obs) m)"
  by (rule count_mono) (auto simp: counted_def split: if_splits)

lemma slots_done:
  "slots n c \<Longrightarrow> slots n (c\<lparr>lc_sdlcObjects := jset k (run\<lparr>sd_done := True, sd_result := x\<rparr>) (lc_sdlcObjects c)\<rparr>)"
  using count_done [where k = k and run = run and x = x and obs = "lc_sdlcObjects c" and m = "lc_sdlcRuns c"] by (simp add: slots_def count_def')

lemma slots_settleSdlc: "slots n c \<Longrightarrow> slots n (settleSdlcRun i k res c)"
  by (simp add: settleSdlcRun_def Let_def slots_done split: option.split)

lemma slots_sdlc_settled: "slots n c \<Longrightarrow> slots n (sdlc_settled i k res c)"
  using slots_settleSdlc [of n c i k res] by (auto simp: sdlc_settled_def Let_def split: option.splits)

lemma slots_settleReview: "slots n c \<Longrightarrow> slots n (settleReviewRun i k res c)"
  by (simp add: settleReviewRun_def Let_def split: option.split)

lemma slots_startReview: "slots n c \<Longrightarrow> startReviewRound cfg w b l c = (x, c') \<Longrightarrow> slots n c'"
  by (auto simp: startReviewRound_def Let_def slots_dispatchReview split: if_splits diff_outcome.splits sum.splits
      intro: slots_frame)

lemma slots_failUnresolved: "slots n c \<Longrightarrow> failUnresolvedReview w l m c = Some (r, c') \<Longrightarrow> slots n c'"
  by (auto simp: failUnresolvedReview_def slots_commit split: option.splits)

lemma slots_update_eq: "update_loop w l f c = (r, c') \<Longrightarrow> slots n c \<Longrightarrow> slots n c'"
  using slots_update [of n c w l f] by simp

lemma slots_storeI: "slots n c \<Longrightarrow> slots n (c\<lparr>lc_store := st\<rparr>)" "slots n c \<Longrightarrow> slots n (c\<lparr>lc_orch := ob\<rparr>)"
  by simp_all

lemmas slots_rules = slots_storeI slots_jdel slots_recordRound slots_commit slots_update_eq slots_startReview
  slots_failUnresolved slots_dispatchSdlc

lemma slots_sideEffect:
  assumes "slots n c"
  shows "slots n (snd (runSideEffect cfg w l t ev c))"
proof (cases "tr_to t = Reviewing")
  case True
  then show ?thesis using assms
    by (simp add: runSideEffect_def split: review_start.split prod.split option.split) (blast intro: slots_rules)
next
  case r: False
  show ?thesis
  proof (cases "tr_from t = Reviewing")
    case True
    with r assms show ?thesis
      by (simp add: runSideEffect_def Let_def slots_recordRound split: option.split loop_event.split)
  next
    case False
    with r assms show ?thesis
      by (simp add: runSideEffect_def startDevHandoff_def split: loop_event.split) (blast intro: slots_rules)
  qed
qed

text \<open>The outcomes of a review that is started, in the shape its callers treat them.\<close>

lemma slots_review_outcome:
  assumes "slots n c"
  shows "slots n (snd (case startReviewRound cfg w b l c of
     (Ref_Unresolvable msg, c2) \<Rightarrow> (case failUnresolvedReview w l msg c2 of None \<Rightarrow> (a, c2) | Some (r, c3) \<Rightarrow> (fa r, c3))
   | (Context_Failed msg, c2) \<Rightarrow> (let (r, c3) = update_loop w l (g msg) c2 in (fb r, c3))
   | (Round_Started f, c2) \<Rightarrow> (let (r, c3) = update_loop w l (h f) c2 in (fc r, c3))
   | (Start_Threw e, c2) \<Rightarrow> (fd e, c2)))"
proof -
  obtain x c2 where s: "startReviewRound cfg w b l c = (x, c2)" by fastforce
  then have "slots n c2" by (rule slots_startReview [OF assms])
  with s show ?thesis
    by (cases x) (auto simp: split_beta slots_update split: option.split dest: slots_failUnresolved)
qed

lemma slots_if: "(b \<Longrightarrow> slots n (snd x)) \<Longrightarrow> (\<not> b \<Longrightarrow> slots n (snd y)) \<Longrightarrow> slots n (snd (if b then x else y))"
  by simp

lemma slots_redrive:
  assumes "slots n c"
  shows "slots n (snd (redriveStranded cfg w l c))"
proof (cases "claimRedrive (lw_now w) (lo_id l) (lo_state l) (redriveGraceMs cfg (lo_state l)) (lc_store c)")
  case None
  show ?thesis unfolding redriveStranded_def None by (intro slots_if) (use assms in simp_all)
next
  case (Some p)
  then obtain claimed st where p: "claimRedrive (lw_now w) (lo_id l) (lo_state l) (redriveGraceMs cfg (lo_state l)) (lc_store c)
    = Some (claimed, st)" by (cases p) simp
  let ?c1 = "c\<lparr>lc_store := st\<rparr>"
  have c1: "slots n ?c1" using assms by simp
  note R = slots_review_outcome [OF c1, where cfg = cfg and w = w and b = False and l = claimed and a = None and
    fa = "\<lambda>r. Some (Row r)" and g = "\<lambda>msg r. r\<lparr>lo_error := Some msg\<rparr>" and fb = "\<lambda>r. Some (Row r)" and h = "\<lambda>f. f" and
    fc = "\<lambda>r. Some (Row r)" and fd = "\<lambda>e. Some (Threw e)"]
  have D: "slots n (snd (case resolveVerdict claimed ?c1 of None \<Rightarrow> (None, ?c1)
       | Some v \<Rightarrow> (let (f, c2) = startDevHandoff w claimed v False ?c1; (r, c3) = update_loop w claimed f c2 in (Some (Row r), c3))))"
    using c1 by (simp add: startDevHandoff_def split_beta split: option.split) (blast intro: slots_update slots_rules)
  show ?thesis unfolding redriveStranded_def p option.case prod.case Let_def
    by (intro slots_if) (use assms R [unfolded Let_def] D [unfolded Let_def] in simp_all)
qed

lemma slots_relaunch:
  assumes "slots n c"
  shows "slots n (snd (relaunch_review cfg w claimed it idleMin c))"
proof (cases "reviewRedriveCount claimed \<ge> lf_reviewMaxRedrives cfg")
  case True
  with assms show ?thesis by (simp add: relaunch_review_def split: option.split) (blast intro: slots_rules)
next
  case False
  obtain r0 c1 where u: "update_loop w claimed (\<lambda>r. r\<lparr>lo_currentIterationNumber := None\<rparr>) c = (r0, c1)" by fastforce
  then have "slots n c1" using assms by (rule slots_update_eq)
  then have c1: "slots n (c1\<lparr>lc_orch := ob\<rparr>)" for ob by simp
  note R = slots_review_outcome [OF c1, where cfg = cfg and w = w and b = True and l = claimed and a = None and
    fa = "\<lambda>r. Some (Row r)" and g = "\<lambda>msg r. r\<lparr>lo_error := Some msg\<rparr>" and fb = "\<lambda>r. Some (Row r)" and
    h = "\<lambda>f r. (f r)\<lparr>lo_reviewRedrive := Some (lo_round claimed, reviewRedriveCount claimed + 1)\<rparr>" and
    fc = "\<lambda>r. Some (Row r)" and fd = "\<lambda>e. Some (Threw e)"]
  show ?thesis unfolding relaunch_review_def u Let_def prod.case
    by (intro slots_if) (use False R [unfolded Let_def] in simp_all)
qed

lemma slots_stalled: "slots n c \<Longrightarrow> slots n (snd (recoverStalledReview cfg w l c))"
  by (simp add: recoverStalledReview_def Let_def slots_relaunch split: option.split bool.split)

lemma slots_launch:
  assumes "slots (Suc n) c"
  shows "slots n (snd (launch_dev w l tr aps c))"
proof -
  have rel: "slots n (release_dev i c')" if "slots (Suc n) c'" for i c'
    using that by (simp add: release_dev_def slots_def count_def')
  show ?thesis
  proof (cases tr)
    case None
    then show ?thesis using rel [OF assms] by (simp add: launch_dev_def)
  next
    case (Some t)
    show ?thesis
    proof (cases "commit w l t id c")
      case None
      then show ?thesis using rel [OF assms] by (simp add: launch_dev_def Some)
    next
      case (Some p)
      then obtain won c1 where p: "commit w l t id c = Some (won, c1)" by (cases p) simp
      then have "slots (Suc n) (recordRound w won (dev_verdict aps) None c1)" (is "slots _ ?c2")
        using slots_commit [OF assms] by blast
      then have d: "lc_reservations (dispatchSdlc won True ?c2) = Suc n"
        "\<forall>(i, k) \<in> set (lc_sdlcRuns (dispatchSdlc won True ?c2)). k < lc_next (dispatchSdlc won True ?c2)"
        "inFlightDevCommandCount (dispatchSdlc won True ?c2) + n \<le> max_concurrent_dev_handoffs"
        using dispatchSdlc_count [of ?c2 won True] by (auto simp: slots_def)
      obtain r c3 where u: "update_loop w won (\<lambda>r. r\<lparr>lo_openP0 := Some (cv_openP0 (dev_verdict aps))\<rparr>) (dispatchSdlc won True ?c2) = (r, c3)"
        by fastforce
      then have "lc_reservations c3 = Suc n" "\<forall>(i, k) \<in> set (lc_sdlcRuns c3). k < lc_next c3"
        "inFlightDevCommandCount c3 + n \<le> max_concurrent_dev_handoffs"
        using d by (auto simp: update_loop_def count_def' split: option.splits)
      then have "slots n (release_dev (lo_id l) c3)" by (simp add: release_dev_def slots_def count_def')
      then show ?thesis using \<open>tr = Some t\<close> p u by (simp add: launch_dev_def startDevHandoff_def)
    qed
  qed
qed

lemma slots_reserve: "slots n c \<Longrightarrow> reserve_dev i c = (e, c') \<Longrightarrow> slots (if e = None then Suc n else n) c'"
  by (auto simp: reserve_dev_def slots_def count_def' split: if_splits)

lemma slots_develop_reserve:
  "slots n c \<Longrightarrow> develop_reserve w i scope c = (Inl e, c') \<Longrightarrow> slots n c'"
  "slots n c \<Longrightarrow> develop_reserve w i scope c = (Inr x, c') \<Longrightarrow> slots (Suc n) c'"
  using slots_reserve
  by (fastforce simp: develop_reserve_def Let_def split: option.splits if_splits prod.splits)+

lemma slots_retryDevelop: "slots n c \<Longrightarrow> slots n (snd (retryThrottledDevelop w l c))"
  using slots_reserve [of n c "lo_id l"] slots_launch
  by (auto simp: retryThrottledDevelop_def Let_def split: option.split prod.split)

lemma slots_enter: "slots n c \<Longrightarrow> enter_review cfg w l c = Some (won, t, c') \<Longrightarrow> slots n c'"
  by (auto simp: enter_review_def slots_commit split: option.splits)

lemma slots_retryReview:
  assumes "slots n c"
  shows "slots n (snd (retryThrottledReview cfg w l c))"
proof (cases "reduce (lw_now w) (lo_state l) (Retry_Requested Review_Phase) no_opts")
  case None
  then show ?thesis using assms by (simp add: retryThrottledReview_def)
next
  case t: (Some t)
  show ?thesis
  proof (cases "commit w l t id c")
    case None
    then show ?thesis using assms t by (simp add: retryThrottledReview_def)
  next
    case (Some p)
    then obtain building c1 where p: "commit w l t id c = Some (building, c1)" by (cases p) simp
    have c1: "slots n c1" using slots_commit [OF assms p] .
    show ?thesis
    proof (cases "enter_review cfg w building c1")
      case None
      then show ?thesis using assms t p c1 by (simp add: retryThrottledReview_def)
    next
      case (Some q)
      then obtain won t2 c2 where q: "enter_review cfg w building c1 = Some (won, t2, c2)" by (cases q) auto
      note R = slots_review_outcome [OF slots_enter [OF c1 q], where cfg = cfg and w = w and b = True and l = won and
        a = "Refused Cas_Lost" and fa = Done and g = "\<lambda>msg r. r\<lparr>lo_error := Some msg\<rparr>" and fb = Done and h = "\<lambda>f. f" and
        fc = Done and fd = Raised]
      show ?thesis unfolding retryThrottledReview_def t p q option.case prod.case Let_def
        by (intro slots_if) (use assms R [unfolded Let_def] in simp_all)
    qed
  qed
qed

lemma slots_retry: "slots n c \<Longrightarrow> slots n (snd (retryThrottled cfg w i c))"
  by (simp add: retryThrottled_def slots_retryDevelop slots_retryReview split: option.split)

lemma slots_side_eq: "slots n c \<Longrightarrow> runSideEffect cfg w l t ev c = (x, c') \<Longrightarrow> slots n c'"
  using slots_sideEffect [of n c cfg w l t ev] by simp

lemma slots_effect_outcome:
  assumes "slots n c"
  shows "slots n (snd (case runSideEffect cfg w l t ev c of
     (Inl e, c3) \<Rightarrow> (fa e, c3) | (Inr None, c3) \<Rightarrow> (b, c3)
   | (Inr (Some f), c3) \<Rightarrow> (let (r, c4) = update_loop w l f c3 in (fc r, c4))))"
proof -
  obtain x c3 where s: "runSideEffect cfg w l t ev c = (x, c3)" by fastforce
  then have "slots n c3" by (rule slots_side_eq [OF assms])
  with s show ?thesis by (auto simp: split_beta slots_update split: sum.split option.split)
qed

lemma slots_reReview:
  assumes "slots n c"
  shows "slots n (snd (requestReReview cfg w i c))"
proof (cases "getLoop (lc_store c) i")
  case None
  then show ?thesis using assms by (simp add: requestReReview_def)
next
  case l: (Some l)
  show ?thesis
  proof (cases "reduce (lw_now w) (lo_state l) Rereview_Requested no_opts")
    case None
    show ?thesis unfolding requestReReview_def l None option.case by (intro slots_if) (use assms in simp_all)
  next
    case t: (Some t)
    have "slots n (snd (case enter_review cfg w building c1 of None \<Rightarrow> (Refused Cas_Lost, c1)
        | Some (won, t2, c2) \<Rightarrow> (case runSideEffect cfg w won t2 Context_Built c2 of
            (Inl e, c3) \<Rightarrow> (Raised e, c3) | (Inr None, c3) \<Rightarrow> (Done won, c3)
          | (Inr (Some f), c3) \<Rightarrow> (let (r, c4) = update_loop w won f c3 in (Done r, c4)))))"
      if "slots n c1" for building c1
      by (cases "enter_review cfg w building c1")
        (auto simp: that slots_effect_outcome [OF slots_enter [OF that]] split del: prod.split)
    then have "slots n (snd (case commit w l t id c of None \<Rightarrow> (Refused Cas_Lost, c)
        | Some (building, c1) \<Rightarrow> (case enter_review cfg w building c1 of None \<Rightarrow> (Refused Cas_Lost, c1)
        | Some (won, t2, c2) \<Rightarrow> (case runSideEffect cfg w won t2 Context_Built c2 of
            (Inl e, c3) \<Rightarrow> (Raised e, c3) | (Inr None, c3) \<Rightarrow> (Done won, c3)
          | (Inr (Some f), c3) \<Rightarrow> (let (r, c4) = update_loop w won f c3 in (Done r, c4))))))"
      using slots_commit [OF assms] assms by (cases "commit w l t id c") (auto split del: prod.split)
    then show ?thesis unfolding requestReReview_def l t option.case by (intro slots_if) (use assms in simp_all)
  qed
qed

lemma slots_merge:
  assumes "slots n c"
  shows "slots n (snd (onMergeApproved cfg w i c))"
proof -
  have "slots n (snd (case commit w l t f c of None \<Rightarrow> (None, c) | Some (won, c1) \<Rightarrow> (Some won, c1)))" for l t f
    using slots_commit [OF assms] assms by (cases "commit w l t f c") auto
  with assms show ?thesis by (simp add: onMergeApproved_def Let_def split: option.split)
qed

lemma slots_end:
  assumes "slots n c"
  shows "slots n (snd (end_loop w i ev c))"
proof -
  have "slots n (c\<lparr>lc_orch := ob, lc_sdlcRuns := jdel i (lc_sdlcRuns c)\<rparr>)" for ob
    using slots_jdel [of n "c\<lparr>lc_orch := ob\<rparr>" i] assms by simp
  with assms show ?thesis by (auto simp: end_loop_def Let_def dest: slots_commit split: option.split)
qed

section \<open>The tick\<close>

lemma slots_auto_resume:
  assumes "slots n c"
  shows "slots n (snd (auto_resume cfg w l c))"
proof (cases "casLoopState (lw_now w) (lo_id l) Throttled Throttled (\<lambda>r. r\<lparr>lo_resumeAttempts := lo_resumeAttempts l + 1\<rparr>) (lc_store c)")
  case None
  then show ?thesis using assms by (simp add: auto_resume_def)
next
  case (Some p)
  obtain x c1 where r: "retryThrottled cfg w (lo_id l) (c\<lparr>lc_store := snd p\<rparr>) = (x, c1)" by fastforce
  then have "slots n c1" using slots_retry [of n "c\<lparr>lc_store := snd p\<rparr>" cfg w "lo_id l"] assms by simp
  with Some r show ?thesis by (cases p; cases x) (simp_all add: auto_resume_def)
qed

lemma slots_advance:
  assumes "slots n c"
  shows "slots n (snd (advance_loop cfg w l ev c))"
proof -
  have "slots n (snd (case commit w l t id c of None \<Rightarrow> (Nothing, c)
     | Some (won, c1) \<Rightarrow> (case runSideEffect cfg w won t ev c1 of
         (Inl e, c2) \<Rightarrow> (Threw e, c2) | (Inr None, c2) \<Rightarrow> (Row won, c2)
       | (Inr (Some f), c2) \<Rightarrow> (let (r, c3) = update_loop w won f c2 in (Row r, c3)))))" for t
    using slots_commit [OF assms] assms
    by (cases "commit w l t id c") (auto simp: slots_effect_outcome split del: prod.split)
  with assms show ?thesis unfolding advance_loop_def
    by (auto simp: slots_recordRound dest: slots_commit split: option.split split del: prod.split)
qed

lemma slots_tick: "slots n c \<Longrightarrow> slots n (snd (tick cfg w i c))"
proof -
  assume s: "slots n c"
  have "slots n (snd (tickInner cfg w i c))"
  proof (cases "getLoop (lc_store c) i")
    case None
    then show ?thesis using s by (simp add: tickInner_def)
  next
    case (Some l)
    obtain x c1 where r: "redriveStranded cfg w l c = (x, c1)" by fastforce
    then have "slots n c1" using slots_redrive [OF s, of cfg w l] by simp
    then have "slots n (snd (recoverStalledReview cfg w l c1))" "slots n (snd (auto_resume cfg w l c1))"
      "slots n (snd (advance_loop cfg w l ev c1))" "slots n c1" for ev
      by (simp_all add: slots_stalled slots_auto_resume slots_advance)
    with Some s r show ?thesis by (force simp: tickInner_def split: option.split prod.split)
  qed
  with s show ?thesis by (simp add: tick_def)
qed

section \<open>Interleavings\<close>

text \<open>
  What may happen to the controller: the calls of the class, the background work that settles, and anything the rest
  of the program does to the stores. The list holds the commands between their reservation and their launch.
\<close>

inductive ctl_step :: "loop_cfg \<Rightarrow> loop_ctl \<times> (loop_row \<times> action_point list) list \<Rightarrow> loop_ctl \<times> (loop_row \<times> action_point list) list \<Rightarrow> bool"
  for cfg where
  step_tick: "ctl_step cfg (c, ps) (snd (tick cfg w i c), ps)"
| step_reserve: "develop_reserve w i scope c = (Inr p, c') \<Longrightarrow> ctl_step cfg (c, ps) (c', p # ps)"
| step_refused: "develop_reserve w i scope c = (Inl e, c') \<Longrightarrow> ctl_step cfg (c, ps) (c', ps)"
| step_launch: "(l, aps) \<in> set ps \<Longrightarrow> ctl_step cfg (c, ps) (snd (develop_launch w l aps c), remove1 (l, aps) ps)"
| step_retry: "ctl_step cfg (c, ps) (snd (retryThrottled cfg w i c), ps)"
| step_rereview: "ctl_step cfg (c, ps) (snd (requestReReview cfg w i c), ps)"
| step_merge: "ctl_step cfg (c, ps) (snd (onMergeApproved cfg w i c), ps)"
| step_cancel: "ctl_step cfg (c, ps) (snd (cancel w i reason actor c), ps)"
| step_stop: "ctl_step cfg (c, ps) (snd (stop w i reason actor c), ps)"
| step_sdlc: "ctl_step cfg (c, ps) (sdlc_settled i k res c, ps)"
| step_review: "ctl_step cfg (c, ps) (settleReviewRun i k rres c, ps)"
| step_world: "ctl_step cfg (c, ps) (c\<lparr>lc_store := st, lc_orch := ob\<rparr>, ps)"

lemma ctl_step_slots:
  assumes "ctl_step cfg s s'" "slots (length (snd s)) (fst s)"
  shows "slots (length (snd s')) (fst s')"
  using assms
proof (induction rule: ctl_step.induct)
  case (step_launch l aps ps c w)
  then have "length ps = Suc (length (remove1 (l, aps) ps))"
    by (simp add: length_remove1) (metis Suc_pred length_pos_if_in_set)
  with step_launch.prems show ?case by (simp add: develop_launch_def slots_launch)
next
  case (step_world c ps)
  then show ?case by (auto intro: slots_frame)
qed (simp_all add: slots_tick slots_develop_reserve slots_retry slots_reReview slots_merge slots_end cancel_def stop_def
      slots_sdlc_settled slots_settleReview)


lemma reserved_sample: "(isl (fst (develop_reserve (sample_world 0) ''l1'' None capped_ctl)), lc_sdlcRuns capped_ctl, lc_reservations capped_ctl) = (False, [], 0)"
  by code_simp


end
