(* ===== verification/Worker_Pool.thy ===== *)
theory Worker_Pool
  imports Prelude "HOL-Library.Multiset"
begin

text \<open>
  The pool of parse workers (\<open>WorkerPool\<close> of \<open>server/workspace/indexer.ts\<close>). A worker runs one task; the first
  of its events (message, error, exit, timeout) settles the task and the others are ignored. The answers given to the
  callers are collected in order; creating and terminating threads is left to the runtime.
\<close>

section \<open>The pool\<close>

datatype parse_answer = Parse_Message string | Parse_Error string

record worker_pool =
  wp_size :: nat
  wp_queue :: "nat list"
  wp_workers :: "nat list"
  wp_idle :: "nat list"
  wp_running :: "(nat, nat) jsmap"
  wp_answers :: "(nat \<times> parse_answer) list"
  wp_nextWorker :: nat
  wp_nextTask :: nat

definition worker_pool_size :: nat where "worker_pool_size = 4"

definition new_worker_pool :: "nat \<Rightarrow> worker_pool" where
  "new_worker_pool n =
     \<lparr>wp_size = n, wp_queue = [], wp_workers = [], wp_idle = [], wp_running = [], wp_answers = [], wp_nextWorker = 0, wp_nextTask = 0\<rparr>"

definition runTask :: "nat \<Rightarrow> nat \<Rightarrow> worker_pool \<Rightarrow> worker_pool" where
  "runTask wk t p = p\<lparr>wp_running := jset wk t (wp_running p)\<rparr>"

text \<open>The argument is the queue; a fresh worker ends the loop.\<close>

fun dispatch_loop :: "nat list \<Rightarrow> worker_pool \<Rightarrow> worker_pool" where
  "dispatch_loop [] p = p\<lparr>wp_queue := []\<rparr>"
| "dispatch_loop (t # q) p =
     (if wp_idle p \<noteq> [] then dispatch_loop q (runTask (last (wp_idle p)) t (p\<lparr>wp_idle := butlast (wp_idle p)\<rparr>))
      else if length (wp_workers p) < wp_size p
      then runTask (wp_nextWorker p) t
             (p\<lparr>wp_queue := q, wp_workers := sadd (wp_nextWorker p) (wp_workers p), wp_nextWorker := wp_nextWorker p + 1\<rparr>)
      else p\<lparr>wp_queue := t # q\<rparr>)"

definition dispatch_tasks :: "worker_pool \<Rightarrow> worker_pool" where
  "dispatch_tasks p = dispatch_loop (wp_queue p) p"

definition pool_parse :: "worker_pool \<Rightarrow> nat \<times> worker_pool" where
  "pool_parse p =
     (wp_nextTask p, dispatch_tasks (p\<lparr>wp_queue := wp_queue p @ [wp_nextTask p], wp_nextTask := wp_nextTask p + 1\<rparr>))"

text \<open>How a worker ends its task.\<close>

datatype worker_event = Timed_Out | Message string | Errored string | Exited int

definition answer_of :: "worker_event \<Rightarrow> parse_answer option" where
  "answer_of ev =
     (case ev of
        Timed_Out \<Rightarrow> Some (Parse_Error ''Parse timed out after 5 seconds'')
      | Message m \<Rightarrow> Some (Parse_Message m)
      | Errored e \<Rightarrow> Some (Parse_Error e)
      | Exited code \<Rightarrow> if code \<noteq> 0 then Some (Parse_Error (''Worker exited with code '' @ show_int code)) else None)"

definition worker_done :: "nat \<Rightarrow> worker_event \<Rightarrow> worker_pool \<Rightarrow> worker_pool" where
  "worker_done wk ev p =
     (case jget (wp_running p) wk of
        None \<Rightarrow> p
      | Some t \<Rightarrow>
          dispatch_tasks
            (p\<lparr>wp_workers := sdel wk (wp_workers p), wp_running := jdel wk (wp_running p),
               wp_answers := wp_answers p @ (case answer_of ev of Some a \<Rightarrow> [(t, a)] | None \<Rightarrow> [])\<rparr>))"

definition pool_terminate :: "worker_pool \<Rightarrow> worker_pool" where
  "pool_terminate p = p\<lparr>wp_workers := [], wp_idle := [], wp_queue := []\<rparr>"

section \<open>Runs\<close>

inductive pool_step :: "worker_pool \<Rightarrow> worker_pool \<Rightarrow> bool" where
  submit: "pool_step p (snd (pool_parse p))"
| finish: "pool_step p (worker_done wk ev p)"

text \<open>The tasks that wait, run or have an answer.\<close>

definition pool_tasks :: "worker_pool \<Rightarrow> nat list" where
  "pool_tasks p = wp_queue p @ jvals (wp_running p) @ map fst (wp_answers p)"

text \<open>
  No worker idles, the workers are the ones that run something and are not more than the size, and a task is waiting,
  running or answered, once.
\<close>

definition pool_base :: "worker_pool \<Rightarrow> bool" where
  "pool_base p \<longleftrightarrow> wp_idle p = [] \<and> wp_workers p = jkeys (wp_running p) \<and> jwf (wp_running p) \<and>
     length (wp_workers p) \<le> wp_size p \<and> (\<forall>wk \<in> set (wp_workers p). wk < wp_nextWorker p) \<and>
     distinct (pool_tasks p) \<and> (\<forall>t \<in> set (pool_tasks p). t < wp_nextTask p)"

text \<open>And a task waits only when all workers are busy.\<close>

definition pool_ok :: "worker_pool \<Rightarrow> bool" where
  "pool_ok p \<longleftrightarrow> pool_base p \<and> (wp_queue p \<noteq> [] \<longrightarrow> length (wp_workers p) = wp_size p)"

lemma jdel_keys: "jwf m \<Longrightarrow> jkeys (jdel k m) = sdel k (jkeys m)"
  by (induction m) (auto simp: sdel_def)

lemma jdel_vals: "jwf m \<Longrightarrow> jget m k = Some v \<Longrightarrow> mset (jvals m) = add_mset v (mset (jvals (jdel k m)))"
proof (induction m)
  case (Cons a m)
  show ?case
  proof (cases "fst a = k")
    case True
    with Cons.prems have "jdel k m = m" by (auto intro!: delete_id)
    with True Cons.prems(2) show ?thesis by (cases a) auto
  next
    case False
    with Cons show ?thesis by (cases a) auto
  qed
qed simp

lemma distinct_count: "distinct xs \<longleftrightarrow> (\<forall>a. count (mset xs) a \<le> 1)"
proof
  assume "\<forall>a. count (mset xs) a \<le> 1"
  then have "count (mset xs) a = (if a \<in> set xs then 1 else 0)" for a
    using count_greater_zero_iff [of "mset xs" a] by (auto simp: not_in_iff intro!: antisym)
  then show "distinct xs" by (simp add: distinct_count_atmost_1)
qed (auto simp: distinct_count_atmost_1)

lemma fewer_tasks:
  assumes "mset ys \<subseteq># mset xs" "distinct xs"
  shows "distinct ys \<and> set ys \<subseteq> set xs"
proof
  have "count (mset ys) a \<le> count (mset xs) a" for a using assms(1) by (rule mset_subset_eq_count)
  with assms(2) show "distinct ys" unfolding distinct_count using order_trans by blast
  show "set ys \<subseteq> set xs" using set_mset_mono [OF assms(1)] by simp
qed

lemma base_fewer:
  assumes "pool_base p" "mset (pool_tasks p') \<subseteq># mset (pool_tasks p)" "wp_nextTask p' = wp_nextTask p"
    "wp_idle p' = []" "wp_workers p' = jkeys (wp_running p')" "jwf (wp_running p')"
    "length (wp_workers p') \<le> wp_size p'" "\<forall>wk \<in> set (wp_workers p'). wk < wp_nextWorker p'"
  shows "pool_base p'"
proof -
  have "distinct (pool_tasks p') \<and> set (pool_tasks p') \<subseteq> set (pool_tasks p)"
    using assms(1,2) by (intro fewer_tasks) (simp_all add: pool_base_def)
  with assms show ?thesis by (auto simp: pool_base_def)
qed

lemma base_len: "pool_base p \<Longrightarrow> length (wp_running p) = length (wp_workers p)"
  by (simp add: pool_base_def)

lemma dispatch_ok:
  assumes "pool_base p" "length (wp_queue p) \<le> 1 \<or> wp_size p \<le> length (wp_workers p) + 1"
  shows "pool_ok (dispatch_tasks p)"
proof (cases "wp_queue p")
  case Nil
  have "dispatch_tasks p = p" using Nil by (simp add: dispatch_tasks_def)
  with Nil assms(1) show ?thesis by (simp add: pool_ok_def)
next
  case (Cons t q)
  note B = assms(1) [unfolded pool_base_def]
  show ?thesis
  proof (cases "length (wp_workers p) < wp_size p")
    case False
    then have "dispatch_tasks p = p" using Cons B by (simp add: dispatch_tasks_def)
    moreover have "length (wp_workers p) = wp_size p" using B False by linarith
    ultimately show ?thesis using assms(1) by (simp add: pool_ok_def)
  next
    case True
    let ?wk = "wp_nextWorker p"
    have new1: "?wk \<notin> set (wp_workers p)" using B by blast
    moreover have "wp_workers p = jkeys (wp_running p)" using B by blast
    ultimately have new: "?wk \<notin> set (wp_workers p)" "?wk \<notin> set (jkeys (wp_running p))" by simp_all
    have run: "jset ?wk t (wp_running p) = wp_running p @ [(?wk, t)]" by (rule jvals_jset_absent) (use new in simp)
    have d: "dispatch_tasks p = p\<lparr>wp_queue := q, wp_workers := wp_workers p @ [?wk], wp_nextWorker := ?wk + 1,
        wp_running := wp_running p @ [(?wk, t)]\<rparr>"
      using Cons True B new by (simp add: dispatch_tasks_def runTask_def run sadd_def)
    have "pool_base (dispatch_tasks p)" unfolding d
      by (rule base_fewer [OF assms(1)]) (use Cons True B new in \<open>auto simp: pool_tasks_def less_Suc_eq\<close>)
    moreover have "q \<noteq> [] \<Longrightarrow> length (wp_workers p) + 1 = wp_size p" using assms(2) Cons True by (cases q) auto
    ultimately show ?thesis unfolding pool_ok_def d by simp
  qed
qed

lemma parse_ok:
  assumes "pool_ok p"
  shows "pool_ok (snd (pool_parse p))"
proof -
  let ?p = "p\<lparr>wp_queue := wp_queue p @ [wp_nextTask p], wp_nextTask := wp_nextTask p + 1\<rparr>"
  have "wp_nextTask p \<notin> set (pool_tasks p)" using assms by (auto simp: pool_ok_def pool_base_def)
  then have "distinct (pool_tasks ?p)" "\<forall>t \<in> set (pool_tasks ?p). t < wp_nextTask p + 1"
    using assms by (auto simp: pool_ok_def pool_base_def pool_tasks_def less_Suc_eq)
  moreover have "pool_base p" using assms by (simp add: pool_ok_def)
  ultimately have "pool_base ?p" unfolding pool_base_def by auto
  then show ?thesis using assms unfolding pool_parse_def snd_conv
    by (intro dispatch_ok) (auto simp: pool_ok_def)
qed

lemma done_ok:
  assumes "pool_ok p"
  shows "pool_ok (worker_done wk ev p)"
proof (cases "jget (wp_running p) wk")
  case None
  then show ?thesis using assms by (simp add: worker_done_def)
next
  case (Some t)
  note B = assms [unfolded pool_ok_def pool_base_def]
  let ?p = "p\<lparr>wp_workers := sdel wk (wp_workers p), wp_running := jdel wk (wp_running p),
      wp_answers := wp_answers p @ (case answer_of ev of Some a \<Rightarrow> [(t, a)] | None \<Rightarrow> [])\<rparr>"
  have wf: "jwf (wp_running p)" using B by simp
  have len: "length (wp_workers p) = length (sdel wk (wp_workers p)) + 1"
  proof -
    have w: "wp_workers p = jkeys (wp_running p)" using B by blast
    have "wk \<in> set (wp_workers p)" unfolding w using jget_in [OF Some] by force
    moreover have "distinct (wp_workers p)" unfolding w by (rule wf)
    moreover have "x \<in> set xs \<Longrightarrow> distinct xs \<Longrightarrow> length xs = length (sdel x xs) + 1" for x :: nat and xs
      by (induction xs) (auto simp: sdel_def intro!: arg_cong [of _ _ length] filter_True [symmetric])
    ultimately show ?thesis by blast
  qed
  have "mset (pool_tasks ?p) \<subseteq># mset (pool_tasks p)"
    using jdel_vals [OF wf Some] by (cases "answer_of ev") (simp_all add: pool_tasks_def)
  then have "pool_base ?p"
    by (rule base_fewer [rotated]) (use B len jdel_keys [OF wf, of wk] in \<open>auto simp: pool_base_def\<close>)
  then have "pool_ok (dispatch_tasks ?p)" by (rule dispatch_ok) (use B len in auto)
  then show ?thesis by (simp add: worker_done_def Some)
qed



end
