(* ===== verification/Patchable_Graph.thy ===== *)
theory Patchable_Graph
  imports Prelude
begin

text \<open>
  The import graph of a workspace (\<open>PatchableGraph\<close> of \<open>server/workspace/patchable-graph.ts\<close>): nodes and edges in
  maps, the two adjacency maps, import counts on the nodes and the log of patch operations since the last flush.
\<close>

section \<open>State\<close>

record graph_node =
  gn_id :: string
  gn_label :: string
  gn_importCount :: int
  gn_importedByCount :: int

record graph_edge =
  ge_id :: string
  ge_source :: string
  ge_target :: string

datatype patch_kind = AddNode | RemoveNode | AddEdge | RemoveEdge

record patch_op =
  po_kind :: patch_kind
  po_id :: string
  po_node :: "graph_node option"
  po_edge :: "graph_edge option"

record graph_snapshot =
  gs_nodes :: "graph_node list"
  gs_edges :: "graph_edge list"
  gs_version :: nat
  gs_snapshotAt :: int

record pgraph =
  pg_nodes :: "(string, graph_node) jsmap"
  pg_edges :: "(string, graph_edge) jsmap"
  pg_out :: "(string, string list) jsmap"
  pg_in :: "(string, string list) jsmap"
  pg_pending :: "patch_op list"
  pg_version :: nat

definition new_pgraph :: pgraph where
  "new_pgraph = \<lparr>pg_nodes = [], pg_edges = [], pg_out = [], pg_in = [], pg_pending = [], pg_version = 0\<rparr>"

section \<open>Mutations\<close>

definition log_op :: "patch_kind \<Rightarrow> string \<Rightarrow> graph_node option \<Rightarrow> graph_edge option \<Rightarrow> pgraph \<Rightarrow> pgraph" where
  "log_op k i n e g = g\<lparr>pg_pending := pg_pending g @ [\<lparr>po_kind = k, po_id = i, po_node = n, po_edge = e\<rparr>]\<rparr>"

definition pg_addNode :: "graph_node \<Rightarrow> pgraph \<Rightarrow> pgraph" where
  "pg_addNode n g =
     (let g1 = (if jhas (pg_nodes g) (gn_id n) then log_op RemoveNode (gn_id n) None None g else g)
      in log_op AddNode (gn_id n) (Some n) None (g1\<lparr>pg_nodes := jset (gn_id n) n (pg_nodes g1)\<rparr>))"

definition bumpImportCount :: "string \<Rightarrow> int \<Rightarrow> pgraph \<Rightarrow> pgraph" where
  "bumpImportCount i delta g =
     (case jget (pg_nodes g) i of
        None \<Rightarrow> g
      | Some n \<Rightarrow> g\<lparr>pg_nodes := jset i (n\<lparr>gn_importCount := max 0 (gn_importCount n + delta)\<rparr>) (pg_nodes g)\<rparr>)"

definition bumpImportedByCount :: "string \<Rightarrow> int \<Rightarrow> pgraph \<Rightarrow> pgraph" where
  "bumpImportedByCount i delta g =
     (case jget (pg_nodes g) i of
        None \<Rightarrow> g
      | Some n \<Rightarrow> g\<lparr>pg_nodes := jset i (n\<lparr>gn_importedByCount := max 0 (gn_importedByCount n + delta)\<rparr>) (pg_nodes g)\<rparr>)"

text \<open>An id leaves a set only when the set exists.\<close>

definition unlink_id :: "string \<Rightarrow> string \<Rightarrow> (string, string list) jsmap \<Rightarrow> (string, string list) jsmap" where
  "unlink_id k i m = (case jget m k of None \<Rightarrow> m | Some s \<Rightarrow> jset k (sdel i s) m)"

definition link_id :: "string \<Rightarrow> string \<Rightarrow> (string, string list) jsmap \<Rightarrow> (string, string list) jsmap" where
  "link_id k i m = jset k (sadd i (get_or [] m k)) m"

definition pg_removeEdge :: "string \<Rightarrow> pgraph \<Rightarrow> pgraph" where
  "pg_removeEdge i g =
     (case jget (pg_edges g) i of
        None \<Rightarrow> g
      | Some e \<Rightarrow>
          log_op RemoveEdge i None None
            (bumpImportedByCount (ge_target e) (-1)
              (bumpImportCount (ge_source e) (-1)
                (g\<lparr>pg_edges := jdel i (pg_edges g), pg_out := unlink_id (ge_source e) i (pg_out g),
                   pg_in := unlink_id (ge_target e) i (pg_in g)\<rparr>))))"

definition link_edge :: "graph_edge \<Rightarrow> pgraph \<Rightarrow> pgraph" where
  "link_edge e g =
     g\<lparr>pg_edges := jset (ge_id e) e (pg_edges g), pg_out := link_id (ge_source e) (ge_id e) (pg_out g),
       pg_in := link_id (ge_target e) (ge_id e) (pg_in g)\<rparr>"

definition pg_addEdge :: "graph_edge \<Rightarrow> pgraph \<Rightarrow> pgraph" where
  "pg_addEdge e g =
     (let g1 = (if jhas (pg_edges g) (ge_id e) then pg_removeEdge (ge_id e) g else g)
      in log_op AddEdge (ge_id e) None (Some e)
           (bumpImportedByCount (ge_target e) 1 (bumpImportCount (ge_source e) 1 (link_edge e g1))))"

text \<open>The incoming ids are read after the outgoing edges are gone.\<close>

definition pg_removeNode :: "string \<Rightarrow> pgraph \<Rightarrow> pgraph" where
  "pg_removeNode i g =
     (if \<not> jhas (pg_nodes g) i then g
      else
        (let g1 = foldl (\<lambda>g e. pg_removeEdge e g) g (get_or [] (pg_out g) i);
             g2 = foldl (\<lambda>g e. pg_removeEdge e g) g1 (get_or [] (pg_in g1) i)
         in log_op RemoveNode i None None
              (g2\<lparr>pg_nodes := jdel i (pg_nodes g2), pg_out := jdel i (pg_out g2), pg_in := jdel i (pg_in g2)\<rparr>)))"

section \<open>Queries\<close>

definition hasNode :: "pgraph \<Rightarrow> string \<Rightarrow> bool" where "hasNode g i = jhas (pg_nodes g) i"
definition hasEdge :: "pgraph \<Rightarrow> string \<Rightarrow> bool" where "hasEdge g i = jhas (pg_edges g) i"
definition getNode :: "pgraph \<Rightarrow> string \<Rightarrow> graph_node option" where "getNode g i = jget (pg_nodes g) i"
definition getEdge :: "pgraph \<Rightarrow> string \<Rightarrow> graph_edge option" where "getEdge g i = jget (pg_edges g) i"
definition nodeCount :: "pgraph \<Rightarrow> nat" where "nodeCount g = length (pg_nodes g)"
definition edgeCount :: "pgraph \<Rightarrow> nat" where "edgeCount g = length (pg_edges g)"
definition allNodes :: "pgraph \<Rightarrow> graph_node list" where "allNodes g = jvals (pg_nodes g)"
definition allEdges :: "pgraph \<Rightarrow> graph_edge list" where "allEdges g = jvals (pg_edges g)"

section \<open>Patches and snapshots\<close>

definition flushPatch :: "pgraph \<Rightarrow> patch_op list \<times> pgraph" where
  "flushPatch g = (pg_pending g, g\<lparr>pg_pending := [], pg_version := pg_version g + 1\<rparr>)"

definition pg_snapshot :: "int \<Rightarrow> pgraph \<Rightarrow> graph_snapshot" where
  "pg_snapshot now g = \<lparr>gs_nodes = allNodes g, gs_edges = allEdges g, gs_version = pg_version g, gs_snapshotAt = now\<rparr>"

definition pg_restore :: "graph_snapshot \<Rightarrow> pgraph" where
  "pg_restore s =
     foldl (\<lambda>g e. link_edge e g)
       (new_pgraph\<lparr>pg_version := gs_version s, pg_nodes := foldl (\<lambda>m n. jset (gn_id n) n m) [] (gs_nodes s)\<rparr>)
       (gs_edges s)"

definition applyOp :: "patch_op \<Rightarrow> pgraph \<Rightarrow> pgraph" where
  "applyOp op g =
     (case po_kind op of
        AddNode \<Rightarrow> (case po_node op of Some n \<Rightarrow> g\<lparr>pg_nodes := jset (gn_id n) n (pg_nodes g)\<rparr> | None \<Rightarrow> g)
      | RemoveNode \<Rightarrow> g\<lparr>pg_nodes := jdel (po_id op) (pg_nodes g)\<rparr>
      | AddEdge \<Rightarrow> (case po_edge op of Some e \<Rightarrow> link_edge e g | None \<Rightarrow> g)
      | RemoveEdge \<Rightarrow>
          (case jget (pg_edges g) (po_id op) of
             None \<Rightarrow> g
           | Some e \<Rightarrow> g\<lparr>pg_edges := jdel (po_id op) (pg_edges g), pg_out := unlink_id (ge_source e) (po_id op) (pg_out g),
                          pg_in := unlink_id (ge_target e) (po_id op) (pg_in g)\<rparr>))"

section \<open>The adjacency invariant\<close>

text \<open>Keys are ids, and each adjacency set holds exactly the edges that leave or enter the node.\<close>

definition adjacency :: "pgraph \<Rightarrow> bool" where
  "adjacency g \<longleftrightarrow> jwf (pg_nodes g) \<and> jwf (pg_edges g) \<and>
     (\<forall>k n. jget (pg_nodes g) k = Some n \<longrightarrow> gn_id n = k) \<and>
     (\<forall>k e. jget (pg_edges g) k = Some e \<longrightarrow> ge_id e = k) \<and>
     (\<forall>s i. i \<in> set (get_or [] (pg_out g) s) \<longleftrightarrow> (\<exists>e. jget (pg_edges g) i = Some e \<and> ge_source e = s)) \<and>
     (\<forall>s i. i \<in> set (get_or [] (pg_in g) s) \<longleftrightarrow> (\<exists>e. jget (pg_edges g) i = Some e \<and> ge_target e = s))"

lemma log_op_simps [simp]:
  "pg_nodes (log_op k i n e g) = pg_nodes g" "pg_edges (log_op k i n e g) = pg_edges g"
  "pg_out (log_op k i n e g) = pg_out g" "pg_in (log_op k i n e g) = pg_in g"
  "pg_version (log_op k i n e g) = pg_version g"
  "pg_pending (log_op k i n e g) = pg_pending g @ [\<lparr>po_kind = k, po_id = i, po_node = n, po_edge = e\<rparr>]"
  by (simp_all add: log_op_def)

lemma bump_simps [simp]:
  "pg_edges (bumpImportCount i d g) = pg_edges g" "pg_out (bumpImportCount i d g) = pg_out g"
  "pg_in (bumpImportCount i d g) = pg_in g" "pg_pending (bumpImportCount i d g) = pg_pending g"
  "pg_version (bumpImportCount i d g) = pg_version g"
  "pg_edges (bumpImportedByCount i d g) = pg_edges g" "pg_out (bumpImportedByCount i d g) = pg_out g"
  "pg_in (bumpImportedByCount i d g) = pg_in g" "pg_pending (bumpImportedByCount i d g) = pg_pending g"
  "pg_version (bumpImportedByCount i d g) = pg_version g"
  by (simp_all add: bumpImportCount_def bumpImportedByCount_def split: option.split)

lemma bump_nodes:
  "jget (pg_nodes (bumpImportCount i d g)) k = map_option (\<lambda>n. if k = i then n\<lparr>gn_importCount := max 0 (gn_importCount n + d)\<rparr> else n) (jget (pg_nodes g) k)"
  "jget (pg_nodes (bumpImportedByCount i d g)) k = map_option (\<lambda>n. if k = i then n\<lparr>gn_importedByCount := max 0 (gn_importedByCount n + d)\<rparr> else n) (jget (pg_nodes g) k)"
  by (cases "jget (pg_nodes g) k"; auto simp: bumpImportCount_def bumpImportedByCount_def split: option.split)+

lemma bump_wf [intro, simp]:
  "jwf (pg_nodes g) \<Longrightarrow> jwf (pg_nodes (bumpImportCount i d g))"
  "jwf (pg_nodes g) \<Longrightarrow> jwf (pg_nodes (bumpImportedByCount i d g))"
  by (simp_all add: bumpImportCount_def bumpImportedByCount_def split: option.split)

lemma get_or_link [simp]: "get_or [] (link_id a i m) k = (if k = a then sadd i (get_or [] m a) else get_or [] m k)"
  by (simp add: link_id_def)

lemma get_or_unlink [simp]: "get_or [] (unlink_id a i m) k = (if k = a then sdel i (get_or [] m a) else get_or [] m k)"
  by (auto simp: unlink_id_def get_or_def sdel_def split: option.split)

lemma adjacencyI:
  assumes "jwf (pg_nodes g)" "jwf (pg_edges g)" "\<And>k n. jget (pg_nodes g) k = Some n \<Longrightarrow> gn_id n = k"
    "\<And>k e. jget (pg_edges g) k = Some e \<Longrightarrow> ge_id e = k"
    "\<And>s i. i \<in> set (get_or [] (pg_out g) s) \<longleftrightarrow> (\<exists>e. jget (pg_edges g) i = Some e \<and> ge_source e = s)"
    "\<And>s i. i \<in> set (get_or [] (pg_in g) s) \<longleftrightarrow> (\<exists>e. jget (pg_edges g) i = Some e \<and> ge_target e = s)"
  shows "adjacency g"
  using assms by (simp add: adjacency_def)

lemma adjacencyD:
  assumes "adjacency g"
  shows "jwf (pg_nodes g)" "jwf (pg_edges g)" "jget (pg_nodes g) k = Some n \<Longrightarrow> gn_id n = k"
    "jget (pg_edges g) k = Some e \<Longrightarrow> ge_id e = k"
    "i \<in> set (get_or [] (pg_out g) s) \<longleftrightarrow> (\<exists>e. jget (pg_edges g) i = Some e \<and> ge_source e = s)"
    "i \<in> set (get_or [] (pg_in g) s) \<longleftrightarrow> (\<exists>e. jget (pg_edges g) i = Some e \<and> ge_target e = s)"
  using assms by (simp_all add: adjacency_def)

lemma removeEdge_eq:
  assumes "jget (pg_edges g) i = Some e"
  shows "pg_edges (pg_removeEdge i g) = jdel i (pg_edges g)"
    "pg_out (pg_removeEdge i g) = unlink_id (ge_source e) i (pg_out g)"
    "pg_in (pg_removeEdge i g) = unlink_id (ge_target e) i (pg_in g)"
    "pg_pending (pg_removeEdge i g) = pg_pending g @ [\<lparr>po_kind = RemoveEdge, po_id = i, po_node = None, po_edge = None\<rparr>]"
    "jget (pg_nodes (pg_removeEdge i g)) k = map_option (\<lambda>n.
       n\<lparr>gn_importCount := (if k = ge_source e then max 0 (gn_importCount n - 1) else gn_importCount n),
         gn_importedByCount := (if k = ge_target e then max 0 (gn_importedByCount n - 1) else gn_importedByCount n)\<rparr>) (jget (pg_nodes g) k)"
  using assms by (cases "jget (pg_nodes g) k"; simp add: pg_removeEdge_def bump_nodes)+

lemma removeEdge_absent: "jget (pg_edges g) i = None \<Longrightarrow> pg_removeEdge i g = g"
  by (simp add: pg_removeEdge_def)

lemma removeEdge_adjacency:
  assumes "adjacency g"
  shows "adjacency (pg_removeEdge i g)"
proof (cases "jget (pg_edges g) i")
  case None
  then show ?thesis using assms by (simp add: removeEdge_absent)
next
  case (Some e)
  note A = adjacencyD [OF assms] and E = removeEdge_eq [OF Some]
  show ?thesis
  proof (rule adjacencyI)
    show "jwf (pg_nodes (pg_removeEdge i g))" using A(1) Some by (simp add: pg_removeEdge_def)
    show "jwf (pg_edges (pg_removeEdge i g))" using A(2) by (simp add: E)
    show "gn_id n = k" if "jget (pg_nodes (pg_removeEdge i g)) k = Some n" for k n
      using that A(3) [of k] unfolding E by auto
    show "ge_id x = k" if "jget (pg_edges (pg_removeEdge i g)) k = Some x" for k x
      using that A(4) [of k] unfolding E by (simp split: if_splits)
    show "j \<in> set (get_or [] (pg_out (pg_removeEdge i g)) s) \<longleftrightarrow> (\<exists>e. jget (pg_edges (pg_removeEdge i g)) j = Some e \<and> ge_source e = s)" for s j
      unfolding E using A(5) [of j s] A(5) [of j "ge_source e"] Some by (cases "j = i") auto
    show "j \<in> set (get_or [] (pg_in (pg_removeEdge i g)) s) \<longleftrightarrow> (\<exists>e. jget (pg_edges (pg_removeEdge i g)) j = Some e \<and> ge_target e = s)" for s j
      unfolding E using A(6) [of j s] A(6) [of j "ge_target e"] Some by (cases "j = i") auto
  qed
qed

lemma addEdge_fresh_eq:
  assumes "jget (pg_edges g) (ge_id e) = None"
  shows "pg_edges (pg_addEdge e g) = jset (ge_id e) e (pg_edges g)"
    "pg_out (pg_addEdge e g) = link_id (ge_source e) (ge_id e) (pg_out g)"
    "pg_in (pg_addEdge e g) = link_id (ge_target e) (ge_id e) (pg_in g)"
    "pg_pending (pg_addEdge e g) = pg_pending g @ [\<lparr>po_kind = AddEdge, po_id = ge_id e, po_node = None, po_edge = Some e\<rparr>]"
    "jget (pg_nodes (pg_addEdge e g)) k = map_option (\<lambda>n.
       n\<lparr>gn_importCount := (if k = ge_source e then max 0 (gn_importCount n + 1) else gn_importCount n),
         gn_importedByCount := (if k = ge_target e then max 0 (gn_importedByCount n + 1) else gn_importedByCount n)\<rparr>) (jget (pg_nodes g) k)"
  using assms by (cases "jget (pg_nodes g) k"; simp add: pg_addEdge_def bump_nodes link_edge_def jhas_def)+

lemma addEdge_replace: "jget (pg_edges g) (ge_id e) = Some e0 \<Longrightarrow> pg_addEdge e g = pg_addEdge e (pg_removeEdge (ge_id e) g)"
  by (simp add: pg_addEdge_def jhas_def removeEdge_eq)

lemma addEdge_fresh_adjacency:
  assumes "adjacency g" "jget (pg_edges g) (ge_id e) = None"
  shows "adjacency (pg_addEdge e g)"
proof -
  note A = adjacencyD [OF assms(1)] and E = addEdge_fresh_eq [OF assms(2)]
  show ?thesis
  proof (rule adjacencyI)
    show "jwf (pg_nodes (pg_addEdge e g))" using A(1) assms(2) by (simp add: pg_addEdge_def jhas_def link_edge_def)
    show "jwf (pg_edges (pg_addEdge e g))" using A(2) by (simp add: E jwf_jset)
    show "gn_id n = k" if "jget (pg_nodes (pg_addEdge e g)) k = Some n" for k n
      using that A(3) [of k] unfolding E by auto
    show "ge_id x = k" if "jget (pg_edges (pg_addEdge e g)) k = Some x" for k x
      using that A(4) [of k] unfolding E by (simp split: if_splits)
    show "j \<in> set (get_or [] (pg_out (pg_addEdge e g)) s) \<longleftrightarrow> (\<exists>x. jget (pg_edges (pg_addEdge e g)) j = Some x \<and> ge_source x = s)" for s j
      unfolding E using A(5) [of j s] A(5) [of j "ge_source e"] assms(2) by (cases "j = ge_id e") auto
    show "j \<in> set (get_or [] (pg_in (pg_addEdge e g)) s) \<longleftrightarrow> (\<exists>x. jget (pg_edges (pg_addEdge e g)) j = Some x \<and> ge_target x = s)" for s j
      unfolding E using A(6) [of j s] A(6) [of j "ge_target e"] assms(2) by (cases "j = ge_id e") auto
  qed
qed

lemma addEdge_adjacency: "adjacency g \<Longrightarrow> adjacency (pg_addEdge e g)"
proof (cases "jget (pg_edges g) (ge_id e)")
  case (Some e0)
  assume "adjacency g"
  then have "adjacency (pg_removeEdge (ge_id e) g)" by (rule removeEdge_adjacency)
  moreover have "jget (pg_edges (pg_removeEdge (ge_id e) g)) (ge_id e) = None" using Some by (simp add: removeEdge_eq)
  ultimately show ?thesis unfolding addEdge_replace [OF Some] by (rule addEdge_fresh_adjacency)
qed (rule addEdge_fresh_adjacency)

lemma addNode_eq:
  "pg_edges (pg_addNode n g) = pg_edges g" "pg_out (pg_addNode n g) = pg_out g" "pg_in (pg_addNode n g) = pg_in g"
  "pg_nodes (pg_addNode n g) = jset (gn_id n) n (pg_nodes g)"
  by (simp_all add: pg_addNode_def Let_def)

lemma addNode_adjacency: "adjacency g \<Longrightarrow> adjacency (pg_addNode n g)"
  by (auto simp: adjacency_def addNode_eq split: if_splits)

section \<open>Removing a node\<close>

definition removeEdges :: "string list \<Rightarrow> pgraph \<Rightarrow> pgraph" where
  "removeEdges es g = foldl (\<lambda>g e. pg_removeEdge e g) g es"

lemma removeEdges_simps [simp]: "removeEdges [] g = g" "removeEdges (e # es) g = removeEdges es (pg_removeEdge e g)"
  by (simp_all add: removeEdges_def)

lemma removeEdges_adjacency: "adjacency g \<Longrightarrow> adjacency (removeEdges es g)"
  by (induction es arbitrary: g) (auto simp: removeEdge_adjacency)

lemma removeEdge_edges: "jget (pg_edges (pg_removeEdge i g)) k = (if k = i then None else jget (pg_edges g) k)"
  by (cases "jget (pg_edges g) i") (auto simp: removeEdge_absent removeEdge_eq)

lemma removeEdges_edges: "jget (pg_edges (removeEdges es g)) k = (if k \<in> set es then None else jget (pg_edges g) k)"
  by (induction es arbitrary: g) (auto simp: removeEdge_edges)

lemma removeEdge_labels:
  "map_option (\<lambda>n. (gn_id n, gn_label n)) (jget (pg_nodes (pg_removeEdge i g)) k) = map_option (\<lambda>n. (gn_id n, gn_label n)) (jget (pg_nodes g) k)"
  by (cases "jget (pg_edges g) i"; cases "jget (pg_nodes g) k") (auto simp: removeEdge_absent removeEdge_eq)

lemma removeEdges_labels:
  "map_option (\<lambda>n. (gn_id n, gn_label n)) (jget (pg_nodes (removeEdges es g)) k) = map_option (\<lambda>n. (gn_id n, gn_label n)) (jget (pg_nodes g) k)"
  by (induction es arbitrary: g) (auto simp: removeEdge_labels)

lemma removeNode_eq:
  assumes "jget (pg_nodes g) i = Some n"
  shows "pg_removeNode i g =
    (let g2 = removeEdges (get_or [] (pg_in (removeEdges (get_or [] (pg_out g) i) g)) i) (removeEdges (get_or [] (pg_out g) i) g)
     in log_op RemoveNode i None None
          (g2\<lparr>pg_nodes := jdel i (pg_nodes g2), pg_out := jdel i (pg_out g2), pg_in := jdel i (pg_in g2)\<rparr>))"
  using assms by (simp add: pg_removeNode_def removeEdges_def jhas_def Let_def)

text \<open>What a removal leaves: the edges that do not touch the node.\<close>

lemma removeNode_edges:
  assumes "adjacency g" "jget (pg_nodes g) i = Some n"
  shows "jget (pg_edges (pg_removeNode i g)) k =
    (case jget (pg_edges g) k of Some e \<Rightarrow> if ge_source e = i \<or> ge_target e = i then None else Some e | None \<Rightarrow> None)"
proof -
  let ?g1 = "removeEdges (get_or [] (pg_out g) i) g"
  have "adjacency ?g1" using assms(1) by (rule removeEdges_adjacency)
  then have 1: "k \<in> set (get_or [] (pg_in ?g1) i) \<longleftrightarrow> (\<exists>e. jget (pg_edges ?g1) k = Some e \<and> ge_target e = i)"
    by (simp add: adjacency_def)
  have 2: "k \<in> set (get_or [] (pg_out g) i) \<longleftrightarrow> (\<exists>e. jget (pg_edges g) k = Some e \<and> ge_source e = i)"
    using assms(1) by (simp add: adjacency_def)
  show ?thesis unfolding removeNode_eq [OF assms(2)] Let_def
    by (cases "jget (pg_edges g) k") (use 1 2 in \<open>auto simp: removeEdges_edges\<close>)
qed

lemma removeNode_adjacency:
  assumes "adjacency g"
  shows "adjacency (pg_removeNode i g)"
proof (cases "jget (pg_nodes g) i")
  case None
  then show ?thesis using assms by (simp add: pg_removeNode_def jhas_def)
next
  case (Some n)
  let ?g1 = "removeEdges (get_or [] (pg_out g) i) g"
  let ?g2 = "removeEdges (get_or [] (pg_in ?g1) i) ?g1"
  have ok: "adjacency ?g2" by (intro removeEdges_adjacency assms)
  have gone: "jget (pg_edges ?g2) k = Some e \<Longrightarrow> ge_source e \<noteq> i \<and> ge_target e \<noteq> i" for k e
    using removeNode_edges [OF assms Some, of k] unfolding removeNode_eq [OF Some] Let_def
    by (auto split: option.splits if_splits)
  have "pg_nodes (pg_removeNode i g) = jdel i (pg_nodes ?g2)" "pg_edges (pg_removeNode i g) = pg_edges ?g2"
    "pg_out (pg_removeNode i g) = jdel i (pg_out ?g2)" "pg_in (pg_removeNode i g) = jdel i (pg_in ?g2)"
    unfolding removeNode_eq [OF Some] Let_def by simp_all
  with ok gone show ?thesis unfolding adjacency_def by auto
qed

section \<open>Import counts\<close>

definition out_degree :: "pgraph \<Rightarrow> string \<Rightarrow> nat" where
  "out_degree g s = length (filter (\<lambda>(k, e). ge_source e = s) (pg_edges g))"

definition in_degree :: "pgraph \<Rightarrow> string \<Rightarrow> nat" where
  "in_degree g s = length (filter (\<lambda>(k, e). ge_target e = s) (pg_edges g))"

text \<open>Edges join nodes of the graph, and the counts of a node are its degrees.\<close>

definition closed_graph :: "pgraph \<Rightarrow> bool" where
  "closed_graph g \<longleftrightarrow> (\<forall>k e. jget (pg_edges g) k = Some e \<longrightarrow> hasNode g (ge_source e) \<and> hasNode g (ge_target e))"

definition well_counted :: "pgraph \<Rightarrow> bool" where
  "well_counted g \<longleftrightarrow> (\<forall>k n. jget (pg_nodes g) k = Some n \<longrightarrow>
     gn_importCount n = int (out_degree g k) \<and> gn_importedByCount n = int (in_degree g k))"

definition graph_ok :: "pgraph \<Rightarrow> bool" where
  "graph_ok g \<longleftrightarrow> adjacency g \<and> closed_graph g \<and> well_counted g"

lemma hasNode_iff: "hasNode g k \<longleftrightarrow> jget (pg_nodes g) k \<noteq> None"
  by (simp add: hasNode_def jhas_def split: option.split)

lemma degree_insert: "jget m k = None \<Longrightarrow> length (filter P (jset k v m)) = length (filter P m) + (if P (k, v) then 1 else 0)"
  by (induction m) (auto split: if_splits)

lemma degree_delete:
  "jwf m \<Longrightarrow> jget m k = Some v \<Longrightarrow> length (filter P m) = length (filter P (jdel k m)) + (if P (k, v) then 1 else 0)"
proof (induction m)
  case (Cons a m)
  show ?case
  proof (cases "fst a = k")
    case True
    then have "k \<notin> set (jkeys m)" using Cons.prems(1) by auto
    then have "jdel k m = m" by (simp add: AList.delete_id)
    with True Cons.prems(2) show ?thesis by (cases a) auto
  next
    case False
    with Cons show ?thesis by (cases a) auto
  qed
qed simp

lemma removeEdge_degrees:
  assumes "adjacency g" "jget (pg_edges g) i = Some e"
  shows "out_degree g s = out_degree (pg_removeEdge i g) s + (if ge_source e = s then 1 else 0)"
    "in_degree g s = in_degree (pg_removeEdge i g) s + (if ge_target e = s then 1 else 0)"
  using degree_delete [OF adjacencyD(2) [OF assms(1)] assms(2)] by (simp_all add: out_degree_def in_degree_def removeEdge_eq [OF assms(2)])

lemma addEdge_degrees:
  assumes "jget (pg_edges g) (ge_id e) = None"
  shows "out_degree (pg_addEdge e g) s = out_degree g s + (if ge_source e = s then 1 else 0)"
    "in_degree (pg_addEdge e g) s = in_degree g s + (if ge_target e = s then 1 else 0)"
  using degree_insert [OF assms] by (simp_all add: out_degree_def in_degree_def addEdge_fresh_eq [OF assms])

lemma removeEdge_counted: "adjacency g \<Longrightarrow> well_counted g \<Longrightarrow> well_counted (pg_removeEdge i g)"
proof (cases "jget (pg_edges g) i")
  case (Some e)
  assume g: "adjacency g" "well_counted g"
  note D = removeEdge_degrees [OF g(1) Some]
  show ?thesis unfolding well_counted_def
  proof (intro allI impI)
    fix k n
    assume "jget (pg_nodes (pg_removeEdge i g)) k = Some n"
    then obtain n0 where n0: "jget (pg_nodes g) k = Some n0"
      "n = n0\<lparr>gn_importCount := (if k = ge_source e then max 0 (gn_importCount n0 - 1) else gn_importCount n0),
         gn_importedByCount := (if k = ge_target e then max 0 (gn_importedByCount n0 - 1) else gn_importedByCount n0)\<rparr>"
      unfolding removeEdge_eq(5) [OF Some] by auto
    with g(2) have "gn_importCount n0 = int (out_degree g k)" "gn_importedByCount n0 = int (in_degree g k)"
      by (auto simp: well_counted_def)
    then show "gn_importCount n = int (out_degree (pg_removeEdge i g) k) \<and> gn_importedByCount n = int (in_degree (pg_removeEdge i g) k)"
      using D(1) [of k] D(2) [of k] n0(2) by auto
  qed
qed (simp add: removeEdge_absent)

lemma removeEdge_hasNode [simp]: "hasNode (pg_removeEdge i g) k = hasNode g k"
  by (cases "jget (pg_edges g) i") (simp_all add: hasNode_iff removeEdge_absent removeEdge_eq)

lemma removeEdge_closed: "closed_graph g \<Longrightarrow> closed_graph (pg_removeEdge i g)"
  by (simp add: closed_graph_def removeEdge_edges)

lemma removeEdge_ok: "graph_ok g \<Longrightarrow> graph_ok (pg_removeEdge i g)"
  by (simp add: graph_ok_def removeEdge_adjacency removeEdge_closed removeEdge_counted)

lemma removeEdges_ok: "graph_ok g \<Longrightarrow> graph_ok (removeEdges es g)"
  by (induction es arbitrary: g) (auto simp: removeEdge_ok)

lemma removeEdges_hasNode [simp]: "hasNode (removeEdges es g) k = hasNode g k"
  by (induction es arbitrary: g) auto

lemma addEdge_hasNode [simp]: "hasNode (pg_addEdge e g) k = hasNode g k"
proof (cases "jget (pg_edges g) (ge_id e)")
  case None
  then show ?thesis by (simp add: hasNode_iff addEdge_fresh_eq)
next
  case (Some e0)
  have "jget (pg_edges (pg_removeEdge (ge_id e) g)) (ge_id e) = None" by (simp add: removeEdge_edges)
  then have "hasNode (pg_addEdge e (pg_removeEdge (ge_id e) g)) k = hasNode (pg_removeEdge (ge_id e) g) k"
    by (simp add: hasNode_iff addEdge_fresh_eq)
  then show ?thesis unfolding addEdge_replace [OF Some] by simp
qed

lemma addEdge_fresh_ok:
  assumes g: "graph_ok g" and e: "jget (pg_edges g) (ge_id e) = None" "hasNode g (ge_source e)" "hasNode g (ge_target e)"
  shows "graph_ok (pg_addEdge e g)"
  unfolding graph_ok_def
proof (intro conjI)
  show "adjacency (pg_addEdge e g)" using g by (simp add: graph_ok_def addEdge_adjacency)
  show "closed_graph (pg_addEdge e g)"
    using g e by (auto simp: graph_ok_def closed_graph_def addEdge_fresh_eq(1) [OF e(1)] split: if_splits)
  show "well_counted (pg_addEdge e g)" unfolding well_counted_def
  proof (intro allI impI)
    fix k n
    assume "jget (pg_nodes (pg_addEdge e g)) k = Some n"
    then obtain n0 where n0: "jget (pg_nodes g) k = Some n0"
      "n = n0\<lparr>gn_importCount := (if k = ge_source e then max 0 (gn_importCount n0 + 1) else gn_importCount n0),
         gn_importedByCount := (if k = ge_target e then max 0 (gn_importedByCount n0 + 1) else gn_importedByCount n0)\<rparr>"
      unfolding addEdge_fresh_eq(5) [OF e(1)] by auto
    with g have "gn_importCount n0 = int (out_degree g k)" "gn_importedByCount n0 = int (in_degree g k)"
      by (auto simp: graph_ok_def well_counted_def)
    then show "gn_importCount n = int (out_degree (pg_addEdge e g) k) \<and> gn_importedByCount n = int (in_degree (pg_addEdge e g) k)"
      using addEdge_degrees [OF e(1), of k] n0(2) by auto
  qed
qed

lemma addEdge_ok:
  assumes "graph_ok g" "hasNode g (ge_source e)" "hasNode g (ge_target e)"
  shows "graph_ok (pg_addEdge e g)"
proof (cases "jget (pg_edges g) (ge_id e)")
  case None
  then show ?thesis using assms by (intro addEdge_fresh_ok)
next
  case (Some e0)
  show ?thesis unfolding addEdge_replace [OF Some]
    by (rule addEdge_fresh_ok) (use assms in \<open>simp_all add: removeEdge_ok removeEdge_edges\<close>)
qed

lemma absent_degree:
  assumes "adjacency g" "closed_graph g" "\<not> hasNode g k"
  shows "out_degree g k = 0 \<and> in_degree g k = 0"
proof -
  have "ge_source e \<noteq> k \<and> ge_target e \<noteq> k" if "(i, e) \<in> set (pg_edges g)" for i e
    using that assms jwf_in_get [OF adjacencyD(2) [OF assms(1)], of i e] by (auto simp: closed_graph_def)
  then show ?thesis by (auto simp: out_degree_def in_degree_def filter_empty_conv)
qed

lemma addNode_hasNode [simp]: "hasNode (pg_addNode n g) k = (k = gn_id n \<or> hasNode g k)"
  by (simp add: hasNode_iff addNode_eq)

lemma addNode_degrees [simp]: "out_degree (pg_addNode n g) k = out_degree g k" "in_degree (pg_addNode n g) k = in_degree g k"
  by (simp_all add: out_degree_def in_degree_def addNode_eq)

lemma addNode_ok:
  assumes "graph_ok g" "\<not> hasNode g (gn_id n)" "gn_importCount n = 0" "gn_importedByCount n = 0"
  shows "graph_ok (pg_addNode n g)"
proof -
  have "out_degree g (gn_id n) = 0 \<and> in_degree g (gn_id n) = 0"
    using assms by (intro absent_degree) (simp_all add: graph_ok_def)
  with assms have "well_counted (pg_addNode n g)" by (auto simp: graph_ok_def well_counted_def addNode_eq)
  moreover have "closed_graph (pg_addNode n g)" using assms(1) by (auto simp: graph_ok_def closed_graph_def addNode_eq(1))
  ultimately show ?thesis using assms(1) by (simp add: graph_ok_def addNode_adjacency)
qed

lemma removeNode_ok:
  assumes "graph_ok g"
  shows "graph_ok (pg_removeNode i g)"
proof (cases "jget (pg_nodes g) i")
  case None
  then show ?thesis using assms by (simp add: pg_removeNode_def jhas_def)
next
  case (Some n)
  let ?g1 = "removeEdges (get_or [] (pg_out g) i) g"
  let ?g2 = "removeEdges (get_or [] (pg_in ?g1) i) ?g1"
  have ok: "graph_ok ?g2" by (intro removeEdges_ok assms)
  have a: "adjacency g" using assms by (simp add: graph_ok_def)
  have R: "pg_nodes (pg_removeNode i g) = jdel i (pg_nodes ?g2)" "pg_edges (pg_removeNode i g) = pg_edges ?g2"
    unfolding removeNode_eq [OF Some] Let_def by simp_all
  have "hasNode (pg_removeNode i g) x" if "hasNode ?g2 x" "x \<noteq> i" for x
    using that unfolding hasNode_iff R by simp
  moreover have "ge_source e \<noteq> i \<and> ge_target e \<noteq> i" if "jget (pg_edges (pg_removeNode i g)) k = Some e" for k e
    using that unfolding removeNode_edges [OF a Some] by (auto split: option.splits if_splits)
  ultimately have "closed_graph (pg_removeNode i g)" using ok unfolding graph_ok_def closed_graph_def R by blast
  moreover have "well_counted (pg_removeNode i g)"
    using ok by (simp add: graph_ok_def well_counted_def out_degree_def in_degree_def R)
  ultimately show ?thesis using removeNode_adjacency [OF a] by (simp add: graph_ok_def)
qed

lemma removeNode_hasNode [simp]: "hasNode (pg_removeNode i g) k = (k \<noteq> i \<and> hasNode g k)"
proof (cases "jget (pg_nodes g) i")
  case None
  then show ?thesis by (auto simp: pg_removeNode_def jhas_def hasNode_iff)
next
  case (Some n)
  let ?g2 = "removeEdges (get_or [] (pg_in (removeEdges (get_or [] (pg_out g) i) g)) i) (removeEdges (get_or [] (pg_out g) i) g)"
  have "hasNode (pg_removeNode i g) k = (k \<noteq> i \<and> hasNode ?g2 k)" unfolding removeNode_eq [OF Some] Let_def by (simp add: hasNode_iff)
  then show ?thesis by simp
qed

lemma new_pgraph_ok: "graph_ok new_pgraph"
  by (simp add: graph_ok_def adjacency_def closed_graph_def well_counted_def new_pgraph_def get_or_def)

section \<open>Replay\<close>

definition replay :: "patch_op list \<Rightarrow> pgraph \<Rightarrow> pgraph" where
  "replay ops g = foldl (\<lambda>g op. applyOp op g) g ops"

lemma replay_simps [simp]: "replay [] g = g" "replay (op # ops) g = replay ops (applyOp op g)"
  "replay (ops @ ops') g = replay ops' (replay ops g)"
  by (simp_all add: replay_def)

text \<open>Two graphs with the same nodes, labels and edges; the import counts are not compared.\<close>

definition same_graph :: "pgraph \<Rightarrow> pgraph \<Rightarrow> bool" where
  "same_graph h g \<longleftrightarrow> (\<forall>k. jget (pg_edges h) k = jget (pg_edges g) k \<and>
     map_option (\<lambda>n. (gn_id n, gn_label n)) (jget (pg_nodes h) k) = map_option (\<lambda>n. (gn_id n, gn_label n)) (jget (pg_nodes g) k))"

text \<open>The operations logged on the way from one graph to another replay that way.\<close>

definition logs :: "pgraph \<Rightarrow> pgraph \<Rightarrow> bool" where
  "logs g g' \<longleftrightarrow> (\<exists>ops. pg_pending g' = pg_pending g @ ops \<and> (\<forall>h. same_graph h g \<longrightarrow> same_graph (replay ops h) g'))"

lemma logs_refl [intro, simp]: "logs g g"
  by (auto simp: logs_def)

lemma logs_trans [trans]: "logs g g' \<Longrightarrow> logs g' g'' \<Longrightarrow> logs g g''"
  unfolding logs_def by (metis append.assoc replay_simps(3))

lemma logs_one:
  "pg_pending g' = pg_pending g @ [op] \<Longrightarrow> (\<And>h. same_graph h g \<Longrightarrow> same_graph (applyOp op h) g') \<Longrightarrow> logs g g'"
  unfolding logs_def by (intro exI [of _ "[op]"]) simp

lemma removeEdge_logs: "logs g (pg_removeEdge i g)"
proof (cases "jget (pg_edges g) i")
  case (Some e)
  show ?thesis
    by (rule logs_one [OF removeEdge_eq(4) [OF Some]])
      (use Some in \<open>auto simp: same_graph_def applyOp_def removeEdge_edges removeEdge_labels split: option.split\<close>)
qed (simp add: removeEdge_absent)

lemma removeEdges_logs: "logs g (removeEdges es g)"
  by (induction es arbitrary: g) (auto intro: logs_trans removeEdge_logs)

lemma addEdge_labels:
  "map_option (\<lambda>n. (gn_id n, gn_label n)) (jget (pg_nodes (pg_addEdge e g)) k) = map_option (\<lambda>n. (gn_id n, gn_label n)) (jget (pg_nodes g) k)"
proof -
  have fresh: "map_option (\<lambda>n. (gn_id n, gn_label n)) (jget (pg_nodes (pg_addEdge e g)) k) = map_option (\<lambda>n. (gn_id n, gn_label n)) (jget (pg_nodes g) k)"
    if "jget (pg_edges g) (ge_id e) = None" for g
    using that by (cases "jget (pg_nodes g) k") (auto simp: addEdge_fresh_eq)
  show ?thesis
  proof (cases "jget (pg_edges g) (ge_id e)")
    case (Some e0)
    show ?thesis unfolding addEdge_replace [OF Some] using fresh [of "pg_removeEdge (ge_id e) g"] by (simp add: removeEdge_edges removeEdge_labels)
  qed (rule fresh)
qed

lemma addEdge_edges: "jget (pg_edges (pg_addEdge e g)) k = (if k = ge_id e then Some e else jget (pg_edges g) k)"
proof (cases "jget (pg_edges g) (ge_id e)")
  case None
  then show ?thesis by (simp add: addEdge_fresh_eq)
next
  case (Some e0)
  show ?thesis unfolding addEdge_replace [OF Some] by (simp add: addEdge_fresh_eq removeEdge_edges)
qed

lemma addEdge_fresh_logs: "jget (pg_edges g) (ge_id e) = None \<Longrightarrow> logs g (pg_addEdge e g)"
  by (rule logs_one [OF addEdge_fresh_eq(4)])
    (simp_all add: same_graph_def applyOp_def link_edge_def addEdge_edges addEdge_labels)

lemma addEdge_logs: "logs g (pg_addEdge e g)"
proof (cases "jget (pg_edges g) (ge_id e)")
  case (Some e0)
  show ?thesis unfolding addEdge_replace [OF Some]
    by (rule logs_trans [OF removeEdge_logs addEdge_fresh_logs]) (simp add: removeEdge_edges)
qed (rule addEdge_fresh_logs)

lemma addNode_logs: "logs g (pg_addNode n g)"
proof (cases "jhas (pg_nodes g) (gn_id n)")
  case True
  show ?thesis unfolding logs_def
    by (rule exI [of _ "[\<lparr>po_kind = RemoveNode, po_id = gn_id n, po_node = None, po_edge = None\<rparr>,
          \<lparr>po_kind = AddNode, po_id = gn_id n, po_node = Some n, po_edge = None\<rparr>]"])
      (use True in \<open>auto simp: pg_addNode_def same_graph_def applyOp_def Let_def\<close>)
next
  case False
  show ?thesis
    by (rule logs_one [of _ _ "\<lparr>po_kind = AddNode, po_id = gn_id n, po_node = Some n, po_edge = None\<rparr>"])
      (use False in \<open>auto simp: pg_addNode_def same_graph_def applyOp_def Let_def\<close>)
qed

lemma removeNode_logs: "logs g (pg_removeNode i g)"
proof (cases "jget (pg_nodes g) i")
  case None
  then show ?thesis by (simp add: pg_removeNode_def jhas_def)
next
  case (Some n)
  let ?g2 = "removeEdges (get_or [] (pg_in (removeEdges (get_or [] (pg_out g) i) g)) i) (removeEdges (get_or [] (pg_out g) i) g)"
  have "logs g ?g2" by (meson logs_trans removeEdges_logs)
  also have "logs ?g2 (pg_removeNode i g)" unfolding removeNode_eq [OF Some] Let_def
    by (rule logs_one [of _ _ "\<lparr>po_kind = RemoveNode, po_id = i, po_node = None, po_edge = None\<rparr>"])
      (auto simp: same_graph_def applyOp_def)
  finally show ?thesis .
qed

end
