(* ===== verification/Js_Path.thy ===== *)
theory Js_Path
  imports Js_Text
begin

text \<open>The functions of Node's \<open>path\<close> (POSIX) the workspace index uses, on the names of files.\<close>

definition slash :: char where "slash = CHR ''/''"

fun split_slash :: "string \<Rightarrow> string \<Rightarrow> string list" where
  "split_slash acc [] = [rev acc]"
| "split_slash acc (c # cs) = (if c = slash then rev acc # split_slash [] cs else split_slash (c # acc) cs)"

fun join_slash :: "string list \<Rightarrow> string" where
  "join_slash [] = []"
| "join_slash [s] = s"
| "join_slash (s # t # ss) = s @ slash # join_slash (t # ss)"

text \<open>The accumulator is the path so far, last segment first.\<close>

fun norm_segments :: "bool \<Rightarrow> string list \<Rightarrow> string list \<Rightarrow> string list" where
  "norm_segments up acc [] = rev acc"
| "norm_segments up acc (s # ss) =
     (if s = [] \<or> s = ''.'' then norm_segments up acc ss
      else if s = ''..''
      then (case acc of
              a # acc' \<Rightarrow> if a \<noteq> ''..'' then norm_segments up acc' ss
                          else norm_segments up (if up then s # acc else acc) ss
            | [] \<Rightarrow> norm_segments up (if up then [s] else []) ss)
      else norm_segments up (s # acc) ss)"

definition path_normalize :: "string \<Rightarrow> string" where
  "path_normalize p =
     (if p = [] then ''.''
      else
        (let absolute = hd p = slash; trailing = last p = slash;
             s = join_slash (norm_segments (\<not> absolute) [] (split_slash [] p))
         in if s = [] then (if absolute then [slash] else if trailing then ''./'' else ''.'')
            else (let s' = (if trailing then s @ [slash] else s) in if absolute then slash # s' else s')))"

definition path_join :: "string \<Rightarrow> string \<Rightarrow> string" where
  "path_join a b =
     (let parts = filter (\<lambda>s. s \<noteq> []) [a, b] in if parts = [] then ''.'' else path_normalize (join_slash parts))"

text \<open>The scan goes from the end and leaves the first character out.\<close>

definition path_dirname :: "string \<Rightarrow> string" where
  "path_dirname p =
     (if p = [] then ''.''
      else
        (let rest = dropWhile (\<lambda>c. c \<noteq> slash) (dropWhile (\<lambda>c. c = slash) (rev (tl p)))
         in if rest = [] then (if hd p = slash then [slash] else ''.'')
            else if hd p = slash \<and> length rest = 1 then ''//''
            else take (length rest) p))"

definition path_basename :: "string \<Rightarrow> string" where
  "path_basename p = rev (takeWhile (\<lambda>c. c \<noteq> slash) (dropWhile (\<lambda>c. c = slash) (rev p)))"

definition path_extname :: "string \<Rightarrow> string" where
  "path_extname p =
     (let b = path_basename p; ext = takeWhile (\<lambda>c. c \<noteq> CHR ''.'') (rev b)
      in if length ext + 1 < length b \<and> b \<noteq> ''..'' then CHR ''.'' # rev ext else [])"

definition is_alpha :: "char \<Rightarrow> bool" where
  "is_alpha c = (let n = of_char c :: nat in 65 \<le> n \<and> n \<le> 90 \<or> 97 \<le> n \<and> n \<le> 122)"

text \<open>A dot and letters at the end.\<close>

definition has_extension :: "string \<Rightarrow> bool" where
  "has_extension p =
     (let letters = takeWhile is_alpha (rev p); rest = dropWhile is_alpha (rev p)
      in letters \<noteq> [] \<and> rest \<noteq> [] \<and> hd rest = CHR ''.'')"

lemma path_examples:
  "(path_normalize (path_join (path_dirname ''src/a/b.ts'') ''../c''), path_dirname ''a.ts'', path_extname ''src/x.test.ts'',
    path_extname ''.env'', path_normalize ''../../x//y/./z/..'', path_basename ''src/a/b.ts'', has_extension ''src/c'') =
   (''src/c'', ''.'', ''.ts'', '''', ''../../x/y'', ''b.ts'', False)"
  by code_simp

end
