(* ===== verification/Incremental_Indexer.thy ===== *)
theory Incremental_Indexer
  imports Patchable_Graph Js_Path
begin

text \<open>
  The incremental index of a workspace (\<open>server/workspace/incremental-indexer.ts\<close>) over its graph, and the snapshot
  and write-ahead log it survives a restart with (\<open>server/workspace/index-snapshot.ts\<close>). The operations of an
  indexer run one after the other on its serial queue. Reading a file gives the hash of its content; parsing it gives
  symbols, an error or a throw.
\<close>

section \<open>The files on disk\<close>

record snapshot_file =
  sf_serializationVersion :: nat
  sf_workspaceId :: string
  sf_graph :: graph_snapshot

text \<open>A line of the log is a batch of operations or cannot be parsed.\<close>

datatype wal_line = Wal_Entry "patch_op list" | Wal_Malformed

record index_disk =
  ix_snapshot :: "snapshot_file option"
  ix_wal :: "wal_line list"

definition serialization_version :: nat where "serialization_version = 1"

record load_result =
  lr_graph :: pgraph
  lr_fromCache :: bool
  lr_replayed :: nat

fun replay_wal :: "wal_line list \<Rightarrow> pgraph \<Rightarrow> nat \<Rightarrow> pgraph \<times> nat" where
  "replay_wal [] g n = (g, n)"
| "replay_wal (Wal_Entry ops # ls) g n = replay_wal ls (foldl (\<lambda>g op. applyOp op g) g ops) (n + 1)"
| "replay_wal (Wal_Malformed # ls) g n = replay_wal ls g n"

definition ix_load :: "string \<Rightarrow> index_disk \<Rightarrow> load_result" where
  "ix_load wid d =
     (case ix_snapshot d of
        None \<Rightarrow> \<lparr>lr_graph = new_pgraph, lr_fromCache = False, lr_replayed = 0\<rparr>
      | Some f \<Rightarrow>
          (if sf_serializationVersion f \<noteq> serialization_version \<or> sf_workspaceId f \<noteq> wid
           then \<lparr>lr_graph = new_pgraph, lr_fromCache = False, lr_replayed = 0\<rparr>
           else (let (g, n) = replay_wal (ix_wal d) (pg_restore (sf_graph f)) 0
                 in \<lparr>lr_graph = g, lr_fromCache = True, lr_replayed = n\<rparr>)))"

definition appendWal :: "patch_op list \<Rightarrow> index_disk \<Rightarrow> index_disk" where
  "appendWal ops d = (if ops = [] then d else d\<lparr>ix_wal := ix_wal d @ [Wal_Entry ops]\<rparr>)"

definition checkpoint :: "int \<Rightarrow> string \<Rightarrow> pgraph \<Rightarrow> index_disk \<Rightarrow> index_disk" where
  "checkpoint now wid g d =
     d\<lparr>ix_snapshot := Some \<lparr>sf_serializationVersion = serialization_version, sf_workspaceId = wid, sf_graph = pg_snapshot now g\<rparr>,
       ix_wal := []\<rparr>"

definition clear_disk :: "index_disk \<Rightarrow> index_disk" where
  "clear_disk d = d\<lparr>ix_snapshot := None, ix_wal := []\<rparr>"

section \<open>The indexer\<close>

datatype watch_kind = Ev_Add | Ev_Change | Ev_Unlink

record watch_event =
  we_kind :: watch_kind
  we_absolute :: string
  we_relative :: string

record parsed_symbol =
  ps_name :: string
  ps_kind :: string
  ps_exportedFrom :: "string option"

datatype parse_outcome = Parse_Throws string | Parse_Result "string option" "parsed_symbol list"

record symbol_row =
  sy_filePath :: string
  sy_name :: string
  sy_kind :: string

record inc_index =
  ii_workspaceId :: string
  ii_hashCache :: "(string, string) jsmap"
  ii_graph :: pgraph
  ii_disk :: index_disk
  ii_active :: bool

record flush_result =
  fr_reparsed :: nat
  fr_skipped :: nat
  fr_removed :: nat
  fr_patchOps :: nat
  fr_errors :: "string list"

text \<open>What a flush meets: the hash of each file, the outcome of each parse, and whether the log can be appended to.\<close>

record flush_world =
  fw_read :: "string \<Rightarrow> string option"
  fw_parse :: "string \<Rightarrow> parse_outcome"
  fw_walOk :: bool

definition new_inc_index :: "string \<Rightarrow> index_disk \<Rightarrow> inc_index" where
  "new_inc_index wid d =
     \<lparr>ii_workspaceId = wid, ii_hashCache = [], ii_graph = new_pgraph, ii_disk = d, ii_active = False\<rparr>"

definition activate :: "int \<Rightarrow> inc_index \<Rightarrow> inc_index" where
  "activate now s =
     (if ii_active s then s
      else
        (let loaded = ix_load (ii_workspaceId s) (ii_disk s)
         in s\<lparr>ii_active := True,
              ii_graph := (if lr_fromCache loaded then pg_restore (pg_snapshot now (lr_graph loaded)) else ii_graph s)\<rparr>))"

definition deactivate :: "inc_index \<Rightarrow> inc_index" where
  "deactivate s = s\<lparr>ii_active := False\<rparr>"

definition indexable_extensions :: "string list" where
  "indexable_extensions = [''.ts'', ''.tsx'', ''.js'', ''.jsx'']"

section \<open>Files and edges\<close>

text \<open>The arrow of an edge id as its UTF-8 bytes.\<close>

definition edge_id :: "string \<Rightarrow> string \<Rightarrow> string" where
  "edge_id source target = source @ map char_of [226, 134, 146 :: nat] @ target"

definition resolve_import :: "string \<Rightarrow> string \<Rightarrow> string" where
  "resolve_import file specifier =
     (let target = map (\<lambda>c. if c = CHR 0x5C then slash else c) (path_normalize (path_join (path_dirname file) specifier))
      in if has_extension target then target else target @ ''.ts'')"

definition relative_import :: "string \<Rightarrow> bool" where
  "relative_import specifier = (specifier \<noteq> [] \<and> hd specifier = CHR ''.'')"

definition fresh_node :: "string \<Rightarrow> graph_node" where
  "fresh_node i = \<lparr>gn_id = i, gn_label = path_basename i, gn_importCount = 0, gn_importedByCount = 0\<rparr>"

definition ensure_node :: "string \<Rightarrow> pgraph \<Rightarrow> pgraph" where
  "ensure_node i g = (if hasNode g i then g else pg_addNode (fresh_node i) g)"

definition add_import :: "string \<Rightarrow> pgraph \<Rightarrow> string \<Rightarrow> pgraph" where
  "add_import file g specifier =
     (if \<not> relative_import specifier then g
      else
        (let target = resolve_import file specifier; i = edge_id file target; g1 = ensure_node target g
         in if hasEdge g1 i then g1 else pg_addEdge \<lparr>ge_id = i, ge_source = file, ge_target = target\<rparr> g1))"

definition updateFileInGraph :: "string \<Rightarrow> string list \<Rightarrow> pgraph \<Rightarrow> pgraph" where
  "updateFileInGraph file imports g =
     (let g1 = ensure_node file g;
          g2 = foldl (\<lambda>g e. pg_removeEdge (ge_id e) g) g1 (filter (\<lambda>e. ge_source e = file) (allEdges g1))
      in foldl (add_import file) g2 imports)"

definition removeFileFromGraph :: "string \<Rightarrow> pgraph \<Rightarrow> pgraph" where
  "removeFileFromGraph file g = pg_removeNode file g"

section \<open>Flushes\<close>

datatype file_outcome = Skipped | Reparsed "string list" | File_Error string

text \<open>The new hash is stored before the file is parsed.\<close>

definition processFile :: "flush_world \<Rightarrow> watch_event \<Rightarrow> inc_index \<Rightarrow> file_outcome \<times> inc_index" where
  "processFile w ev s =
     (case fw_read w (we_absolute ev) of
        None \<Rightarrow> (File_Error ''File not readable'', s)
      | Some h \<Rightarrow>
          (if jget (ii_hashCache s) (we_relative ev) = Some h then (Skipped, s)
           else
             (let s1 = s\<lparr>ii_hashCache := jset (we_relative ev) h (ii_hashCache s)\<rparr>
              in case fw_parse w (we_relative ev) of
                   Parse_Throws e \<Rightarrow> (File_Error e, s1)
                 | Parse_Result err symbols \<Rightarrow>
                     (case err of
                        Some e \<Rightarrow> if e \<noteq> [] then (File_Error e, s1)
                                   else (Reparsed (List.map_filter ps_exportedFrom (filter (\<lambda>p. ps_kind p = ''import'') symbols)), s1)
                      | None \<Rightarrow> (Reparsed (List.map_filter ps_exportedFrom (filter (\<lambda>p. ps_kind p = ''import'') symbols)), s1)))))"

definition flush_event :: "flush_world \<Rightarrow> inc_index \<times> flush_result \<Rightarrow> watch_event \<Rightarrow> inc_index \<times> flush_result" where
  "flush_event w acc ev =
     (let (s, r) = acc
      in if we_kind ev = Ev_Unlink
         then (s\<lparr>ii_graph := removeFileFromGraph (we_relative ev) (ii_graph s), ii_hashCache := jdel (we_relative ev) (ii_hashCache s)\<rparr>,
               r\<lparr>fr_removed := fr_removed r + 1\<rparr>)
         else if lower (path_extname (we_absolute ev)) \<notin> set indexable_extensions then (s, r)
         else
           (case processFile w ev s of
              (Skipped, s1) \<Rightarrow> (s1, r\<lparr>fr_skipped := fr_skipped r + 1\<rparr>)
            | (Reparsed imports, s1) \<Rightarrow>
                (s1\<lparr>ii_graph := updateFileInGraph (we_relative ev) imports (ii_graph s1)\<rparr>, r\<lparr>fr_reparsed := fr_reparsed r + 1\<rparr>)
            | (File_Error e, s1) \<Rightarrow> (s1, r\<lparr>fr_errors := fr_errors r @ [we_relative ev @ '': '' @ e]\<rparr>)))"

definition handleFlush :: "flush_world \<Rightarrow> watch_event list \<Rightarrow> inc_index \<Rightarrow> flush_result \<times> inc_index" where
  "handleFlush w events s =
     (let (s1, r) = foldl (flush_event w) (s, \<lparr>fr_reparsed = 0, fr_skipped = 0, fr_removed = 0, fr_patchOps = 0, fr_errors = []\<rparr>) events;
          (ops, g) = flushPatch (ii_graph s1);
          s2 = s1\<lparr>ii_graph := g\<rparr>
      in (r\<lparr>fr_patchOps := length ops\<rparr>,
          if ops \<noteq> [] \<and> fw_walOk w then s2\<lparr>ii_disk := appendWal ops (ii_disk s2)\<rparr> else s2))"

section \<open>Full rebuilds\<close>

definition symbol_limit :: nat where "symbol_limit = 200"

text \<open>The first symbols of the table, of whatever kind.\<close>

definition getSymbols :: "symbol_row list \<Rightarrow> symbol_row list" where
  "getSymbols table = take symbol_limit table"

record rebuild_state =
  rb_nodes :: "string list"
  rb_imports :: "(string, int) jsmap"
  rb_importedBy :: "(string, int) jsmap"
  rb_edges :: "graph_edge list"

definition rebuild_symbol :: "rebuild_state \<Rightarrow> symbol_row \<Rightarrow> rebuild_state" where
  "rebuild_symbol b y =
     (if sy_kind y \<noteq> ''import'' \<or> \<not> relative_import (sy_name y) then b
      else
        (let source = sy_filePath y; target = resolve_import source (sy_name y); i = edge_id source target;
             b1 = b\<lparr>rb_nodes := sadd target (sadd source (rb_nodes b))\<rparr>
         in if list_ex (\<lambda>e. ge_id e = i) (rb_edges b1) then b1
            else b1\<lparr>rb_edges := rb_edges b1 @ [\<lparr>ge_id = i, ge_source = source, ge_target = target\<rparr>],
                    rb_imports := jset source (get_or 0 (rb_imports b1) source + 1) (rb_imports b1),
                    rb_importedBy := jset target (get_or 0 (rb_importedBy b1) target + 1) (rb_importedBy b1)\<rparr>))"

definition rebuildGraphFromDb :: "int \<Rightarrow> symbol_row list \<Rightarrow> pgraph" where
  "rebuildGraphFromDb now table =
     (let b = foldl rebuild_symbol \<lparr>rb_nodes = [], rb_imports = [], rb_importedBy = [], rb_edges = []\<rparr> (getSymbols table);
          g1 = foldl (\<lambda>g i. pg_addNode \<lparr>gn_id = i, gn_label = path_basename i, gn_importCount = get_or 0 (rb_imports b) i,
                                        gn_importedByCount = get_or 0 (rb_importedBy b) i\<rparr> g) new_pgraph (rb_nodes b);
          g2 = foldl (\<lambda>g e. pg_addEdge e g) g1 (rb_edges b)
      in pg_restore (pg_snapshot now g2))"

text \<open>\<open>None\<close>: the full index threw after the cache and the files were cleared.\<close>

definition doFullRebuild :: "int \<Rightarrow> symbol_row list option \<Rightarrow> inc_index \<Rightarrow> inc_index" where
  "doFullRebuild now table s =
     (let s1 = s\<lparr>ii_hashCache := [], ii_disk := clear_disk (ii_disk s)\<rparr>
      in case table of
           None \<Rightarrow> s1
         | Some t \<Rightarrow>
             (let g = rebuildGraphFromDb now t
              in s1\<lparr>ii_graph := g, ii_disk := checkpoint now (ii_workspaceId s1) g (ii_disk s1)\<rparr>))"

end
