(* ===== verification/Index_Facts.thy ===== *)
theory Index_Facts
  imports Incremental_Indexer
begin

text \<open>
  What the workspace index guarantees: exact import counts as long as files only change, the recovery of the graph
  from snapshot and log; and what it gets wrong: counts after a rebuild, importers of a file that came back, files
  whose parse failed.
\<close>

section \<open>Files change\<close>

lemma ensure_node_ok: "graph_ok g \<Longrightarrow> graph_ok (ensure_node i g)"
  by (simp add: ensure_node_def addNode_ok fresh_node_def)

lemma ensure_node_hasNode [simp]: "hasNode (ensure_node i g) k = (k = i \<or> hasNode g k)"
  by (auto simp: ensure_node_def fresh_node_def)

lemma add_import_hasNode: "hasNode g k \<Longrightarrow> hasNode (add_import file g specifier) k"
  by (simp add: add_import_def Let_def)

lemma add_import_ok: "graph_ok g \<Longrightarrow> hasNode g file \<Longrightarrow> graph_ok (add_import file g specifier)"
  by (simp add: add_import_def Let_def ensure_node_ok addEdge_ok)

lemma add_imports_ok: "graph_ok g \<Longrightarrow> hasNode g file \<Longrightarrow> graph_ok (foldl (add_import file) g specifiers)"
  by (induction specifiers arbitrary: g) (simp_all add: add_import_ok add_import_hasNode)

lemma foldl_removeEdge: "foldl (\<lambda>g e. pg_removeEdge (ge_id e) g) g es = removeEdges (map ge_id es) g"
  by (induction es arbitrary: g) simp_all

lemma updateFile_eq:
  "updateFileInGraph file specifiers g =
    foldl (add_import file) (removeEdges (map ge_id (filter (\<lambda>e. ge_source e = file) (allEdges (ensure_node file g)))) (ensure_node file g)) specifiers"
  by (simp add: updateFileInGraph_def foldl_removeEdge Let_def)

lemma updateFile_ok: "graph_ok g \<Longrightarrow> graph_ok (updateFileInGraph file specifiers g)"
  unfolding updateFile_eq by (intro add_imports_ok removeEdges_ok ensure_node_ok) simp_all

lemma flushPatch_ok [simp]: "graph_ok (snd (flushPatch g)) = graph_ok g"
  by (simp add: flushPatch_def graph_ok_def adjacency_def closed_graph_def well_counted_def out_degree_def in_degree_def hasNode_def)

lemma processFile_graph [simp]: "processFile w ev s = (x, s') \<Longrightarrow> ii_graph s' = ii_graph s"
  by (auto simp: processFile_def Let_def split: option.splits parse_outcome.splits if_splits)

lemma flush_event_ok:
  assumes "graph_ok (ii_graph (fst acc))"
  shows "graph_ok (ii_graph (fst (flush_event w acc ev)))"
proof -
  obtain s r where acc: "acc = (s, r)" by fastforce
  obtain x s1 where p: "processFile w ev s = (x, s1)" by fastforce
  show ?thesis using assms processFile_graph [OF p]
    by (cases x) (auto simp: flush_event_def acc p removeFileFromGraph_def removeNode_ok updateFile_ok)
qed

lemma flush_events_ok: "graph_ok (ii_graph (fst acc)) \<Longrightarrow> graph_ok (ii_graph (fst (foldl (flush_event w) acc evs)))"
  by (induction evs arbitrary: acc) (simp_all add: flush_event_ok)

lemma handleFlush_graph:
  "ii_graph (snd (handleFlush w evs s)) =
    snd (flushPatch (ii_graph (fst (foldl (flush_event w) (s, \<lparr>fr_reparsed = 0, fr_skipped = 0, fr_removed = 0, fr_patchOps = 0, fr_errors = []\<rparr>) evs))))"
  by (simp add: handleFlush_def Let_def split_beta)

lemma handleFlush_ok: "graph_ok (ii_graph s) \<Longrightarrow> graph_ok (ii_graph (snd (handleFlush w evs s)))"
  unfolding handleFlush_graph flushPatch_ok by (rule flush_events_ok) simp

definition flushes :: "(flush_world \<times> watch_event list) list \<Rightarrow> inc_index \<Rightarrow> inc_index" where
  "flushes runs s = foldl (\<lambda>s (w, evs). snd (handleFlush w evs s)) s runs"

lemma flushes_simps [simp]: "flushes [] s = s" "flushes ((w, evs) # runs) s = flushes runs (snd (handleFlush w evs s))"
  by (simp_all add: flushes_def)

lemma flushes_ok: "graph_ok (ii_graph s) \<Longrightarrow> graph_ok (ii_graph (flushes runs s))"
  by (induction runs arbitrary: s) (auto simp: handleFlush_ok)

text \<open>
  C16: an index that starts empty keeps a consistent graph through any sequence of flushes, whatever files appear,
  change, vanish, cannot be read or fail to parse: the adjacency sets hold exactly the edges, every edge joins two
  nodes, and the import counts of every node are the numbers of edges that leave and enter it.
\<close>

theorem incremental_graph_exact:
  "graph_ok (ii_graph (flushes runs (activate now (new_inc_index wid \<lparr>ix_snapshot = None, ix_wal = wal\<rparr>))))"
  by (rule flushes_ok) (simp add: activate_def new_inc_index_def ix_load_def new_pgraph_ok Let_def)

section \<open>Recovery\<close>

text \<open>Maps whose keys are the ids of their values.\<close>

definition keyed_map :: "('v \<Rightarrow> string) \<Rightarrow> (string, 'v) jsmap \<Rightarrow> bool" where
  "keyed_map f m \<longleftrightarrow> jwf m \<and> (\<forall>(k, v) \<in> set m. f v = k)"

definition keyed :: "pgraph \<Rightarrow> bool" where
  "keyed g \<longleftrightarrow> keyed_map gn_id (pg_nodes g) \<and> keyed_map ge_id (pg_edges g)"

lemma set_jset_subset: "set (jset k v m) \<subseteq> insert (k, v) (set m)"
  by (induction m) auto

lemma set_jdel_subset: "set (jdel k m) \<subseteq> set m"
  by (induction m) auto

lemma keyed_map_jset: "keyed_map f m \<Longrightarrow> keyed_map f (jset (f v) v m)"
  using set_jset_subset [of "f v" v m] by (auto simp: keyed_map_def)

lemma keyed_map_jdel: "keyed_map f m \<Longrightarrow> keyed_map f (jdel k m)"
  using set_jdel_subset [of k m] by (auto simp: keyed_map_def)

lemma keyed_map_get: "jwf m \<Longrightarrow> (\<And>k v. jget m k = Some v \<Longrightarrow> f v = k) \<Longrightarrow> keyed_map f m"
proof -
  assume m: "jwf m" and f: "\<And>k v. jget m k = Some v \<Longrightarrow> f v = k"
  have "f v = k" if "(k, v) \<in> set m" for k v using f jwf_in_get [OF m, THEN iffD1, OF that] .
  with m show ?thesis by (auto simp: keyed_map_def)
qed

lemma keyed_map_fold: "keyed_map f m \<Longrightarrow> keyed_map f (foldl (\<lambda>m v. jset (f v) v m) m vs)"
  by (induction vs arbitrary: m) (simp_all add: keyed_map_jset)

lemma keyed_applyOp: "keyed g \<Longrightarrow> keyed (applyOp op g)"
  by (simp add: keyed_def applyOp_def link_edge_def keyed_map_jset keyed_map_jdel split: patch_kind.split option.split)

lemma keyed_replay: "keyed g \<Longrightarrow> keyed (replay ops g)"
  by (induction ops arbitrary: g) (simp_all add: keyed_applyOp)

lemma keyed_replay_wal: "keyed g \<Longrightarrow> keyed (fst (replay_wal ls g n))"
  by (induction ls g n rule: replay_wal.induct) (simp_all add: keyed_replay [unfolded replay_def])

lemma keyed_adjacency: "adjacency g \<Longrightarrow> keyed g"
  unfolding keyed_def by (intro conjI keyed_map_get) (auto dest: adjacencyD)

lemma refill:
  assumes "keyed_map f m"
  shows "foldl (\<lambda>m v. jset (f v) v m) [] (jvals m) = m"
proof -
  have "foldl (\<lambda>m v. jset (f v) v m) pre (jvals m) = pre @ m" if "jwf (pre @ m)" "\<forall>(k, v) \<in> set m. f v = k" for pre
    using that
  proof (induction m arbitrary: pre)
    case (Cons a m)
    have "jset (f (snd a)) (snd a) pre = pre @ [a]"
      using Cons.prems by (cases a) (auto intro!: jvals_jset_absent)
    with Cons.IH [of "pre @ [a]"] Cons.prems show ?case by simp
  qed simp
  from this [of "[]"] assms show ?thesis by (simp add: keyed_map_def)
qed

lemma link_edges_maps:
  "pg_edges (foldl (\<lambda>g e. link_edge e g) g es) = foldl (\<lambda>m e. jset (ge_id e) e m) (pg_edges g) es"
  "pg_nodes (foldl (\<lambda>g e. link_edge e g) g es) = pg_nodes g" "pg_pending (foldl (\<lambda>g e. link_edge e g) g es) = pg_pending g"
  by (induction es arbitrary: g) (simp_all add: link_edge_def)

lemma restore_maps:
  assumes "keyed g"
  shows "pg_nodes (pg_restore (pg_snapshot now g)) = pg_nodes g" "pg_edges (pg_restore (pg_snapshot now g)) = pg_edges g"
    "pg_pending (pg_restore s) = []"
  using assms refill [of gn_id "pg_nodes g"] refill [of ge_id "pg_edges g"]
  by (simp_all add: pg_restore_def pg_snapshot_def allNodes_def allEdges_def link_edges_maps keyed_def new_pgraph_def)

lemma keyed_restore: "keyed (pg_restore s)"
proof -
  have "keyed_map (gn_id :: graph_node \<Rightarrow> string) []" "keyed_map (ge_id :: graph_edge \<Rightarrow> string) []" by (simp_all add: keyed_map_def)
  from this [THEN keyed_map_fold] show ?thesis
    by (simp add: keyed_def pg_restore_def link_edges_maps new_pgraph_def)
qed

lemma link_edge_adjacency:
  assumes "adjacency g" "jget (pg_edges g) (ge_id e) = None"
  shows "adjacency (link_edge e g)"
proof -
  note A = adjacencyD [OF assms(1)]
  show ?thesis
  proof (rule adjacencyI)
    show "jwf (pg_nodes (link_edge e g))" "jwf (pg_edges (link_edge e g))" using A(1,2) by (simp_all add: link_edge_def)
    show "gn_id n = k" if "jget (pg_nodes (link_edge e g)) k = Some n" for k n using that A(3) [of k] by (simp add: link_edge_def)
    show "ge_id x = k" if "jget (pg_edges (link_edge e g)) k = Some x" for k x
      using that A(4) [of k] by (simp add: link_edge_def split: if_splits)
    show "j \<in> set (get_or [] (pg_out (link_edge e g)) s) \<longleftrightarrow> (\<exists>x. jget (pg_edges (link_edge e g)) j = Some x \<and> ge_source x = s)" for s j
      using A(5) [of j s] A(5) [of j "ge_source e"] assms(2) by (cases "j = ge_id e") (auto simp: link_edge_def)
    show "j \<in> set (get_or [] (pg_in (link_edge e g)) s) \<longleftrightarrow> (\<exists>x. jget (pg_edges (link_edge e g)) j = Some x \<and> ge_target x = s)" for s j
      using A(6) [of j s] A(6) [of j "ge_target e"] assms(2) by (cases "j = ge_id e") (auto simp: link_edge_def)
  qed
qed

lemma link_edges_adjacency:
  assumes "adjacency g" "distinct (map ge_id es)" "\<forall>e \<in> set es. jget (pg_edges g) (ge_id e) = None"
  shows "adjacency (foldl (\<lambda>g e. link_edge e g) g es)"
  using assms
proof (induction es arbitrary: g)
  case (Cons e es)
  have "adjacency (link_edge e g)" using Cons.prems by (intro link_edge_adjacency) simp_all
  moreover have "\<forall>x \<in> set es. jget (pg_edges (link_edge e g)) (ge_id x) = None"
  proof
    fix x
    assume "x \<in> set es"
    then have "ge_id x \<in> ge_id ` set es" by simp
    with Cons.prems(2) have "ge_id x \<noteq> ge_id e" by auto
    moreover have "jget (pg_edges g) (ge_id x) = None" using Cons.prems(3) \<open>x \<in> set es\<close> by simp
    ultimately show "jget (pg_edges (link_edge e g)) (ge_id x) = None" by (simp add: link_edge_def)
  qed
  ultimately show ?case using Cons.IH Cons.prems(2) by simp
qed simp

lemma restore_adjacency:
  assumes "keyed g"
  shows "adjacency (pg_restore (pg_snapshot now g))"
proof -
  have k: "keyed_map gn_id (pg_nodes g)" "keyed_map ge_id (pg_edges g)" using assms by (simp_all add: keyed_def)
  have "map ge_id (allEdges g) = jkeys (pg_edges g)"
    unfolding allEdges_def map_map by (rule map_cong) (use k(2) in \<open>auto simp: keyed_map_def\<close>)
  then have d: "distinct (map ge_id (allEdges g))" using k(2) by (simp only: keyed_map_def)
  have "gn_id n = i" if "jget (pg_nodes g) i = Some n" for i n
    using jget_in [OF that] k(1) by (auto simp: keyed_map_def)
  then have "adjacency (new_pgraph\<lparr>pg_version := pg_version g, pg_nodes := pg_nodes g\<rparr>)"
    using k(1) by (simp add: adjacency_def keyed_map_def new_pgraph_def get_or_def)
  from link_edges_adjacency [OF this d] refill [OF k(1)] show ?thesis
    by (simp add: pg_restore_def pg_snapshot_def allNodes_def new_pgraph_def)
qed

lemma same_graph_trans: "same_graph a b \<Longrightarrow> same_graph b c \<Longrightarrow> same_graph a c"
  by (simp add: same_graph_def)

text \<open>A flush logs what it does to the graph.\<close>

lemma ensure_node_logs: "logs g (ensure_node i g)"
  by (simp add: ensure_node_def addNode_logs)

lemma add_import_logs: "logs g (add_import file g specifier)"
  unfolding add_import_def Let_def
  by (auto intro: ensure_node_logs logs_trans [OF ensure_node_logs addEdge_logs])

lemma updateFile_logs: "logs g (updateFileInGraph file specifiers g)"
proof -
  have each: "logs h (foldl (add_import file) h specifiers)" for h
    by (induction specifiers arbitrary: h) (auto intro: logs_trans add_import_logs)
  show ?thesis unfolding updateFile_eq by (meson logs_trans ensure_node_logs removeEdges_logs each)
qed

lemma flush_event_logs: "logs (ii_graph (fst acc)) (ii_graph (fst (flush_event w acc ev)))"
proof -
  obtain s r where acc: "acc = (s, r)" by fastforce
  obtain x s1 where p: "processFile w ev s = (x, s1)" by fastforce
  show ?thesis using processFile_graph [OF p]
    by (cases x) (auto simp: flush_event_def acc p removeFileFromGraph_def removeNode_logs updateFile_logs)
qed

lemma flush_events_logs: "logs (ii_graph (fst acc)) (ii_graph (fst (foldl (flush_event w) acc evs)))"
proof (induction evs arbitrary: acc)
  case (Cons ev evs)
  show ?case using logs_trans [OF flush_event_logs Cons.IH] by simp
qed simp

lemma processFile_frame: "processFile w ev s = (x, s') \<Longrightarrow> ii_disk s' = ii_disk s \<and> ii_workspaceId s' = ii_workspaceId s"
  by (auto simp: processFile_def Let_def split: option.splits parse_outcome.splits if_splits)

lemma flush_event_frame [simp]:
  "ii_disk (fst (flush_event w acc ev)) = ii_disk (fst acc)" "ii_workspaceId (fst (flush_event w acc ev)) = ii_workspaceId (fst acc)"
proof -
  obtain s r where acc: "acc = (s, r)" by fastforce
  obtain x s1 where p: "processFile w ev s = (x, s1)" by fastforce
  show "ii_disk (fst (flush_event w acc ev)) = ii_disk (fst acc)" "ii_workspaceId (fst (flush_event w acc ev)) = ii_workspaceId (fst acc)"
    using processFile_frame [OF p] by (cases x; auto simp: flush_event_def acc p)+
qed

lemma flush_events_frame [simp]:
  "ii_disk (fst (foldl (flush_event w) acc evs)) = ii_disk (fst acc)"
  "ii_workspaceId (fst (foldl (flush_event w) acc evs)) = ii_workspaceId (fst acc)"
  by (induction evs arbitrary: acc) simp_all

text \<open>What the files on disk hold is the graph in memory, and nothing waits to be logged.\<close>

definition durable :: "inc_index \<Rightarrow> bool" where
  "durable s \<longleftrightarrow> pg_pending (ii_graph s) = [] \<and> lr_fromCache (ix_load (ii_workspaceId s) (ii_disk s)) \<and>
     same_graph (lr_graph (ix_load (ii_workspaceId s) (ii_disk s))) (ii_graph s)"

lemma replay_wal_append: "fst (replay_wal (ls @ [Wal_Entry ops]) g n) = replay ops (fst (replay_wal ls g n))"
  by (induction ls g n rule: replay_wal.induct) (simp_all add: replay_def)

lemma load_append:
  assumes "lr_fromCache (ix_load wid d)"
  shows "lr_fromCache (ix_load wid (appendWal ops d)) \<and> lr_graph (ix_load wid (appendWal ops d)) = replay ops (lr_graph (ix_load wid d))"
  using assms by (auto simp: ix_load_def appendWal_def replay_wal_append split_beta split: option.splits if_splits)

lemma same_flush [simp]: "same_graph h (g\<lparr>pg_pending := a, pg_version := b\<rparr>) = same_graph h g"
  by (simp add: same_graph_def)

lemma handleFlush_durable:
  assumes "durable s" "fw_walOk w"
  shows "durable (snd (handleFlush w evs s))"
proof -
  let ?acc = "(s, \<lparr>fr_reparsed = 0, fr_skipped = 0, fr_removed = 0, fr_patchOps = 0, fr_errors = []\<rparr>)"
  let ?s1 = "fst (foldl (flush_event w) ?acc evs)"
  let ?d = "ii_disk s" and ?wid = "ii_workspaceId s"
  from flush_events_logs [of ?acc w evs] assms(1) obtain ops where ops: "pg_pending (ii_graph ?s1) = ops"
    "\<And>h. same_graph h (ii_graph s) \<Longrightarrow> same_graph (replay ops h) (ii_graph ?s1)"
    by (auto simp: logs_def durable_def)
  have c: "lr_fromCache (ix_load ?wid ?d)" and g: "same_graph (replay ops (lr_graph (ix_load ?wid ?d))) (ii_graph ?s1)"
    using assms(1) ops(2) by (simp_all add: durable_def)
  have "snd (handleFlush w evs s) =
    (let s2 = ?s1\<lparr>ii_graph := (ii_graph ?s1)\<lparr>pg_pending := [], pg_version := pg_version (ii_graph ?s1) + 1\<rparr>\<rparr>
     in if ops \<noteq> [] then s2\<lparr>ii_disk := appendWal ops (ii_disk s2)\<rparr> else s2)"
    using ops(1) assms(2) by (simp add: handleFlush_def flushPatch_def Let_def split_beta)
  then show ?thesis using c g load_append [OF c, of ops] by (auto simp: durable_def Let_def)
qed

lemma flushes_durable:
  "durable s \<Longrightarrow> \<forall>(w, evs) \<in> set runs. fw_walOk w \<Longrightarrow> durable (flushes runs s)"
  by (induction runs arbitrary: s) (auto simp: handleFlush_durable)

lemma rebuild_keyed: "keyed (rebuildGraphFromDb now table)"
  by (simp add: rebuildGraphFromDb_def Let_def keyed_restore)

lemma rebuild_pending [simp]: "pg_pending (rebuildGraphFromDb now table) = []"
proof -
  have "pg_pending (pg_restore x) = []" for x by (simp add: pg_restore_def link_edges_maps new_pgraph_def)
  then show ?thesis by (simp add: rebuildGraphFromDb_def Let_def)
qed

lemma rebuild_durable: "durable (doFullRebuild now (Some table) s)"
  using restore_maps(1,2) [OF rebuild_keyed, of now]
  by (simp add: durable_def doFullRebuild_def checkpoint_def ix_load_def Let_def serialization_version_def same_graph_def)

lemma load_keyed: "keyed (lr_graph (ix_load wid d))"
proof -
  have "keyed new_pgraph" by (simp add: keyed_def keyed_map_def new_pgraph_def)
  then show ?thesis using keyed_replay_wal [OF keyed_restore]
    by (auto simp: ix_load_def split_beta split: option.split)
qed

lemma flushes_wid [simp]: "ii_workspaceId (flushes runs s) = ii_workspaceId s"
  by (induction runs arbitrary: s) (auto simp: handleFlush_def Let_def split_beta)


definition sample_files :: flush_world where
  "sample_files =
     \<lparr>fw_read = (\<lambda>f. Some ''h1''), fw_parse = (\<lambda>f. Parse_Result None (if f = ''a.ts'' then [\<lparr>ps_name = ''./b'', ps_kind = ''import'', ps_exportedFrom = Some ''./b''\<rparr>] else [])),
      fw_walOk = True\<rparr>"

definition added :: "string \<Rightarrow> watch_event" where
  "added f = \<lparr>we_kind = Ev_Add, we_absolute = CHR ''/'' # f, we_relative = f\<rparr>"

definition empty_disk :: index_disk where "empty_disk = \<lparr>ix_snapshot = None, ix_wal = []\<rparr>"


section \<open>Counts after a rebuild\<close>

definition rebuilt :: "symbol_row list \<Rightarrow> rebuild_state" where
  "rebuilt ys = foldl rebuild_symbol \<lparr>rb_nodes = [], rb_imports = [], rb_importedBy = [], rb_edges = []\<rparr> ys"

text \<open>The counts collected on the way are the numbers of edges.\<close>

definition rebuild_ok :: "rebuild_state \<Rightarrow> bool" where
  "rebuild_ok b \<longleftrightarrow> distinct (rb_nodes b) \<and> distinct (map ge_id (rb_edges b)) \<and>
     (\<forall>e \<in> set (rb_edges b). ge_source e \<in> set (rb_nodes b) \<and> ge_target e \<in> set (rb_nodes b)) \<and>
     (\<forall>k. get_or 0 (rb_imports b) k = int (length (filter (\<lambda>e. ge_source e = k) (rb_edges b)))) \<and>
     (\<forall>k. get_or 0 (rb_importedBy b) k = int (length (filter (\<lambda>e. ge_target e = k) (rb_edges b))))"

lemma rebuild_symbol_ok: "rebuild_ok b \<Longrightarrow> rebuild_ok (rebuild_symbol b y)"
  by (auto simp: rebuild_ok_def rebuild_symbol_def Let_def list_ex_iff)

lemma rebuilt_ok: "rebuild_ok (rebuilt ys)"
proof -
  have "rebuild_ok b \<Longrightarrow> rebuild_ok (foldl rebuild_symbol b ys)" for b
    by (induction ys arbitrary: b) (simp_all add: rebuild_symbol_ok)
  then show ?thesis unfolding rebuilt_def by (simp add: rebuild_ok_def)
qed

definition rebuild_node :: "rebuild_state \<Rightarrow> string \<Rightarrow> graph_node" where
  "rebuild_node b i = \<lparr>gn_id = i, gn_label = path_basename i, gn_importCount = get_or 0 (rb_imports b) i,
     gn_importedByCount = get_or 0 (rb_importedBy b) i\<rparr>"

lemma rebuild_eq:
  "rebuildGraphFromDb now table =
    (let b = rebuilt (getSymbols table);
         g = foldl (\<lambda>g e. pg_addEdge e g) (foldl (\<lambda>g i. pg_addNode (rebuild_node b i) g) new_pgraph (rb_nodes b)) (rb_edges b)
     in pg_restore (pg_snapshot now g))"
  by (simp add: rebuildGraphFromDb_def rebuilt_def rebuild_node_def Let_def)

lemma addNodes:
  "pg_edges (foldl (\<lambda>g i. pg_addNode (rebuild_node b i) g) g ids) = pg_edges g"
  "jget (pg_nodes (foldl (\<lambda>g i. pg_addNode (rebuild_node b i) g) g ids)) k = (if k \<in> set ids then Some (rebuild_node b k) else jget (pg_nodes g) k)"
  "adjacency g \<Longrightarrow> adjacency (foldl (\<lambda>g i. pg_addNode (rebuild_node b i) g) g ids)"
  by (induction ids arbitrary: g) (auto simp: addNode_eq addNode_adjacency rebuild_node_def)

lemma addEdges_counts:
  assumes "distinct (map ge_id es)" "\<forall>e \<in> set es. jget (pg_edges g) (ge_id e) = None"
    "jget (pg_nodes g) k = Some n0" "0 \<le> gn_importCount n0" "0 \<le> gn_importedByCount n0"
  shows "\<exists>n. jget (pg_nodes (foldl (\<lambda>g e. pg_addEdge e g) g es)) k = Some n \<and>
    gn_importCount n = gn_importCount n0 + int (length (filter (\<lambda>e. ge_source e = k) es)) \<and>
    gn_importedByCount n = gn_importedByCount n0 + int (length (filter (\<lambda>e. ge_target e = k) es))"
  using assms
proof (induction es arbitrary: g n0)
  case (Cons e es)
  have f: "jget (pg_edges g) (ge_id e) = None" using Cons.prems(2) by simp
  let ?n1 = "n0\<lparr>gn_importCount := (if k = ge_source e then max 0 (gn_importCount n0 + 1) else gn_importCount n0),
         gn_importedByCount := (if k = ge_target e then max 0 (gn_importedByCount n0 + 1) else gn_importedByCount n0)\<rparr>"
  have "jget (pg_nodes (pg_addEdge e g)) k = Some ?n1" using Cons.prems(3) by (simp add: addEdge_fresh_eq(5) [OF f])
  moreover have "\<forall>x \<in> set es. jget (pg_edges (pg_addEdge e g)) (ge_id x) = None"
  proof
    fix x
    assume x: "x \<in> set es"
    then have "ge_id x \<in> ge_id ` set es" by simp
    with Cons.prems(1) have "ge_id x \<noteq> ge_id e" by auto
    with Cons.prems(2) x show "jget (pg_edges (pg_addEdge e g)) (ge_id x) = None" by (simp add: addEdge_edges)
  qed
  ultimately show ?case using Cons.IH [of "pg_addEdge e g" ?n1] Cons.prems(1,4,5) by auto
qed simp

lemma addEdges_nodes: "hasNode (foldl (\<lambda>g e. pg_addEdge e g) g es) k = hasNode g k"
  by (induction es arbitrary: g) simp_all

lemma addEdges_fill:
  assumes "distinct (map ge_id es)" "\<forall>e \<in> set es. ge_id e \<notin> set (jkeys (pg_edges g))"
  shows "pg_edges (foldl (\<lambda>g e. pg_addEdge e g) g es) = pg_edges g @ map (\<lambda>e. (ge_id e, e)) es"
  using assms
proof (induction es arbitrary: g)
  case (Cons e es)
  have "pg_edges (pg_addEdge e g) = pg_edges g @ [(ge_id e, e)]"
    using Cons.prems(2) by (simp add: addEdge_fresh_eq jget_None_iff jvals_jset_absent)
  moreover from this have "\<forall>x \<in> set es. ge_id x \<notin> set (jkeys (pg_edges (pg_addEdge e g)))"
    using Cons.prems by (auto simp: image_iff)
  ultimately show ?case using Cons.IH [of "pg_addEdge e g"] Cons.prems(1) by simp
qed simp

text \<open>The graph a rebuild makes, before it is stored and restored.\<close>

definition rebuild_graph :: "symbol_row list \<Rightarrow> pgraph" where
  "rebuild_graph table =
     (let b = rebuilt (getSymbols table)
      in foldl (\<lambda>g e. pg_addEdge e g) (foldl (\<lambda>g i. pg_addNode (rebuild_node b i) g) new_pgraph (rb_nodes b)) (rb_edges b))"

lemma rebuild_graph_eq: "rebuildGraphFromDb now table = pg_restore (pg_snapshot now (rebuild_graph table))"
  by (simp add: rebuild_eq rebuild_graph_def Let_def)

lemma addEdges_adjacency: "adjacency g \<Longrightarrow> adjacency (foldl (\<lambda>g e. pg_addEdge e g) g es)"
  by (induction es arbitrary: g) (simp_all add: addEdge_adjacency)

lemma rebuild_graph_keyed: "keyed (rebuild_graph table)"
  unfolding rebuild_graph_def Let_def
  by (intro keyed_adjacency addEdges_adjacency addNodes(3)) (use new_pgraph_ok in \<open>simp add: graph_ok_def\<close>)

lemma rebuild_graph_edges: "pg_edges (rebuild_graph table) = map (\<lambda>e. (ge_id e, e)) (rb_edges (rebuilt (getSymbols table)))"
  using rebuilt_ok [of "getSymbols table"] addEdges_fill
  by (simp add: rebuild_graph_def Let_def rebuild_ok_def addNodes(1) new_pgraph_def)

lemma rebuild_maps:
  "pg_nodes (rebuildGraphFromDb now table) = pg_nodes (rebuild_graph table)"
  "pg_edges (rebuildGraphFromDb now table) = pg_edges (rebuild_graph table)"
  unfolding rebuild_graph_eq by (rule restore_maps [OF rebuild_graph_keyed])+

text \<open>
  the nodes of a rebuilt graph carry counts that are twice the number of their imports: the rebuild counts the
  edges itself, creates the nodes with these counts, and adding the edges counts them again.
\<close>

theorem rebuild_doubles_counts:
  assumes "getNode (rebuildGraphFromDb now table) k = Some n"
  shows "gn_importCount n = 2 * int (out_degree (rebuildGraphFromDb now table) k) \<and>
    gn_importedByCount n = 2 * int (in_degree (rebuildGraphFromDb now table) k)"
proof -
  let ?b = "rebuilt (getSymbols table)"
  let ?g = "foldl (\<lambda>g i. pg_addNode (rebuild_node ?b i) g) new_pgraph (rb_nodes ?b)"
  have ok: "rebuild_ok ?b" by (rule rebuilt_ok)
  have n: "jget (pg_nodes (foldl (\<lambda>g e. pg_addEdge e g) ?g (rb_edges ?b))) k = Some n"
    using assms by (simp add: getNode_def rebuild_maps rebuild_graph_def Let_def)
  then have "hasNode (foldl (\<lambda>g e. pg_addEdge e g) ?g (rb_edges ?b)) k" by (simp add: hasNode_iff)
  then have "hasNode ?g k" by (simp only: addEdges_nodes)
  then have k: "jget (pg_nodes ?g) k = Some (rebuild_node ?b k)"
    by (simp add: hasNode_iff addNodes(2) new_pgraph_def split: if_splits)
  have c: "gn_importCount (rebuild_node ?b k) = int (length (filter (\<lambda>e. ge_source e = k) (rb_edges ?b)))"
    "gn_importedByCount (rebuild_node ?b k) = int (length (filter (\<lambda>e. ge_target e = k) (rb_edges ?b)))"
    using ok by (simp_all add: rebuild_node_def rebuild_ok_def)
  have "distinct (map ge_id (rb_edges ?b))" "\<forall>e \<in> set (rb_edges ?b). jget (pg_edges ?g) (ge_id e) = None"
    using ok by (simp_all add: rebuild_ok_def addNodes(1) new_pgraph_def)
  from addEdges_counts [OF this k] c n
  have "gn_importCount n = 2 * int (length (filter (\<lambda>e. ge_source e = k) (rb_edges ?b))) \<and>
    gn_importedByCount n = 2 * int (length (filter (\<lambda>e. ge_target e = k) (rb_edges ?b)))" by auto
  moreover have "out_degree (rebuildGraphFromDb now table) k = length (filter (\<lambda>e. ge_source e = k) (rb_edges ?b))"
    "in_degree (rebuildGraphFromDb now table) k = length (filter (\<lambda>e. ge_target e = k) (rb_edges ?b))"
    by (simp_all add: out_degree_def in_degree_def rebuild_maps rebuild_graph_edges filter_map o_def split_beta)
  ultimately show ?thesis by simp
qed

definition one_import :: "symbol_row list" where
  "one_import = [\<lparr>sy_filePath = ''a.ts'', sy_name = ''./b'', sy_kind = ''import''\<rparr>]"

lemma one_import_rebuilt:
  "getNode (rebuildGraphFromDb 0 one_import) ''a.ts'' =
    Some \<lparr>gn_id = ''a.ts'', gn_label = ''a.ts'', gn_importCount = 2, gn_importedByCount = 0\<rparr>"
  by code_simp

lemma rebuild_doubles_counts_witness: "2 * int (out_degree (rebuildGraphFromDb 0 one_import) ''a.ts'') = 2"
  using rebuild_doubles_counts [OF one_import_rebuilt] by simp

section \<open>Files that come back or fail\<close>

text \<open>
  a file whose parse failed is not parsed again until its content changes, even when the parse would now succeed
  (a worker that timed out): the hash is stored before the parse, so the next event of the file is skipped.
\<close>

theorem failed_parse_is_cached:
  assumes "fw_read w (we_absolute ev) = Some h" "jget (ii_hashCache s) (we_relative ev) \<noteq> Some h"
    and "fw_parse w (we_relative ev) = Parse_Result (Some (c # cs)) symbols"
    and "fw_read w' (we_absolute ev) = Some h"
  shows "\<exists>s'. processFile w ev s = (File_Error (c # cs), s') \<and> processFile w' ev s' = (Skipped, s') \<and> ii_graph s' = ii_graph s"
  using assms by (simp add: processFile_def Let_def)

definition broken_files :: flush_world where
  "broken_files = sample_files\<lparr>fw_parse := (\<lambda>f. Parse_Result (Some ''Parse timed out after 5 seconds'') [])\<rparr>"

lemma failed_parse_is_cached_witness:
  "\<exists>s'. processFile broken_files (added ''a.ts'') (new_inc_index ''w'' empty_disk) = (File_Error ''Parse timed out after 5 seconds'', s') \<and>
     processFile sample_files (added ''a.ts'') s' = (Skipped, s') \<and>
     fst (processFile sample_files (added ''a.ts'') (new_inc_index ''w'' empty_disk)) = Reparsed [''./b'']"
proof -
  let ?s = "new_inc_index ''w'' empty_disk"
  have "fw_read broken_files (we_absolute (added ''a.ts'')) = Some ''h1''" "jget (ii_hashCache ?s) (we_relative (added ''a.ts'')) \<noteq> Some ''h1''"
    "fw_parse broken_files (we_relative (added ''a.ts'')) = Parse_Result (Some ''Parse timed out after 5 seconds'') []"
    "fw_read sample_files (we_absolute (added ''a.ts'')) = Some ''h1''"
    by (simp_all add: broken_files_def sample_files_def new_inc_index_def)
  from failed_parse_is_cached [OF this]
  have "\<exists>s'. processFile broken_files (added ''a.ts'') ?s = (File_Error ''Parse timed out after 5 seconds'', s') \<and>
     processFile sample_files (added ''a.ts'') s' = (Skipped, s')" by blast
  moreover have "fst (processFile sample_files (added ''a.ts'') ?s) = Reparsed [''./b'']" by code_simp
  ultimately show ?thesis by blast
qed

text \<open>
  a file that is deleted and written again, as a checkout or an atomic save does, loses the edges of the files
  that import it: they are removed with its node, and the importers, whose content is the same, are skipped.
\<close>

theorem reborn_file_loses_importers:
  "let s0 = new_inc_index ''w'' empty_disk;
       s1 = snd (handleFlush sample_files [added ''a.ts'', added ''b.ts''] s0);
       s2 = snd (handleFlush sample_files [(added ''b.ts'')\<lparr>we_kind := Ev_Unlink\<rparr>] s1);
       s3 = snd (handleFlush sample_files [added ''b.ts'', added ''a.ts''] s2)
   in (map ge_target (allEdges (ii_graph s1)), allEdges (ii_graph s3), map gn_id (allNodes (ii_graph s3))) = ([''b.ts''], [], [''a.ts'', ''b.ts''])"
  by code_simp

end
