(* ===== verification/Symbol_Extraction.thy ===== *)
theory Symbol_Extraction
  imports Index_Equivalence
begin

text \<open>
  Symbols of a parsed module (\<open>extractSymbolsFromModule\<close> of \<open>server/workspace/indexer.ts\<close>). The nodes of the
  syntax tree carry the fields the extraction reads; all other nodes are \<open>Other_Node\<close>.
\<close>

section \<open>Syntax trees and symbols\<close>

datatype symbol_kind = Sk_Function | Sk_Class | Sk_Interface | Sk_Type | Sk_Variable | Sk_Export | Sk_Import

record symbol =
  sm_name :: string
  sm_kind :: symbol_kind
  sm_line :: nat
  sm_col :: nat
  sm_signature :: "string option"
  sm_exportedFrom :: "string option"

text \<open>The number is where the node starts; a parameter, declarator or base class without a plain name is \<open>None\<close>.\<close>

datatype swc_node =
    Import_Declaration nat string
  | Export_Declaration nat swc_node
  | Export_Default nat swc_node
  | Export_Named nat "swc_node option" "string option"
  | Function_Declaration nat string "string option list" bool
  | Class_Declaration nat string "string option option"
  | Ts_Interface nat string
  | Ts_Type_Alias nat string
  | Variable_Declaration nat string "string option list"
  | Other_Node

section \<open>Extraction\<close>

definition newline :: char where "newline = CHR 0x0A"

definition getLine :: "nat \<Rightarrow> string \<Rightarrow> nat" where
  "getLine start source = length (filter (\<lambda>c. c = newline) (take start source)) + 1"

text \<open>The distance from the last line break before the start.\<close>

definition getCol :: "nat \<Rightarrow> string \<Rightarrow> nat" where
  "getCol start source =
     (let before = take start source
      in if newline \<notin> set before then start else start - (length before - length (takeWhile (\<lambda>c. c \<noteq> newline) (rev before)) - 1) - 1)"

fun comma_join :: "string list \<Rightarrow> string" where
  "comma_join [] = []"
| "comma_join [s] = s"
| "comma_join (s # t # ss) = s @ '', '' @ comma_join (t # ss)"

definition symbol_at :: "string \<Rightarrow> symbol_kind \<Rightarrow> nat \<Rightarrow> string \<Rightarrow> string option \<Rightarrow> string option \<Rightarrow> symbol" where
  "symbol_at name kind start source sig from_module =
     \<lparr>sm_name = name, sm_kind = kind, sm_line = getLine start source, sm_col = getCol start source,
      sm_signature = sig, sm_exportedFrom = from_module\<rparr>"

fun extractFromNode :: "string \<Rightarrow> swc_node \<Rightarrow> symbol list" where
  "extractFromNode source (Import_Declaration pos m) = [symbol_at m Sk_Import pos source None (Some m)]"
| "extractFromNode source (Export_Declaration pos d) = extractFromNode source d"
| "extractFromNode source (Export_Default pos d) = extractFromNode source d"
| "extractFromNode source (Export_Named pos d m) =
     (case d of Some x \<Rightarrow> extractFromNode source x | None \<Rightarrow> []) @
     (case m of Some x \<Rightarrow> [symbol_at x Sk_Export pos source None (Some x)] | None \<Rightarrow> [])"
| "extractFromNode source (Function_Declaration pos name params asynchronous) =
     [symbol_at name Sk_Function pos source
        (Some ((if asynchronous then ''async '' else []) @ ''function '' @ name @ ''('' @
               comma_join (map (\<lambda>p. case p of Some x \<Rightarrow> x | None \<Rightarrow> ''_'') params) @ '')'')) None]"
| "extractFromNode source (Class_Declaration pos name super) =
     [symbol_at name Sk_Class pos source
        (Some (''class '' @ name @ (case super of Some x \<Rightarrow> '' extends '' @ (case x of Some y \<Rightarrow> y | None \<Rightarrow> ''undefined'') | None \<Rightarrow> []))) None]"
| "extractFromNode source (Ts_Interface pos name) = [symbol_at name Sk_Interface pos source (Some (''interface '' @ name)) None]"
| "extractFromNode source (Ts_Type_Alias pos name) = [symbol_at name Sk_Type pos source (Some (''type '' @ name)) None]"
| "extractFromNode source (Variable_Declaration pos kind ds) =
     map (\<lambda>x. symbol_at x Sk_Variable pos source (Some (kind @ '' '' @ x)) None) (List.map_filter id ds)"
| "extractFromNode source Other_Node = []"

definition extractSymbols :: "string \<Rightarrow> swc_node list \<Rightarrow> symbol list" where
  "extractSymbols source body = concat (map (extractFromNode source) body)"

section \<open>What a symbol is\<close>

text \<open>The columns of a symbol fit its kind.\<close>

definition well_typed_symbol :: "symbol \<Rightarrow> bool" where
  "well_typed_symbol y \<longleftrightarrow> 1 \<le> sm_line y \<and>
     (sm_kind y \<in> {Sk_Import, Sk_Export} \<longrightarrow> sm_exportedFrom y = Some (sm_name y) \<and> sm_signature y = None) \<and>
     (sm_kind y \<notin> {Sk_Import, Sk_Export} \<longrightarrow> sm_exportedFrom y = None \<and> sm_signature y \<noteq> None)"

lemma symbol_at_typed:
  "well_typed_symbol (symbol_at name kind start source sig from_module) \<longleftrightarrow>
    (if kind \<in> {Sk_Import, Sk_Export} then from_module = Some name \<and> sig = None else from_module = None \<and> sig \<noteq> None)"
  by (auto simp: well_typed_symbol_def symbol_at_def getLine_def)

lemma extractFromNode_typed: "y \<in> set (extractFromNode source node) \<Longrightarrow> well_typed_symbol y"
  by (induction source node rule: extractFromNode.induct)
    (auto simp: symbol_at_typed map_filter_def split: option.splits)

definition kind_text :: "symbol_kind \<Rightarrow> string" where
  "kind_text k =
     (case k of Sk_Function \<Rightarrow> ''function'' | Sk_Class \<Rightarrow> ''class'' | Sk_Interface \<Rightarrow> ''interface'' | Sk_Type \<Rightarrow> ''type''
      | Sk_Variable \<Rightarrow> ''variable'' | Sk_Export \<Rightarrow> ''export'' | Sk_Import \<Rightarrow> ''import'')"

text \<open>The part of a symbol the index keeps.\<close>

definition index_symbol :: "symbol \<Rightarrow> parsed_symbol" where
  "index_symbol y = \<lparr>ps_name = sm_name y, ps_kind = kind_text (sm_kind y), ps_exportedFrom = sm_exportedFrom y\<rparr>"

lemma kind_text_import [simp]: "kind_text k = ''import'' \<longleftrightarrow> k = Sk_Import"
  by (cases k) (simp_all add: kind_text_def)

text \<open>
  C37: every symbol the parser extracts is well typed: its line counts from one, imports and re-exports name the module
  they come from and have no signature, all others have a signature and no module. The index relies on it: the two
  ways it reads an import, by name and by module, agree on every parsed file.
\<close>

theorem extracted_symbols_typed:
  "list_all well_typed_symbol (extractSymbols source body) \<and> well_parsed (map index_symbol (extractSymbols source body))"
proof
  show t: "list_all well_typed_symbol (extractSymbols source body)"
    by (auto simp: list_all_iff extractSymbols_def extractFromNode_typed)
  then show "well_parsed (map index_symbol (extractSymbols source body))"
    by (auto simp: list_all_iff well_parsed_def index_symbol_def well_typed_symbol_def)
qed

lemma extraction_example:
  "map index_symbol (extractSymbols ''x'' [Import_Declaration 0 ''./b'', Export_Named 3 (Some (Ts_Interface 3 ''I'')) None]) =
    [\<lparr>ps_name = ''./b'', ps_kind = ''import'', ps_exportedFrom = Some ''./b''\<rparr>, \<lparr>ps_name = ''I'', ps_kind = ''interface'', ps_exportedFrom = None\<rparr>]"
  by code_simp

end
