(* ===== verification/Workspace_Watcher.thy ===== *)
theory Workspace_Watcher
  imports Incremental_Indexer
begin

text \<open>
  The debounced file watcher (\<open>FileWatcher\<close> of \<open>server/workspace/file-watcher.ts\<close>). The batches it hands to its
  callback are collected in order. The file system watcher and the timer belong to the runtime: an event of a file and
  the end of the debounce window are operations.
\<close>

section \<open>State\<close>

record file_watcher =
  fwt_pending :: "(string, watch_event) jsmap"
  fwt_timer :: bool
  fwt_running :: bool
  fwt_batches :: "watch_event list list"

definition max_queue_size :: nat where "max_queue_size = 500"

definition new_file_watcher :: file_watcher where
  "new_file_watcher = \<lparr>fwt_pending = [], fwt_timer = False, fwt_running = False, fwt_batches = []\<rparr>"

section \<open>Operations\<close>

definition watch_start :: "file_watcher \<Rightarrow> file_watcher" where
  "watch_start s = s\<lparr>fwt_running := True\<rparr>"

definition watch_flush :: "file_watcher \<Rightarrow> file_watcher" where
  "watch_flush s =
     (if fwt_pending s = [] then s else s\<lparr>fwt_batches := fwt_batches s @ [jvals (fwt_pending s)], fwt_pending := []\<rparr>)"

definition handleEvent :: "watch_event \<Rightarrow> file_watcher \<Rightarrow> file_watcher" where
  "handleEvent ev s =
     (if \<not> fwt_running s then s
      else if we_kind ev \<noteq> Ev_Unlink \<and> lower (path_extname (we_absolute ev)) \<notin> set indexable_extensions then s
      else
        (let s1 = s\<lparr>fwt_pending := jset (we_absolute ev) ev (fwt_pending s)\<rparr>
         in if length (fwt_pending s1) \<ge> max_queue_size then watch_flush (s1\<lparr>fwt_timer := False\<rparr>)
            else s1\<lparr>fwt_timer := True\<rparr>))"

text \<open>The debounce window ends.\<close>

definition timer_fires :: "file_watcher \<Rightarrow> file_watcher" where
  "timer_fires s = (if fwt_timer s then watch_flush (s\<lparr>fwt_timer := False\<rparr>) else s)"

definition watch_stop :: "file_watcher \<Rightarrow> file_watcher" where
  "watch_stop s = (if \<not> fwt_running s then s else watch_flush (s\<lparr>fwt_running := False, fwt_timer := False\<rparr>))"

section \<open>Nothing is lost\<close>

text \<open>The last event of each file, whatever was flushed before it.\<close>

fun last_events :: "watch_event list \<Rightarrow> string \<Rightarrow> watch_event option" where
  "last_events [] f = None"
| "last_events (ev # evs) f =
     (case last_events evs f of Some e \<Rightarrow> Some e | None \<Rightarrow> if we_absolute ev = f then Some ev else None)"

datatype watch_input = File_Event watch_event | Window_Ends

definition watch_run :: "watch_input list \<Rightarrow> file_watcher \<Rightarrow> file_watcher" where
  "watch_run ins s = foldl (\<lambda>s i. case i of File_Event ev \<Rightarrow> handleEvent ev s | Window_Ends \<Rightarrow> timer_fires s) s ins"

definition relevant :: "watch_event \<Rightarrow> bool" where
  "relevant ev \<longleftrightarrow> we_kind ev = Ev_Unlink \<or> lower (path_extname (we_absolute ev)) \<in> set indexable_extensions"

definition relevant_events :: "watch_input list \<Rightarrow> watch_event list" where
  "relevant_events ins = filter relevant (List.map_filter (\<lambda>i. case i of File_Event ev \<Rightarrow> Some ev | Window_Ends \<Rightarrow> None) ins)"

text \<open>What the callback has seen, then what waits, ends in the last event of every file; what waits has a timer.\<close>

definition watch_ok :: "watch_event list \<Rightarrow> file_watcher \<Rightarrow> bool" where
  "watch_ok evs s \<longleftrightarrow> fwt_running s \<and> jwf (fwt_pending s) \<and> length (fwt_pending s) < max_queue_size \<and>
     (fwt_pending s \<noteq> [] \<longrightarrow> fwt_timer s) \<and> (\<forall>(k, e) \<in> set (fwt_pending s). we_absolute e = k) \<and>
     (\<forall>f. last_events (concat (fwt_batches s) @ jvals (fwt_pending s)) f = last_events evs f)"

lemma last_events_append:
  "last_events (xs @ ys) f = (case last_events ys f of Some e \<Rightarrow> Some e | None \<Rightarrow> last_events xs f)"
  by (induction xs) (auto split: option.split)

lemma last_events_pending:
  "jwf m \<Longrightarrow> \<forall>(k, e) \<in> set m. we_absolute e = k \<Longrightarrow> last_events (jvals m) f = jget m f"
proof (induction m)
  case (Cons a m)
  then have IH: "last_events (jvals m) f = jget m f" by simp
  show ?case
  proof (cases "fst a = f")
    case True
    then have "jget m f = None" using Cons.prems(1) by (auto simp: jget_None_iff)
    with True IH Cons.prems(2) show ?thesis by (cases a) simp
  next
    case False
    with IH Cons.prems(2) show ?thesis by (cases a) (simp split: option.split)
  qed
qed simp

lemma watch_flush_ok: "watch_ok evs s \<Longrightarrow> watch_ok evs (watch_flush (s\<lparr>fwt_timer := False\<rparr>))"
  by (auto simp: watch_ok_def watch_flush_def max_queue_size_def)

lemma jset_entries: "(k', e) \<in> set (jset k v m) \<Longrightarrow> (k', e) \<in> set m \<or> k' = k \<and> e = v"
  by (induction m) (auto split: if_splits)

lemma handleEvent_ok:
  assumes ok: "watch_ok evs s" and r: "relevant ev"
  shows "watch_ok (evs @ [ev]) (handleEvent ev s)"
proof -
  let ?m = "jset (we_absolute ev) ev (fwt_pending s)"
  have m: "jwf ?m" "\<forall>(k, e) \<in> set ?m. we_absolute e = k" "?m \<noteq> []"
    using ok by (auto simp: watch_ok_def dest!: jset_entries)
  have same: "last_events (concat (fwt_batches s) @ jvals ?m) f = last_events (evs @ [ev]) f" for f
  proof -
    have "last_events (concat (fwt_batches s) @ jvals (fwt_pending s)) f = last_events evs f"
      using ok by (simp add: watch_ok_def)
    then show ?thesis
      using ok m(1,2) by (auto simp: last_events_append last_events_pending watch_ok_def split: option.splits)
  qed
  show ?thesis
    using ok r m same
    by (auto simp: watch_ok_def handleEvent_def watch_flush_def relevant_def Let_def max_queue_size_def)
qed

lemma handleEvent_ignored: "\<not> relevant ev \<Longrightarrow> handleEvent ev s = s"
  by (simp add: handleEvent_def relevant_def)

lemma timer_fires_ok: "watch_ok evs s \<Longrightarrow> watch_ok evs (timer_fires s)"
  by (simp add: timer_fires_def watch_flush_ok)

lemma watch_run_ok:
  "watch_ok evs s \<Longrightarrow> watch_ok (evs @ relevant_events ins) (watch_run ins s)"
proof (induction ins arbitrary: evs s)
  case Nil
  then show ?case by (simp add: watch_run_def relevant_events_def map_filter_def)
next
  case (Cons i ins)
  show ?case
  proof (cases i)
    case (File_Event ev)
    show ?thesis
    proof (cases "relevant ev")
      case True
      from Cons.IH[OF handleEvent_ok[OF Cons.prems True]] True File_Event show ?thesis
        by (simp add: watch_run_def relevant_events_def map_filter_def)
    next
      case False
      with Cons.IH[OF Cons.prems] File_Event show ?thesis
        by (simp add: watch_run_def relevant_events_def map_filter_def handleEvent_ignored)
    qed
  next
    case Window_Ends
    with Cons.IH[OF timer_fires_ok[OF Cons.prems]] show ?thesis
      by (simp add: watch_run_def relevant_events_def map_filter_def)
  qed
qed

lemma watch_started_ok: "watch_ok [] (watch_start new_file_watcher)"
  by (simp add: watch_ok_def watch_start_def new_file_watcher_def max_queue_size_def)

text \<open>
  C38: a started watcher loses no change. After any sequence of file events and ends of the debounce window, the batches
  handed to the indexer followed by what waits end, for every file, in the last event of that file among the relevant
  ones; fewer than 500 events wait, and a timer runs while any does. Stopping it hands over the rest.
\<close>

theorem watcher_loses_nothing:
  "watch_ok (relevant_events ins) (watch_run ins (watch_start new_file_watcher)) \<and>
   fwt_pending (watch_stop (watch_run ins (watch_start new_file_watcher))) = [] \<and>
   last_events (concat (fwt_batches (watch_stop (watch_run ins (watch_start new_file_watcher))))) f =
     last_events (relevant_events ins) f"
proof -
  let ?s = "watch_run ins (watch_start new_file_watcher)"
  have ok: "watch_ok (relevant_events ins) ?s"
    using watch_run_ok[OF watch_started_ok] by simp
  then have "fwt_pending (watch_stop ?s) = []" by (simp add: watch_stop_def watch_flush_def watch_ok_def)
  moreover have "last_events (concat (fwt_batches (watch_stop ?s))) f = last_events (relevant_events ins) f"
    using ok by (auto simp: watch_stop_def watch_flush_def watch_ok_def)
  ultimately show ?thesis using ok by simp
qed

lemma watcher_example:
  "map (map we_kind) (fwt_batches (watch_run
     [File_Event \<lparr>we_kind = Ev_Add, we_absolute = ''/w/a.ts'', we_relative = ''a.ts''\<rparr>, File_Event \<lparr>we_kind = Ev_Change, we_absolute = ''/w/a.ts'', we_relative = ''a.ts''\<rparr>,
      File_Event \<lparr>we_kind = Ev_Add, we_absolute = ''/w/a.md'', we_relative = ''a.md''\<rparr>, Window_Ends] (watch_start new_file_watcher))) = [[Ev_Change]]"
  by code_simp

end
