(* ===== verification/Review_Runner.thy ===== *)
theory Review_Runner
  imports Review_Panel Llm_Response Rate_Limit Loop_Controller
begin

text \<open>
  The direct executor of a review (\<open>server/services/consilium/review-runner.ts\<close>). A wave runs all tasks whose
  dependencies are settled in parallel; each model call ends in a separate operation, \<open>seat_answers\<close>, so every order
  of answers is a run. The gateway is outside: an answer is a reply or the message of an error.
\<close>

section \<open>State\<close>

datatype gateway_answer = Answered string | Refused string

datatype seat_role = Primary_Role | Rebuttal_Role

record participant =
  rp_name :: string
  rp_model :: string
  rp_role :: seat_role
  rp_text :: string

record catalog_entry =
  ce_slug :: string
  ce_provider :: string

record review_params =
  rq_tasks :: "new_task list"
  rq_judge :: string
  rq_groupName :: string
  rq_groupInput :: string
  rq_activeModels :: "catalog_entry list"

text \<open>A seat of the running wave: the model it waits for, with what is left to fall back to once it was limited.\<close>

datatype seat_phase = First_Call string | Fallback_Call string "catalog_entry list" | Seat_Done

record seat =
  se_task :: new_task
  se_prompt :: string
  se_phase :: seat_phase

text \<open>\<open>rw_calls\<close> is a log of the calls: the task, the model and the system prompt.\<close>

record review_state =
  rw_pending :: "new_task list"
  rw_outputs :: "(string, payload) jsmap"
  rw_participants :: "participant list"
  rw_notes :: "participant list"
  rw_dropped :: "string list"
  rw_seatModel :: "(string, string) jsmap"
  rw_seats :: "seat list"
  rw_calls :: "(new_task \<times> string \<times> string) list"
  rw_result :: "review_result option"

definition max_participants :: nat where "max_participants = 24"
definition max_participant_text :: nat where "max_participant_text = 8000"
definition min_reviewers :: nat where "min_reviewers = 2"

section \<open>Texts\<close>

definition boundParticipants :: "participant list \<Rightarrow> participant list" where
  "boundParticipants ps =
     map (\<lambda>p. p\<lparr>rp_text := clampStr max_participant_text (rp_text p)\<rparr>) (take max_participants ps)"

text \<open>\<open>replace(/\/[^\s'"]+/g, "<path>")\<close>; the flag says that a match is being skipped.\<close>

definition path_char :: "char \<Rightarrow> bool" where
  "path_char c \<longleftrightarrow> \<not> blank c \<and> c \<noteq> CHR 0x27 \<and> c \<noteq> CHR 0x22"

fun scrub_paths :: "bool \<Rightarrow> string \<Rightarrow> string" where
  "scrub_paths inside [] = []"
| "scrub_paths inside (c # cs) =
     (if inside \<and> path_char c then scrub_paths True cs
      else if c = CHR ''/'' \<and> cs \<noteq> [] \<and> path_char (hd cs) then ''<path>'' @ scrub_paths True cs
      else c # scrub_paths False cs)"

definition scrub_error :: "string \<Rightarrow> string" where
  "scrub_error raw = take 200 (trim (one_space (scrub_paths False raw)))"

definition bullet :: char where "bullet = CHR 0x95"
definition arrow :: char where "arrow = CHR 0x96"

definition trimmed_str :: "json option \<Rightarrow> string" where
  "trimmed_str v = (case v of Some (JStr t) \<Rightarrow> trim t | _ \<Rightarrow> [])"

definition first_text :: "string list \<Rightarrow> string" where
  "first_text ts = (case find (\<lambda>t. t \<noteq> []) ts of Some t \<Rightarrow> t | None \<Rightarrow> [])"

definition bullets :: "json option \<Rightarrow> string list" where
  "bullets v =
     (case v of
        Some (JArr xs) \<Rightarrow>
          filter (\<lambda>t. t \<noteq> [])
            (map (\<lambda>x. case x of
                JStr t \<Rightarrow> trim t
              | JObj m \<Rightarrow> first_text [trimmed_str (jget m ''title''), trimmed_str (jget m ''text'')]
              | _ \<Rightarrow> []) xs)
      | _ \<Rightarrow> [])"

definition text_section :: "payload \<Rightarrow> string \<Rightarrow> string \<Rightarrow> string list" where
  "text_section rec label key =
     (let items = bullets (jget rec key)
      in if length items > 0 then [label @ '':'' @ nl @ join_with nl (map (\<lambda>t. [bullet] @ '' '' @ t) items)] else [])"

definition formatParticipantText :: "task_result \<Rightarrow> string" where
  "formatParticipantText parsed =
     (case res_output parsed of
        None \<Rightarrow> res_summary parsed
      | Some rec \<Rightarrow>
          (let verdict = first_text [trimmed_str (jget rec ''recommendation''), trimmed_str (jget rec ''decision''), trimmed_str (jget rec ''verdict'')];
               summ = first_text [trimmed_str (jget rec ''summary''), res_summary parsed];
               parts = (if verdict \<noteq> [] then [''Verdict: '' @ verdict] else []) @ (if summ \<noteq> [] then [summ] else []) @
                 text_section rec ''Strengths'' ''pros'' @ text_section rec ''Concerns'' ''cons'' @
                 text_section rec ''Action points'' ''actionPoints'';
               text = trim (join_with newline2 parts)
           in if text \<noteq> [] then text else res_summary parsed))"

section \<open>Results\<close>

definition participant_json :: "participant \<Rightarrow> json" where
  "participant_json p =
     JObj [(''name'', JStr (rp_name p)), (''model'', JStr (rp_model p)),
       (''role'', JStr (case rp_role p of Primary_Role \<Rightarrow> ''primary'' | Rebuttal_Role \<Rightarrow> ''rebuttal'')),
       (''text'', JStr (rp_text p))]"

definition degraded :: "string \<Rightarrow> bool \<Rightarrow> review_result" where
  "degraded err limited =
     \<lparr>rv_converged = False, rv_openP0 = 0, rv_openActionPoints = [], rv_judge = None, rv_participants = None,
      rv_error = Some err, rv_rateLimited = limited\<rparr>"

text \<open>The outer catch.\<close>

definition review_fails :: "string \<Rightarrow> review_state \<Rightarrow> review_state" where
  "review_fails raw s = s\<lparr>rw_result := Some (degraded (scrub_error raw) (isRateLimitError raw))\<rparr>"

definition review_ends :: "review_params \<Rightarrow> review_state \<Rightarrow> review_state" where
  "review_ends q s =
     (if rw_dropped s \<noteq> [] \<and> length (rw_participants s) < min_reviewers
      then s\<lparr>rw_result := Some (degraded ''insufficient reviewer quorum after usage-limit seat drops'' True)\<rparr>
      else
        (let judgeOutput = map_option JObj (jget (rw_outputs s) (rq_judge q));
             conv = readConvergence judgeOutput
         in s\<lparr>rw_result := Some
              \<lparr>rv_converged = cv_converged conv, rv_openP0 = cv_openP0 conv, rv_openActionPoints = cv_openActionPoints conv,
               rv_judge = readJudgeVerdict judgeOutput,
               rv_participants = Some (map participant_json (boundParticipants (rw_participants s @ rw_notes s))),
               rv_error = None, rv_rateLimited = False\<rparr>\<rparr>))"

section \<open>Waves\<close>

text \<open>One pass of the cascade over the pending tasks; the flag says that a task was dropped.\<close>

fun cascade_pass :: "string \<Rightarrow> new_task list \<Rightarrow> string list \<Rightarrow> new_task list \<times> string list \<times> bool" where
  "cascade_pass judge [] dropped = ([], dropped, False)"
| "cascade_pass judge (t # ts) dropped =
     (if nt_name t \<noteq> judge \<and> nt_name t \<notin> set dropped \<and> list_ex (\<lambda>d. d \<in> set dropped) (nt_dependsOn t)
      then (let (ps, ds, _) = cascade_pass judge ts (sadd (nt_name t) dropped) in (ps, ds, True))
      else (let (ps, ds, again) = cascade_pass judge ts dropped in (t # ps, ds, again)))"

lemma cascade_pass_length:
  "cascade_pass judge ts dropped = (ps, ds, again) \<Longrightarrow> length ps \<le> length ts \<and> (again \<longrightarrow> length ps < length ts)"
  by (induction judge ts dropped arbitrary: ps ds again rule: cascade_pass.induct)
    (fastforce split: if_splits prod.splits)+

function cascade_loop :: "string \<Rightarrow> new_task list \<Rightarrow> string list \<Rightarrow> new_task list \<times> string list" where
  "cascade_loop judge ts dropped =
     (case cascade_pass judge ts dropped of (ps, ds, again) \<Rightarrow> if again then cascade_loop judge ps ds else (ps, ds))"
  by pat_completeness auto

termination
  by (relation "measure (\<lambda>(judge, ts, dropped). length ts)") (auto dest!: sym[THEN cascade_pass_length])

definition task_ready :: "review_state \<Rightarrow> new_task \<Rightarrow> bool" where
  "task_ready s t \<longleftrightarrow> list_all (\<lambda>d. jhas (rw_outputs s) d \<or> d \<in> set (rw_dropped s)) (nt_dependsOn t)"

definition dep_outputs :: "review_state \<Rightarrow> new_task \<Rightarrow> payload" where
  "dep_outputs s t =
     foldl (\<lambda>m d. case jget (rw_outputs s) d of Some v \<Rightarrow> jset d (JObj v) m | None \<Rightarrow> m) [] (nt_dependsOn t)"

text \<open>Of its three rows the prompt reads only these fields.\<close>

definition seat_prompt :: "review_params \<Rightarrow> review_state \<Rightarrow> new_task \<Rightarrow> string" where
  "seat_prompt q s t =
     buildSystemPrompt
       \<lparr>tk_id = [], tk_groupId = [], tk_name = nt_name t, tk_description = nt_description t, tk_status = T_Ready,
        tk_dependsOn = [], tk_workspaceId = None, tk_modelSlug = None, tk_teamId = None, tk_labels = [],
        tk_input = JNull, tk_sortOrder = 0\<rparr>
       \<lparr>gp_id = [], gp_name = rq_groupName q, gp_description = [], gp_status = G_Pending, gp_input = [], gp_output = None,
        gp_createdBy = None, gp_startedAt = None, gp_completedAt = None\<rparr>
       \<lparr>it_id = [], it_groupId = [], it_number = 0, it_status = G_Pending, it_input = rq_groupInput q, it_output = None,
        it_humanNote = None, it_triggeredBy = None, it_startedAt = None, it_completedAt = None\<rparr>
       (dep_outputs s t)"

definition original_slug :: "new_task \<Rightarrow> string" where
  "original_slug t = (case nt_modelSlug t of None \<Rightarrow> [] | Some m \<Rightarrow> m)"

definition role_of :: "new_task \<Rightarrow> seat_role" where
  "role_of t = (if length (nt_dependsOn t) > 0 then Rebuttal_Role else Primary_Role)"

text \<open>The head of the loop: cascade, then open a seat for every ready task; the others stay pending.\<close>

definition next_wave :: "review_params \<Rightarrow> review_state \<Rightarrow> review_state" where
  "next_wave q s =
     (if rw_pending s = [] then review_ends q s
      else
        (let (ps, ds) = cascade_loop (rq_judge q) (rw_pending s) (rw_dropped s);
             s1 = s\<lparr>rw_pending := ps, rw_dropped := ds\<rparr>
         in if ps = [] then review_ends q s1
            else
              (let ready = filter (task_ready s1) ps
               in if ready = [] then review_fails ''review DAG has an unsatisfiable dependency'' s1
                  else s1\<lparr>rw_pending := filter (\<lambda>t. \<not> task_ready s1 t) ps,
                          rw_seats := map (\<lambda>t. \<lparr>se_task = t, se_prompt = seat_prompt q s1 t, se_phase = First_Call (original_slug t)\<rparr>) ready,
                          rw_calls := rw_calls s1 @ map (\<lambda>t. (t, original_slug t, seat_prompt q s1 t)) ready\<rparr>)))"

definition begin_review :: "review_params \<Rightarrow> review_state" where
  "begin_review q =
     next_wave q
       \<lparr>rw_pending = rq_tasks q, rw_outputs = [], rw_participants = [], rw_notes = [], rw_dropped = [],
        rw_seatModel = foldl (\<lambda>m t. jset (nt_name t) (original_slug t) m) [] (rq_tasks q), rw_seats = [], rw_calls = [],
        rw_result = None\<rparr>"

section \<open>Answers\<close>

definition pickFallbackCandidates :: "string \<Rightarrow> catalog_entry list \<Rightarrow> string list \<Rightarrow> catalog_entry list" where
  "pickFallbackCandidates failing models claimed =
     (let failingProvider = map_option ce_provider (find (\<lambda>m. ce_slug m = failing) models)
      in filter (\<lambda>m. Some (ce_provider m) \<noteq> failingProvider \<and> ce_slug m \<notin> set claimed) models)"

definition set_phase :: "nat \<Rightarrow> seat_phase \<Rightarrow> review_state \<Rightarrow> review_state" where
  "set_phase i ph s = s\<lparr>rw_seats := (rw_seats s)[i := (rw_seats s ! i)\<lparr>se_phase := ph\<rparr>]\<rparr>"

text \<open>A seat's output, and its place among the participants.\<close>

definition seat_settles :: "review_params \<Rightarrow> nat \<Rightarrow> new_task \<Rightarrow> string \<Rightarrow> string \<Rightarrow> review_state \<Rightarrow> review_state" where
  "seat_settles q i t fallbackNote content s =
     (let parsed = parseDirectLlmResponse content;
          s1 = s\<lparr>rw_outputs := jset (nt_name t) (case res_output parsed of Some m \<Rightarrow> m | None \<Rightarrow> []) (rw_outputs s)\<rparr>;
          s2 = (if nt_name t = rq_judge q then s1
                else s1\<lparr>rw_participants := rw_participants s1 @
                  [\<lparr>rp_name = nt_name t, rp_model = get_or (original_slug t) (rw_seatModel s1) (nt_name t), rp_role = role_of t,
                    rp_text = fallbackNote @ formatParticipantText parsed\<rparr>]\<rparr>)
      in set_phase i Seat_Done s2)"

definition seat_drops :: "nat \<Rightarrow> new_task \<Rightarrow> review_state \<Rightarrow> review_state" where
  "seat_drops i t s =
     set_phase i Seat_Done
       (s\<lparr>rw_dropped := sadd (nt_name t) (rw_dropped s),
          rw_notes := rw_notes s @
            [\<lparr>rp_name = nt_name t, rp_model = get_or (original_slug t) (rw_seatModel s) (nt_name t), rp_role = role_of t,
              rp_text = ''[dropped: usage limit exhausted on '' @ original_slug t @ '' and all fallback candidates]''\<rparr>]\<rparr>)"

text \<open>The seat was limited: call the next candidate; without one the judge fails the run and any other seat is dropped.\<close>

definition seat_limited :: "review_params \<Rightarrow> nat \<Rightarrow> new_task \<Rightarrow> catalog_entry list \<Rightarrow> string \<Rightarrow> review_state \<Rightarrow> review_state" where
  "seat_limited q i t candidates raw s =
     (case candidates of
        c # cs \<Rightarrow>
          (set_phase i (Fallback_Call (ce_slug c) cs) s)\<lparr>rw_calls := rw_calls s @ [(t, ce_slug c, se_prompt (rw_seats s ! i))]\<rparr>
      | [] \<Rightarrow> if nt_name t = rq_judge q then review_fails raw s else seat_drops i t s)"

definition seat_step :: "review_params \<Rightarrow> nat \<Rightarrow> gateway_answer \<Rightarrow> review_state \<Rightarrow> review_state" where
  "seat_step q i a s =
     (let t = se_task (rw_seats s ! i)
      in case se_phase (rw_seats s ! i) of
           Seat_Done \<Rightarrow> s
         | First_Call slug \<Rightarrow>
             (case a of
                Answered content \<Rightarrow> seat_settles q i t [] content s
              | Refused raw \<Rightarrow>
                  if \<not> isRateLimitError raw then review_fails raw s
                  else seat_limited q i t (pickFallbackCandidates slug (rq_activeModels q) (jvals (rw_seatModel s))) raw s)
         | Fallback_Call slug rest \<Rightarrow>
             (case a of
                Answered content \<Rightarrow>
                  seat_settles q i t (''[fell back '' @ original_slug t @ [arrow] @ slug @ ''] '') content
                    (s\<lparr>rw_seatModel := jset (nt_name t) slug (rw_seatModel s)\<rparr>)
              | Refused raw \<Rightarrow>
                  if \<not> isRateLimitError raw then review_fails raw s else seat_limited q i t rest raw s))"

definition wave_done :: "review_state \<Rightarrow> bool" where
  "wave_done s \<longleftrightarrow> list_all (\<lambda>x. se_phase x = Seat_Done) (rw_seats s)"

text \<open>The answer to the call a seat waits for. A run that has its result stays as it is.\<close>

definition seat_answers :: "review_params \<Rightarrow> nat \<Rightarrow> gateway_answer \<Rightarrow> review_state \<Rightarrow> review_state" where
  "seat_answers q i a s =
     (if rw_result s \<noteq> None \<or> length (rw_seats s) \<le> i \<or> se_phase (rw_seats s ! i) = Seat_Done then s
      else
        (let s1 = seat_step q i a s
         in if rw_result s1 = None \<and> wave_done s1 then next_wave q (s1\<lparr>rw_seats := []\<rparr>) else s1))"

end
