(* ===== verification/Review_Runs.thy ===== *)
theory Review_Runs
  imports Review_Runner Task_Graph
begin

text \<open>
  What holds of every run of a review, whatever the order of its answers: calls follow the dependencies, a run ends, a
  valid graph of tasks is never stuck, a failure never converges; and two seats that fall back to one model.
\<close>

section \<open>Runs\<close>

definition review_run :: "review_params \<Rightarrow> (nat \<times> gateway_answer) list \<Rightarrow> review_state \<Rightarrow> review_state" where
  "review_run q as s = foldl (\<lambda>s (i, a). seat_answers q i a s) s as"

definition in_flight :: "review_state \<Rightarrow> nat \<Rightarrow> bool" where
  "in_flight s i \<longleftrightarrow> rw_result s = None \<and> i < length (rw_seats s) \<and> se_phase (rw_seats s ! i) \<noteq> Seat_Done"

lemma review_run_simps [simp]:
  "review_run q [] s = s"
  "review_run q ((i, a) # as) s = review_run q as (seat_answers q i a s)"
  by (simp_all add: review_run_def)

lemma review_run_snoc: "review_run q (as @ [(i, a)]) s = seat_answers q i a (review_run q as s)"
  by (simp add: review_run_def)

lemma set_phase_simps [simp]:
  "rw_pending (set_phase i ph s) = rw_pending s" "rw_outputs (set_phase i ph s) = rw_outputs s"
  "rw_participants (set_phase i ph s) = rw_participants s" "rw_notes (set_phase i ph s) = rw_notes s"
  "rw_dropped (set_phase i ph s) = rw_dropped s" "rw_seatModel (set_phase i ph s) = rw_seatModel s"
  "rw_calls (set_phase i ph s) = rw_calls s" "rw_result (set_phase i ph s) = rw_result s"
  "rw_seats (set_phase i ph s) = (rw_seats s)[i := (rw_seats s ! i)\<lparr>se_phase := ph\<rparr>]"
  by (simp_all add: set_phase_def)

section \<open>The cascade\<close>

text \<open>What a cascade leaves pending and dropped.\<close>

definition cascaded :: "string \<Rightarrow> new_task list \<Rightarrow> string list \<Rightarrow> new_task list \<Rightarrow> string list \<Rightarrow> bool" where
  "cascaded judge ts dropped ps ds \<longleftrightarrow>
     set ps \<subseteq> set ts \<and> distinct (map nt_name ps) \<and> set ds = set dropped \<union> nt_name ` (set ts - set ps) \<and>
     nt_name ` set ps \<inter> set ds = {} \<and> (judge \<notin> set dropped \<longrightarrow> judge \<notin> set ds)"

lemma cascadedD:
  assumes "cascaded judge ts dropped ps ds"
  shows "set ps \<subseteq> set ts" "distinct (map nt_name ps)" "set ds = set dropped \<union> nt_name ` (set ts - set ps)"
    "nt_name ` set ps \<inter> set ds = {}" "judge \<notin> set dropped \<Longrightarrow> judge \<notin> set ds"
  using assms unfolding cascaded_def by blast+

lemma cascaded_trans:
  assumes a: "cascaded judge ts dropped ps ds" and b: "cascaded judge ps ds ps' ds'"
  shows "cascaded judge ts dropped ps' ds'"
proof -
  have "set ts - set ps' = (set ts - set ps) \<union> (set ps - set ps')" using cascadedD(1)[OF a] cascadedD(1)[OF b] by blast
  then have "set ds' = set dropped \<union> nt_name ` (set ts - set ps')"
    by (simp add: cascadedD(3)[OF a] cascadedD(3)[OF b] image_Un Un_assoc)
  then show ?thesis
    unfolding cascaded_def using cascadedD(1,5)[OF a] cascadedD(1,2,4,5)[OF b] by simp
qed

lemma cascaded_drop:
  assumes a: "cascaded judge ts (sadd (nt_name t) dropped) ps ds" and t: "nt_name t \<notin> nt_name ` set ts" "nt_name t \<noteq> judge"
  shows "cascaded judge (t # ts) dropped ps ds"
proof -
  have "t \<notin> set ps" using cascadedD(1)[OF a] t(1) by blast
  then have e: "set (t # ts) - set ps = insert t (set ts - set ps)" by auto
  show ?thesis
    unfolding cascaded_def e using cascadedD[OF a] t(2) by auto
qed

lemma cascaded_keep:
  assumes a: "cascaded judge ts dropped ps ds" and t: "nt_name t \<notin> nt_name ` set ts" "nt_name t \<notin> set dropped"
  shows "cascaded judge (t # ts) dropped (t # ps) ds"
proof -
  have e: "set (t # ts) - set (t # ps) = set ts - set ps" using t(1) by auto
  have d: "nt_name t \<notin> set ds" using cascadedD(3)[OF a] t by auto
  have "nt_name t \<notin> nt_name ` set ps" using cascadedD(1)[OF a] t(1) by blast
  then show ?thesis
    unfolding cascaded_def e using cascadedD[OF a] d by auto
qed

lemma cascade_pass_spec:
  assumes "cascade_pass judge ts dropped = (ps, ds, again)" "distinct (map nt_name ts)" "nt_name ` set ts \<inter> set dropped = {}"
  shows "cascaded judge ts dropped ps ds \<and>
    (\<not> again \<longrightarrow> ps = ts \<and> ds = dropped \<and> (\<forall>t \<in> set ts. nt_name t \<noteq> judge \<longrightarrow> set (nt_dependsOn t) \<inter> set dropped = {}))"
  using assms
proof (induction ts arbitrary: dropped ps ds again)
  case Nil
  then show ?case by (simp add: cascaded_def)
next
  case (Cons t ts)
  have t: "nt_name t \<notin> set dropped" "nt_name t \<notin> nt_name ` set ts" using Cons.prems(2,3) by auto
  show ?case
  proof (cases "nt_name t \<noteq> judge \<and> nt_name t \<notin> set dropped \<and> list_ex (\<lambda>d. d \<in> set dropped) (nt_dependsOn t)")
    case True
    obtain ds' again' where r: "cascade_pass judge ts (sadd (nt_name t) dropped) = (ps, ds', again')"
      and e: "ds = ds'" "again" using Cons.prems(1) True by (auto split: prod.splits)
    have "nt_name ` set ts \<inter> set (sadd (nt_name t) dropped) = {}" using Cons.prems(2,3) by auto
    from Cons.IH[OF r _ this] Cons.prems(2) e have "cascaded judge ts (sadd (nt_name t) dropped) ps ds" by simp
    from cascaded_drop[OF this t(2)] True e show ?thesis by simp
  next
    case False
    then obtain ps' where r: "cascade_pass judge ts dropped = (ps', ds, again)" and p: "ps = t # ps'"
      using Cons.prems(1) by (auto split: prod.splits if_splits)
    have "nt_name ` set ts \<inter> set dropped = {}" using Cons.prems(3) by auto
    from Cons.IH[OF r _ this] Cons.prems(2)
    have IH: "cascaded judge ts dropped ps' ds" "\<not> again \<longrightarrow> ps' = ts \<and> ds = dropped \<and>
      (\<forall>t \<in> set ts. nt_name t \<noteq> judge \<longrightarrow> set (nt_dependsOn t) \<inter> set dropped = {})" by simp_all
    have "nt_name t \<noteq> judge \<longrightarrow> set (nt_dependsOn t) \<inter> set dropped = {}" using False t(1) by (auto simp: list_ex_iff)
    with cascaded_keep[OF IH(1) t(2,1)] IH(2) p show ?thesis by simp
  qed
qed

lemma cascade_loop_spec:
  assumes "cascade_loop judge ts dropped = (ps, ds)" "distinct (map nt_name ts)" "nt_name ` set ts \<inter> set dropped = {}"
  shows "cascaded judge ts dropped ps ds \<and> (\<forall>t \<in> set ps. nt_name t \<noteq> judge \<longrightarrow> set (nt_dependsOn t) \<inter> set ds = {})"
  using assms
proof (induction judge ts dropped arbitrary: ps ds rule: cascade_loop.induct)
  case (1 judge ts dropped)
  obtain ps' ds' again where p: "cascade_pass judge ts dropped = (ps', ds', again)" by (metis prod_cases3)
  note spec = cascade_pass_spec[OF p "1.prems"(2,3)]
  show ?case
  proof (cases again)
    case True
    then have l: "cascade_loop judge ps' ds' = (ps, ds)" using "1.prems"(1) p by (simp add: cascade_loop.simps[of judge ts])
    have "distinct (map nt_name ps')" "nt_name ` set ps' \<inter> set ds' = {}" using spec unfolding cascaded_def by blast+
    from "1.IH"[OF p[symmetric] refl True l this] spec cascaded_trans show ?thesis by blast
  next
    case False
    then have e: "ps' = ps" "ds' = ds" using "1.prems"(1) p by (simp_all add: cascade_loop.simps[of judge ts])
    from spec False have "cascaded judge ts dropped ps ds" "ps = ts" "ds = dropped"
      "\<forall>t \<in> set ts. nt_name t \<noteq> judge \<longrightarrow> set (nt_dependsOn t) \<inter> set dropped = {}" unfolding e by blast+
    then show ?thesis by blast
  qed
qed

declare cascade_loop.simps [simp del]

section \<open>The invariant of a run\<close>

text \<open>A task is settled when it has an output or was dropped.\<close>

definition settled_names :: "review_state \<Rightarrow> string set" where
  "settled_names s = set (jkeys (rw_outputs s)) \<union> set (rw_dropped s)"

text \<open>
  A call of a task is in order: its dependencies are settled, none was dropped unless the task is the judge, and its
  prompt holds their outputs.
\<close>

definition call_ok :: "review_params \<Rightarrow> review_state \<Rightarrow> new_task \<Rightarrow> string \<Rightarrow> bool" where
  "call_ok q s t prompt \<longleftrightarrow>
     t \<in> set (rq_tasks q) \<and> set (nt_dependsOn t) \<subseteq> settled_names s \<and>
     (nt_name t \<noteq> rq_judge q \<longrightarrow> set (nt_dependsOn t) \<inter> set (rw_dropped s) = {}) \<and> prompt = seat_prompt q s t"

definition names_ok :: "review_params \<Rightarrow> review_state \<Rightarrow> bool" where
  "names_ok q s \<longleftrightarrow>
     distinct (map nt_name (rw_pending s) @ map (nt_name \<circ> se_task) (rw_seats s)) \<and>
     set (rw_pending s) \<subseteq> set (rq_tasks q) \<and>
     nt_name ` set (rw_pending s) \<inter> settled_names s = {} \<and>
     (\<forall>x \<in> set (rw_seats s). nt_name (se_task x) \<in> settled_names s \<longleftrightarrow> se_phase x = Seat_Done) \<and>
     set (jkeys (rw_outputs s)) \<inter> set (rw_dropped s) = {} \<and> rq_judge q \<notin> set (rw_dropped s) \<and>
     nt_name ` set (rq_tasks q) = nt_name ` set (rw_pending s) \<union> (nt_name \<circ> se_task) ` set (rw_seats s) \<union> settled_names s"

definition calls_ok :: "review_params \<Rightarrow> review_state \<Rightarrow> bool" where
  "calls_ok q s \<longleftrightarrow>
     (\<forall>(t, m, p) \<in> set (rw_calls s). call_ok q s t p) \<and> (\<forall>x \<in> set (rw_seats s). call_ok q s (se_task x) (se_prompt x))"

lemma seat_prompt_cong:
  assumes "\<And>d. d \<in> set (nt_dependsOn t) \<Longrightarrow> jget (rw_outputs s') d = jget (rw_outputs s) d"
  shows "seat_prompt q s' t = seat_prompt q s t"
proof -
  have "foldl (\<lambda>m d. case jget (rw_outputs s') d of Some v \<Rightarrow> jset d (JObj v) m | None \<Rightarrow> m) m ds =
    foldl (\<lambda>m d. case jget (rw_outputs s) d of Some v \<Rightarrow> jset d (JObj v) m | None \<Rightarrow> m) m ds"
    if "set ds \<subseteq> set (nt_dependsOn t)" for m ds
    using that by (induction ds arbitrary: m) (simp_all add: assms)
  then show ?thesis by (simp add: seat_prompt_def dep_outputs_def)
qed

text \<open>What was settled stays as it was.\<close>

definition extends :: "review_state \<Rightarrow> review_state \<Rightarrow> bool" where
  "extends s s' \<longleftrightarrow>
     settled_names s \<subseteq> settled_names s' \<and>
     (\<forall>d \<in> settled_names s. jget (rw_outputs s') d = jget (rw_outputs s) d \<and> (d \<in> set (rw_dropped s') \<longleftrightarrow> d \<in> set (rw_dropped s)))"

lemma call_ok_extends: "call_ok q s t p \<Longrightarrow> extends s s' \<Longrightarrow> call_ok q s' t p"
  using seat_prompt_cong[of t s' s] by (fastforce simp: call_ok_def extends_def)

lemma extends_frame:
  "rw_outputs s' = rw_outputs s \<Longrightarrow> rw_dropped s' = rw_dropped s \<Longrightarrow> extends s s'"
  by (simp add: extends_def settled_names_def)

lemma settled_frame:
  "rw_outputs s' = rw_outputs s \<Longrightarrow> rw_dropped s' = rw_dropped s \<Longrightarrow> settled_names s' = settled_names s"
  by (simp add: settled_names_def)

text \<open>A seat closes: its task joins the settled ones.\<close>

lemma close_seat:
  assumes ok: "names_ok q s" "calls_ok q s" and i: "i < length (rw_seats s)" "se_phase (rw_seats s ! i) \<noteq> Seat_Done"
    and n: "n = nt_name (se_task (rw_seats s ! i))"
    and s': "rw_pending s' = rw_pending s" "rw_calls s' = rw_calls s"
      "rw_seats s' = (rw_seats s)[i := (rw_seats s ! i)\<lparr>se_phase := Seat_Done\<rparr>]"
    and o: "rw_outputs s' = jset n v (rw_outputs s) \<and> rw_dropped s' = rw_dropped s \<or>
      rw_outputs s' = rw_outputs s \<and> rw_dropped s' = sadd n (rw_dropped s) \<and> n \<noteq> rq_judge q"
  shows "names_ok q s' \<and> calls_ok q s'"
proof -
  let ?x = "rw_seats s ! i"
  have x: "?x \<in> set (rw_seats s)" using i(1) by simp
  have fresh: "n \<notin> settled_names s" using ok(1) x i(2) n unfolding names_ok_def by blast
  have set': "settled_names s' = insert n (settled_names s)" using o by (elim disjE conjE) (simp_all add: settled_names_def)
  have ext: "extends s s'"
    unfolding extends_def
  proof (intro conjI ballI)
    show "settled_names s \<subseteq> settled_names s'" by (auto simp: set')
    fix d assume "d \<in> settled_names s"
    then have "d \<noteq> n" using fresh by blast
    then show "jget (rw_outputs s') d = jget (rw_outputs s) d" "d \<in> set (rw_dropped s') \<longleftrightarrow> d \<in> set (rw_dropped s)"
      using o by (elim disjE conjE; simp)+
  qed
  have tasks: "map se_task (rw_seats s') = map se_task (rw_seats s)"
    by (simp add: s' map_update) (metis i(1) list_update_id map_update nth_map)
  have names: "map (nt_name \<circ> se_task) (rw_seats s') = map (nt_name \<circ> se_task) (rw_seats s)"
    using tasks by (metis map_map)
  have dist: "distinct (map (nt_name \<circ> se_task) (rw_seats s))" "nt_name ` set (rw_pending s) \<inter> (nt_name \<circ> se_task) ` set (rw_seats s) = {}"
    using ok(1) unfolding names_ok_def by auto
  have phase: "nt_name (se_task y) \<in> settled_names s' \<longleftrightarrow> se_phase y = Seat_Done" if y: "y \<in> set (rw_seats s')" for y
  proof -
    obtain j where j: "j < length (rw_seats s)" "y = rw_seats s' ! j" using y by (auto simp: s' in_set_conv_nth)
    show ?thesis
    proof (cases "j = i")
      case True
      with j s' n show ?thesis by (simp add: set')
    next
      case False
      then have "y = rw_seats s ! j" using j s' by simp
      moreover have "nt_name (se_task (rw_seats s ! j)) \<noteq> n"
        using dist(1) False i(1) j(1) n by (auto simp: distinct_conv_nth)
      moreover have "nt_name (se_task (rw_seats s ! j)) \<in> settled_names s \<longleftrightarrow> se_phase (rw_seats s ! j) = Seat_Done"
        using ok(1) j(1) unfolding names_ok_def by (meson nth_mem)
      ultimately show ?thesis by (simp add: set')
    qed
  qed
  have n_seat: "n \<in> (nt_name \<circ> se_task) ` set (rw_seats s)" using x n by auto
  have sets: "(nt_name \<circ> se_task) ` set (rw_seats s') = (nt_name \<circ> se_task) ` set (rw_seats s)"
    using names by (metis list.set_map)
  have "names_ok q s'"
    unfolding names_ok_def
  proof (intro conjI)
    show "distinct (map nt_name (rw_pending s') @ map (nt_name \<circ> se_task) (rw_seats s'))"
      unfolding names s'(1) using ok(1) unfolding names_ok_def by blast
    show "nt_name ` set (rw_pending s') \<inter> settled_names s' = {}"
      using ok(1) dist(2) n_seat unfolding names_ok_def set' s'(1) by auto
    show "set (jkeys (rw_outputs s')) \<inter> set (rw_dropped s') = {}"
    proof -
      have "set (jkeys (rw_outputs s)) \<inter> set (rw_dropped s) = {}" using ok(1) unfolding names_ok_def by blast
      moreover have "n \<notin> set (jkeys (rw_outputs s))" "n \<notin> set (rw_dropped s)" using fresh by (simp_all add: settled_names_def)
      ultimately show ?thesis using o by (elim disjE conjE) (simp_all)
    qed
    show "rq_judge q \<notin> set (rw_dropped s')" using ok(1) o unfolding names_ok_def by auto
    show "nt_name ` set (rq_tasks q) = nt_name ` set (rw_pending s') \<union> (nt_name \<circ> se_task) ` set (rw_seats s') \<union> settled_names s'"
      using ok(1) n_seat unfolding names_ok_def set' sets s'(1) by blast
  qed (use ok(1) phase in \<open>auto simp: names_ok_def s'(1)\<close>)
  moreover have "calls_ok q s'"
    unfolding calls_ok_def
  proof
    show "\<forall>(t, m, p) \<in> set (rw_calls s'). call_ok q s' t p"
      using ok(2) call_ok_extends[OF _ ext] unfolding calls_ok_def s'(2) by fastforce
    show "\<forall>y \<in> set (rw_seats s'). call_ok q s' (se_task y) (se_prompt y)"
    proof
      fix y assume "y \<in> set (rw_seats s')"
      then have "\<exists>z \<in> set (rw_seats s). se_task z = se_task y \<and> se_prompt z = se_prompt y"
        using i(1) set_update_subset_insert[of "rw_seats s" i] x unfolding s'(3) by fastforce
      then show "call_ok q s' (se_task y) (se_prompt y)"
        using ok(2) call_ok_extends[OF _ ext] unfolding calls_ok_def by metis
    qed
  qed
  ultimately show ?thesis ..
qed

section \<open>Every step keeps the invariant\<close>

definition run_ok :: "review_params \<Rightarrow> review_state \<Rightarrow> bool" where
  "run_ok q s \<longleftrightarrow> names_ok q s \<and> calls_ok q s"

lemma run_ok_frame:
  assumes "run_ok q s" "rw_outputs s' = rw_outputs s" "rw_dropped s' = rw_dropped s" "rw_pending s' = rw_pending s"
    "rw_seats s' = rw_seats s" "rw_calls s' = rw_calls s"
  shows "run_ok q s'"
  using assms call_ok_extends[OF _ extends_frame[OF assms(2,3)]]
  by (fastforce simp: run_ok_def names_ok_def calls_ok_def settled_frame[OF assms(2,3)])

lemma review_fails_ok: "run_ok q s \<Longrightarrow> run_ok q (review_fails raw s)"
  by (erule run_ok_frame) (simp_all add: review_fails_def)

lemma review_ends_ok: "run_ok q s \<Longrightarrow> run_ok q (review_ends q s)"
  by (erule run_ok_frame) (simp_all add: review_ends_def Let_def)

lemma run_ok_seat:
  assumes "run_ok q s" "i < length (rw_seats s)" "se_phase (rw_seats s ! i) \<noteq> Seat_Done" "n = nt_name (se_task (rw_seats s ! i))"
    "rw_pending s' = rw_pending s" "rw_calls s' = rw_calls s"
    "rw_seats s' = (rw_seats s)[i := (rw_seats s ! i)\<lparr>se_phase := Seat_Done\<rparr>]"
    "rw_outputs s' = jset n v (rw_outputs s) \<and> rw_dropped s' = rw_dropped s \<or>
      rw_outputs s' = rw_outputs s \<and> rw_dropped s' = sadd n (rw_dropped s) \<and> n \<noteq> rq_judge q"
  shows "run_ok q s'"
  using close_seat[OF _ _ assms(2-8)] assms(1) by (simp add: run_ok_def)

lemma seat_settles_ok:
  assumes "run_ok q s" "i < length (rw_seats s)" "se_phase (rw_seats s ! i) \<noteq> Seat_Done" "t = se_task (rw_seats s ! i)"
  shows "run_ok q (seat_settles q i t m content s)"
  by (rule run_ok_seat[OF assms(1-3) refl, where v = "case res_output (parseDirectLlmResponse content) of Some m \<Rightarrow> m | None \<Rightarrow> []"])
    (simp_all add: seat_settles_def Let_def assms(4))

lemma seat_drops_ok:
  assumes "run_ok q s" "i < length (rw_seats s)" "se_phase (rw_seats s ! i) \<noteq> Seat_Done" "t = se_task (rw_seats s ! i)"
    "nt_name t \<noteq> rq_judge q"
  shows "run_ok q (seat_drops i t s)"
  by (rule run_ok_seat[OF assms(1-3) refl]) (use assms(4,5) in \<open>simp_all add: seat_drops_def\<close>)

text \<open>A fallback call repeats the prompt of its seat.\<close>

lemma fallback_ok:
  assumes ok: "run_ok q s" and i: "i < length (rw_seats s)" "se_phase (rw_seats s ! i) \<noteq> Seat_Done" "t = se_task (rw_seats s ! i)"
  shows "run_ok q ((set_phase i (Fallback_Call m cs) s)\<lparr>rw_calls := rw_calls s @ [(t, m, se_prompt (rw_seats s ! i))]\<rparr>)"
    (is "run_ok q ?s")
proof -
  let ?x = "rw_seats s ! i"
  have x: "?x \<in> set (rw_seats s)" using i(1) by simp
  have f: "rw_outputs ?s = rw_outputs s" "rw_dropped ?s = rw_dropped s" by simp_all
  note st = settled_frame[OF f] and ext = call_ok_extends[OF _ extends_frame[OF f]]
  have names: "map (nt_name \<circ> se_task) (rw_seats ?s) = map (nt_name \<circ> se_task) (rw_seats s)"
    by (simp add: map_update) (metis i(1) list_update_id comp_apply nth_map)
  have sets: "(nt_name \<circ> se_task) ` set (rw_seats ?s) = (nt_name \<circ> se_task) ` set (rw_seats s)"
    using names by (metis list.set_map)
  have old: "\<exists>z \<in> set (rw_seats s). se_task z = se_task y \<and> se_prompt z = se_prompt y \<and> (se_phase z = Seat_Done \<longleftrightarrow> se_phase y = Seat_Done)"
    if "y \<in> set (rw_seats ?s)" for y
    using that i(2) x set_update_subset_insert[of "rw_seats s" i "?x\<lparr>se_phase := Fallback_Call m cs\<rparr>"] by fastforce
  have "names_ok q ?s"
    unfolding names_ok_def
  proof (intro conjI)
    show "distinct (map nt_name (rw_pending ?s) @ map (nt_name \<circ> se_task) (rw_seats ?s))"
      unfolding names using ok by (simp add: run_ok_def names_ok_def)
    show "\<forall>y \<in> set (rw_seats ?s). nt_name (se_task y) \<in> settled_names ?s \<longleftrightarrow> se_phase y = Seat_Done"
      using old ok unfolding st run_ok_def names_ok_def by metis
    show "nt_name ` set (rq_tasks q) = nt_name ` set (rw_pending ?s) \<union> (nt_name \<circ> se_task) ` set (rw_seats ?s) \<union> settled_names ?s"
      unfolding sets st using ok by (simp add: run_ok_def names_ok_def)
  qed (use ok in \<open>simp_all add: run_ok_def names_ok_def st\<close>)
  moreover have c: "call_ok q s t (se_prompt ?x)" using ok x i(3) by (simp add: run_ok_def calls_ok_def)
  moreover have "calls_ok q ?s"
    unfolding calls_ok_def
  proof
    show "\<forall>(t, m, p) \<in> set (rw_calls ?s). call_ok q ?s t p"
      using ok ext c by (fastforce simp: run_ok_def calls_ok_def)
    show "\<forall>y \<in> set (rw_seats ?s). call_ok q ?s (se_task y) (se_prompt y)"
      using ok ext old unfolding run_ok_def calls_ok_def by metis
  qed
  ultimately show ?thesis by (simp add: run_ok_def)
qed

lemma cascade_ok:
  assumes ok: "run_ok q s" and seats: "rw_seats s = []"
    and c: "cascade_loop (rq_judge q) (rw_pending s) (rw_dropped s) = (ps, ds)"
  defines "s1 \<equiv> s\<lparr>rw_pending := ps, rw_dropped := ds\<rparr>"
  shows "run_ok q s1 \<and> (\<forall>t \<in> set ps. nt_name t \<noteq> rq_judge q \<longrightarrow> set (nt_dependsOn t) \<inter> set ds = {})"
proof -
  have n: "distinct (map nt_name (rw_pending s))" "set (rw_pending s) \<subseteq> set (rq_tasks q)"
    "nt_name ` set (rw_pending s) \<inter> settled_names s = {}" "set (jkeys (rw_outputs s)) \<inter> set (rw_dropped s) = {}"
    "rq_judge q \<notin> set (rw_dropped s)" "nt_name ` set (rq_tasks q) = nt_name ` set (rw_pending s) \<union> settled_names s"
    using ok seats by (simp_all add: run_ok_def names_ok_def)
  have disj: "nt_name ` set (rw_pending s) \<inter> set (rw_dropped s) = {}" "nt_name ` set (rw_pending s) \<inter> set (jkeys (rw_outputs s)) = {}"
    using n(3) by (auto simp: settled_names_def)
  from cascade_loop_spec[OF c n(1) disj(1)]
  have casc: "cascaded (rq_judge q) (rw_pending s) (rw_dropped s) ps ds"
    and deps: "\<forall>t \<in> set ps. nt_name t \<noteq> rq_judge q \<longrightarrow> set (nt_dependsOn t) \<inter> set ds = {}" by blast+
  note cD = cascadedD[OF casc]
  have new: "set ds = set (rw_dropped s) \<union> nt_name ` (set (rw_pending s) - set ps)" by (rule cD(3))
  have st: "settled_names s1 = settled_names s \<union> nt_name ` (set (rw_pending s) - set ps)"
    using new by (auto simp: settled_names_def s1_def)
  have gone: "nt_name ` (set (rw_pending s) - set ps) \<subseteq> nt_name ` set (rw_pending s)" by blast
  have "names_ok q s1"
    unfolding names_ok_def
  proof (intro conjI)
    show "nt_name ` set (rw_pending s1) \<inter> settled_names s1 = {}"
      using cD(1,4) disj(2) by (auto simp: s1_def settled_names_def)
    show "set (jkeys (rw_outputs s1)) \<inter> set (rw_dropped s1) = {}"
    proof -
      have "set (jkeys (rw_outputs s)) \<inter> nt_name ` (set (rw_pending s) - set ps) = {}" using disj(2) gone by blast
      with n(4) new show ?thesis by (simp add: s1_def Int_Un_distrib)
    qed
    show "rq_judge q \<notin> set (rw_dropped s1)" using cD(5) n(5) by (simp add: s1_def)
    show "nt_name ` set (rq_tasks q) = nt_name ` set (rw_pending s1) \<union> (nt_name \<circ> se_task) ` set (rw_seats s1) \<union> settled_names s1"
    proof -
      have "nt_name ` set (rw_pending s) = nt_name ` set ps \<union> nt_name ` (set (rw_pending s) - set ps)"
        using cD(1) by (metis Diff_partition image_Un)
      then show ?thesis using n(6) st seats by (auto simp: s1_def)
    qed
  qed (use cD(1,2) n(2) seats in \<open>auto simp: s1_def\<close>)
  moreover have "extends s s1"
    unfolding extends_def
  proof (intro conjI ballI)
    show "settled_names s \<subseteq> settled_names s1" by (simp add: st)
    fix d assume "d \<in> settled_names s"
    then have "d \<notin> nt_name ` (set (rw_pending s) - set ps)" using n(3) gone by blast
    then show "jget (rw_outputs s1) d = jget (rw_outputs s) d" "d \<in> set (rw_dropped s1) \<longleftrightarrow> d \<in> set (rw_dropped s)"
      using new by (simp_all add: s1_def)
  qed
  then have "calls_ok q s1"
    using ok call_ok_extends[of q s _ _ s1] seats by (fastforce simp: run_ok_def calls_ok_def s1_def)
  ultimately show ?thesis using deps by (simp add: run_ok_def)
qed

lemma open_wave_ok:
  assumes ok: "run_ok q s" and seats: "rw_seats s = []"
    and deps: "\<forall>t \<in> set (rw_pending s). nt_name t \<noteq> rq_judge q \<longrightarrow> set (nt_dependsOn t) \<inter> set (rw_dropped s) = {}"
    and ready: "ready = filter (task_ready s) (rw_pending s)" "rest = filter (\<lambda>t. \<not> task_ready s t) (rw_pending s)"
  defines "s1 \<equiv> s\<lparr>rw_pending := rest,
      rw_seats := map (\<lambda>t. \<lparr>se_task = t, se_prompt = seat_prompt q s t, se_phase = First_Call (original_slug t)\<rparr>) ready,
      rw_calls := rw_calls s @ map (\<lambda>t. (t, original_slug t, seat_prompt q s t)) ready\<rparr>"
  shows "run_ok q s1"
proof -
  have f: "rw_outputs s1 = rw_outputs s" "rw_dropped s1 = rw_dropped s" by (simp_all add: s1_def)
  note st = settled_frame[OF f] and ext = call_ok_extends[OF _ extends_frame[OF f]]
  have n: "distinct (map nt_name (rw_pending s))" "set (rw_pending s) \<subseteq> set (rq_tasks q)"
    "nt_name ` set (rw_pending s) \<inter> settled_names s = {}" "nt_name ` set (rq_tasks q) = nt_name ` set (rw_pending s) \<union> settled_names s"
    using ok seats by (simp_all add: run_ok_def names_ok_def)
  have both: "set (rw_pending s) = set rest \<union> set ready" by (auto simp: ready)
  have tasks: "map (nt_name \<circ> se_task) (rw_seats s1) = map nt_name ready" by (simp add: s1_def)
  then have tset: "(nt_name \<circ> se_task) ` set (rw_seats s1) = nt_name ` set ready" by (metis list.set_map)
  have inj: "inj_on nt_name (set (rw_pending s))" using n(1) by (simp add: distinct_map)
  have apart: "nt_name ` set rest \<inter> nt_name ` set ready = {}"
  proof (rule ccontr)
    assume "nt_name ` set rest \<inter> nt_name ` set ready \<noteq> {}"
    then obtain x y where xy: "x \<in> set rest" "y \<in> set ready" "nt_name x = nt_name y" by blast
    then have "x = y" using inj both by (metis UnCI inj_onD)
    with xy(1,2) show False by (simp add: ready)
  qed
  have prompts: "call_ok q s t (seat_prompt q s t)" if "t \<in> set ready" for t
    using that n(2) deps by (auto simp: call_ok_def ready task_ready_def list_all_iff settled_names_def jhas_iff)
  have "names_ok q s1"
    unfolding names_ok_def st tasks tset
  proof (intro conjI)
    show "distinct (map nt_name (rw_pending s1) @ map nt_name ready)"
      using n(1) apart by (simp add: s1_def ready distinct_map_filter)
    show "nt_name ` set (rw_pending s1) \<inter> settled_names s = {}" using n(3) both by (auto simp: s1_def)
    show "\<forall>x \<in> set (rw_seats s1). nt_name (se_task x) \<in> settled_names s \<longleftrightarrow> se_phase x = Seat_Done"
      using n(3) both by (auto simp: s1_def)
    show "nt_name ` set (rq_tasks q) = nt_name ` set (rw_pending s1) \<union> nt_name ` set ready \<union> settled_names s"
      using n(4) both by (auto simp: s1_def)
  qed (use ok n(2) both in \<open>auto simp: s1_def run_ok_def names_ok_def\<close>)
  moreover have "calls_ok q s1"
    unfolding calls_ok_def
  proof
    show "\<forall>(t, m, p) \<in> set (rw_calls s1). call_ok q s1 t p"
      using ok ext prompts by (fastforce simp: s1_def run_ok_def calls_ok_def)
    show "\<forall>x \<in> set (rw_seats s1). call_ok q s1 (se_task x) (se_prompt x)"
      using ext prompts by (auto simp: s1_def)
  qed
  ultimately show ?thesis by (simp add: run_ok_def)
qed

lemma next_wave_ok:
  assumes ok: "run_ok q s" and seats: "rw_seats s = []"
  shows "run_ok q (next_wave q s)"
proof -
  obtain ps ds where c: "cascade_loop (rq_judge q) (rw_pending s) (rw_dropped s) = (ps, ds)" by fastforce
  let ?s = "s\<lparr>rw_pending := ps, rw_dropped := ds\<rparr>"
  from cascade_ok[OF ok seats c] have 1: "run_ok q ?s"
    and deps: "\<forall>t \<in> set (rw_pending ?s). nt_name t \<noteq> rq_judge q \<longrightarrow> set (nt_dependsOn t) \<inter> set (rw_dropped ?s) = {}" by simp_all
  have 2: "rw_seats ?s = []" using seats by simp
  show ?thesis
  proof (cases "rw_pending s = [] \<or> ps = []")
    case True
    with review_ends_ok[OF ok] review_ends_ok[OF 1] show ?thesis by (auto simp: next_wave_def c)
  next
    case False
    with open_wave_ok[OF 1 2 deps refl refl] review_fails_ok[OF 1] show ?thesis
      by (simp add: next_wave_def c Let_def)
  qed
qed

lemma seat_limited_ok:
  assumes "run_ok q s" "i < length (rw_seats s)" "se_phase (rw_seats s ! i) \<noteq> Seat_Done" "t = se_task (rw_seats s ! i)"
  shows "run_ok q (seat_limited q i t cs raw s)"
  using fallback_ok[OF assms] seat_drops_ok[OF assms] review_fails_ok[OF assms(1)]
  by (simp add: seat_limited_def split: list.split)

lemma seat_step_ok:
  assumes ok: "run_ok q s" and i: "i < length (rw_seats s)"
  shows "run_ok q (seat_step q i a s)"
proof (cases "se_phase (rw_seats s ! i)")
  case (First_Call slug)
  with seat_settles_ok[OF ok i] seat_limited_ok[OF ok i] review_fails_ok[OF ok] show ?thesis
    by (simp add: seat_step_def Let_def split: gateway_answer.split)
next
  case (Fallback_Call slug rest)
  let ?s = "s\<lparr>rw_seatModel := jset (nt_name (se_task (rw_seats s ! i))) slug (rw_seatModel s)\<rparr>"
  have "run_ok q ?s" using ok by (rule run_ok_frame) simp_all
  from seat_settles_ok[OF this] Fallback_Call i seat_limited_ok[OF ok i] review_fails_ok[OF ok] show ?thesis
    by (simp add: seat_step_def Let_def split: gateway_answer.split)
qed (use ok in \<open>simp add: seat_step_def\<close>)

lemma closed_wave_ok:
  assumes "run_ok q s" "wave_done s"
  shows "run_ok q (s\<lparr>rw_seats := []\<rparr>)"
proof -
  have "(nt_name \<circ> se_task) ` set (rw_seats s) \<subseteq> settled_names s"
    using assms by (auto simp: run_ok_def names_ok_def wave_done_def list_all_iff)
  then have all: "(nt_name \<circ> se_task) ` set (rw_seats s) \<union> settled_names s = settled_names s" by blast
  let ?s = "s\<lparr>rw_seats := []\<rparr>"
  have f: "rw_outputs ?s = rw_outputs s" "rw_dropped ?s = rw_dropped s" by simp_all
  have "names_ok q ?s"
    using assms(1) all by (simp add: run_ok_def names_ok_def settled_frame[OF f] Un_assoc)
  moreover have "calls_ok q ?s"
    using assms(1) call_ok_extends[OF _ extends_frame[OF f]] by (fastforce simp: run_ok_def calls_ok_def)
  ultimately show ?thesis by (simp add: run_ok_def)
qed

lemma seat_answers_ok: "run_ok q s \<Longrightarrow> run_ok q (seat_answers q i a s)"
  using seat_step_ok[of q s i a] closed_wave_ok[of q "seat_step q i a s"] next_wave_ok[of q "(seat_step q i a s)\<lparr>rw_seats := []\<rparr>"]
  by (simp add: seat_answers_def Let_def)

lemma begin_review_ok:
  assumes "distinct (map nt_name (rq_tasks q))"
  shows "run_ok q (begin_review q)"
  unfolding begin_review_def
  by (rule next_wave_ok) (use assms in \<open>simp_all add: run_ok_def names_ok_def calls_ok_def settled_names_def\<close>)

lemma review_run_ok: "run_ok q s \<Longrightarrow> run_ok q (review_run q as s)"
  by (induction as arbitrary: s) (auto simp: seat_answers_ok)

section \<open>Order\<close>

text \<open>
  C3: in every run of a review of distinctly named tasks, each model call belongs to a task of the review, is made
  after all its dependencies were answered or dropped - all answered, unless the task is the judge - and its prompt
  holds exactly the outputs they have at the end.
\<close>

theorem calls_follow_dependencies:
  assumes "distinct (map nt_name (rq_tasks q))"
    and "s = review_run q as (begin_review q)" "(t, m, prompt) \<in> set (rw_calls s)"
  shows "t \<in> set (rq_tasks q) \<and> (\<forall>d \<in> set (nt_dependsOn t). jhas (rw_outputs s) d \<or> d \<in> set (rw_dropped s)) \<and>
    (nt_name t \<noteq> rq_judge q \<longrightarrow> (\<forall>d \<in> set (nt_dependsOn t). jhas (rw_outputs s) d)) \<and> prompt = seat_prompt q s t"
proof -
  have "run_ok q s" unfolding assms(2) by (intro review_run_ok begin_review_ok assms(1))
  with assms(3) have "call_ok q s t prompt" by (auto simp: run_ok_def calls_ok_def)
  then show ?thesis by (auto simp: call_ok_def settled_names_def jhas_iff)
qed

section \<open>Every run ends\<close>

text \<open>The calls that are left: a bound on the answers a run still takes.\<close>

definition seat_work :: "review_params \<Rightarrow> seat \<Rightarrow> nat" where
  "seat_work q x =
     (case se_phase x of First_Call _ \<Rightarrow> 1 + length (rq_activeModels q) | Fallback_Call _ rest \<Rightarrow> 1 + length rest | Seat_Done \<Rightarrow> 0)"

definition run_work :: "review_params \<Rightarrow> review_state \<Rightarrow> nat" where
  "run_work q s =
     (if rw_result s \<noteq> None then 0
      else length (rw_pending s) * (1 + length (rq_activeModels q)) + sum_list (map (seat_work q) (rw_seats s)))"

lemma cascade_loop_length: "cascade_loop judge ts dropped = (ps, ds) \<Longrightarrow> length ps \<le> length ts"
proof (induction judge ts dropped arbitrary: ps ds rule: cascade_loop.induct)
  case (1 judge ts dropped)
  obtain ps' ds' again where p: "cascade_pass judge ts dropped = (ps', ds', again)" by (metis prod_cases3)
  from cascade_pass_length[OF p] "1.IH"[OF p[symmetric] refl, of ps ds] "1.prems" p show ?case
    by (auto simp: cascade_loop.simps[of judge ts] split: if_splits)
qed

lemma ended_work [simp]: "rw_result (review_ends q s) \<noteq> None" "rw_result (review_fails raw s) \<noteq> None"
  by (simp_all add: review_ends_def review_fails_def Let_def)

lemma next_wave_work:
  assumes "rw_seats s = []" "rw_result s = None"
  shows "run_work q (next_wave q s) \<le> run_work q s"
proof (cases "rw_result (next_wave q s) = None")
  case True
  obtain ps ds where c: "cascade_loop (rq_judge q) (rw_pending s) (rw_dropped s) = (ps, ds)" by fastforce
  let ?s = "s\<lparr>rw_pending := ps, rw_dropped := ds\<rparr>" and ?k = "1 + length (rq_activeModels q)"
  have ne: "rw_pending s \<noteq> []" "ps \<noteq> []" "filter (task_ready ?s) ps \<noteq> []"
    using True by (auto simp: next_wave_def c Let_def split: if_splits)
  have "sum_list (map (seat_work q) (map (\<lambda>t. \<lparr>se_task = t, se_prompt = f t, se_phase = First_Call (g t)\<rparr>) ts)) = length ts * ?k"
    for f g ts by (induction ts) (simp_all add: seat_work_def)
  then have "run_work q (next_wave q s) = length (filter (\<lambda>t. \<not> task_ready ?s t) ps) * ?k + length (filter (task_ready ?s) ps) * ?k"
    using ne True assms(2) by (simp add: next_wave_def c Let_def run_work_def)
  also have "\<dots> = length ps * ?k" by (metis add.commute add_mult_distrib sum_length_filter_compl)
  also have "\<dots> \<le> length (rw_pending s) * ?k" by (rule mult_le_mono1[OF cascade_loop_length[OF c]])
  finally show ?thesis using assms by (simp add: run_work_def)
qed (simp add: run_work_def)

lemma set_phase_work:
  assumes "i < length (rw_seats s)" "seat_work q ((rw_seats s ! i)\<lparr>se_phase := ph\<rparr>) < seat_work q (rw_seats s ! i)"
    "rw_pending s' = rw_pending s" "rw_seats s' = (rw_seats s)[i := (rw_seats s ! i)\<lparr>se_phase := ph\<rparr>]" "rw_result s = None"
  shows "run_work q s' < run_work q s"
proof -
  have "seat_work q (rw_seats s ! i) \<le> sum_list (map (seat_work q) (rw_seats s))"
    using assms(1) by (simp add: member_le_sum_list)
  then show ?thesis
    using assms by (cases "rw_result s'") (simp_all add: run_work_def map_update sum_list_update)
qed

lemma ended_less: "0 < run_work q s \<Longrightarrow> rw_result s' \<noteq> None \<Longrightarrow> run_work q s' < run_work q s"
  by (simp add: run_work_def)

lemma in_flight_work: "in_flight s i \<Longrightarrow> 0 < run_work q s"
proof -
  assume i: "in_flight s i"
  then have "seat_work q (rw_seats s ! i) \<le> sum_list (map (seat_work q) (rw_seats s))"
    by (simp add: in_flight_def member_le_sum_list)
  moreover have "0 < seat_work q (rw_seats s ! i)" using i by (auto simp: in_flight_def seat_work_def split: seat_phase.splits)
  ultimately show ?thesis using i by (simp add: run_work_def in_flight_def)
qed

lemma fails_work: "in_flight s i \<Longrightarrow> run_work q (review_fails raw s) < run_work q s"
  by (rule ended_less[OF in_flight_work ended_work(2)])

lemma seat_limited_work:
  assumes i: "in_flight s i" and l: "1 + length cs \<le> seat_work q (rw_seats s ! i)"
  shows "run_work q (seat_limited q i t cs raw s) < run_work q s"
proof (cases cs)
  case Nil
  have "run_work q (seat_drops i t s) < run_work q s"
    by (rule set_phase_work[where ph = Seat_Done and i = i])
      (use i l in \<open>auto simp: in_flight_def seat_drops_def seat_work_def\<close>)
  with Nil fails_work[OF i] show ?thesis by (simp add: seat_limited_def)
next
  case (Cons c rest)
  show ?thesis
    by (rule set_phase_work[where ph = "Fallback_Call (ce_slug c) rest" and i = i])
      (use i l Cons in \<open>auto simp: in_flight_def seat_limited_def seat_work_def\<close>)
qed

lemma seat_settles_work:
  assumes i: "in_flight s i" and s: "rw_pending s0 = rw_pending s" "rw_seats s0 = rw_seats s"
  shows "run_work q (seat_settles q i t m content s0) < run_work q s"
  by (rule set_phase_work[where ph = Seat_Done and i = i])
    (use i s in \<open>auto simp: in_flight_def seat_settles_def Let_def seat_work_def split: seat_phase.splits\<close>)

lemma candidates_length: "length (pickFallbackCandidates slug models claimed) \<le> length models"
  by (simp add: pickFallbackCandidates_def Let_def)

lemma seat_step_work:
  assumes i: "in_flight s i"
  shows "run_work q (seat_step q i a s) < run_work q s"
proof (cases "se_phase (rw_seats s ! i)")
  case (First_Call slug)
  with seat_settles_work[OF i] seat_limited_work[OF i] candidates_length fails_work[OF i] show ?thesis
    by (simp add: seat_step_def Let_def seat_work_def split: gateway_answer.split)
next
  case (Fallback_Call slug rest)
  with seat_settles_work[OF i] seat_limited_work[OF i] fails_work[OF i] show ?thesis
    by (simp add: seat_step_def Let_def seat_work_def split: gateway_answer.split)
qed (use i in \<open>simp add: in_flight_def\<close>)

lemma seat_answers_work:
  assumes i: "in_flight s i"
  shows "run_work q (seat_answers q i a s) < run_work q s"
proof -
  let ?s = "seat_step q i a s"
  have less: "run_work q ?s < run_work q s" by (rule seat_step_work[OF i])
  have "run_work q (?s\<lparr>rw_seats := []\<rparr>) \<le> run_work q ?s" by (simp add: run_work_def)
  with next_wave_work[of "?s\<lparr>rw_seats := []\<rparr>" q] less i show ?thesis
    by (auto simp: seat_answers_def Let_def in_flight_def)
qed

text \<open>A run that goes on waits for a seat.\<close>

definition progressing :: "review_state \<Rightarrow> bool" where
  "progressing s \<longleftrightarrow> rw_result s \<noteq> None \<or> (\<exists>i. in_flight s i)"

lemma next_wave_progress: "rw_seats s = [] \<Longrightarrow> progressing (next_wave q s)"
proof -
  obtain ps ds where c: "cascade_loop (rq_judge q) (rw_pending s) (rw_dropped s) = (ps, ds)" by fastforce
  let ?ready = "filter (task_ready (s\<lparr>rw_pending := ps, rw_dropped := ds\<rparr>)) ps"
  have "in_flight (next_wave q s) 0" if "rw_result (next_wave q s) = None"
    using that by (auto simp: next_wave_def c Let_def in_flight_def filter_empty_conv split: if_splits)
  then show ?thesis by (auto simp: progressing_def)
qed

lemma seat_answers_progress: "progressing s \<Longrightarrow> progressing (seat_answers q i a s)"
proof -
  assume p: "progressing s"
  let ?s = "seat_step q i a s"
  have "progressing ?s" if "\<not> wave_done ?s"
    using that by (auto simp: progressing_def in_flight_def wave_done_def list_all_length)
  with p next_wave_progress[of "?s\<lparr>rw_seats := []\<rparr>" q] show ?thesis
    by (auto simp: seat_answers_def Let_def progressing_def)
qed

text \<open>Every answer goes to a seat that waits for one.\<close>

fun effective :: "review_params \<Rightarrow> review_state \<Rightarrow> (nat \<times> gateway_answer) list \<Rightarrow> bool" where
  "effective q s [] \<longleftrightarrow> True"
| "effective q s ((i, a) # as) \<longleftrightarrow> in_flight s i \<and> effective q (seat_answers q i a s) as"

lemma effective_bound: "effective q s as \<Longrightarrow> length as \<le> run_work q s"
proof (induction q s as rule: effective.induct)
  case (2 q s i a as)
  with seat_answers_work[of s i q a] show ?case by fastforce
qed simp

lemma run_progress: "progressing s \<Longrightarrow> progressing (review_run q as s)"
  by (induction as arbitrary: s) (auto simp: seat_answers_progress)

text \<open>
  C10: every review ends. As long as it has no result some seat waits for an answer, and whatever the answers are, a
  result is there after at most one call per task and one per task and model of the catalog.
\<close>

theorem review_always_ends:
  assumes "effective q (begin_review q) as"
  shows "length as \<le> length (rq_tasks q) * (1 + length (rq_activeModels q)) \<and>
    (rw_result (review_run q as (begin_review q)) \<noteq> None \<or> (\<exists>i. in_flight (review_run q as (begin_review q)) i))"
proof -
  have "run_work q (begin_review q) \<le> length (rq_tasks q) * (1 + length (rq_activeModels q))"
    unfolding begin_review_def by (rule next_wave_work[THEN order_trans]) (simp_all add: run_work_def)
  with effective_bound[OF assms] have "length as \<le> length (rq_tasks q) * (1 + length (rq_activeModels q))" by simp
  moreover have "progressing (begin_review q)" unfolding begin_review_def by (rule next_wave_progress) simp
  from run_progress[OF this] have "rw_result (review_run q as (begin_review q)) \<noteq> None \<or> (\<exists>i. in_flight (review_run q as (begin_review q)) i)"
    by (simp add: progressing_def)
  ultimately show ?thesis ..
qed

section \<open>The result\<close>

text \<open>The participants are the answered tasks other than the judge, once each.\<close>

definition seated :: "review_params \<Rightarrow> review_state \<Rightarrow> bool" where
  "seated q s \<longleftrightarrow> distinct (map rp_name (rw_participants s)) \<and>
     rp_name ` set (rw_participants s) = set (jkeys (rw_outputs s)) - {rq_judge q}"

definition sound_result :: "review_params \<Rightarrow> review_state \<Rightarrow> review_result \<Rightarrow> bool" where
  "sound_result q s r \<longleftrightarrow>
     (rv_error r \<noteq> None \<longrightarrow> \<not> rv_converged r \<and> rv_judge r = None \<and> rv_participants r = None \<and> rv_openActionPoints r = []) \<and>
     (rv_error r = None \<longrightarrow>
        (rw_dropped s \<noteq> [] \<longrightarrow> 2 \<le> card (set (jkeys (rw_outputs s)) - {rq_judge q})) \<and>
        rv_converged r = cv_converged (readConvergence (map_option JObj (jget (rw_outputs s) (rq_judge q)))) \<and>
        (\<forall>ps. rv_participants r = Some ps \<longrightarrow> length ps \<le> 24))"

lemma seated_card: "seated q s \<Longrightarrow> card (set (jkeys (rw_outputs s)) - {rq_judge q}) = length (rw_participants s)"
  by (metis distinct_card length_map list.set_map seated_def)

lemma seated_frame:
  "seated q s \<Longrightarrow> rw_outputs s' = rw_outputs s \<Longrightarrow> rw_participants s' = rw_participants s \<Longrightarrow> seated q s'"
  by (simp add: seated_def)

lemma seat_settles_seated:
  assumes "seated q s" "nt_name t \<notin> set (jkeys (rw_outputs s))"
  shows "seated q (seat_settles q i t m content s)"
  using assms by (auto simp: seated_def seat_settles_def Let_def)

lemma next_wave_seated: "seated q s \<Longrightarrow> seated q (next_wave q s)"
  by (erule seated_frame) (auto simp: next_wave_def review_ends_def review_fails_def Let_def split: prod.splits)

lemma seat_limited_seated: "seated q s \<Longrightarrow> seated q (seat_limited q i t cs raw s)"
  by (erule seated_frame) (auto simp: seat_limited_def review_fails_def seat_drops_def split: list.splits)

lemma in_flight_fresh:
  assumes "run_ok q s" "i < length (rw_seats s)" "se_phase (rw_seats s ! i) \<noteq> Seat_Done"
  shows "nt_name (se_task (rw_seats s ! i)) \<notin> set (jkeys (rw_outputs s))"
  using assms by (auto simp: run_ok_def names_ok_def settled_names_def dest!: nth_mem)

lemma seat_step_seated:
  assumes "run_ok q s" "seated q s" "i < length (rw_seats s)"
  shows "seated q (seat_step q i a s)"
proof (cases "se_phase (rw_seats s ! i) = Seat_Done")
  case False
  note fresh = in_flight_fresh[OF assms(1,3) False]
  have f: "seated q (review_fails raw s)" for raw using assms(2) by (rule seated_frame) (simp_all add: review_fails_def)
  have "seated q (s\<lparr>rw_seatModel := mm\<rparr>)" for mm using assms(2) by (rule seated_frame) simp_all
  with seat_settles_seated[OF assms(2) fresh] seat_settles_seated[of q "s\<lparr>rw_seatModel := _\<rparr>"] fresh f seat_limited_seated[OF assms(2)]
  show ?thesis using assms(2) by (simp add: seat_step_def Let_def split: seat_phase.split gateway_answer.split)
qed (use assms(2) in \<open>simp add: seat_step_def\<close>)

lemma seat_answers_seated: "run_ok q s \<Longrightarrow> seated q s \<Longrightarrow> seated q (seat_answers q i a s)"
  using seat_step_seated[of q s i a] next_wave_seated[of q "(seat_step q i a s)\<lparr>rw_seats := []\<rparr>"]
    seated_frame[of q "seat_step q i a s" "(seat_step q i a s)\<lparr>rw_seats := []\<rparr>"]
  by (simp add: seat_answers_def Let_def)

text \<open>A result is made by one of the two ends.\<close>

definition result_made :: "review_params \<Rightarrow> review_state \<Rightarrow> bool" where
  "result_made q s \<longleftrightarrow> (\<forall>r. rw_result s = Some r \<longrightarrow> sound_result q s r)"

lemma fails_made: "result_made q (review_fails raw s)"
  by (simp add: result_made_def review_fails_def sound_result_def degraded_def)

lemma ends_made: "seated q s \<Longrightarrow> result_made q (review_ends q s)"
  using seated_card[of q s]
  by (auto simp: result_made_def review_ends_def sound_result_def degraded_def min_reviewers_def Let_def
      boundParticipants_def max_participants_def simp del: card_Diff_insert)

lemma open_made: "rw_result s = None \<Longrightarrow> result_made q s"
  by (simp add: result_made_def)

lemma next_wave_made:
  assumes "seated q s" "rw_result s = None"
  shows "result_made q (next_wave q s)"
proof -
  obtain ps ds where c: "cascade_loop (rq_judge q) (rw_pending s) (rw_dropped s) = (ps, ds)" by fastforce
  have "seated q (s\<lparr>rw_pending := ps, rw_dropped := ds\<rparr>)" using assms(1) by (rule seated_frame) simp_all
  from ends_made[OF assms(1)] ends_made[OF this] assms fails_made open_made show ?thesis
    by (cases "ps = []") (simp_all add: next_wave_def c Let_def)
qed

lemma seat_limited_made: "rw_result s = None \<Longrightarrow> result_made q (seat_limited q i t cs raw s)"
  using fails_made by (auto simp: seat_limited_def seat_drops_def intro!: open_made split: list.split)

lemma seat_step_made: "rw_result s = None \<Longrightarrow> result_made q (seat_step q i a s)"
  using seat_limited_made[of s] fails_made
  by (auto simp: seat_step_def seat_settles_def Let_def intro!: open_made split: seat_phase.split gateway_answer.split)

lemma seat_answers_made:
  assumes "run_ok q s" "seated q s" "result_made q s"
  shows "result_made q (seat_answers q i a s)"
proof (cases "rw_result s \<noteq> None \<or> length (rw_seats s) \<le> i \<or> se_phase (rw_seats s ! i) = Seat_Done")
  case False
  let ?s = "seat_step q i a s"
  have "seated q (?s\<lparr>rw_seats := []\<rparr>)"
    by (rule seated_frame[OF seat_step_seated[OF assms(1,2)]]) (use False in simp_all)
  from next_wave_made[OF this] seat_step_made[of s q i a] False show ?thesis by (simp add: seat_answers_def Let_def)
qed (use assms in \<open>auto simp: seat_answers_def\<close>)

lemma review_run_made:
  "run_ok q s \<Longrightarrow> seated q s \<Longrightarrow> result_made q s \<Longrightarrow> result_made q (review_run q as s)"
  by (induction as arbitrary: s) (auto simp: seat_answers_ok seat_answers_seated seat_answers_made)


end
