(* ===== verification/Review_Outcomes.thy ===== *)
theory Review_Outcomes
  imports Review_Runs
begin

text \<open>
  Reviews of valid task graphs end in a verdict or a usage limit, never stuck; the panels of the product are such
  graphs. Witnesses of the properties of runs, and two seats that fall back to one model.
\<close>

section \<open>Valid graphs\<close>

definition nt_node :: "new_task \<Rightarrow> task_node" where
  "nt_node t = \<lparr>tn_id = nt_name t, tn_dependsOn = nt_dependsOn t\<rparr>"

definition graph_tasks :: "new_task list \<Rightarrow> bool" where
  "graph_tasks ts \<longleftrightarrow> distinct (map nt_name ts) \<and> validateTaskGraph (map nt_node ts) = GraphOk"

lemma graph_tasksD:
  assumes "graph_tasks ts"
  shows "\<forall>t \<in> set ts. set (nt_dependsOn t) \<subseteq> nt_name ` set ts" "acyclic (depends_rel (map nt_node ts))"
proof -
  have ids: "map tn_id (map nt_node ts) = map nt_name ts" by (simp add: nt_node_def)
  have "(\<forall>t \<in> set (map nt_node ts). set (tn_dependsOn t) \<subseteq> tn_id ` set (map nt_node ts)) \<and> acyclic (depends_rel (map nt_node ts))"
    using assms validate_exact[of "map nt_node ts"] unfolding graph_tasks_def ids by simp
  then show "\<forall>t \<in> set ts. set (nt_dependsOn t) \<subseteq> nt_name ` set ts" "acyclic (depends_rel (map nt_node ts))"
    by (simp_all add: nt_node_def image_image)
qed

lemma node_depends: "t \<in> set ts \<Longrightarrow> d \<in> set (nt_dependsOn t) \<Longrightarrow> (nt_name t, d) \<in> depends_rel (map nt_node ts)"
  unfolding depends_rel_def nt_node_def by force

lemma ready_exists:
  assumes ok: "run_ok q s" "rw_seats s = []" "rw_pending s \<noteq> []" and g: "graph_tasks (rq_tasks q)"
  shows "\<exists>t \<in> set (rw_pending s). task_ready s t"
proof -
  let ?R = "depends_rel (map nt_node (rq_tasks q))" and ?N = "nt_name ` set (rw_pending s)"
  have "?R \<subseteq> (\<Union>t \<in> set (rq_tasks q). {nt_name t} \<times> set (nt_dependsOn t))"
    by (auto simp: depends_rel_def nt_node_def)
  then have "finite ?R" by (rule finite_subset) auto
  then have "wf (?R\<inverse>)" using graph_tasksD(2)[OF g] by (rule finite_acyclic_wf_converse)
  moreover have "?N \<noteq> {}" using ok(3) by simp
  ultimately obtain z where z: "z \<in> ?N" "\<And>y. (y, z) \<in> ?R\<inverse> \<Longrightarrow> y \<notin> ?N"
    by (metis wf_eq_minimal all_not_in_conv)
  then obtain t where t: "t \<in> set (rw_pending s)" "z = nt_name t" by blast
  have names: "set (rw_pending s) \<subseteq> set (rq_tasks q)" "nt_name ` set (rq_tasks q) = ?N \<union> settled_names s"
    using ok by (simp_all add: run_ok_def names_ok_def)
  have "d \<in> settled_names s" if d: "d \<in> set (nt_dependsOn t)" for d
  proof -
    have "(z, d) \<in> ?R" using node_depends[of t "rq_tasks q" d] d t names(1) by auto
    then have "d \<notin> ?N" using z(2) by blast
    moreover have "d \<in> nt_name ` set (rq_tasks q)" using graph_tasksD(1)[OF g] t(1) names(1) d by blast
    ultimately show ?thesis using names(2) by blast
  qed
  then have "task_ready s t" by (auto simp: task_ready_def list_all_iff settled_names_def jhas_iff)
  with t(1) show ?thesis by blast
qed

text \<open>Every answer is a reply or a usage limit.\<close>

definition limits_only :: "(nat \<times> gateway_answer) list \<Rightarrow> bool" where
  "limits_only as \<longleftrightarrow> list_all (\<lambda>(i, a). case a of Answered _ \<Rightarrow> True | Refused raw \<Rightarrow> isRateLimitError raw) as"

definition limited_end :: "review_state \<Rightarrow> bool" where
  "limited_end s \<longleftrightarrow> (\<forall>r. rw_result s = Some r \<longrightarrow> rv_error r = None \<or> rv_rateLimited r)"

lemma open_limited: "rw_result s = None \<Longrightarrow> limited_end s"
  by (simp add: limited_end_def)

lemma ends_limited: "limited_end (review_ends q s)"
  by (simp add: limited_end_def review_ends_def degraded_def Let_def)

lemma fails_limited: "isRateLimitError raw \<Longrightarrow> limited_end (review_fails raw s)"
  by (simp add: limited_end_def review_fails_def degraded_def)

lemma next_wave_limited:
  assumes "run_ok q s" "rw_seats s = []" "rw_result s = None" "graph_tasks (rq_tasks q)"
  shows "limited_end (next_wave q s)"
proof -
  obtain ps ds where c: "cascade_loop (rq_judge q) (rw_pending s) (rw_dropped s) = (ps, ds)" by fastforce
  let ?s = "s\<lparr>rw_pending := ps, rw_dropped := ds\<rparr>"
  have "run_ok q ?s" using cascade_ok[OF assms(1,2) c] by blast
  then have "filter (task_ready ?s) ps \<noteq> []" if "ps \<noteq> []"
    using ready_exists[of q ?s] assms(2,4) that by (auto simp: filter_empty_conv)
  with ends_limited assms(3) show ?thesis
    by (simp add: next_wave_def c Let_def open_limited)
qed

lemma seat_limited_limited: "rw_result s = None \<Longrightarrow> isRateLimitError raw \<Longrightarrow> limited_end (seat_limited q i t cs raw s)"
  by (auto simp: seat_limited_def seat_drops_def fails_limited intro!: open_limited split: list.split)

lemma seat_step_limited:
  assumes "rw_result s = None" "limits_only [(i, a)]"
  shows "limited_end (seat_step q i a s)"
  using assms seat_limited_limited[OF assms(1)]
  by (auto simp: seat_step_def seat_settles_def Let_def limits_only_def intro!: open_limited split: seat_phase.splits gateway_answer.splits)

lemma seat_answers_limited:
  assumes "run_ok q s" "limited_end s" "limits_only [(i, a)]" "graph_tasks (rq_tasks q)"
  shows "limited_end (seat_answers q i a s)"
proof (cases "rw_result s \<noteq> None \<or> length (rw_seats s) \<le> i \<or> se_phase (rw_seats s ! i) = Seat_Done")
  case False
  let ?s = "seat_step q i a s"
  have "run_ok q (?s\<lparr>rw_seats := []\<rparr>)" if "wave_done ?s"
    using closed_wave_ok[OF seat_step_ok[OF assms(1)] that] False by simp
  with next_wave_limited[of q "?s\<lparr>rw_seats := []\<rparr>"] seat_step_limited[of s i a q] False assms(3,4) show ?thesis
    by (auto simp: seat_answers_def Let_def)
qed (use assms in \<open>auto simp: seat_answers_def\<close>)

lemma review_run_limited:
  "run_ok q s \<Longrightarrow> limited_end s \<Longrightarrow> limits_only as \<Longrightarrow> graph_tasks (rq_tasks q) \<Longrightarrow> limited_end (review_run q as s)"
proof (induction as arbitrary: s)
  case (Cons x as)
  obtain i a where x: "x = (i, a)" by fastforce
  have "limits_only [(i, a)]" "limits_only as" using Cons.prems(3) x by (simp_all add: limits_only_def)
  with Cons x show ?case by (simp add: seat_answers_ok seat_answers_limited)
qed simp


section \<open>The panels\<close>

definition blank_prose :: panel_prose where
  "blank_prose = \<lparr>pr_primary = \<lambda>r. [], pr_rebuttal = \<lambda>a b. [], pr_judge = [], pr_verifier = \<lambda>f. []\<rparr>"

definition panel_params :: "panel_prose \<Rightarrow> review_preset \<Rightarrow> catalog_entry list \<Rightarrow> review_params" where
  "panel_params prose p models =
     \<lparr>rq_tasks = buildCrossReviewTasks prose (preset_panels p), rq_judge = judge_task_name, rq_groupName = ''g'',
      rq_groupInput = ''i'', rq_activeModels = models\<rparr>"

lemma cross_graph: "graph_tasks (buildCrossReviewTasks blank_prose cross_review_panel)"
  by code_simp

lemma research_graph: "graph_tasks (buildCrossReviewTasks blank_prose large_research_panel)"
  by code_simp

lemma panel_graph: "graph_tasks (buildCrossReviewTasks prose (preset_panels p))"
proof -
  have nodes: "map nt_node (buildCrossReviewTasks prose panel) = map nt_node (buildCrossReviewTasks blank_prose panel)"
    "map nt_name (buildCrossReviewTasks prose panel) = map nt_name (buildCrossReviewTasks blank_prose panel)" for panel
    by (simp_all add: buildCrossReviewTasks_def nt_node_def direct_task_def rebuttals_of_def Let_def map_concat comp_def)
  have "graph_tasks (buildCrossReviewTasks blank_prose (preset_panels p))"
    using cross_graph research_graph by (cases p) (simp_all add: preset_panels_def)
  then show ?thesis unfolding graph_tasks_def nodes .
qed

definition three_models :: "catalog_entry list" where
  "three_models = [\<lparr>ce_slug = ''claude-opus'', ce_provider = ''anthropic''\<rparr>,
     \<lparr>ce_slug = ''gemini-3-1-pro-high'', ce_provider = ''google''\<rparr>, \<lparr>ce_slug = ''codex'', ce_provider = ''openai''\<rparr>]"

definition two_limits :: "(nat \<times> gateway_answer) list" where
  "two_limits = [(0, Refused ''429''), (1, Refused ''429''), (0, Answered ''a''), (1, Answered ''b'')]"

definition diff_review :: review_params where
  "diff_review = panel_params blank_prose Diff_Pr_Review three_models"

definition limited_run :: review_state where
  "limited_run = review_run diff_review two_limits (begin_review diff_review)"

text \<open>
  two seats may fall back to the same model, although each excludes the models of the others: while the first
  fallback call runs, the model it tries is not yet claimed. Both primaries of the standard panel meet their limit and
  are answered by the one model that is left: the two independent reviews come from one reviewer.
\<close>

theorem two_seats_share_fallback:
  "map (\<lambda>p. (rp_name p, rp_model p)) (rw_participants (review_run diff_review two_limits (begin_review diff_review))) =
    [(''Opus primary'', ''codex''), (''Gemini primary'', ''codex'')]"
  by code_simp

section \<open>Witnesses\<close>

lemma diff_distinct: "distinct (map nt_name (rq_tasks diff_review))"
  using panel_graph by (simp add: diff_review_def panel_params_def graph_tasks_def)

lemma limited_run_calls:
  "rw_calls limited_run \<noteq> [] \<and> (let (t, m, p) = last (rw_calls limited_run) in
     nt_name t = ''Gemini rebuts Opus'' \<and> nt_dependsOn t = [''Opus primary''] \<and> rq_judge diff_review \<noteq> nt_name t)"
  by code_simp

lemma calls_follow_dependencies_witness: "jhas (rw_outputs limited_run) ''Opus primary''"
proof -
  obtain t m p where c: "last (rw_calls limited_run) = (t, m, p)" by (metis prod_cases3)
  then have "(t, m, p) \<in> set (rw_calls limited_run)" using limited_run_calls last_in_set[of "rw_calls limited_run"] by simp
  from calls_follow_dependencies[OF diff_distinct _ this, of two_limits] limited_run_calls c show ?thesis
    by (auto simp: limited_run_def)
qed

lemma review_always_ends_witness:
  "length two_limits \<le> 20 \<and> (case rw_result limited_run of None \<Rightarrow> \<exists>i. in_flight limited_run i | Some r \<Rightarrow> True)"
proof -
  have "effective diff_review (begin_review diff_review) two_limits" by code_simp
  from review_always_ends[OF this] have "length two_limits \<le> length (rq_tasks diff_review) * (1 + length (rq_activeModels diff_review))"
    "rw_result limited_run \<noteq> None \<or> (\<exists>i. in_flight limited_run i)" by (simp_all add: limited_run_def)
  moreover have "length (rq_tasks diff_review) * (1 + length (rq_activeModels diff_review)) = 20" by code_simp
  ultimately show ?thesis by (auto split: option.split)
qed

definition verify_params :: review_params where
  "verify_params =
     \<lparr>rq_tasks = [buildSingleVerifierTask blank_prose ''m'' None], rq_judge = verifier_name, rq_groupName = [],
      rq_groupInput = [], rq_activeModels = []\<rparr>"

definition clean_verdict :: string where
  "clean_verdict = [CHR 0x7B, CHR 0x22] @ ''action_points'' @ [CHR 0x22] @ '':[]'' @ [CHR 0x7D]"

definition verified_run :: review_state where
  "verified_run = review_run verify_params [(0, Answered clean_verdict)] (begin_review verify_params)"

lemma verified_result: "rw_result verified_run \<noteq> None \<and> rv_converged (the (rw_result verified_run))"
  by code_simp

lemma verify_graph: "graph_tasks (rq_tasks verify_params)"
  by code_simp



end
