(* ===== verification/Event_Map.thy ===== *)
theory Event_Map
  imports Review_Panel Json_Parse
begin

text \<open>
  From a webhook event to a review (\<open>github-event-map.ts\<close> and \<open>gitlab-event-map.ts\<close> of
  \<open>server/services/consilium\<close>). A payload is a JSON value of any shape.
\<close>

section \<open>Reading a payload\<close>

fun asRecord :: "json option \<Rightarrow> payload option" where
  "asRecord (Some (JObj m)) = Some m"
| "asRecord (Some (JArr xs)) = Some []"
| "asRecord _ = None"

definition rec_get :: "payload option \<Rightarrow> string \<Rightarrow> json option" where
  "rec_get r k = (case r of None \<Rightarrow> None | Some m \<Rightarrow> jget m k)"

definition rec_str :: "payload option \<Rightarrow> string \<Rightarrow> string option" where
  "rec_str r k = (case rec_get r k of Some (JStr t) \<Rightarrow> Some t | _ \<Rightarrow> None)"

definition rec_num :: "payload option \<Rightarrow> string \<Rightarrow> rat option" where
  "rec_num r k =
     (case rec_get r k of
        Some (JNum q) \<Rightarrow> Some q
      | Some (JStr t) \<Rightarrow>
          if t \<noteq> [] \<and> list_all (\<lambda>c. digit_val c \<noteq> None) t then map_option of_nat (parse_digits None t) else None
      | _ \<Rightarrow> None)"

definition text_or :: "string \<Rightarrow> string option \<Rightarrow> string" where
  "text_or d t = (case t of None \<Rightarrow> d | Some x \<Rightarrow> x)"

definition nonempty_or :: "string \<Rightarrow> string \<Rightarrow> string" where
  "nonempty_or d t = (if t = [] then d else t)"

definition isRealSha :: "string option \<Rightarrow> bool" where
  "isRealSha v = (case v of None \<Rightarrow> False | Some t \<Rightarrow> sha_text t \<and> \<not> list_all (\<lambda>c. c = CHR ''0'') t)"

section \<open>Labels\<close>

definition event_label_max :: nat where "event_label_max = 200"

definition sanitizeEventLabel :: "string \<Rightarrow> string" where
  "sanitizeEventLabel value = take event_label_max (trim (one_space (replace_runs control_char False value)))"

text \<open>The GitLab copy: its class holds a space and a dash, not the control characters.\<close>

definition gitlab_sanitizeEventLabel :: "string \<Rightarrow> string" where
  "gitlab_sanitizeEventLabel value =
     take event_label_max (trim (one_space (replace_runs (\<lambda>c. c = CHR '' '' \<or> c = CHR ''-'') False value)))"

section \<open>The mappings\<close>

record review_mapping =
  mp_preset :: review_preset
  mp_ref :: string
  mp_baseline :: "string option"
  mp_label :: string

datatype map_result = Map_Review review_mapping | Map_Noop string

definition pr_reviewable_actions :: "string list" where
  "pr_reviewable_actions = [''opened'', ''synchronize'', ''reopened'']"

definition mr_reviewable_actions :: "string list" where
  "mr_reviewable_actions = [''open'', ''update'', ''reopen'']"

definition quoted :: "string \<Rightarrow> string" where
  "quoted t = [CHR 0x22] @ t @ [CHR 0x22]"

definition numbered :: "string \<Rightarrow> rat option \<Rightarrow> string \<Rightarrow> string" where
  "numbered kind n title =
     kind @ (case n of None \<Rightarrow> ''?'' | Some q \<Rightarrow> show_number q) @ (if title \<noteq> [] then '': '' @ title else [])"

definition branch_of :: "string \<Rightarrow> string" where
  "branch_of ref = (if starts ''refs/heads/'' ref then drop (length ''refs/heads/'') ref else [])"

text \<open>A push, the same for both: \<open>repo\<close> is where the default branch is named.\<close>

definition map_push :: "(string \<Rightarrow> string) \<Rightarrow> string \<Rightarrow> payload option \<Rightarrow> map_result" where
  "map_push label repo body =
     (let ref = text_or [] (rec_str body ''ref''); branch = branch_of ref
      in if branch = [] then Map_Noop (''push ref '' @ quoted (nonempty_or ''?'' ref) @ '' is not a branch ref'')
         else
           (let def_branch = text_or [] (rec_str (asRecord (rec_get body repo)) ''default_branch'')
            in if def_branch = [] \<or> branch \<noteq> def_branch
               then Map_Noop (''push to non-default branch '' @ quoted branch @ '' is not reviewed'')
               else
                 (case rec_str body ''after'' of
                    None \<Rightarrow> Map_Noop ''push after sha missing or not a valid commit id''
                  | Some aft \<Rightarrow>
                      if \<not> isRealSha (Some aft) then Map_Noop ''push after sha missing or not a valid commit id''
                      else if isRealSha (rec_str body ''before'')
                      then Map_Review \<lparr>mp_preset = Diff_Pr_Review, mp_ref = aft, mp_baseline = rec_str body ''before'',
                             mp_label = label (''post-merge push to '' @ branch @ '' ('' @ take 7 aft @ '')'')\<rparr>
                      else Map_Review \<lparr>mp_preset = Sdlc_Cross_Review, mp_ref = aft, mp_baseline = None,
                             mp_label = label (''push to '' @ branch @ '' ('' @ take 7 aft @ '')'')\<rparr>)))"

definition mapGitHubEventToReview :: "string \<Rightarrow> json option \<Rightarrow> map_result" where
  "mapGitHubEventToReview eventType gh =
     (let body = asRecord gh
      in if eventType = ''ping'' then Map_Noop ''ping event acknowledged (webhook connectivity check)''
         else if eventType = ''pull_request''
         then
           (let action = text_or [] (rec_str body ''action'')
            in if action \<notin> set pr_reviewable_actions
               then Map_Noop (''pull_request action '' @ quoted (nonempty_or ''?'' action) @ '' is not reviewable'')
               else
                 (let pr = asRecord (rec_get body ''pull_request'');
                      head = rec_str (asRecord (rec_get pr ''head'')) ''sha'';
                      base = rec_str (asRecord (rec_get pr ''base'')) ''sha''
                  in if \<not> isRealSha head then Map_Noop ''pull_request head sha missing or not a valid commit id''
                     else if \<not> isRealSha base then Map_Noop ''pull_request base sha missing or not a valid commit id''
                     else
                       (let n = (case rec_num body ''number'' of None \<Rightarrow> rec_num pr ''number'' | Some q \<Rightarrow> Some q)
                        in Map_Review \<lparr>mp_preset = Diff_Pr_Review, mp_ref = the head, mp_baseline = base,
                             mp_label = sanitizeEventLabel (numbered ''PR #'' n (text_or [] (rec_str pr ''title'')))\<rparr>)))
         else if eventType = ''push'' then map_push sanitizeEventLabel ''repository'' body
         else Map_Noop (''event '' @ quoted (nonempty_or ''?'' eventType) @ '' is not mapped to a review''))"

definition mapGitLabEventToReview :: "string \<Rightarrow> json option \<Rightarrow> map_result" where
  "mapGitLabEventToReview eventType gl =
     (let body = asRecord gl
      in if eventType = ''Merge Request Hook''
         then
           (let attrs = asRecord (rec_get body ''object_attributes''); action = text_or [] (rec_str attrs ''action'')
            in if action \<notin> set mr_reviewable_actions
               then Map_Noop (''merge_request action '' @ quoted (nonempty_or ''?'' action) @ '' is not reviewable'')
               else
                 (let head = rec_str (asRecord (rec_get attrs ''last_commit'')) ''id''
                  in if \<not> isRealSha head then Map_Noop ''merge_request last_commit id missing or not a valid commit id''
                     else
                       (let base = rec_str (asRecord (rec_get attrs ''diff_refs'')) ''base_sha''
                        in Map_Review \<lparr>mp_preset = Diff_Pr_Review, mp_ref = the head,
                             mp_baseline = (if isRealSha base then base else None),
                             mp_label = gitlab_sanitizeEventLabel
                               (numbered ''MR !'' (rec_num attrs ''iid'') (text_or [] (rec_str attrs ''title'')))\<rparr>)))
         else if eventType = ''Push Hook'' then map_push gitlab_sanitizeEventLabel ''project'' body
         else Map_Noop (''event '' @ quoted (nonempty_or ''?'' eventType) @ '' is not mapped to a review''))"

section \<open>Facts\<close>

definition commit_id :: "string \<Rightarrow> bool" where
  "commit_id t \<longleftrightarrow>
     7 \<le> length t \<and> length t \<le> 64 \<and> set t \<subseteq> set ''0123456789abcdef'' \<and> set t \<noteq> {CHR ''0''}"

definition commit_mapping :: "review_mapping \<Rightarrow> bool" where
  "commit_mapping m \<longleftrightarrow>
     commit_id (mp_ref m) \<and> (case mp_baseline m of None \<Rightarrow> True | Some b \<Rightarrow> commit_id b) \<and> length (mp_label m) \<le> 200 \<and>
     (mp_preset m = Diff_Pr_Review \<or> mp_preset m = Sdlc_Cross_Review \<and> mp_baseline m = None)"

lemma real_sha_commit_id:
  assumes "isRealSha (Some t)"
  shows "commit_id t"
proof -
  have t: "7 \<le> length t" "length t \<le> 64" "\<forall>c \<in> set t. hex_lower c" "\<exists>c \<in> set t. c \<noteq> CHR ''0''"
    using assms by (simp_all add: isRealSha_def sha_text_def list_all_iff)
  have "set t \<subseteq> set ''0123456789abcdef''"
  proof
    fix c assume "c \<in> set t"
    with t(3) have "hex_lower c" by blast
    then show "c \<in> set ''0123456789abcdef''" unfolding hex_lower_def .
  qed
  moreover have "set t \<noteq> {CHR ''0''}" using t(4) by blast
  ultimately show ?thesis using t(1,2) unfolding commit_id_def by blast
qed

lemma label_length [simp]: "length (sanitizeEventLabel t) \<le> 200" "length (gitlab_sanitizeEventLabel t) \<le> 200"
  by (simp_all add: sanitizeEventLabel_def gitlab_sanitizeEventLabel_def event_label_max_def)

lemma label_chars: "set (sanitizeEventLabel t) \<subseteq> {c. \<not> control_char c}"
proof -
  have "set (replace_runs control_char False t) \<subseteq> {c. \<not> control_char c}"
    using replace_runs_set[of control_char False t] by (auto simp: control_char_def)
  then have "set (one_space (replace_runs control_char False t)) \<subseteq> {c. \<not> control_char c}"
    using replace_runs_set[of blank False "replace_runs control_char False t"] by (auto simp: control_char_def one_space_def)
  then show ?thesis
    using trim_set[of "one_space (replace_runs control_char False t)"] set_take_subset[of event_label_max]
    by (fastforce simp: sanitizeEventLabel_def)
qed

lemma push_commit:
  assumes "\<And>t. length (label t) \<le> 200" "map_push label repo body = Map_Review m"
  shows "commit_mapping m \<and> (\<exists>t. mp_label m = label t)"
  using assms by (auto simp: map_push_def Let_def commit_mapping_def real_sha_commit_id split: if_splits option.splits)

lemma diff_commit:
  assumes "isRealSha h" "length t \<le> 200"
  shows "isRealSha b \<Longrightarrow> commit_mapping \<lparr>mp_preset = Diff_Pr_Review, mp_ref = the h, mp_baseline = b, mp_label = t\<rparr>"
    "commit_mapping \<lparr>mp_preset = Diff_Pr_Review, mp_ref = the h, mp_baseline = None, mp_label = t\<rparr>"
proof -
  have "h = Some t \<Longrightarrow> commit_id t" for t using assms(1) by (simp add: real_sha_commit_id)
  moreover have "h \<noteq> None" using assms(1) by (cases h) (simp_all add: isRealSha_def)
  ultimately show "isRealSha b \<Longrightarrow> commit_mapping \<lparr>mp_preset = Diff_Pr_Review, mp_ref = the h, mp_baseline = b, mp_label = t\<rparr>"
    "commit_mapping \<lparr>mp_preset = Diff_Pr_Review, mp_ref = the h, mp_baseline = None, mp_label = t\<rparr>"
    using assms(2) by (auto simp: commit_mapping_def real_sha_commit_id split: option.splits)
qed

text \<open>
  C40: whatever a webhook sends, a review it is mapped to targets a real commit: the reference, and the baseline if there
  is one, is a hexadecimal object id that is not zero; the label has at most 200 characters and, from GitHub, no control
  character; without a baseline only a whole-repository review of a push is made, or the diff review of a merge request.
\<close>

theorem mapped_review_has_commit:
  "(mapGitHubEventToReview e v = Map_Review m \<longrightarrow> commit_mapping m \<and> set (mp_label m) \<subseteq> {c. \<not> control_char c}) \<and>
   (mapGitLabEventToReview e v = Map_Review m \<longrightarrow> commit_mapping m)"
proof (intro conjI impI)
  assume r: "mapGitHubEventToReview e v = Map_Review m"
  then consider (push) "map_push sanitizeEventLabel ''repository'' (asRecord v) = Map_Review m"
    | (pr) h b t where "isRealSha h" "isRealSha b"
        "m = \<lparr>mp_preset = Diff_Pr_Review, mp_ref = the h, mp_baseline = b, mp_label = sanitizeEventLabel t\<rparr>"
    by (auto simp: mapGitHubEventToReview_def Let_def split: if_splits)
  then have "commit_mapping m \<and> (\<exists>t. mp_label m = sanitizeEventLabel t)"
  proof cases
    case push
    then show ?thesis by (rule push_commit[OF label_length(1)])
  next
    case (pr h b t)
    then show ?thesis by (simp add: diff_commit) blast
  qed
  then show "commit_mapping m" "set (mp_label m) \<subseteq> {c. \<not> control_char c}"
    by (blast, metis label_chars)
next
  assume r: "mapGitLabEventToReview e v = Map_Review m"
  then consider (push) "map_push gitlab_sanitizeEventLabel ''project'' (asRecord v) = Map_Review m"
    | (mr) h b t where "isRealSha h" "b = None \<or> isRealSha b"
        "m = \<lparr>mp_preset = Diff_Pr_Review, mp_ref = the h, mp_baseline = b, mp_label = gitlab_sanitizeEventLabel t\<rparr>"
    by (auto simp: mapGitLabEventToReview_def Let_def split: if_splits)
  then show "commit_mapping m"
  proof cases
    case push
    then show ?thesis using push_commit[of gitlab_sanitizeEventLabel, OF label_length(2)] by blast
  next
    case (mr h b t)
    then show ?thesis by (auto simp: diff_commit)
  qed
qed

definition sample_sha :: string where "sample_sha = ''aaaaaaa''"

definition sample_mr :: "string \<Rightarrow> json" where
  "sample_mr title = JObj [(''object_attributes'', JObj [(''action'', JStr ''open''), (''iid'', JNum 5), (''title'', JStr title),
     (''last_commit'', JObj [(''id'', JStr sample_sha)])])]"

definition sample_pr :: "string \<Rightarrow> json" where
  "sample_pr title = JObj [(''action'', JStr ''opened''), (''number'', JNum 5), (''pull_request'', JObj [(''title'', JStr title),
     (''head'', JObj [(''sha'', JStr sample_sha)]), (''base'', JObj [(''sha'', JStr sample_sha)])])]"

lemma mapped_review_has_commit_witness: "commit_id sample_sha"
proof -
  obtain m where m: "mapGitHubEventToReview ''pull_request'' (Some (sample_pr ''t'')) = Map_Review m" "mp_ref m = sample_sha"
    by (simp add: mapGitHubEventToReview_def sample_pr_def Let_def rec_str_def rec_get_def rec_num_def text_or_def
        isRealSha_def sha_text_def sample_sha_def hex_lower_def pr_reviewable_actions_def)
  with mapped_review_has_commit[of "''pull_request''" "Some (sample_pr ''t'')" m] show ?thesis by (simp add: commit_mapping_def)
qed

text \<open>
  the GitLab copy of the label sanitiser does not do what its comment says: it replaces dashes and keeps control
  characters. A title with an escape character reaches the label unchanged, and a dash in it becomes a space; from
  GitHub the same title loses the control character and keeps the dash.
\<close>

theorem gitlab_label_keeps_controls:
  "mapGitLabEventToReview ''Merge Request Hook'' (Some (sample_mr (''a-b'' @ [CHR 0x1B] @ ''c''))) =
     Map_Review \<lparr>mp_preset = Diff_Pr_Review, mp_ref = sample_sha, mp_baseline = None, mp_label = ''MR !5: a b'' @ [CHR 0x1B] @ ''c''\<rparr> \<and>
   mapGitHubEventToReview ''pull_request'' (Some (sample_pr (''a-b'' @ [CHR 0x1B] @ ''c''))) =
     Map_Review \<lparr>mp_preset = Diff_Pr_Review, mp_ref = sample_sha, mp_baseline = Some sample_sha, mp_label = ''PR #5: a-b c''\<rparr>"
  by code_simp

end
