(* ===== verification/Repo_Guard.thy ===== *)
theory Repo_Guard
  imports Review_Panel "HOL-Library.Sublist"
begin

text \<open>
  Where a review may read (\<open>repo-allowlist.ts\<close>, \<open>ref-validator.ts\<close> of \<open>server/services/consilium\<close>,
  \<open>assertRepoIsProjectWorkspace\<close> of \<open>review-factory.ts\<close>). What \<open>realpathSync\<close> answers is an argument, \<open>None\<close> when
  it throws.
\<close>

section \<open>Paths\<close>

record fs_env =
  fe_realpath :: "string \<Rightarrow> string option"
  fe_exists :: "string \<Rightarrow> bool"
  fe_cwd :: string

text \<open>Node's \<open>path.resolve\<close> of one argument.\<close>

definition path_resolve :: "string \<Rightarrow> string \<Rightarrow> string" where
  "path_resolve cwd p =
     slash # join_slash (norm_segments False [] (split_slash [] (if p \<noteq> [] \<and> hd p = slash then p else cwd @ slash # p)))"

definition realResolve :: "fs_env \<Rightarrow> string \<Rightarrow> string" where
  "realResolve env p = (case fe_realpath env p of Some r \<Rightarrow> r | None \<Rightarrow> path_resolve (fe_cwd env) p)"

section \<open>The allowlist\<close>

definition denied_paths :: "string list" where
  "denied_paths = [''/etc'', ''/proc'', ''/sys'', ''/dev'', ''/boot'', ''/run'', ''/root'', ''/var/run/docker.sock'', ''/run/secrets'']"

definition path_denied :: "string \<Rightarrow> string \<Rightarrow> bool" where
  "path_denied resolved denied \<longleftrightarrow> resolved = denied \<or> starts (denied @ [slash]) resolved"

definition assertNotDenied :: "string \<Rightarrow> string option" where
  "assertNotDenied resolved =
     (case find (path_denied resolved) denied_paths of
        None \<Rightarrow> None
      | Some d \<Rightarrow> Some (''[repo-allowlist] Path '' @ [CHR 0x22] @ resolved @ [CHR 0x22] @ '' matches a denied system path '' @
          [CHR 0x22] @ d @ [CHR 0x22]))"

definition isWithinRoot :: "string \<Rightarrow> string \<Rightarrow> bool" where
  "isWithinRoot resolved base \<longleftrightarrow>
     (let normalized = (if base \<noteq> [] \<and> last base = slash then base else base @ [slash])
      in resolved = base \<or> starts normalized resolved)"

definition assertAllowedRepoPath :: "fs_env \<Rightarrow> string \<Rightarrow> string list \<Rightarrow> string + string" where
  "assertAllowedRepoPath env repoPath allowedRoots =
     (if allowedRoots = [] then Inl (''[repo-allowlist] allowlist is empty '' @ [em_dash] @ '' fail-closed, no repo path is permitted'')
      else
        (let resolved = realResolve env repoPath
         in if index_of ''..'' resolved \<noteq> None
            then Inl (''[repo-allowlist] Path traversal detected in resolved path: '' @ resolved)
            else
              (case assertNotDenied resolved of
                 Some e \<Rightarrow> Inl e
               | None \<Rightarrow>
                   if list_ex (\<lambda>base. isWithinRoot resolved (realResolve env base)) allowedRoots then Inr resolved
                   else Inl (''[repo-allowlist] Path '' @ [CHR 0x22] @ resolved @ [CHR 0x22] @ '' is outside every allowed repo root''))))"

text \<open>A workspace without a path is skipped.\<close>

definition assertRepoIsProjectWorkspace :: "fs_env \<Rightarrow> string list \<Rightarrow> string \<Rightarrow> string option" where
  "assertRepoIsProjectWorkspace env workspaces resolved =
     (if list_ex (\<lambda>w. w \<noteq> [] \<and> isWithinRoot resolved (realResolve env w)) workspaces then None
      else Some (''[project-workspace] repoPath '' @ [CHR 0x22] @ resolved @ [CHR 0x22] @ '' is not a workspace of this project''))"

section \<open>References\<close>

definition ref_char :: "char \<Rightarrow> bool" where
  "ref_char c \<longleftrightarrow> ascii_alnum c \<or> c \<in> {CHR ''.'', CHR ''_'', CHR ''/'', CHR ''-''}"

definition review_ref :: "string \<Rightarrow> bool" where
  "review_ref t \<longleftrightarrow>
     \<not> starts ''-'' t \<and> \<not> starts ''/'' t \<and> index_of ''..'' t = None \<and> index_of [CHR ''@'', CHR ''{''] t = None \<and> list_ex ascii_alnum t \<and>
     list_all ref_char t \<and> 1 \<le> length t \<and> length t \<le> 255"

definition validateReviewRef :: "string \<Rightarrow> string + string" where
  "validateReviewRef ref = (if review_ref ref then Inr ref else Inl ''ref is not a valid branch/revision name'')"

section \<open>Components of a path\<close>

definition components :: "string \<Rightarrow> string list" where
  "components p = filter (\<lambda>s. s \<noteq> []) (split_slash [] p)"

text \<open>What \<open>realpathSync\<close> answers: absolute, no empty and no dot components, no slash at the end.\<close>

definition canonical_path :: "string \<Rightarrow> bool" where
  "canonical_path p \<longleftrightarrow> p = slash # join_slash (components p) \<and> ''.'' \<notin> set (components p) \<and> ''..'' \<notin> set (components p)"

lemma split_slash_ne [simp]: "split_slash acc p \<noteq> []"
  by (induction acc p rule: split_slash.induct) auto

lemma split_slash_app: "split_slash acc (p @ slash # q) = split_slash acc p @ split_slash [] q"
  by (induction acc p rule: split_slash.induct) auto

lemma split_slash_word: "slash \<notin> set p \<Longrightarrow> split_slash acc p = [rev acc @ p]"
  by (induction p arbitrary: acc) auto

lemma split_slash_no_slash: "s \<in> set (split_slash acc p) \<Longrightarrow> slash \<notin> set acc \<Longrightarrow> slash \<notin> set s"
  by (induction acc p rule: split_slash.induct) (auto split: if_splits)

lemma split_join: "ss \<noteq> [] \<Longrightarrow> \<forall>s \<in> set ss. slash \<notin> set s \<Longrightarrow> split_slash [] (join_slash ss) = ss"
  by (induction ss rule: join_slash.induct) (simp_all add: split_slash_app split_slash_word)

lemma components_app: "components (p @ slash # q) = components p @ components q"
  by (simp add: components_def split_slash_app)

lemma components_slash [simp]: "components (slash # p) = components p" "components [] = []"
  by (simp_all add: components_def)

lemma components_join: "\<forall>s \<in> set ss. slash \<notin> set s \<and> s \<noteq> [] \<Longrightarrow> components (join_slash ss) = ss"
  by (cases "ss = []") (simp_all add: components_def split_join)

lemma components_no_slash: "s \<in> set (components p) \<Longrightarrow> slash \<notin> set s \<and> s \<noteq> []"
  using split_slash_no_slash[of s "[]" p] by (auto simp: components_def)

lemma starts_iff: "starts p t \<longleftrightarrow> (\<exists>q. t = p @ q)"
  unfolding starts_def by (metis append_eq_conv_conj append_take_drop_id)

lemma within_components:
  assumes "isWithinRoot r base"
  shows "prefix (components base) (components r)"
proof -
  let ?n = "if base \<noteq> [] \<and> last base = slash then base else base @ [slash]"
  have "r = base \<or> starts ?n r" using assms unfolding isWithinRoot_def Let_def .
  then consider "r = base" | q where "r = ?n @ q" unfolding starts_iff by blast
  then show ?thesis
  proof cases
    case 2
    obtain p where p: "?n = p @ [slash]" "components base = components p"
    proof (cases "base \<noteq> [] \<and> last base = slash")
      case True
      then have "base = butlast base @ [slash]" by (metis append_butlast_last_id)
      with True that[of "butlast base"] components_app[of "butlast base" "[]"] show ?thesis by simp
    next
      case False
      with that[of base] show ?thesis by simp
    qed
    then have "components r = components base @ components q" unfolding 2 p(1) by (simp add: components_app p(2))
    then show ?thesis by simp
  qed simp
qed

lemma join_slash_app: "a \<noteq> [] \<Longrightarrow> b \<noteq> [] \<Longrightarrow> join_slash (a @ b) = join_slash a @ slash # join_slash b"
  by (induction a rule: join_slash.induct) (auto simp: neq_Nil_conv)

lemma canonical_denied:
  assumes "canonical_path r" "canonical_path d" "components d \<noteq> []" "prefix (components d) (components r)"
  shows "path_denied r d"
proof -
  obtain q where q: "components r = components d @ q" using assms(4) by (auto simp: prefix_def)
  have r: "r = slash # join_slash (components d @ q)" using assms(1) q by (simp add: canonical_path_def)
  have d: "d = slash # join_slash (components d)" using assms(2) by (simp add: canonical_path_def)
  show ?thesis
  proof (cases "q = []")
    case True
    then show ?thesis using r d by (simp add: path_denied_def)
  next
    case False
    then have "r = d @ [slash] @ join_slash q" using r d assms(3) by (simp add: join_slash_app)
    then show ?thesis by (auto simp: path_denied_def starts_iff)
  qed
qed

lemma norm_segments_clean:
  "set acc \<subseteq> A \<Longrightarrow> set ss \<subseteq> A \<Longrightarrow> ''..'' \<notin> set acc \<Longrightarrow>
     set (norm_segments False acc ss) \<subseteq> A \<and> ''..'' \<notin> set (norm_segments False acc ss)"
  by (induction "False" acc ss rule: norm_segments.induct) (auto split: list.splits)

lemma norm_segments_dots:
  "[] \<notin> set acc \<Longrightarrow> ''.'' \<notin> set acc \<Longrightarrow> [] \<notin> set (norm_segments up acc ss) \<and> ''.'' \<notin> set (norm_segments up acc ss)"
  by (induction up acc ss rule: norm_segments.induct) (auto split: list.splits)

lemma path_resolve_canonical: "canonical_path (path_resolve cwd p)"
proof -
  define q where "q = (if p \<noteq> [] \<and> hd p = slash then p else cwd @ slash # p)"
  define ss where "ss = norm_segments False [] (split_slash [] q)"
  have "set ss \<subseteq> {s. slash \<notin> set s} \<and> ''..'' \<notin> set ss"
    unfolding ss_def by (rule norm_segments_clean) (use split_slash_no_slash[of _ "[]" q] in auto)
  moreover have "[] \<notin> set ss \<and> ''.'' \<notin> set ss" unfolding ss_def by (rule norm_segments_dots) simp_all
  ultimately have "components (join_slash ss) = ss" by (intro components_join) auto
  with \<open>set ss \<subseteq> _ \<and> _\<close> \<open>[] \<notin> set ss \<and> _\<close> show ?thesis
    by (simp add: canonical_path_def path_resolve_def flip: q_def ss_def)
qed

lemma denied_canonical: "d \<in> set denied_paths \<Longrightarrow> canonical_path d \<and> components d \<noteq> []"
  by (auto simp: denied_paths_def canonical_path_def components_def slash_def)

text \<open>
  C26: a path that passes the allowlist is, component by component, below one of the allowed roots, in none of the denied
  system directories, and without a step upwards: a root is not matched by a sibling whose name it begins. The operating
  system is assumed to answer canonical absolute paths.
\<close>

theorem allowed_repo_confined:
  assumes "\<And>p r. fe_realpath env p = Some r \<Longrightarrow> canonical_path r"
    and "assertAllowedRepoPath env repoPath allowedRoots = Inr r"
  shows "(\<exists>allowed \<in> set allowedRoots. prefix (components (realResolve env allowed)) (components r)) \<and>
    (\<forall>d \<in> set denied_paths. \<not> prefix (components d) (components r)) \<and> ''..'' \<notin> set (components r)"
proof -
  have r: "r = realResolve env repoPath" "assertNotDenied r = None"
    "list_ex (\<lambda>b. isWithinRoot r (realResolve env b)) allowedRoots"
    using assms(2) by (auto simp: assertAllowedRepoPath_def Let_def split: if_splits option.splits)
  have c: "canonical_path r"
    unfolding r(1) realResolve_def using assms(1) path_resolve_canonical by (auto split: option.split)
  have "\<not> path_denied r d" if "d \<in> set denied_paths" for d
    using r(2) that by (auto simp: assertNotDenied_def find_None_iff split: option.splits)
  then have "\<forall>d \<in> set denied_paths. \<not> prefix (components d) (components r)"
    using canonical_denied[OF c] denied_canonical by blast
  moreover have "\<exists>allowed \<in> set allowedRoots. prefix (components (realResolve env allowed)) (components r)"
    using r(3) within_components by (auto simp: list_ex_iff)
  ultimately show ?thesis using c by (simp add: canonical_path_def)
qed

definition bare_env :: fs_env where
  "bare_env = \<lparr>fe_realpath = (\<lambda>p. None), fe_exists = (\<lambda>p. False), fe_cwd = ''/srv''\<rparr>"

lemma bare_allowed: "assertAllowedRepoPath bare_env ''app/../api/x'' [''/srv/api''] = Inr ''/srv/api/x''"
  by code_simp

lemma allowed_repo_confined_witness: "\<not> prefix (components ''/etc'') (components ''/srv/api/x'')"
  using allowed_repo_confined[OF _ bare_allowed] by (simp add: bare_env_def denied_paths_def)

lemma sibling_is_refused: "isWithinRoot ''/srv/api-secret'' ''/srv/api'' = False"
  by code_simp

end
