(* ===== verification/Review_Create.thy ===== *)
theory Review_Create
  imports Repo_Guard Review_Outcomes
begin

text \<open>
  Launching a review (\<open>createConsiliumReview\<close> of \<open>server/services/consilium/review-factory.ts\<close>): every check before the
  first write, then the task group, the loop, its secrets and its start. The state is the one of the loop controller -
  loops and task groups - with the columns of a loop that are written at creation and never changed. What the
  workspaces, the skills and the credentials of the project are, the ids, the clocks and the text read from the
  repository are the answers of other systems.
\<close>

section \<open>State\<close>

record spec_provenance =
  sv_specPath :: string
  sv_status :: string
  sv_source :: "(string \<times> string option \<times> string option) option"
  sv_adr :: bool

record role_provenance =
  rq_roleId :: string
  rq_name :: string
  rq_concernId :: string
  rq_cascadeDepth :: nat

record trigger_provenance =
  tv_triggerId :: string
  tv_triggerType :: string
  tv_eventDigest :: string
  tv_firedAt :: string
  tv_eventSummary :: "string option"
  tv_spec :: "spec_provenance option"
  tv_role :: "role_provenance option"

record loop_passport =
  pp_projectId :: string
  pp_createdAt :: int
  pp_instruction :: "string option"
  pp_appliedSkills :: "applied_skill list option"
  pp_provenance :: "trigger_provenance option"
  pp_commitPrefix :: "string option"
  pp_coder :: bool

record review_db =
  rd_ctl :: loop_ctl
  rd_passports :: "(string, loop_passport) jsmap"
  rd_secrets :: "(string \<times> string) list"

section \<open>What is asked, and what others answer\<close>

record create_params =
  cr_projectId :: string
  cr_repoPath :: string
  cr_preset :: review_preset
  cr_createdBy :: string
  cr_maxRounds :: "rat option"
  cr_baseline :: "string option"
  cr_objectiveExtra :: "string option"
  cr_instruction :: "string option"
  cr_skillIds :: "string list"
  cr_secretNames :: "string list option"
  cr_ref :: "string option"
  cr_provenance :: "trigger_provenance option"
  cr_reviewMode :: "review_mode option"
  cr_commitPrefix :: "string option"

record create_env =
  ce_fs :: fs_env
  ce_allowedRepoPaths :: "string list"
  ce_implement :: bool
  ce_loop :: loop_cfg
  ce_prose :: panel_prose
  ce_workspaces :: "string \<Rightarrow> string list"
  ce_credentials :: "string \<Rightarrow> (string option \<times> string) list"
  ce_skill :: "string \<Rightarrow> string \<Rightarrow> skill_row option"
  ce_objective :: "review_preset \<Rightarrow> string \<Rightarrow> string option \<Rightarrow> string option \<Rightarrow> string + string"

record create_ids =
  ci_groupId :: string
  ci_taskIds :: "string list"
  ci_loopId :: string
  ci_now :: int
  ci_world :: loop_world

datatype create_error = Rejected string | Group_Refused edit_error | Loop_Refused string | Start_Failed start_error

section \<open>The checks\<close>

definition large_research_default_max_rounds :: rat where "large_research_default_max_rounds = 4"

text \<open>What the checks settle: the repository, secrets, baseline, reference, skills and the objective.\<close>

record create_plan =
  pl_repo :: string
  pl_secrets :: "string list"
  pl_baseline :: "string option"
  pl_ref :: "string option"
  pl_applied :: "applied_skill list option"
  pl_objective :: string

definition check_create :: "create_env \<Rightarrow> create_params \<Rightarrow> string + create_plan" where
  "check_create env p =
     (case assertAllowedRepoPath (ce_fs env) (cr_repoPath p) (ce_allowedRepoPaths env) of
        Inl e \<Rightarrow> Inl e
      | Inr repo \<Rightarrow>
     (case assertRepoIsProjectWorkspace (ce_fs env) (ce_workspaces env (cr_projectId p)) repo of
        Some e \<Rightarrow> Inl e
      | None \<Rightarrow>
     (case resolveBoundSecretIds (cr_secretNames p) (ce_credentials env (cr_projectId p)) of
        Inl e \<Rightarrow> Inl e
      | Inr secrets \<Rightarrow>
     (case resolveBaseline (cr_preset p) (cr_baseline p) of
        Inl e \<Rightarrow> Inl e
      | Inr baseline \<Rightarrow>
     (case (case cr_ref p of None \<Rightarrow> Inr None | Some r \<Rightarrow> map_sum id Some (validateReviewRef r)) of
        Inl e \<Rightarrow> Inl e
      | Inr ref \<Rightarrow>
     (case resolveSkillDirectives (ce_skill env (cr_projectId p)) (cr_skillIds p) of
        Inl e \<Rightarrow> Inl e
      | Inr skills \<Rightarrow>
          (let composed = composeInstructionWithSkills (cr_instruction p) skills combined_instruction_max_bytes;
               extra = (case ci_combined composed of Some t \<Rightarrow> Some t | None \<Rightarrow> cr_objectiveExtra p)
           in case ce_objective env (cr_preset p) repo extra ref of
                Inl e \<Rightarrow> Inl e
              | Inr objective \<Rightarrow>
                  Inr \<lparr>pl_repo = repo, pl_secrets = secrets, pl_baseline = baseline, pl_ref = ref,
                    pl_applied = (if cr_skillIds p = [] then None else Some (ci_applied composed @ ci_dropped composed)),
                    pl_objective = objective\<rparr>)))))))"

section \<open>The writes\<close>

text \<open>Of the ids the generator gives, the tasks take as many as they are.\<close>

definition review_group :: "create_env \<Rightarrow> create_params \<Rightarrow> create_plan \<Rightarrow> group_params" where
  "review_group env p pl =
     \<lparr>gc_name = buildGroupName (cr_preset p) (pl_repo pl),
      gc_description = ''Consilium '' @ preset_text (cr_preset p) @ '' review of '' @ sanitizeLine (path_basename (pl_repo pl)) 120,
      gc_input = pl_objective pl, gc_tasks = buildCrossReviewTasks (ce_prose env) (preset_panels (cr_preset p)),
      gc_createdBy = Some (cr_createdBy p)\<rparr>"

definition review_rounds :: "create_params \<Rightarrow> nat" where
  "review_rounds p =
     nat (clampRounds (case cr_maxRounds p of
        Some q \<Rightarrow> Some q
      | None \<Rightarrow> if cr_preset p = Large_Research then Some large_research_default_max_rounds else None))"

definition review_loop :: "create_params \<Rightarrow> create_plan \<Rightarrow> create_ids \<Rightarrow> loop_row" where
  "review_loop p pl ids =
     \<lparr>lo_id = ci_loopId ids, lo_groupId = ci_groupId ids, lo_state = Pending, lo_round = 0, lo_maxRounds = review_rounds p,
      lo_repoPath = pl_repo pl, lo_lastReviewedCommit = pl_baseline pl, lo_reviewRef = pl_ref pl,
      lo_reviewGate = (cr_preset p = Large_Research), lo_reviewMode = cr_reviewMode p, lo_currentIterationNumber = None,
      lo_reviewRedrive = None, lo_devGroupId = None, lo_prRef = None, lo_headCommitAtReview = None, lo_openP0 = None,
      lo_error = None, lo_throttledPhase = None, lo_throttledUntil = None, lo_resumeAttempts = 0,
      lo_createdBy = Some (cr_createdBy p), lo_updatedAt = ci_now ids, lo_completedAt = None\<rparr>"

definition review_passport :: "create_env \<Rightarrow> create_params \<Rightarrow> create_plan \<Rightarrow> create_ids \<Rightarrow> loop_passport" where
  "review_passport env p pl ids =
     \<lparr>pp_projectId = cr_projectId p, pp_createdAt = ci_now ids, pp_instruction = cr_instruction p, pp_appliedSkills = pl_applied pl,
      pp_provenance = cr_provenance p, pp_commitPrefix = cr_commitPrefix p, pp_coder = ce_implement env\<rparr>"

definition bindLoopSecrets :: "string \<Rightarrow> string list \<Rightarrow> (string \<times> string) list \<Rightarrow> (string \<times> string) list" where
  "bindLoopSecrets loopId credentials rows = foldl (\<lambda>acc c. sadd (loopId, c) acc) rows credentials"

definition createConsiliumReview :: "create_env \<Rightarrow> create_params \<Rightarrow> create_ids \<Rightarrow> review_db \<Rightarrow> (create_error + string) \<times> review_db" where
  "createConsiliumReview env p ids db =
     (case check_create env p of
        Inl e \<Rightarrow> (Inl (Rejected e), db)
      | Inr pl \<Rightarrow>
          (let c = rd_ctl db; g = review_group env p pl;
               (refused, st) = createTaskGroup (ci_groupId ids) (take (length (gc_tasks g)) (ci_taskIds ids)) g (or_store (lc_orch c));
               c1 = c\<lparr>lc_orch := (lc_orch c)\<lparr>or_store := st\<rparr>\<rparr>
           in case refused of
                Some e \<Rightarrow> (Inl (Group_Refused e), db\<lparr>rd_ctl := c1\<rparr>)
              | None \<Rightarrow>
                  (case createLoop (ci_now ids) (review_loop p pl ids) (lc_store c1) of
                     Inl e \<Rightarrow> (Inl (Loop_Refused e), db\<lparr>rd_ctl := c1\<rparr>)
                   | Inr ls \<Rightarrow>
                       (let (r, c2) = start (ce_loop env) (ci_world ids) (ci_loopId ids) (c1\<lparr>lc_store := ls\<rparr>);
                            db1 = db\<lparr>rd_ctl := c2, rd_passports := jset (ci_loopId ids) (review_passport env p pl ids) (rd_passports db),
                                     rd_secrets := bindLoopSecrets (ci_loopId ids) (pl_secrets pl) (rd_secrets db)\<rparr>
                        in case r of
                             Threw e \<Rightarrow> (Inl (Start_Failed e), db1)
                           | _ \<Rightarrow> (Inr (ci_loopId ids), db1)))))"

end
