(* ===== verification/Review_Create_Facts.thy ===== *)
theory Review_Create_Facts
  imports Review_Create Task_Editor_Facts Loop_Facts
begin

text \<open>
  What launching a review does to the state: it writes everything or nothing, the task group it creates passes the
  validation of the editor, and the loop it starts is confined to the allowlist and the project's workspaces.
\<close>

section \<open>Graphs under new names\<close>

definition relabel :: "(string \<Rightarrow> string) \<Rightarrow> task_node \<Rightarrow> task_node" where
  "relabel f t = \<lparr>tn_id = f (tn_id t), tn_dependsOn = map f (tn_dependsOn t)\<rparr>"

lemma depends_rel_relabel: "depends_rel (map (relabel f) ts) = map_prod f f ` depends_rel ts"
  by (force simp: depends_rel_def relabel_def)

lemma finite_depends_rel: "finite (depends_rel ts)"
proof (rule finite_subset)
  show "depends_rel ts \<subseteq> (tn_id ` set ts) \<times> (\<Union>t \<in> set ts. set (tn_dependsOn t))" by (auto simp: depends_rel_def)
qed simp

lemma validate_relabel:
  assumes d: "distinct (map tn_id ts)" and v: "validateTaskGraph ts = GraphOk" and i: "inj_on f (tn_id ` set ts)"
  shows "validateTaskGraph (map (relabel f) ts) = GraphOk"
proof -
  have ids: "map tn_id (map (relabel f) ts) = map f (map tn_id ts)" by (simp add: relabel_def comp_def)
  have d': "distinct (map tn_id (map (relabel f) ts))" unfolding ids using d i by (auto simp: distinct_map intro: comp_inj_on)
  have known: "\<forall>t \<in> set ts. set (tn_dependsOn t) \<subseteq> tn_id ` set ts" and a: "acyclic (depends_rel ts)"
    using v validate_exact[OF d] by simp_all
  have "Field (depends_rel ts) \<subseteq> tn_id ` set ts" using known by (auto simp: depends_rel_def Field_def)
  then have "\<And>a b. a \<in> Domain (depends_rel ts) \<Longrightarrow> b \<in> Range (depends_rel ts) \<Longrightarrow> f a = f b \<Longrightarrow> a = b"
    using i by (auto simp: Field_def dest!: inj_onD)
  with finite_acyclic_wf[OF finite_depends_rel a] have "wf (map_prod f f ` depends_rel ts)"
    by (intro wf_map_prod_image_Dom_Ran) blast+
  then have "acyclic (depends_rel (map (relabel f) ts))" by (simp add: depends_rel_relabel wf_acyclic)
  moreover have "\<forall>t \<in> set (map (relabel f) ts). set (tn_dependsOn t) \<subseteq> tn_id ` set (map (relabel f) ts)"
    using known by (force simp: relabel_def)
  ultimately show ?thesis using validate_exact[OF d'] by blast
qed

section \<open>Creating the group\<close>

lemma name_index_get:
  "distinct (map (nt_name \<circ> snd) its) \<Longrightarrow> (tid, t) \<in> set its \<Longrightarrow> jget (name_index its) (nt_name t) = Some tid"
proof (induction its rule: rev_induct)
  case (snoc x its)
  obtain i u where x: "x = (i, u)" by force
  have step: "name_index (its @ [(i, u)]) = jset (nt_name u) i (name_index its)" by (simp add: name_index_def)
  show ?case
  proof (cases "(tid, t) = x")
    case True
    with x step show ?thesis by auto
  next
    case False
    then have "nt_name t \<noteq> nt_name u" using snoc.prems x by (auto simp: image_iff)
    moreover have "jget (name_index its) (nt_name t) = Some tid"
      by (rule snoc.IH) (use False snoc.prems x in auto)
    ultimately show ?thesis by (simp add: x step)
  qed
qed simp

lemma resolve_deps_known:
  "\<forall>(tid, t) \<in> set its. \<forall>d \<in> set (nt_dependsOn t). jget names d \<noteq> None \<Longrightarrow>
   resolve_deps names its =
     Inr (map (\<lambda>(tid, t). \<lparr>tn_id = tid, tn_dependsOn = List.map_filter (jget names) (nt_dependsOn t)\<rparr>) its)"
proof (induction its)
  case (Cons x its)
  obtain i u where x: "x = (i, u)" by force
  have "filter (\<lambda>n. jget names n = None) (nt_dependsOn u) = []" using Cons.prems x by (auto simp: filter_empty_conv)
  with Cons x show ?case by (simp add: Let_def)
qed simp

lemma map_filter_known: "\<forall>d \<in> set ds. g d \<noteq> None \<Longrightarrow> List.map_filter g ds = map (\<lambda>d. the (g d)) ds"
  by (induction ds) (auto simp: List.map_filter_simps)

lemma graph_tasks_created:
  assumes g: "graph_tasks (gc_tasks p)" and len: "length tids = length (gc_tasks p)" and dt: "distinct tids"
  shows "\<exists>ns. resolve_deps (name_index (zip tids (gc_tasks p))) (zip tids (gc_tasks p)) = Inr ns \<and>
    validateTaskGraph ns = GraphOk \<and> map tn_id ns = tids"
proof -
  let ?ts = "gc_tasks p"
  let ?its = "zip tids ?ts"
  define f where "f n = the (jget (name_index ?its) n)" for n
  have snd: "map snd ?its = ?ts" "map fst ?its = tids" using len by simp_all
  have dn: "distinct (map nt_name ?ts)" using g by (simp add: graph_tasks_def)
  then have d: "distinct (map (nt_name \<circ> snd) ?its)" using snd(1) by (metis map_map)
  have get: "jget (name_index ?its) (nt_name t) = Some tid" if "(tid, t) \<in> set ?its" for tid t
    using name_index_get[OF d that] .
  have named: "\<exists>tid. (tid, t) \<in> set ?its" if "t \<in> set ?ts" for t using that len by (metis in_set_impl_in_set_zip2)
  have known: "\<forall>t \<in> set ?ts. \<forall>x \<in> set (nt_dependsOn t). jget (name_index ?its) x \<noteq> None"
    using graph_tasksD(1)[OF g] get named by fastforce
  define ns where "ns = map (\<lambda>(tid, t). \<lparr>tn_id = tid, tn_dependsOn = List.map_filter (jget (name_index ?its)) (nt_dependsOn t)\<rparr>) ?its"
  have r: "resolve_deps (name_index ?its) ?its = Inr ns"
    unfolding ns_def by (rule resolve_deps_known) (use known in \<open>auto dest: set_zip_rightD\<close>)
  have "ns = map (\<lambda>(tid, t). relabel f (nt_node t)) ?its"
    unfolding ns_def using known get
    by (auto simp: relabel_def nt_node_def f_def map_filter_known dest: set_zip_rightD)
  also have "\<dots> = map (relabel f) (map nt_node (map snd ?its))" by (simp add: split_def)
  finally have ns: "ns = map (relabel f) (map nt_node ?ts)" using snd(1) by simp
  have dnode: "distinct (map tn_id (map nt_node ?ts))" using dn by (simp add: nt_node_def comp_def)
  have "inj_on f (nt_name ` set ?ts)"
  proof (rule inj_onI, clarsimp)
    fix a b assume a: "a \<in> set ?ts" "b \<in> set ?ts" "f (nt_name a) = f (nt_name b)"
    obtain i j where ij: "(i, a) \<in> set ?its" "(j, b) \<in> set ?its" using a named by blast
    with a(3) have "i = j" by (simp add: f_def get)
    with ij dt len show "nt_name a = nt_name b" by (metis eq_key_imp_eq_value map_fst_zip)
  qed
  then have "inj_on f (tn_id ` set (map nt_node ?ts))" by (simp add: image_image nt_node_def)
  from validate_relabel[OF dnode _ this] g have "validateTaskGraph ns = GraphOk" by (simp add: ns graph_tasks_def)
  moreover have "map tn_id ns = tids" using snd(2) by (simp add: ns_def split_def comp_def)
  ultimately show ?thesis using r by blast
qed

lemma review_group_created:
  assumes ok: "editor_ok s" and ids: "distinct tids" "set tids \<inter> set (jkeys (st_tasks s)) = {}" "new_id_sentinel \<notin> set tids"
    and g: "graph_tasks (gc_tasks p)" and len: "length tids = length (gc_tasks p)"
  shows "\<exists>s'. createTaskGroup gid tids p s = (None, s')"
proof -
  obtain ns where ns: "resolve_deps (name_index (zip tids (gc_tasks p))) (zip tids (gc_tasks p)) = Inr ns"
    "validateTaskGraph ns = GraphOk" "map tn_id ns = tids" using graph_tasks_created[OF g len ids(1)] by blast
  let ?its = "zip tids (gc_tasks p)"
  let ?row = "\<lparr>gp_id = gid, gp_name = gc_name p, gp_description = gc_description p, gp_status = G_Pending, gp_input = gc_input p,
    gp_output = None, gp_createdBy = gc_createdBy p, gp_startedAt = None, gp_completedAt = None\<rparr>"
  let ?s2 = "create_drafts gid 0 ?its (createTaskGroup_row ?row s)"
  let ?us = "map (\<lambda>n. (tn_id n, resolved_row (tn_dependsOn n))) ns"
  have t1: "st_tasks (createTaskGroup_row ?row s) = st_tasks s" by (simp add: createTaskGroup_row_def)
  have fst: "map fst ?its = tids" using len by simp
  have "fst ` set ?its = set tids" using arg_cong[OF fst, of set] by simp
  with create_drafts_ok[OF editor_ok_same[OF t1 ok], of ?its gid 0] ids fst t1
  have ok2: "editor_ok ?s2" and new: "\<forall>k \<in> set tids. \<exists>r. jget (st_tasks ?s2) k = Some r" by auto
  have keys: "map fst ?us = tids" using ns(3) by (simp add: comp_def)
  have "fst ` set ?us \<subseteq> set (jkeys (st_tasks ?s2))"
  proof
    fix k assume "k \<in> fst ` set ?us"
    then have "k \<in> set (map fst ?us)" by (simp only: set_map)
    then have "k \<in> set tids" by (simp only: keys)
    with new show "k \<in> set (jkeys (st_tasks ?s2))" by (metis jget_None_iff option.distinct(1))
  qed
  with update_all_ok[OF editor_okD(1)[OF ok2], of ?us] keys ids(1)
  have "\<exists>s'. update_all ?us ?s2 = (None, s')" by (auto simp: resolved_row_def)
  then show ?thesis by (simp add: createTaskGroup_def Let_def ns)
qed

section \<open>All or nothing\<close>

lemma pending_start:
  assumes "getLoop (lc_store c) i = Some l" "lo_id l = i" "lo_state l = Pending" "i \<notin> set (lc_inFlight c)"
  shows "\<exists>r c'. start cfg w i c = (Row r, c') \<and> r = l\<lparr>lo_state := Building_Context, lo_updatedAt := lw_now w\<rparr> \<and>
    c' = c\<lparr>lc_store := (lc_store c)\<lparr>ls_loops := jset i r (ls_loops (lc_store c))\<rparr>\<rparr>"
  using assms
  by (simp add: start_def tick_def tickInner_def redriveStranded_def auto_resumable_def deriveEvent_def advance_loop_def
      opts_of_def casLoopState_def getLoop_def commit_def runSideEffect_def reduce_def trans_def Let_def)

text \<open>Fresh ids, as the uuid generator gives them.\<close>

definition ids_fresh :: "create_ids \<Rightarrow> review_db \<Rightarrow> bool" where
  "ids_fresh ids db \<longleftrightarrow>
     distinct (ci_taskIds ids) \<and> new_id_sentinel \<notin> set (ci_taskIds ids) \<and>
     set (ci_taskIds ids) \<inter> set (jkeys (st_tasks (or_store (lc_orch (rd_ctl db))))) = {} \<and>
     10 \<le> length (ci_taskIds ids) \<and>
     (\<forall>t \<in> set (jvals (st_tasks (or_store (lc_orch (rd_ctl db))))). tk_groupId t \<noteq> ci_groupId ids) \<and>
     \<not> group_active (lc_store (rd_ctl db)) (ci_groupId ids) \<and>
     getLoop (lc_store (rd_ctl db)) (ci_loopId ids) = None \<and> ci_loopId ids \<notin> set (lc_inFlight (rd_ctl db))"

lemma panel_sizes:
  "length (buildCrossReviewTasks blank_prose cross_review_panel) = 5" "length (buildCrossReviewTasks blank_prose large_research_panel) = 10"
  by code_simp+

lemma panel_length: "length (buildCrossReviewTasks prose (preset_panels p)) = (if p = Large_Research then 10 else 5)"
proof -
  have "length (buildCrossReviewTasks prose panel) = length (buildCrossReviewTasks blank_prose panel)" for panel
    by (simp add: buildCrossReviewTasks_def rebuttals_of_def Let_def length_concat comp_def)
  then show ?thesis using panel_sizes by (cases p) (simp_all add: preset_panels_def)
qed

text \<open>A review as it is created: its row, its passport, and nothing else changed among the loops.\<close>

definition review_created :: "create_env \<Rightarrow> create_params \<Rightarrow> create_ids \<Rightarrow> create_plan \<Rightarrow> review_db \<Rightarrow> review_db \<Rightarrow> bool" where
  "review_created env p ids pl db db' \<longleftrightarrow>
     ls_loops (lc_store (rd_ctl db')) =
       jset (ci_loopId ids) ((review_loop p pl ids)\<lparr>lo_state := Building_Context, lo_updatedAt := lw_now (ci_world ids)\<rparr>)
         (jset (ci_loopId ids) (review_loop p pl ids) (ls_loops (lc_store (rd_ctl db)))) \<and>
     rd_passports db' = jset (ci_loopId ids) (review_passport env p pl ids) (rd_passports db) \<and>
     editor_ok (or_store (lc_orch (rd_ctl db'))) \<and>
     lc_inFlight (rd_ctl db') = lc_inFlight (rd_ctl db) \<and> lc_dispatched (rd_ctl db') = lc_dispatched (rd_ctl db)"

lemma create_cases:
  assumes fresh: "ids_fresh ids db" and ok: "editor_ok (or_store (lc_orch (rd_ctl db)))"
  shows "(case check_create env p of
      Inl e \<Rightarrow> createConsiliumReview env p ids db = (Inl (Rejected e), db)
    | Inr pl \<Rightarrow> \<exists>db'. createConsiliumReview env p ids db = (Inr (ci_loopId ids), db') \<and> review_created env p ids pl db db')"
proof (cases "check_create env p")
  case (Inl e)
  then show ?thesis by (simp add: createConsiliumReview_def)
next
  case (Inr pl)
  let ?c = "rd_ctl db" and ?i = "ci_loopId ids"
  let ?n = "length (gc_tasks (review_group env p pl))"
  let ?tids = "take ?n (ci_taskIds ids)"
  have len: "length ?tids = ?n" using fresh by (simp add: ids_fresh_def review_group_def panel_length)
  have tids: "distinct ?tids" "set ?tids \<inter> set (jkeys (st_tasks (or_store (lc_orch ?c)))) = {}" "new_id_sentinel \<notin> set ?tids"
    using fresh set_take_subset[of ?n "ci_taskIds ids"] unfolding ids_fresh_def by (auto simp only: distinct_take)
  have g: "graph_tasks (gc_tasks (review_group env p pl))" by (simp add: review_group_def panel_graph)
  obtain st where st: "createTaskGroup (ci_groupId ids) ?tids (review_group env p pl) (or_store (lc_orch ?c)) = (None, st)"
    using review_group_created[OF ok tids g len] by blast
  have st_ok: "editor_ok st"
  proof (rule createTaskGroup_ok[OF ok tids _ st])
    fix k t
    assume "jget (st_tasks (or_store (lc_orch ?c))) k = Some t"
    from jget_in[OF this] have "t \<in> set (jvals (st_tasks (or_store (lc_orch ?c))))" by force
    with fresh show "tk_groupId t \<noteq> ci_groupId ids" unfolding ids_fresh_def by blast
  qed
  let ?c1 = "?c\<lparr>lc_orch := (lc_orch ?c)\<lparr>or_store := st\<rparr>\<rparr>"
  let ?ls = "(lc_store ?c)\<lparr>ls_loops := jset ?i (review_loop p pl ids) (ls_loops (lc_store ?c))\<rparr>"
  have row: "(review_loop p pl ids)\<lparr>lo_updatedAt := ci_now ids\<rparr> = review_loop p pl ids" "lo_id (review_loop p pl ids) = ?i"
    "lo_groupId (review_loop p pl ids) = ci_groupId ids" "lo_state (review_loop p pl ids) = Pending"
    by (simp_all add: review_loop_def)
  have ls: "createLoop (ci_now ids) (review_loop p pl ids) (lc_store ?c1) = Inr ?ls"
    using fresh by (simp add: createLoop_def ids_fresh_def row)
  obtain r c' where r: "start (ce_loop env) (ci_world ids) ?i (?c1\<lparr>lc_store := ?ls\<rparr>) = (Row r, c')"
    "r = (review_loop p pl ids)\<lparr>lo_state := Building_Context, lo_updatedAt := lw_now (ci_world ids)\<rparr>"
    "c' = ?c1\<lparr>lc_store := ?ls\<lparr>ls_loops := jset ?i r (ls_loops ?ls)\<rparr>\<rparr>"
    using pending_start[of "?c1\<lparr>lc_store := ?ls\<rparr>" ?i "review_loop p pl ids" "ce_loop env" "ci_world ids"] fresh row
    by (auto simp: getLoop_def ids_fresh_def)
  have "createConsiliumReview env p ids db = (Inr ?i, db\<lparr>rd_ctl := c',
      rd_passports := jset ?i (review_passport env p pl ids) (rd_passports db),
      rd_secrets := bindLoopSecrets ?i (pl_secrets pl) (rd_secrets db)\<rparr>)"
    unfolding createConsiliumReview_def Inr sum.case Let_def st prod.case option.case ls r(1) tick_result.case ..
  then show ?thesis unfolding Inr sum.case by (simp add: review_created_def r(2,3) st_ok)
qed

lemma check_create_repo:
  "check_create env p = Inr pl \<Longrightarrow>
     assertAllowedRepoPath (ce_fs env) (cr_repoPath p) (ce_allowedRepoPaths env) = Inr (pl_repo pl) \<and>
     assertRepoIsProjectWorkspace (ce_fs env) (ce_workspaces env (cr_projectId p)) (pl_repo pl) = None \<and>
     resolveBaseline (cr_preset p) (cr_baseline p) = Inr (pl_baseline pl) \<and>
     (case pl_ref pl of None \<Rightarrow> True | Some r \<Rightarrow> review_ref r)"
  by (auto simp: check_create_def Let_def validateReviewRef_def split: sum.splits option.splits if_splits)


section \<open>A service with one workspace\<close>

definition sample_create_env :: create_env where
  "sample_create_env =
     \<lparr>ce_fs = bare_env, ce_allowedRepoPaths = [''/srv''], ce_implement = False, ce_loop = sample_loop_cfg, ce_prose = blank_prose,
      ce_workspaces = (\<lambda>p. [''/srv/api'']), ce_credentials = (\<lambda>p. []), ce_skill = (\<lambda>p i. None),
      ce_objective = (\<lambda>p r x f. Inr ''review'')\<rparr>"

definition sample_create_params :: create_params where
  "sample_create_params =
     \<lparr>cr_projectId = ''p1'', cr_repoPath = ''/srv/api'', cr_preset = Sdlc_Cross_Review, cr_createdBy = ''u1'', cr_maxRounds = Some 1,
      cr_baseline = None, cr_objectiveExtra = None, cr_instruction = None, cr_skillIds = [], cr_secretNames = None, cr_ref = None,
      cr_provenance = None, cr_reviewMode = None, cr_commitPrefix = None\<rparr>"

definition sample_ids :: "char \<Rightarrow> create_ids" where
  "sample_ids c =
     \<lparr>ci_groupId = [CHR ''g'', c], ci_taskIds = map (\<lambda>d. [c, d]) ''0123456789'', ci_loopId = [CHR ''l'', c], ci_now = 0,
      ci_world = sample_world 0\<rparr>"

definition no_reviews :: review_db where
  "no_reviews =
     \<lparr>rd_ctl = (sample_ctl (sample_loop Pending 0 1) [])\<lparr>lc_store := empty_loop_store\<rparr>, rd_passports = [], rd_secrets = []\<rparr>"

lemma no_reviews_ready: "ids_fresh (sample_ids CHR ''0'') no_reviews" "editor_ok (or_store (lc_orch (rd_ctl no_reviews)))"
proof -
  have st: "or_store (lc_orch (rd_ctl no_reviews)) = empty_task_store" by (simp add: no_reviews_def sample_ctl_def new_orch_def)
  show "editor_ok (or_store (lc_orch (rd_ctl no_reviews)))" unfolding st by (rule editor_reachable_ok[OF editor_reachable.start])
  show "ids_fresh (sample_ids CHR ''0'') no_reviews" by code_simp
qed

lemma sample_create_allowed: "\<exists>pl. check_create sample_create_env sample_create_params = Inr pl \<and> pl_repo pl = ''/srv/api''"
proof -
  have "case check_create sample_create_env sample_create_params of Inl e \<Rightarrow> False | Inr pl \<Rightarrow> pl_repo pl = ''/srv/api''" by code_simp
  then show ?thesis by (auto split: sum.splits)
qed


end
