(* ===== verification/Spec_Parser.thy ===== *)
theory Spec_Parser
  imports Review_Panel Llm_Response
begin

text \<open>
  Committed specifications (\<open>server/services/consilium/spec-parser.ts\<close>): the frontmatter of a Markdown file, the gate
  a file passes before it fires a loop, decision records as specifications, the instruction of the loop with its byte
  budget, and the globs that name the watched files. The YAML parser is an argument: \<open>None\<close> when it throws,
  \<open>Some None\<close> for an undefined value. A byte order mark is not represented.
\<close>

section \<open>Frontmatter\<close>

record spec_source =
  ss_kind :: string
  ss_ref :: "string option"
  ss_url :: "string option"

record spec_frontmatter =
  sf_title :: "string option"
  sf_status :: "string option"
  sf_source :: "spec_source option"
  sf_repo :: "string option"
  sf_role :: "string option"
  sf_skills :: "string list"
  sf_criteria :: "string list"
  sf_adr :: bool

datatype spec_reason =
    No_Frontmatter | Malformed_Yaml | Not_Object | Empty_File | Too_Large | Binary_File | Unreadable

datatype spec_result = Is_Spec spec_frontmatter string | Not_Spec spec_reason

definition asString :: "json option \<Rightarrow> string option" where
  "asString v = (case v of Some (JStr t) \<Rightarrow> (let s = trim t in if length s > 0 then Some s else None) | _ \<Rightarrow> None)"

definition asStringArray :: "json option \<Rightarrow> string list" where
  "asStringArray v = (case v of Some (JArr xs) \<Rightarrow> List.map_filter (\<lambda>x. asString (Some x)) xs | _ \<Rightarrow> [])"

definition asAdrMarker :: "payload \<Rightarrow> bool" where
  "asAdrMarker rec \<longleftrightarrow>
     jget rec ''adr'' = Some (JBool True) \<or> asString (jget rec ''adr'') \<noteq> None \<or>
     jget rec ''decision'' \<noteq> None \<and> jget rec ''decision'' \<noteq> Some JNull"

definition asSource :: "json option \<Rightarrow> spec_source option" where
  "asSource v =
     (case v of
        Some (JObj rec) \<Rightarrow>
          (case asString (jget rec ''kind'') of
             None \<Rightarrow> None
           | Some kind \<Rightarrow> Some \<lparr>ss_kind = kind, ss_ref = asString (jget rec ''ref''), ss_url = asString (jget rec ''url'')\<rparr>)
      | _ \<Rightarrow> None)"

definition frontmatter_of :: "payload \<Rightarrow> spec_frontmatter" where
  "frontmatter_of rec =
     \<lparr>sf_title = asString (jget rec ''title''), sf_status = map_option lower (asString (jget rec ''status'')),
      sf_source = asSource (jget rec ''source''), sf_repo = asString (jget rec ''repo''), sf_role = asString (jget rec ''role''),
      sf_skills = asStringArray (jget rec ''skills''), sf_criteria = asStringArray (jget rec ''acceptanceCriteria''),
      sf_adr = asAdrMarker rec\<rparr>"

text \<open>An end of line, a fence with blanks behind it, and the closing fence with what follows it.\<close>

definition eol :: "string \<Rightarrow> string option" where
  "eol t =
     (case t of
        [] \<Rightarrow> None
      | c # cs \<Rightarrow> if c = CHR 0x0A then Some cs else if c = CHR 0x0D \<and> cs \<noteq> [] \<and> hd cs = CHR 0x0A then Some (tl cs) else None)"

definition fence_line :: "string \<Rightarrow> string option" where
  "fence_line t =
     (if starts ''---'' t then Some (dropWhile (\<lambda>c. c = CHR '' '' \<or> c = CHR 0x09) (drop 3 t)) else None)"

definition closing_fence :: "string \<Rightarrow> string option" where
  "closing_fence t =
     (case eol t of
        None \<Rightarrow> None
      | Some r \<Rightarrow> (case fence_line r of None \<Rightarrow> None | Some rest \<Rightarrow> if rest = [] then Some [] else eol rest))"

text \<open>The shortest text before a closing fence, and the text after it.\<close>

fun until_fence :: "string \<Rightarrow> (string \<times> string) option" where
  "until_fence [] = None"
| "until_fence (c # cs) =
     (case closing_fence (c # cs) of
        Some body \<Rightarrow> Some ([], body)
      | None \<Rightarrow> map_option (\<lambda>(yaml, body). (c # yaml, body)) (until_fence cs))"

definition split_frontmatter :: "string \<Rightarrow> (string \<times> string) option" where
  "split_frontmatter content =
     (case fence_line content of
        None \<Rightarrow> None
      | Some r \<Rightarrow> (case eol r of None \<Rightarrow> None | Some t \<Rightarrow> until_fence t))"

definition parseSpecContent :: "(string \<Rightarrow> json option option) \<Rightarrow> string \<Rightarrow> spec_result" where
  "parseSpecContent loadYaml content =
     (if length content = 0 then Not_Spec Empty_File
      else if CHR 0x00 \<in> set content then Not_Spec Binary_File
      else
        (case split_frontmatter content of
           None \<Rightarrow> Not_Spec No_Frontmatter
         | Some (yamlText, rest) \<Rightarrow>
             (let body = (case eol rest of Some t \<Rightarrow> t | None \<Rightarrow> rest)
              in case loadYaml yamlText of
                   None \<Rightarrow> Not_Spec Malformed_Yaml
                 | Some (Some (JObj rec)) \<Rightarrow> Is_Spec (frontmatter_of rec) body
                 | Some _ \<Rightarrow> Not_Spec Not_Object)))"

definition spec_max_file_bytes :: nat where "spec_max_file_bytes = 524288"

text \<open>The size and the content the file system reports; \<open>None\<close> when the call throws.\<close>

definition readSpecFile :: "(string \<Rightarrow> json option option) \<Rightarrow> nat option \<Rightarrow> string option \<Rightarrow> spec_result" where
  "readSpecFile loadYaml bytes content =
     (case bytes of
        None \<Rightarrow> Not_Spec Unreadable
      | Some n \<Rightarrow>
          if n > spec_max_file_bytes then Not_Spec Too_Large
          else (case content of None \<Rightarrow> Not_Spec Unreadable | Some t \<Rightarrow> parseSpecContent loadYaml t))"

section \<open>The gate\<close>

datatype gate_result = Gate_Fires spec_frontmatter string | Gate_Holds string

definition recognized_statuses :: "string list" where
  "recognized_statuses = [''draft'', ''ready'', ''in-progress'', ''done'', ''blocked'']"

definition evaluateReadyGate :: "spec_result \<Rightarrow> gate_result" where
  "evaluateReadyGate parsed =
     (case parsed of
        Not_Spec _ \<Rightarrow> Gate_Holds ''not-a-spec''
      | Is_Spec fm body \<Rightarrow>
          (case sf_status fm of
             None \<Rightarrow> Gate_Holds ''not-a-spec''
           | Some status \<Rightarrow>
               if status \<notin> set recognized_statuses then Gate_Holds ''unknown-status''
               else if status = ''draft'' then Gate_Holds ''draft''
               else if status = ''in-progress'' then Gate_Holds ''status:in-progress''
               else if status = ''done'' then Gate_Holds ''status:done''
               else if status = ''blocked'' then Gate_Holds ''status:blocked''
               else if length (sf_criteria fm) = 0 then Gate_Holds ''no-acceptance-criteria''
               else Gate_Fires fm body))"

section \<open>Decision records\<close>

definition adr_implicit_criteria :: "string list" where
  "adr_implicit_criteria =
     [''The decision described in this ADR is implemented in the codebase.'',
      ''Automated tests cover the implemented decision.'',
      ''Documentation affected by the decision is updated to reflect it.'']"

text \<open>The rests of a text behind each of its slashes.\<close>

fun after_slash :: "string \<Rightarrow> string list" where
  "after_slash [] = []"
| "after_slash (c # cs) = (if c = slash then [cs] else []) @ after_slash cs"

definition unbackslash :: "string \<Rightarrow> string" where
  "unbackslash t = map (\<lambda>c. if c = CHR 0x5C then slash else c) t"

definition adr_path :: "string \<Rightarrow> bool" where
  "adr_path t \<longleftrightarrow> starts ''docs/adr/'' t \<or> list_ex (starts ''docs/adr/'') (after_slash t)"

definition isAdrCandidate :: "string \<Rightarrow> spec_frontmatter \<Rightarrow> bool" where
  "isAdrCandidate filePath fm \<longleftrightarrow> adr_path (unbackslash filePath) \<or> sf_adr fm"

definition applyAdrIntake :: "spec_result \<Rightarrow> string \<Rightarrow> spec_result \<times> bool" where
  "applyAdrIntake parsed filePath =
     (case parsed of
        Not_Spec r \<Rightarrow> (parsed, False)
      | Is_Spec fm body \<Rightarrow>
          if \<not> isAdrCandidate filePath fm then (parsed, False)
          else (Is_Spec (fm\<lparr>sf_status := (if sf_status fm = Some ''accepted'' then Some ''ready'' else sf_status fm),
                          sf_criteria := (if length (sf_criteria fm) > 0 then sf_criteria fm else adr_implicit_criteria)\<rparr>) body, True))"

section \<open>The instruction\<close>

definition spec_instruction_max_bytes :: nat where "spec_instruction_max_bytes = 7168"
definition spec_body_min_bytes :: nat where "spec_body_min_bytes = 1000"
definition spec_criterion_max_bytes :: nat where "spec_criterion_max_bytes = 1000"
definition spec_max_criteria :: nat where "spec_max_criteria = 200"

definition ellipsis :: char where "ellipsis = CHR 0x85"

definition truncation_marker :: string where
  "truncation_marker = [CHR 0x0A, ellipsis] @ '' [truncated]''"

text \<open>Replacement characters at the end of the cut are removed, also those the text had there.\<close>

definition clampBytes :: "string \<Rightarrow> nat \<Rightarrow> string" where
  "clampBytes s maxBytes =
     (if byteLength s \<le> maxBytes then s
      else rev (dropWhile (\<lambda>c. c = replacement) (rev (cut_utf8 (maxBytes - byteLength truncation_marker) s))) @ truncation_marker)"

definition criterion_line :: "string \<Rightarrow> string" where
  "criterion_line c = ''- '' @ clampBytes (trim c) spec_criterion_max_bytes"

text \<open>The lines that fit and the number of criteria left out; the flag says that a line was kept.\<close>

fun criteria_lines :: "nat \<Rightarrow> nat \<Rightarrow> bool \<Rightarrow> string list \<Rightarrow> string list \<times> nat" where
  "criteria_lines budget used kept [] = ([], 0)"
| "criteria_lines budget used kept (c # cs) =
     (let line = criterion_line c; cost = byteLength line + 1
      in if kept \<and> used + cost > budget then ([], length (c # cs))
         else (let (ls, dropped) = criteria_lines budget (used + cost) True cs in (line # ls, dropped)))"

definition omitted_note :: "nat \<Rightarrow> string" where
  "omitted_note n =
     (if n > 0 then [CHR 0x0A] @ ''- '' @ [ellipsis] @ '' ('' @ show_nat n @ '' more criteria omitted to fit budget)'' else [])"

definition renderCriteria :: "string list \<Rightarrow> nat \<Rightarrow> string" where
  "renderCriteria criteria budget =
     (let (ls, dropped) = criteria_lines budget 0 False (take spec_max_criteria criteria)
      in join_with nl ls @ omitted_note dropped)"

definition spec_header :: "string option \<Rightarrow> string" where
  "spec_header role = (case role of Some r \<Rightarrow> if r \<noteq> [] then ''Role: '' @ clampBytes r 200 @ newline2 else [] | None \<Rightarrow> [])"

definition dod_open :: string where
  "dod_open = ''Definition of Done '' @ [em_dash] @ '' every criterion must be satisfied and verified:'' @ nl @ replicate 3 backtick @ nl"

definition dod_close :: string where
  "dod_close = nl @ replicate 3 backtick @ newline2 @ ''## Spec'' @ nl"

text \<open>The part of the instruction before the body.\<close>

definition spec_fixed :: "string list \<Rightarrow> string option \<Rightarrow> string" where
  "spec_fixed criteria role =
     (let overhead = byteLength (spec_header role) + byteLength dod_open + byteLength dod_close;
          budget = max 200 (spec_instruction_max_bytes - overhead - spec_body_min_bytes)
      in spec_header role @ dod_open @ renderCriteria criteria budget @ dod_close)"

definition buildSpecInstruction :: "string \<Rightarrow> string list \<Rightarrow> string option \<Rightarrow> string" where
  "buildSpecInstruction body criteria role =
     (let fixed = spec_fixed criteria role
      in fixed @ clampBytes (trim body) (spec_instruction_max_bytes - byteLength fixed))"

section \<open>Globs\<close>

datatype glob_token = G_Segments | G_Any | G_Run | G_One | G_Char char

fun glob_tokens :: "string \<Rightarrow> glob_token list" where
  "glob_tokens [] = []"
| "glob_tokens (c # cs) =
     (if c = CHR ''*''
      then (case cs of
              d # ds \<Rightarrow>
                if d = CHR ''*''
                then (case ds of e # es \<Rightarrow> if e = slash then G_Segments # glob_tokens es else G_Any # glob_tokens ds
                      | [] \<Rightarrow> [G_Any])
                else G_Run # glob_tokens cs
            | [] \<Rightarrow> [G_Run])
      else if c = CHR ''?'' then G_One # glob_tokens cs
      else G_Char c # glob_tokens cs)"

text \<open>Whether the tokens match the whole text; a dot of the regular expression does not match an end of line.\<close>

fun glob_match :: "glob_token list \<Rightarrow> string \<Rightarrow> bool" where
  "glob_match [] t = (t = [])"
| "glob_match (G_Char c # g) [] = False"
| "glob_match (G_Char c # g) (x # xs) = (x = c \<and> glob_match g xs)"
| "glob_match (G_One # g) [] = False"
| "glob_match (G_One # g) (x # xs) = (x \<noteq> slash \<and> glob_match g xs)"
| "glob_match (G_Run # g) [] = glob_match g []"
| "glob_match (G_Run # g) (x # xs) = (glob_match g (x # xs) \<or> x \<noteq> slash \<and> glob_match (G_Run # g) xs)"
| "glob_match (G_Any # g) [] = glob_match g []"
| "glob_match (G_Any # g) (x # xs) =
     (glob_match g (x # xs) \<or> x \<noteq> CHR 0x0A \<and> x \<noteq> CHR 0x0D \<and> glob_match (G_Any # g) xs)"
| "glob_match (G_Segments # g) t = (glob_match g t \<or> list_ex (glob_match g) (after_slash t))"

definition glob_test :: "string \<Rightarrow> string \<Rightarrow> bool" where
  "glob_test glob t \<longleftrightarrow> glob_match (glob_tokens glob) t \<or> list_ex (glob_match (glob_tokens glob)) (after_slash t)"

definition pathMatchesSpecGlobs :: "string \<Rightarrow> string list \<Rightarrow> bool" where
  "pathMatchesSpecGlobs absPath globs \<longleftrightarrow> list_ex (\<lambda>g. glob_test g (unbackslash absPath)) globs"

section \<open>Automatic commits\<close>

text \<open>The configuration: enabled, and the repositories if they are listed.\<close>

definition shouldAutoCommitSpec :: "string option \<Rightarrow> (bool \<times> string list option) option \<Rightarrow> bool" where
  "shouldAutoCommitSpec repo config =
     (case (config, repo) of
        (Some (True, Some repos), Some r) \<Rightarrow>
          (let target = trim r in length target > 0 \<and> repos \<noteq> [] \<and> list_ex (\<lambda>x. trim x = target) repos)
      | _ \<Rightarrow> False)"

lemma spec_parser_examples:
  "parseSpecContent (\<lambda>y. if y = ''a: b'' then Some (Some (JObj [(''status'', JStr '' Ready ''), (''acceptanceCriteria'', JArr [JStr ''x'', JNum 1])])) else None)
     (concat [''---'', nl, ''a: b'', nl, ''---  '', nl, nl, ''body'']) =
     Is_Spec \<lparr>sf_title = None, sf_status = Some ''ready'', sf_source = None, sf_repo = None, sf_role = None, sf_skills = [],
       sf_criteria = [''x''], sf_adr = False\<rparr> ''body''"
  "pathMatchesSpecGlobs ''/r/docs/specs/a/b.md'' [''docs/specs/**/*.md'']" "pathMatchesSpecGlobs ''/r/docs/specs/b.md'' [''docs/specs/**/*.md'']"
  "\<not> pathMatchesSpecGlobs ''/r/xdocs/specs/b.md'' [''docs/specs/**/*.md'']" "\<not> pathMatchesSpecGlobs ''/r/docs/specs/b.md/c'' [''docs/specs/**/*.md'']"
  by code_simp+

end
