(* ===== verification/Spec_Facts.thy ===== *)
theory Spec_Facts
  imports Spec_Parser
begin

text \<open>Committed specifications: the byte budget of the instruction, the gate, the watched files.\<close>

section \<open>The byte budget\<close>

lemma byteLength_trim: "byteLength (trim t) \<le> byteLength t"
proof -
  have drop: "byteLength (dropWhile P u) \<le> byteLength u" for P u by (induction u) auto
  have rev: "byteLength (rev u) = byteLength u" for u by (simp add: byteLength_def flip: rev_map)
  show ?thesis unfolding trim_def rev using drop[of blank "rev (dropWhile blank t)"] drop[of blank t] by (simp add: rev)
qed

lemma byteLength_strip: "byteLength (rev (dropWhile P (rev t))) \<le> byteLength t"
proof (induction t rule: rev_induct)
  case (snoc c cs)
  then show ?case by (cases "P c") (simp_all add: le_SucI add_increasing2)
qed simp

lemma byteLength_cut: "\<exists>p r. cut_utf8 n t = p @ r \<and> byteLength p \<le> n \<and> (r = [] \<or> r = [replacement])"
proof (induction n t rule: cut_utf8.induct)
  case (2 n c cs)
  show ?case
  proof (cases "char_bytes c \<le> n")
    case True
    with 2 obtain p r where "cut_utf8 (n - char_bytes c) cs = p @ r" "byteLength p \<le> n - char_bytes c" "r = [] \<or> r = [replacement]"
      by blast
    with True show ?thesis by (intro exI[of _ "c # p"] exI[of _ r]) simp
  next
    case False
    then show ?thesis by (cases "0 < n") (force, simp)
  qed
qed simp

lemma byteLength_stripped_cut: "byteLength (rev (dropWhile (\<lambda>c. c = replacement) (rev (cut_utf8 n t)))) \<le> n"
proof -
  obtain p r where c: "cut_utf8 n t = p @ r" "byteLength p \<le> n" "r = [] \<or> r = [replacement]"
    using byteLength_cut by blast
  have "byteLength (rev (dropWhile (\<lambda>c. c = replacement) (rev p))) \<le> n"
    using byteLength_strip[of "\<lambda>c. c = replacement" p] c(2) by (rule order_trans)
  then show ?thesis using c(1,3) by auto
qed

lemma marker_bytes: "byteLength truncation_marker = 16"
  by code_simp

lemma clampBytes_le: "16 \<le> n \<Longrightarrow> byteLength (clampBytes t n) \<le> n"
  using byteLength_stripped_cut[of "n - 16" t] by (auto simp: clampBytes_def marker_bytes)

lemma criterion_line_le: "byteLength (criterion_line c) \<le> 1002"
proof -
  have "byteLength (criterion_line c) = 2 + byteLength (clampBytes (trim c) 1000)"
    by (simp add: criterion_line_def spec_criterion_max_bytes_def char_bytes_def)
  with clampBytes_le[of 1000 "trim c"] show ?thesis by simp
qed

lemma criteria_lines_fit:
  "criteria_lines budget used kept cs = (ls, d) \<Longrightarrow>
     d \<le> length cs \<and> used + sum_list (map (\<lambda>l. byteLength l + 1) ls) \<le> max (max budget used) (if kept then 0 else used + 1003)"
proof (induction budget used kept cs arbitrary: ls d rule: criteria_lines.induct)
  case (2 budget used kept c cs)
  let ?cost = "byteLength (criterion_line c) + 1"
  show ?case
  proof (cases "kept \<and> used + ?cost > budget")
    case True
    with 2(2) show ?thesis by (simp add: Let_def)
  next
    case False
    then obtain ls' d' where r: "criteria_lines budget (used + ?cost) True cs = (ls', d')" "ls = criterion_line c # ls'" "d = d'"
      using 2(2) by (auto simp: Let_def split: prod.splits)
    from 2(1)[OF refl refl False r(1)] have ih: "d' \<le> length cs"
      "used + ?cost + sum_list (map (\<lambda>l. byteLength l + 1) ls') \<le> max budget (used + ?cost)" by simp_all
    have "?cost \<le> 1003" using criterion_line_le[of c] by simp
    with ih r False show ?thesis by (cases kept) (simp_all add: max_def split: if_splits)
  qed
qed simp

lemma join_lines_le: "byteLength (join_with nl ls) \<le> sum_list (map (\<lambda>l. byteLength l + 1) ls)"
proof -
  have nl: "byteLength nl = 1" by code_simp
  show ?thesis by (induction nl ls rule: join_with.induct) (simp_all add: nl)
qed

lemma show_nat_short: "n < 1000 \<Longrightarrow> byteLength (show_nat n) \<le> 3"
proof -
  have one: "char_bytes (char_of (48 + m :: nat)) = 1" if "m < 10" for m
    using that by (simp add: char_bytes_def Let_def)
  have a: "byteLength (show_nat m) = 1" if "m < 10" for m by (subst show_nat.simps) (simp add: that one)
  have b: "byteLength (show_nat m) \<le> 2" if "m < 100" for m
    using that a[of "m div 10"] by (cases "m < 10") (simp_all add: a show_nat.simps[of m] one)
  show "n < 1000 \<Longrightarrow> ?thesis"
    using b[of "n div 10"] by (cases "n < 10") (simp_all add: a show_nat.simps[of n] one)
qed

lemma omitted_note_le: "n \<le> 200 \<Longrightarrow> byteLength (omitted_note n) \<le> 50"
proof -
  have bytes: "byteLength ([CHR 0x0A] @ ''- '' @ [ellipsis] @ '' ('') + byteLength '' more criteria omitted to fit budget)'' \<le> 47" by code_simp
  assume "n \<le> 200"
  with show_nat_short[of n] bytes show ?thesis by (simp add: omitted_note_def)
qed

lemma renderCriteria_le: "1003 \<le> budget \<Longrightarrow> byteLength (renderCriteria cs budget) \<le> budget + 50"
proof -
  assume b: "1003 \<le> budget"
  obtain ls d where r: "criteria_lines budget 0 False (take spec_max_criteria cs) = (ls, d)" by force
  from criteria_lines_fit[OF r] b
  have "sum_list (map (\<lambda>l. byteLength l + 1) ls) \<le> budget" "d \<le> 200" by (simp_all add: spec_max_criteria_def)
  with join_lines_le[of ls] omitted_note_le[of d] show ?thesis by (simp add: renderCriteria_def r)
qed

lemma spec_header_le: "byteLength (spec_header role) \<le> 208"
proof (cases role)
  case (Some r)
  have "byteLength ''Role: '' + byteLength newline2 = 8" by code_simp
  with Some clampBytes_le[of 200 r] show ?thesis by (simp add: spec_header_def)
qed (simp add: spec_header_def)

lemma spec_fixed_le: "byteLength (spec_fixed criteria role) \<le> 6218"
proof -
  have oc: "byteLength dod_open + byteLength dod_close \<le> 100" by code_simp
  let ?o = "byteLength (spec_header role) + byteLength dod_open + byteLength dod_close"
  have o: "?o \<le> 308" using oc spec_header_le[of role] by simp
  then have b: "max 200 (spec_instruction_max_bytes - ?o - spec_body_min_bytes) = 6168 - ?o"
    by (simp add: spec_instruction_max_bytes_def spec_body_min_bytes_def)
  have "byteLength (renderCriteria criteria (6168 - ?o)) \<le> 6168 - ?o + 50" using o by (intro renderCriteria_le) simp
  then show ?thesis using o unfolding spec_fixed_def Let_def b byteLength_simps by linarith
qed

lemma replace_runs_bytes: "(\<And>c. P c \<Longrightarrow> char_bytes c = 1) \<Longrightarrow> byteLength (replace_runs P inside t) \<le> byteLength t"
proof -
  have space: "char_bytes (CHR '' '') = 1" by code_simp
  show "(\<And>c. P c \<Longrightarrow> char_bytes c = 1) \<Longrightarrow> ?thesis"
    by (induction P inside t rule: replace_runs.induct) (auto simp: space)
qed

lemma control_multiline_bytes: "control_multiline c \<Longrightarrow> char_bytes c = 1"
  by (auto simp: control_multiline_def char_bytes_def Let_def)

lemma first_criterion_kept:
  "criteria_lines budget used False (c # cs) = (ls, d) \<Longrightarrow> \<exists>more. ls = criterion_line c # more"
  by (auto simp: Let_def split: prod.splits)

lemma renderCriteria_first:
  assumes "criteria \<noteq> []"
  shows "\<exists>post. renderCriteria criteria budget = criterion_line (hd criteria) @ post"
proof -
  obtain c cs where c: "take spec_max_criteria criteria = c # cs" "hd criteria = c"
    using assms by (cases criteria) (simp_all add: spec_max_criteria_def)
  obtain ls d where r: "criteria_lines budget 0 False (c # cs) = (ls, d)" by force
  from first_criterion_kept[OF this] obtain more where m: "ls = criterion_line c # more" by blast
  show ?thesis unfolding renderCriteria_def c r Let_def split_def fst_conv snd_conv m by (cases more) simp_all
qed


section \<open>The gate\<close>

lemma gate_fires_iff:
  "evaluateReadyGate (Is_Spec f b) = Gate_Fires fm body \<longleftrightarrow>
     sf_status f = Some ''ready'' \<and> sf_criteria f \<noteq> [] \<and> fm = f \<and> body = b"
  by (cases "sf_status f") (auto simp: evaluateReadyGate_def recognized_statuses_def)

lemma implicit_criteria: "adr_implicit_criteria \<noteq> []"
  by (simp add: adr_implicit_criteria_def)

text \<open>
  C31: a file fires exactly when it parses as a specification whose status is ready - accepted counts for a decision
  record - and it has criteria to verify, which a decision record without its own gets.
\<close>

theorem spec_fires_exactly:
  "evaluateReadyGate (fst (applyAdrIntake parsed path)) = Gate_Fires fm body \<longleftrightarrow>
   (\<exists>fm0. parsed = Is_Spec fm0 body \<and>
      (if isAdrCandidate path fm0
       then sf_status fm0 \<in> {Some ''ready'', Some ''accepted''} \<and>
         fm = fm0\<lparr>sf_status := Some ''ready'', sf_criteria := (if sf_criteria fm0 = [] then adr_implicit_criteria else sf_criteria fm0)\<rparr>
       else sf_status fm0 = Some ''ready'' \<and> sf_criteria fm0 \<noteq> [] \<and> fm = fm0))"
proof (cases parsed)
  case (Is_Spec fm0 b)
  then show ?thesis
    by (cases "isAdrCandidate path fm0") (auto simp: applyAdrIntake_def gate_fires_iff implicit_criteria)
qed (simp add: applyAdrIntake_def evaluateReadyGate_def)

section \<open>Watched files\<close>

lemma glob_chars: "glob_match (map G_Char cs @ g) t \<longleftrightarrow> (\<exists>rest. t = cs @ rest \<and> glob_match g rest)"
proof (induction cs arbitrary: t)
  case (Cons c cs)
  then show ?case by (cases t) auto
qed simp

lemma after_slash_iff: "v \<in> set (after_slash t) \<longleftrightarrow> (\<exists>u. t = u @ slash # v)"
proof (induction t)
  case (Cons c cs)
  have "(\<exists>u. c # cs = u @ slash # v) \<longleftrightarrow> c = slash \<and> v = cs \<or> (\<exists>u. cs = u @ slash # v)"
    by (auto simp: Cons_eq_append_conv)
  with Cons show ?case by auto
qed simp

lemma glob_segments: "glob_match (G_Segments # g) t \<longleftrightarrow> (\<exists>u v. t = u @ v \<and> (u = [] \<or> last u = slash) \<and> glob_match g v)"
proof -
  have "(\<exists>u v. t = u @ v \<and> (u = [] \<or> last u = slash) \<and> glob_match g v) \<longleftrightarrow>
      glob_match g t \<or> (\<exists>u v. t = (u @ [slash]) @ v \<and> glob_match g v)"
    by (metis append_Nil append_butlast_last_id last_snoc)
  then show ?thesis by (auto simp: list_ex_iff after_slash_iff)
qed

lemma split_Cons: "(\<exists>u v. c # cs = u @ v \<and> P u v) \<longleftrightarrow> P [] (c # cs) \<or> (\<exists>u v. cs = u @ v \<and> P (c # u) v)"
  by (metis append_Cons append_Nil append_eq_Cons_conv)

lemma glob_run: "glob_match (G_Run # g) t \<longleftrightarrow> (\<exists>u v. t = u @ v \<and> slash \<notin> set u \<and> glob_match g v)"
proof (induction t)
  case (Cons c cs)
  then show ?case unfolding split_Cons by auto
qed simp

lemma glob_test_iff: "glob_test g t \<longleftrightarrow> glob_match (G_Segments # glob_tokens g) t"
  by (simp add: glob_test_def)

definition watched_dir :: "string \<Rightarrow> string \<Rightarrow> bool" where
  "watched_dir dir t \<longleftrightarrow>
     (\<exists>pre mid name. t = pre @ dir @ mid @ name @ ''.md'' \<and> (pre = [] \<or> last pre = slash) \<and> (mid = [] \<or> last mid = slash) \<and>
        slash \<notin> set name)"

lemma watched_glob:
  assumes "glob_tokens g = map G_Char dir @ [G_Segments, G_Run] @ map G_Char ''.md''"
  shows "glob_test g t \<longleftrightarrow> watched_dir dir t"
proof -
  have run: "glob_match (G_Run # map G_Char ''.md'') v \<longleftrightarrow> (\<exists>name. v = name @ ''.md'' \<and> slash \<notin> set name)" for v
    unfolding glob_run using glob_chars[of "''.md''" "[]"] by auto
  show ?thesis
    unfolding glob_test_iff glob_segments assms append.simps glob_chars run watched_dir_def by metis
qed

text \<open>
  under the default globs a file is watched exactly when it is a Markdown file somewhere below a directory
  \<open>docs/specs\<close> or \<open>docs/adr\<close>: the directory is matched as a whole, at any depth, and so is what lies between.
\<close>

theorem default_globs_exact:
  "pathMatchesSpecGlobs path [''docs/specs/**/*.md'', ''docs/adr/**/*.md''] \<longleftrightarrow>
   watched_dir ''docs/specs/'' (unbackslash path) \<or> watched_dir ''docs/adr/'' (unbackslash path)"
proof -
  have "glob_test ''docs/specs/**/*.md'' t \<longleftrightarrow> watched_dir ''docs/specs/'' t" for t
    by (rule watched_glob) code_simp
  moreover have "glob_test ''docs/adr/**/*.md'' t \<longleftrightarrow> watched_dir ''docs/adr/'' t" for t
    by (rule watched_glob) code_simp
  ultimately show ?thesis by (simp add: pathMatchesSpecGlobs_def)
qed

text \<open>
  \<open>clampBytes\<close> does not keep its own promise for small budgets: the text it returns is longer than the budget as
  soon as the budget is smaller than its mark.
\<close>

theorem clamp_exceeds_small_budget: "byteLength (clampBytes ''four'' 3) = 16"
  by code_simp

end
