(* ===== verification/Trigger_Dispatch.thy ===== *)
theory Trigger_Dispatch
  imports Review_Create Event_Map Spec_Parser Js_Date
begin

text \<open>
  From a trigger that fires to a review (\<open>server/services/consilium/trigger-dispatch.ts\<close>, \<open>role-compose.ts\<close> and
  \<open>fireTrigger\<close> of \<open>server/routes.ts\<close>): file changes, committed specifications, tickets, webhooks and standing roles all
  meet in one launch, which looks for an active loop first. That look and the creation are two steps, because other
  fires may run between them. Owners, roles, files, the hash and the YAML parser are arguments; log lines are left out.
\<close>

section \<open>Triggers\<close>

datatype trigger_type = Trg_Webhook | Trg_Schedule | Trg_Github | Trg_Gitlab | Trg_File_Change | Trg_Tracker

definition trigger_text :: "trigger_type \<Rightarrow> string" where
  "trigger_text t =
     (case t of Trg_Webhook \<Rightarrow> ''webhook'' | Trg_Schedule \<Rightarrow> ''schedule'' | Trg_Github \<Rightarrow> ''github_event''
      | Trg_Gitlab \<Rightarrow> ''gitlab_event'' | Trg_File_Change \<Rightarrow> ''file_change'' | Trg_Tracker \<Rightarrow> ''tracker_event'')"

record trigger_action =
  ta_kind :: string
  ta_preset :: review_preset
  ta_repoPath :: "string option"
  ta_instruction :: "string option"

record poll_state =
  gp_lastPolledAt :: "string option"
  gp_prHeads :: "(nat, string) jsmap option"
  gp_lastPushSha :: "string option"

record trigger_config =
  tc_watchPath :: "string option"
  tc_action :: "trigger_action option"
  tc_roleConcern :: "json option"
  tc_events :: "string list"
  tc_repository :: "string option"
  tc_pollState :: "poll_state option"

record trigger_row =
  tg_id :: string
  tg_projectId :: "string option"
  tg_type :: trigger_type
  tg_config :: trigger_config
  tg_lastTriggeredAt :: "int option"
  tg_suppressedCount :: nat
  tg_lastFiredAt :: "int option"
  tg_firedCount :: nat
  tg_updatedAt :: int

record role_concern =
  rc_id :: string
  rc_repoPath :: string
  rc_focus :: string
  rc_enabled :: "bool option"

record standing_role =
  sr_id :: string
  sr_name :: string
  sr_enabled :: bool
  sr_persona :: string
  sr_skills :: "string list"
  sr_preset :: review_preset
  sr_reviewMode :: "review_mode option"
  sr_concerns :: "role_concern list"
  sr_budgetPerDay :: "int option"
  sr_cascadeDepth :: "int option"

datatype fire_result =
    Launched | Skipped | Skipped_Dedup | Skipped_Budget | Skipped_Cascade | Noop | Noop_Event | Failed_Fire | Recorded

record trigger_world =
  tw_db :: review_db
  tw_triggers :: "(string, trigger_row) jsmap"
  tw_flips :: "(string \<times> string) list"

record dispatch_env =
  de_create :: create_env
  de_loopEnabled :: bool
  de_triggersEnabled :: bool
  de_gitlabEvents :: bool
  de_specWatch :: bool
  de_specGlobs :: "string list"
  de_owner :: "string \<Rightarrow> unit + string option"
  de_role :: "string \<Rightarrow> string \<Rightarrow> standing_role option"
  de_sha256 :: "string \<Rightarrow> string"
  de_yaml :: "string \<Rightarrow> json option option"
  de_file :: "string \<Rightarrow> nat option \<times> string option"

record fire_inputs =
  fi_now :: int
  fi_firedAt :: int
  fi_ids :: create_ids

section \<open>Trigger rows\<close>

definition update_trigger :: "int \<Rightarrow> string \<Rightarrow> (trigger_row \<Rightarrow> trigger_row) \<Rightarrow> trigger_world \<Rightarrow> trigger_world option" where
  "update_trigger now i f w =
     (case jget (tw_triggers w) i of
        None \<Rightarrow> None
      | Some r \<Rightarrow> Some (w\<lparr>tw_triggers := jset i ((f r)\<lparr>tg_updatedAt := now\<rparr>) (tw_triggers w)\<rparr>))"

definition incrementTriggerSuppressed :: "int \<Rightarrow> string \<Rightarrow> trigger_world \<Rightarrow> trigger_world" where
  "incrementTriggerSuppressed now i w =
     (case update_trigger now i (\<lambda>r. r\<lparr>tg_suppressedCount := tg_suppressedCount r + 1\<rparr>) w of None \<Rightarrow> w | Some w' \<Rightarrow> w')"

definition incrementTriggerFired :: "int \<Rightarrow> string \<Rightarrow> int \<Rightarrow> trigger_world \<Rightarrow> trigger_world" where
  "incrementTriggerFired now i firedAt w =
     (case update_trigger now i (\<lambda>r. r\<lparr>tg_lastFiredAt := Some firedAt, tg_firedCount := tg_firedCount r + 1\<rparr>) w of
        None \<Rightarrow> w | Some w' \<Rightarrow> w')"

section \<open>Reading the event\<close>

definition present :: "string option \<Rightarrow> string option" where
  "present v = (case v of Some t \<Rightarrow> if t \<noteq> [] then Some t else None | None \<Rightarrow> None)"

fun payloadString :: "json \<Rightarrow> string \<Rightarrow> string option" where
  "payloadString (JObj m) k = (case jget m k of Some (JStr t) \<Rightarrow> Some t | _ \<Rightarrow> None)"
| "payloadString _ k = None"

fun eventBody :: "json \<Rightarrow> json option" where
  "eventBody (JObj m) = jget m ''payload''"
| "eventBody _ = None"

definition describeEvent :: "trigger_type \<Rightarrow> json \<Rightarrow> string" where
  "describeEvent ty payload =
     (case present (payloadString payload ''filePath'') of
        Some t \<Rightarrow> ''file change at '' @ t
      | None \<Rightarrow>
          (case present (payloadString payload ''scheduledAt'') of
             Some t \<Rightarrow> ''scheduled run at '' @ t
           | None \<Rightarrow>
               (case present (payloadString payload ''event'') of
                  Some t \<Rightarrow> trigger_text ty @ '' event: '' @ t
                | None \<Rightarrow> trigger_text ty @ '' trigger fired'')))"

definition eventDigest :: "(string \<Rightarrow> string) \<Rightarrow> json \<Rightarrow> string" where
  "eventDigest sha256 payload = take 16 (sha256 (json_stringify payload))"

text \<open>\<open>text.split(pat).join(repl)\<close> for a pattern that is not empty; the number is what is left of a match.\<close>

fun split_join :: "string \<Rightarrow> string \<Rightarrow> nat \<Rightarrow> string \<Rightarrow> string" where
  "split_join pat repl n [] = []"
| "split_join pat repl (Suc n) (c # cs) = split_join pat repl n cs"
| "split_join pat repl 0 (c # cs) =
     (if starts pat (c # cs) then repl @ split_join pat repl (length pat - 1) cs else c # split_join pat repl 0 cs)"

definition event_token :: string where "event_token = ''${event}''"

definition interpolateEvent :: "string option \<Rightarrow> string \<Rightarrow> string option" where
  "interpolateEvent instruction desc = map_option (split_join event_token desc 0) (present instruction)"

definition composeWakeInstruction :: "string \<Rightarrow> string \<Rightarrow> string" where
  "composeWakeInstruction persona focus = persona @ newline2 @ ''## Focus'' @ nl @ focus"

definition composeRoleTriggerInstruction :: "string \<Rightarrow> string \<Rightarrow> string \<Rightarrow> string" where
  "composeRoleTriggerInstruction persona focus desc =
     composeWakeInstruction persona
       (if index_of event_token focus \<noteq> None then split_join event_token desc 0 focus
        else focus @ newline2 @ ''(triggered by: '' @ desc @ '')'')"

section \<open>Repositories\<close>

fun repo_root_from :: "fs_env \<Rightarrow> nat \<Rightarrow> string \<Rightarrow> string option" where
  "repo_root_from env 0 dir = None"
| "repo_root_from env (Suc n) dir =
     (if fe_exists env (path_join dir ''.git'') then Some dir
      else if path_dirname dir = dir then None else repo_root_from env n (path_dirname dir))"

definition deriveRepoRoot :: "fs_env \<Rightarrow> string option \<Rightarrow> string option" where
  "deriveRepoRoot env watchPath =
     (case present watchPath of
        None \<Rightarrow> None
      | Some w \<Rightarrow> Some (case repo_root_from env 24 w of Some d \<Rightarrow> d | None \<Rightarrow> w))"

definition canonicalRepoPath :: "fs_env \<Rightarrow> string \<Rightarrow> string" where
  "canonicalRepoPath env p = (case fe_realpath env p of Some r \<Rightarrow> r | None \<Rightarrow> p)"

definition resolveSpecRepo :: "fs_env \<Rightarrow> string option \<Rightarrow> string option \<Rightarrow> string list \<Rightarrow> string option" where
  "resolveSpecRepo env repoField derived allowed =
     (case present repoField of
        None \<Rightarrow> derived
      | Some f \<Rightarrow>
          (let canon = (\<lambda>p. path_resolve (fe_cwd env) (canonicalRepoPath env p)); roots = map canon allowed
           in if hd f = slash
              then (let g = canon f in if list_ex (\<lambda>a. g = a \<or> starts (a @ [slash]) g) roots then Some g else None)
              else (case filter (\<lambda>a. path_basename a = f) roots of [a] \<Rightarrow> Some a | _ \<Rightarrow> None)))"

section \<open>Rails of a role\<close>

definition default_role_budget_per_day :: int where "default_role_budget_per_day = 20"
definition default_role_cascade_ceiling :: int where "default_role_cascade_ceiling = 3"
definition role_budget_window_ms :: int where "role_budget_window_ms = 86400000"

record role_rails =
  rl_roleId :: string
  rl_concernId :: string
  rl_budgetPerDay :: int
  rl_cascadeCeiling :: int

datatype rail = Rail_Dedup string | Rail_Cascade | Rail_Budget

type_synonym listed_loop = "loop_row \<times> loop_passport"

definition listed_role :: "listed_loop \<Rightarrow> role_provenance option" where
  "listed_role x = (case pp_provenance (snd x) of None \<Rightarrow> None | Some v \<Rightarrow> tv_role v)"

definition of_role :: "string \<Rightarrow> listed_loop \<Rightarrow> bool" where
  "of_role r x \<longleftrightarrow> (case listed_role x of None \<Rightarrow> False | Some v \<Rightarrow> rq_roleId v = r)"

definition of_concern :: "string \<Rightarrow> listed_loop \<Rightarrow> bool" where
  "of_concern k x \<longleftrightarrow> (case listed_role x of None \<Rightarrow> False | Some v \<Rightarrow> rq_concernId v = k)"

definition listed_active :: "listed_loop \<Rightarrow> bool" where
  "listed_active x \<longleftrightarrow> \<not> is_terminal (lo_state (fst x))"

definition evaluateRoleRails :: "listed_loop list \<Rightarrow> role_rails \<Rightarrow> int \<Rightarrow> rail option" where
  "evaluateRoleRails existing rails now =
     (let roleLoops = filter (of_role (rl_roleId rails)) existing
      in case find (\<lambda>x. listed_active x \<and> of_concern (rl_concernId rails) x) roleLoops of
           Some dup \<Rightarrow> Some (Rail_Dedup (lo_id (fst dup)))
         | None \<Rightarrow>
             if int (length (filter listed_active roleLoops)) \<ge> rl_cascadeCeiling rails then Some Rail_Cascade
             else if int (length (filter (\<lambda>x. pp_createdAt (snd x) \<ge> now - role_budget_window_ms) roleLoops)) \<ge> rl_budgetPerDay rails
             then Some Rail_Budget
             else None)"

section \<open>The launch\<close>

record launch_plan =
  lp_projectId :: string
  lp_repoPath :: string
  lp_preset :: review_preset
  lp_ref :: "string option"
  lp_baseline :: "string option"
  lp_instruction :: "string option"
  lp_objectiveExtra :: "string option"
  lp_eventSummary :: "string option"
  lp_commitPrefix :: "string option"
  lp_skillIds :: "string list"
  lp_specDedupKey :: "string option"
  lp_spec :: "spec_provenance option"
  lp_role :: "role_provenance option"
  lp_rails :: "role_rails option"
  lp_reviewMode :: "review_mode option"
  lp_payload :: json

definition plain_plan :: "string \<Rightarrow> string \<Rightarrow> review_preset \<Rightarrow> json \<Rightarrow> launch_plan" where
  "plain_plan project repo preset payload =
     \<lparr>lp_projectId = project, lp_repoPath = repo, lp_preset = preset, lp_ref = None, lp_baseline = None, lp_instruction = None,
      lp_objectiveExtra = None, lp_eventSummary = None, lp_commitPrefix = None, lp_skillIds = [], lp_specDedupKey = None,
      lp_spec = None, lp_role = None, lp_rails = None, lp_reviewMode = None, lp_payload = payload\<rparr>"

text \<open>The loops of a project, the newest first.\<close>

definition getLoops :: "string \<Rightarrow> review_db \<Rightarrow> listed_loop list" where
  "getLoops project db =
     sort_key (\<lambda>x. - pp_createdAt (snd x))
       (List.map_filter (\<lambda>(i, l). case jget (rd_passports db) i of
            Some p \<Rightarrow> if pp_projectId p = project then Some (l, p) else None | None \<Rightarrow> None)
          (ls_loops (lc_store (rd_ctl db))))"

definition blocks_fire :: "fs_env \<Rightarrow> launch_plan \<Rightarrow> listed_loop \<Rightarrow> bool" where
  "blocks_fire env plan x \<longleftrightarrow>
     listed_active x \<and>
     (case lp_specDedupKey plan of
        Some key \<Rightarrow> (case pp_provenance (snd x) of None \<Rightarrow> False
            | Some v \<Rightarrow> (case tv_spec v of None \<Rightarrow> False | Some s \<Rightarrow> sv_specPath s = key))
      | None \<Rightarrow> lo_repoPath (fst x) = canonicalRepoPath env (lp_repoPath plan) \<or> lo_repoPath (fst x) = lp_repoPath plan)"

text \<open>The look: why nothing is launched, or the owner of what is.\<close>

definition launch_check :: "dispatch_env \<Rightarrow> launch_plan \<Rightarrow> int \<Rightarrow> trigger_world \<Rightarrow> fire_result + string" where
  "launch_check env plan firedAt w =
     (if \<not> de_loopEnabled env then Inl Skipped
      else
        (case de_owner env (lp_projectId plan) of
           Inl _ \<Rightarrow> Inl Failed_Fire
         | Inr owner \<Rightarrow>
             (case present owner of
                None \<Rightarrow> Inl Skipped
              | Some createdBy \<Rightarrow>
                  (let existing = getLoops (lp_projectId plan) (tw_db w)
                   in case lp_rails plan of
                        Some rails \<Rightarrow>
                          (case evaluateRoleRails existing rails firedAt of
                             None \<Rightarrow> Inr createdBy
                           | Some (Rail_Dedup _) \<Rightarrow> Inl Skipped_Dedup
                           | Some Rail_Cascade \<Rightarrow> Inl Skipped_Cascade
                           | Some Rail_Budget \<Rightarrow> Inl Skipped_Budget)
                      | None \<Rightarrow>
                          if list_ex (blocks_fire (ce_fs (de_create env)) plan) existing then Inl Skipped_Dedup else Inr createdBy))))"

definition plan_provenance :: "dispatch_env \<Rightarrow> trigger_row \<Rightarrow> launch_plan \<Rightarrow> int \<Rightarrow> trigger_provenance" where
  "plan_provenance env trigger plan firedAt =
     \<lparr>tv_triggerId = tg_id trigger, tv_triggerType = trigger_text (tg_type trigger),
      tv_eventDigest = eventDigest (de_sha256 env) (lp_payload plan), tv_firedAt = toISOString firedAt,
      tv_eventSummary = present (lp_eventSummary plan), tv_spec = lp_spec plan, tv_role = lp_role plan\<rparr>"

definition plan_params :: "dispatch_env \<Rightarrow> trigger_row \<Rightarrow> launch_plan \<Rightarrow> int \<Rightarrow> string \<Rightarrow> create_params" where
  "plan_params env trigger plan firedAt createdBy =
     \<lparr>cr_projectId = lp_projectId plan, cr_repoPath = lp_repoPath plan, cr_preset = lp_preset plan, cr_createdBy = createdBy,
      cr_maxRounds = Some 1, cr_baseline = lp_baseline plan, cr_objectiveExtra = lp_objectiveExtra plan,
      cr_instruction = lp_instruction plan, cr_skillIds = lp_skillIds plan, cr_secretNames = None, cr_ref = lp_ref plan,
      cr_provenance = Some (plan_provenance env trigger plan firedAt), cr_reviewMode = lp_reviewMode plan,
      cr_commitPrefix = lp_commitPrefix plan\<rparr>"

text \<open>The creation; a failure of the counter is swallowed, any other error is a failed fire.\<close>

definition launch_create :: "dispatch_env \<Rightarrow> trigger_row \<Rightarrow> launch_plan \<Rightarrow> fire_inputs \<Rightarrow> string \<Rightarrow> trigger_world \<Rightarrow> fire_result \<times> trigger_world" where
  "launch_create env trigger plan fi createdBy w =
     (case createConsiliumReview (de_create env) (plan_params env trigger plan (fi_firedAt fi) createdBy) (fi_ids fi) (tw_db w) of
        (Inl e, db) \<Rightarrow> (Failed_Fire, w\<lparr>tw_db := db\<rparr>)
      | (Inr i, db) \<Rightarrow> (Launched, incrementTriggerFired (ci_now (fi_ids fi)) (tg_id trigger) (fi_firedAt fi) (w\<lparr>tw_db := db\<rparr>)))"

definition launchReviewWithDedup :: "dispatch_env \<Rightarrow> trigger_row \<Rightarrow> launch_plan \<Rightarrow> fire_inputs \<Rightarrow> trigger_world \<Rightarrow> fire_result \<times> trigger_world" where
  "launchReviewWithDedup env trigger plan fi w =
     (case launch_check env plan (fi_firedAt fi) w of
        Inl r \<Rightarrow> (r, w)
      | Inr createdBy \<Rightarrow> launch_create env trigger plan fi createdBy w)"

section \<open>The kinds of fire\<close>

definition label_of :: "string \<Rightarrow> string" where
  "label_of t = take 120 (trim (replace_runs control_char False t))"

definition watched_path :: "trigger_config \<Rightarrow> json \<Rightarrow> string option" where
  "watched_path cfg payload =
     (case payloadString payload ''watchPath'' of Some t \<Rightarrow> Some t | None \<Rightarrow> tc_watchPath cfg)"

definition maybeLaunchSpecReview :: "dispatch_env \<Rightarrow> trigger_row \<Rightarrow> json \<Rightarrow> string \<Rightarrow> fire_inputs \<Rightarrow> trigger_world \<Rightarrow> fire_result \<times> trigger_world" where
  "maybeLaunchSpecReview env trigger payload filePath fi w =
     (if \<not> de_loopEnabled env then (Skipped, w)
      else
        (case present (tg_projectId trigger) of
           None \<Rightarrow> (Skipped, w)
         | Some project \<Rightarrow>
             (let (bytes, content) = de_file env filePath;
                  (parsed, isAdr) = applyAdrIntake (readSpecFile (de_yaml env) bytes content) filePath
              in case evaluateReadyGate parsed of
                   Gate_Holds reason \<Rightarrow> (Skipped, w)
                 | Gate_Fires fm body \<Rightarrow>
                     (let fs = ce_fs (de_create env); watchPath = watched_path (tg_config trigger) payload
                      in case resolveSpecRepo fs (sf_repo fm) (deriveRepoRoot fs watchPath) (ce_allowedRepoPaths (de_create env)) of
                           None \<Rightarrow> (Skipped, w)
                         | Some repo \<Rightarrow>
                             (let preset = (case tc_action (tg_config trigger) of Some a \<Rightarrow> ta_preset a | None \<Rightarrow> Sdlc_Cross_Review);
                                  title = label_of (case sf_title fm of Some t \<Rightarrow> t | None \<Rightarrow> path_basename filePath);
                                  plan = (plain_plan project repo preset payload)
                                    \<lparr>lp_instruction := Some (buildSpecInstruction body (sf_criteria fm) (sf_role fm)),
                                     lp_skillIds := sf_skills fm, lp_specDedupKey := Some filePath,
                                     lp_spec := Some \<lparr>sv_specPath = filePath,
                                       sv_status = (case sf_status fm of Some t \<Rightarrow> t | None \<Rightarrow> ''ready''),
                                       sv_source = map_option (\<lambda>s. (ss_kind s, ss_ref s, ss_url s)) (sf_source fm), sv_adr = isAdr\<rparr>,
                                     lp_eventSummary := Some (''spec ready: '' @ title)\<rparr>;
                                  (r, w1) = launchReviewWithDedup env trigger plan fi w
                              in (r, if r = Launched
                                     then (case deriveRepoRoot fs watchPath of
                                             Some specRepo \<Rightarrow> w1\<lparr>tw_flips := tw_flips w1 @ [(filePath, specRepo)]\<rparr>
                                           | None \<Rightarrow> w1)
                                     else w1))))))"

definition maybeLaunchConsiliumReview :: "dispatch_env \<Rightarrow> trigger_row \<Rightarrow> json \<Rightarrow> fire_inputs \<Rightarrow> trigger_world \<Rightarrow> fire_result \<times> trigger_world" where
  "maybeLaunchConsiliumReview env trigger payload fi w =
     (case (if de_triggersEnabled env \<and> de_specWatch env \<and> tg_type trigger = Trg_File_Change
            then (case present (payloadString payload ''filePath'') of
                    Some f \<Rightarrow> if pathMatchesSpecGlobs f (de_specGlobs env) then Some f else None
                  | None \<Rightarrow> None)
            else None) of
        Some f \<Rightarrow> maybeLaunchSpecReview env trigger payload f fi w
      | None \<Rightarrow>
          (case tc_action (tg_config trigger) of
             None \<Rightarrow> (Noop, w)
           | Some action \<Rightarrow>
               if ta_kind action \<noteq> ''consilium_review'' then (Noop, w)
               else if \<not> de_loopEnabled env then (Skipped, w)
               else
                 (case present (tg_projectId trigger) of
                    None \<Rightarrow> (Skipped, w)
                  | Some project \<Rightarrow>
                      (case present (case ta_repoPath action of Some r \<Rightarrow> Some r
                               | None \<Rightarrow> deriveRepoRoot (ce_fs (de_create env)) (watched_path (tg_config trigger) payload)) of
                         None \<Rightarrow> (Skipped, w)
                       | Some repo \<Rightarrow>
                           (let desc = describeEvent (tg_type trigger) payload; instruction = interpolateEvent (ta_instruction action) desc
                            in launchReviewWithDedup env trigger
                                 ((plain_plan project repo (ta_preset action) payload)
                                    \<lparr>lp_instruction := instruction,
                                     lp_objectiveExtra := (if present instruction = None then Some desc else None)\<rparr>) fi w)))))"

text \<open>The two webhook paths differ in the mapping only.\<close>

definition launch_mapped :: "dispatch_env \<Rightarrow> trigger_row \<Rightarrow> json \<Rightarrow> map_result \<Rightarrow> fire_inputs \<Rightarrow> trigger_world \<Rightarrow> fire_result \<times> trigger_world" where
  "launch_mapped env trigger payload mapped fi w =
     (case mapped of
        Map_Noop reason \<Rightarrow> (Noop_Event, w)
      | Map_Review m \<Rightarrow>
          if \<not> de_loopEnabled env then (Skipped, w)
          else
            (case present (tg_projectId trigger) of
               None \<Rightarrow> (Skipped, w)
             | Some project \<Rightarrow>
                 (case (case tc_action (tg_config trigger) of None \<Rightarrow> None | Some a \<Rightarrow> present (ta_repoPath a)) of
                    None \<Rightarrow> (Skipped, w)
                  | Some repo \<Rightarrow>
                      (let instruction = interpolateEvent
                             (case tc_action (tg_config trigger) of None \<Rightarrow> None | Some a \<Rightarrow> ta_instruction a) (mp_label m)
                       in launchReviewWithDedup env trigger
                            ((plain_plan project repo (mp_preset m) payload)
                               \<lparr>lp_ref := Some (mp_ref m), lp_baseline := mp_baseline m, lp_instruction := instruction,
                                lp_objectiveExtra := (if present instruction = None then Some (mp_label m) else None),
                                lp_eventSummary := Some (mp_label m)\<rparr>) fi w))))"

definition event_type :: "json \<Rightarrow> string" where
  "event_type payload = text_or [] (payloadString payload ''event'')"

definition maybeLaunchGitHubReview :: "dispatch_env \<Rightarrow> trigger_row \<Rightarrow> json \<Rightarrow> fire_inputs \<Rightarrow> trigger_world \<Rightarrow> fire_result \<times> trigger_world" where
  "maybeLaunchGitHubReview env trigger payload fi w =
     launch_mapped env trigger payload (mapGitHubEventToReview (event_type payload) (eventBody payload)) fi w"

definition maybeLaunchGitLabReview :: "dispatch_env \<Rightarrow> trigger_row \<Rightarrow> json \<Rightarrow> fire_inputs \<Rightarrow> trigger_world \<Rightarrow> fire_result \<times> trigger_world" where
  "maybeLaunchGitLabReview env trigger payload fi w =
     launch_mapped env trigger payload (mapGitLabEventToReview (event_type payload) (eventBody payload)) fi w"

section \<open>Tickets\<close>

record ticket_launch =
  tl_projectId :: string
  tl_repoPath :: string
  tl_preset :: "review_preset option"
  tl_kind :: string
  tl_key :: string
  tl_title :: string
  tl_url :: "string option"
  tl_problem :: "string option"
  tl_scope :: "string option"
  tl_outOfScope :: "string option"
  tl_criteria :: "string list"
  tl_ref :: "string option"

definition ticket_body :: "ticket_launch \<Rightarrow> string" where
  "ticket_body a =
     join_with newline2
       ([''## Problem'' @ nl @ text_or (tl_title a) (tl_problem a)] @
        (case present (tl_scope a) of Some t \<Rightarrow> [''## Scope'' @ nl @ t] | None \<Rightarrow> []) @
        (case present (tl_outOfScope a) of Some t \<Rightarrow> [''## Out of scope'' @ nl @ t] | None \<Rightarrow> []) @
        (case present (tl_url a) of Some t \<Rightarrow> [''Ticket: '' @ t] | None \<Rightarrow> []))"

definition ticket_plan :: "ticket_launch \<Rightarrow> launch_plan" where
  "ticket_plan a =
     (let anchor = ''ticket:'' @ tl_kind a @ '':'' @ tl_key a; title = label_of (tl_title a);
          safeKey = take 40 (filter (\<lambda>c. ascii_alnum c \<or> c = CHR ''_'' \<or> c = CHR ''-'') (tl_key a))
      in (plain_plan (tl_projectId a) (tl_repoPath a) (case tl_preset a of Some p \<Rightarrow> p | None \<Rightarrow> Sdlc_Cross_Review)
            (JObj [(''ticket'', JStr (tl_key a))]))
           \<lparr>lp_ref := tl_ref a, lp_commitPrefix := (if length safeKey > 0 then Some (safeKey @ '': '') else None),
            lp_instruction := Some (buildSpecInstruction (ticket_body a) (tl_criteria a) None), lp_specDedupKey := Some anchor,
            lp_spec := Some \<lparr>sv_specPath = anchor, sv_status = ''ready'',
              sv_source = Some (tl_kind a, Some (tl_key a), present (tl_url a)), sv_adr = False\<rparr>,
            lp_eventSummary := Some (''ticket picked: '' @ tl_key a @ (if title \<noteq> [] then '' '' @ title else []))\<rparr>)"

definition launchTicketReview :: "dispatch_env \<Rightarrow> trigger_row \<Rightarrow> ticket_launch \<Rightarrow> fire_inputs \<Rightarrow> trigger_world \<Rightarrow> fire_result \<times> trigger_world" where
  "launchTicketReview env trigger a fi w =
     (if \<not> de_loopEnabled env then (Skipped, w) else launchReviewWithDedup env trigger (ticket_plan a) fi w)"

section \<open>Roles\<close>

fun nonempty_text :: "json option \<Rightarrow> string option" where
  "nonempty_text (Some (JStr t)) = present (Some t)"
| "nonempty_text _ = None"

definition readRoleConcernBinding :: "trigger_config \<Rightarrow> (string \<times> string) option" where
  "readRoleConcernBinding cfg =
     (case tc_roleConcern cfg of
        Some (JObj m) \<Rightarrow>
          (case (nonempty_text (jget m ''roleId''), nonempty_text (jget m ''concernId'')) of
             (Some r, Some c) \<Rightarrow> Some (r, c) | _ \<Rightarrow> None)
      | _ \<Rightarrow> None)"

definition findConcern :: "standing_role \<Rightarrow> string \<Rightarrow> role_concern option" where
  "findConcern role i = find (\<lambda>c. rc_id c = i) (sr_concerns role)"

definition role_plan :: "string \<Rightarrow> standing_role \<Rightarrow> role_concern \<Rightarrow> json \<Rightarrow> string option \<Rightarrow> string option \<Rightarrow> string \<Rightarrow> launch_plan" where
  "role_plan project role concern payload ref baseline desc =
     (plain_plan project (rc_repoPath concern) (sr_preset role) payload)
       \<lparr>lp_ref := ref, lp_baseline := baseline,
        lp_instruction := Some (composeRoleTriggerInstruction (sr_persona role) (rc_focus concern) desc),
        lp_skillIds := sr_skills role, lp_reviewMode := sr_reviewMode role,
        lp_role := Some \<lparr>rq_roleId = sr_id role, rq_name = sr_name role, rq_concernId = rc_id concern, rq_cascadeDepth = 1\<rparr>,
        lp_rails := Some \<lparr>rl_roleId = sr_id role, rl_concernId = rc_id concern,
          rl_budgetPerDay = (case sr_budgetPerDay role of Some b \<Rightarrow> b | None \<Rightarrow> default_role_budget_per_day),
          rl_cascadeCeiling = (case sr_cascadeDepth role of Some d \<Rightarrow> d | None \<Rightarrow> default_role_cascade_ceiling)\<rparr>,
        lp_eventSummary := Some desc\<rparr>"

definition maybeLaunchRoleWake :: "dispatch_env \<Rightarrow> trigger_row \<Rightarrow> json \<Rightarrow> fire_inputs \<Rightarrow> trigger_world \<Rightarrow> fire_result \<times> trigger_world" where
  "maybeLaunchRoleWake env trigger payload fi w =
     (case readRoleConcernBinding (tg_config trigger) of
        None \<Rightarrow> (Noop, w)
      | Some (roleId, concernId) \<Rightarrow>
          if \<not> de_loopEnabled env then (Skipped, w)
          else
            (case present (tg_projectId trigger) of
               None \<Rightarrow> (Skipped, w)
             | Some project \<Rightarrow>
                 (case de_role env project roleId of
                    None \<Rightarrow> (Skipped, w)
                  | Some role \<Rightarrow>
                      if \<not> sr_enabled role then (Skipped, w)
                      else
                        (case findConcern role concernId of
                           None \<Rightarrow> (Skipped, w)
                         | Some concern \<Rightarrow>
                             if rc_enabled concern = Some False then (Skipped, w)
                             else if tg_type trigger = Trg_Github
                             then (case mapGitHubEventToReview (event_type payload) (eventBody payload) of
                                     Map_Noop reason \<Rightarrow> (Noop_Event, w)
                                   | Map_Review m \<Rightarrow>
                                       launchReviewWithDedup env trigger
                                         (role_plan project role concern payload (Some (mp_ref m)) (mp_baseline m) (mp_label m)) fi w)
                             else launchReviewWithDedup env trigger
                                    (role_plan project role concern payload None None (describeEvent (tg_type trigger) payload)) fi w))))"

section \<open>Firing\<close>

text \<open>\<open>fireTrigger\<close>; \<open>None\<close> when the trigger is gone and recording the fire throws.\<close>

definition dispatch_fire :: "dispatch_env \<Rightarrow> trigger_row \<Rightarrow> json \<Rightarrow> fire_inputs \<Rightarrow> trigger_world \<Rightarrow> fire_result \<times> trigger_world" where
  "dispatch_fire env trigger payload fi w =
     (if truthy (tc_roleConcern (tg_config trigger)) then maybeLaunchRoleWake env trigger payload fi w
      else if tg_type trigger = Trg_Github then maybeLaunchGitHubReview env trigger payload fi w
      else if tg_type trigger = Trg_Gitlab then maybeLaunchGitLabReview env trigger payload fi w
      else maybeLaunchConsiliumReview env trigger payload fi w)"

definition fireTrigger :: "dispatch_env \<Rightarrow> trigger_row \<Rightarrow> json \<Rightarrow> fire_inputs \<Rightarrow> trigger_world \<Rightarrow> (fire_result \<times> trigger_world) option" where
  "fireTrigger env trigger payload fi w =
     (case update_trigger (fi_now fi) (tg_id trigger) (\<lambda>r. r\<lparr>tg_lastTriggeredAt := Some (fi_now fi)\<rparr>) w of
        None \<Rightarrow> None
      | Some w1 \<Rightarrow>
          Some
            (if (tg_type trigger \<in> {Trg_Schedule, Trg_Github, Trg_Gitlab} \<or> truthy (tc_roleConcern (tg_config trigger))) \<and>
                \<not> de_triggersEnabled env
             then (Recorded, w1)
             else if tg_type trigger = Trg_Gitlab \<and> \<not> de_gitlabEvents env then (Recorded, w1)
             else
               (let (r, w2) = dispatch_fire env trigger payload fi w1
                in (r, if r \<in> {Skipped_Dedup, Skipped_Budget, Skipped_Cascade}
                       then incrementTriggerSuppressed (fi_now fi) (tg_id trigger) w2 else w2))))"

end
