(* ===== verification/Trigger_Facts.thy ===== *)
theory Trigger_Facts
  imports Trigger_Dispatch Review_Create_Facts
begin

text \<open>
  What fires do: the counters of the trigger account for every one, a launch adds one review-only loop with its trigger in
  the passport, and fires that do not overlap keep a role within its rails.
\<close>

section \<open>One launch\<close>

definition ready :: "create_ids \<Rightarrow> trigger_world \<Rightarrow> bool" where
  "ready ids w \<longleftrightarrow> ids_fresh ids (tw_db w) \<and> editor_ok (or_store (lc_orch (rd_ctl (tw_db w))))"

lemma increment_db [simp]:
  "tw_db (incrementTriggerFired n i t w) = tw_db w" "tw_db (incrementTriggerSuppressed n i w) = tw_db w"
  by (auto simp: incrementTriggerFired_def incrementTriggerSuppressed_def update_trigger_def split: option.splits)

lemma increment_get:
  "jget (tw_triggers (incrementTriggerFired n i t w)) i =
     map_option (\<lambda>r. r\<lparr>tg_lastFiredAt := Some t, tg_firedCount := tg_firedCount r + 1, tg_updatedAt := n\<rparr>) (jget (tw_triggers w) i)"
  "jget (tw_triggers (incrementTriggerSuppressed n i w)) i =
     map_option (\<lambda>r. r\<lparr>tg_suppressedCount := tg_suppressedCount r + 1, tg_updatedAt := n\<rparr>) (jget (tw_triggers w) i)"
  by (auto simp: incrementTriggerFired_def incrementTriggerSuppressed_def update_trigger_def split: option.splits)

lemma check_not_launched: "launch_check env plan t w = Inl r \<Longrightarrow> r \<noteq> Launched"
  by (auto simp: launch_check_def Let_def split: if_splits sum.splits option.splits rail.splits)

text \<open>A creation that went through, and the counter it leaves.\<close>

definition launched :: "dispatch_env \<Rightarrow> trigger_row \<Rightarrow> launch_plan \<Rightarrow> fire_inputs \<Rightarrow> trigger_world \<Rightarrow> trigger_world \<Rightarrow> bool" where
  "launched env trg plan fi w w' \<longleftrightarrow>
     (\<exists>own pl. check_create (de_create env) (plan_params env trg plan (fi_firedAt fi) own) = Inr pl \<and>
        review_created (de_create env) (plan_params env trg plan (fi_firedAt fi) own) (fi_ids fi) pl (tw_db w) (tw_db w')) \<and>
     (\<forall>i. tg_id trg = i \<longrightarrow> jget (tw_triggers w') i = map_option
        (\<lambda>r. r\<lparr>tg_lastFiredAt := Some (fi_firedAt fi), tg_firedCount := tg_firedCount r + 1, tg_updatedAt := ci_now (fi_ids fi)\<rparr>)
        (jget (tw_triggers w) i))"

lemma create_effect:
  assumes "ready (fi_ids fi) w" and r: "launch_create env trg plan fi own w = (r, w')"
  shows "(r = Failed_Fire \<and> w' = w) \<or> (r = Launched \<and> launched env trg plan fi w w')"
proof -
  let ?p = "plan_params env trg plan (fi_firedAt fi) own"
  have cs: "case check_create (de_create env) ?p of
      Inl e \<Rightarrow> createConsiliumReview (de_create env) ?p (fi_ids fi) (tw_db w) = (Inl (Rejected e), tw_db w)
    | Inr pl \<Rightarrow> \<exists>db'. createConsiliumReview (de_create env) ?p (fi_ids fi) (tw_db w) = (Inr (ci_loopId (fi_ids fi)), db') \<and>
        review_created (de_create env) ?p (fi_ids fi) pl (tw_db w) db'"
    using assms(1) unfolding ready_def by (intro create_cases) blast+
  show ?thesis
  proof (cases "check_create (de_create env) ?p")
    case (Inl e)
    with cs r show ?thesis by (auto simp: launch_create_def)
  next
    case (Inr pl)
    with cs obtain db' where c: "createConsiliumReview (de_create env) ?p (fi_ids fi) (tw_db w) = (Inr (ci_loopId (fi_ids fi)), db')"
      "review_created (de_create env) ?p (fi_ids fi) pl (tw_db w) db'" by auto
    then have "r = Launched" "w' = incrementTriggerFired (ci_now (fi_ids fi)) (tg_id trg) (fi_firedAt fi) (w\<lparr>tw_db := db'\<rparr>)"
      using r by (auto simp: launch_create_def)
    with c(2) Inr show ?thesis unfolding launched_def by (intro disjI2 conjI exI) (auto simp: increment_get)
  qed
qed

lemma launch_effect:
  assumes "ready (fi_ids fi) w" "launchReviewWithDedup env trg plan fi w = (r, w')"
  shows "(r \<noteq> Launched \<and> w' = w) \<or>
     (r = Launched \<and> launched env trg plan fi w w' \<and> (\<exists>own. launch_check env plan (fi_firedAt fi) w = Inr own))"
proof (cases "launch_check env plan (fi_firedAt fi) w")
  case (Inl x)
  then show ?thesis using assms(2) check_not_launched[OF Inl] by (auto simp: launchReviewWithDedup_def)
next
  case (Inr own)
  then have "launch_create env trg plan fi own w = (r, w')" using assms(2) by (simp add: launchReviewWithDedup_def)
  from create_effect[OF assms(1) this] Inr show ?thesis by auto
qed

section \<open>One fire\<close>

text \<open>The plans that a fire of a trigger leads to: within the project of the trigger, with the rails of a role or none.\<close>

definition rails_of :: "standing_role \<Rightarrow> string \<Rightarrow> role_rails" where
  "rails_of role k =
     \<lparr>rl_roleId = sr_id role, rl_concernId = k,
      rl_budgetPerDay = (case sr_budgetPerDay role of Some b \<Rightarrow> b | None \<Rightarrow> default_role_budget_per_day),
      rl_cascadeCeiling = (case sr_cascadeDepth role of Some d \<Rightarrow> d | None \<Rightarrow> default_role_cascade_ceiling)\<rparr>"

definition plan_of :: "dispatch_env \<Rightarrow> launch_plan \<Rightarrow> bool" where
  "plan_of env plan \<longleftrightarrow>
     (lp_rails plan = None \<and> lp_role plan = None) \<or>
     (\<exists>rid role k v. de_role env (lp_projectId plan) rid = Some role \<and> lp_rails plan = Some (rails_of role k) \<and>
        lp_role plan = Some v \<and> rq_roleId v = sr_id role \<and> rq_concernId v = k)"

definition same_fire :: "trigger_world \<Rightarrow> trigger_world \<Rightarrow> bool" where
  "same_fire w w' \<longleftrightarrow> tw_db w' = tw_db w \<and> tw_triggers w' = tw_triggers w"

definition fires_as :: "dispatch_env \<Rightarrow> trigger_row \<Rightarrow> fire_inputs \<Rightarrow> trigger_world \<Rightarrow> fire_result \<times> trigger_world \<Rightarrow> bool" where
  "fires_as env trg fi w x \<longleftrightarrow>
     (fst x \<noteq> Launched \<and> same_fire w (snd x)) \<or>
     (\<exists>plan. plan_of env plan \<and> present (tg_projectId trg) = Some (lp_projectId plan) \<and>
        (case launchReviewWithDedup env trg plan fi w of (r, w1) \<Rightarrow> fst x = r \<and> same_fire w1 (snd x)))"

lemma fires_as_none: "r \<noteq> Launched \<Longrightarrow> fires_as env trg fi w (r, w)"
  by (simp add: fires_as_def same_fire_def)

lemma fires_as_launch:
  "plan_of env plan \<Longrightarrow> present (tg_projectId trg) = Some (lp_projectId plan) \<Longrightarrow>
   fires_as env trg fi w (launchReviewWithDedup env trg plan fi w)"
  unfolding fires_as_def by (rule disjI2, rule exI[of _ plan]) (auto simp: same_fire_def split: prod.split)

lemma plain_plan_of:
  "lp_rails plan = None \<Longrightarrow> lp_role plan = None \<Longrightarrow> plan_of env plan"
  by (simp add: plan_of_def)

lemma role_plan_of:
  "de_role env project rid = Some role \<Longrightarrow> plan_of env (role_plan project role concern payload ref baseline desc)"
  unfolding plan_of_def by (rule disjI2) (auto simp: role_plan_def plain_plan_def rails_of_def intro!: exI[of _ rid])

lemma role_plan_project [simp]: "lp_projectId (role_plan project role concern payload ref baseline desc) = project"
  by (simp add: role_plan_def plain_plan_def)

lemma role_wake_fires: "fires_as env trg fi w (maybeLaunchRoleWake env trg payload fi w)"
  by (auto simp: maybeLaunchRoleWake_def split: option.split map_result.split
      intro!: fires_as_none fires_as_launch role_plan_of)

lemma mapped_fires: "fires_as env trg fi w (launch_mapped env trg payload m fi w)"
  by (auto simp: launch_mapped_def Let_def plain_plan_def split: option.split map_result.split
      intro!: fires_as_none fires_as_launch plain_plan_of)

lemma spec_fires: "fires_as env trg fi w (maybeLaunchSpecReview env trg payload f fi w)"
proof -
  have flip: "fires_as env trg fi w (case launchReviewWithDedup env trg plan fi w of (r, w1) \<Rightarrow> (r, if r = Launched then h w1 else w1))"
    if "plan_of env plan" "present (tg_projectId trg) = Some (lp_projectId plan)" "\<And>w1. same_fire w1 (h w1)" for plan h
    unfolding fires_as_def using that
    by (intro disjI2 exI[of _ plan]) (auto simp: same_fire_def split: prod.split)
  obtain bytes content where df: "de_file env f = (bytes, content)" by force
  obtain parsed adr where parsed: "applyAdrIntake (readSpecFile (de_yaml env) bytes content) f = (parsed, adr)" by force
  show ?thesis
    unfolding maybeLaunchSpecReview_def Let_def df prod.case parsed
    by (auto split: option.split gate_result.split intro!: fires_as_none flip fires_as_launch plain_plan_of
        simp: plain_plan_def same_fire_def)
qed

lemma consilium_fires: "fires_as env trg fi w (maybeLaunchConsiliumReview env trg payload fi w)"
  unfolding maybeLaunchConsiliumReview_def Let_def
  by (auto split: option.split intro!: spec_fires fires_as_none fires_as_launch plain_plan_of simp: plain_plan_def)

lemma dispatch_fires: "fires_as env trg fi w (dispatch_fire env trg payload fi w)"
  by (simp add: dispatch_fire_def role_wake_fires mapped_fires consilium_fires maybeLaunchGitHubReview_def maybeLaunchGitLabReview_def)

lemma fire_effect:
  assumes "ready (fi_ids fi) w" "fires_as env trg fi w (r, w')"
  shows "(r \<noteq> Launched \<and> same_fire w w') \<or>
    (r = Launched \<and> (\<exists>plan own. plan_of env plan \<and> present (tg_projectId trg) = Some (lp_projectId plan) \<and>
       launch_check env plan (fi_firedAt fi) w = Inr own \<and> launched env trg plan fi w w'))"
  using assms(2) unfolding fires_as_def
proof (elim disjE exE conjE)
  fix plan
  obtain x w1 where x: "launchReviewWithDedup env trg plan fi w = (x, w1)" by force
  assume plan: "plan_of env plan" "present (tg_projectId trg) = Some (lp_projectId plan)"
    and "case launchReviewWithDedup env trg plan fi w of (x, w1) \<Rightarrow> fst (r, w') = x \<and> same_fire w1 (snd (r, w'))"
  then have xr: "x = r" and same: "tw_db w' = tw_db w1" "tw_triggers w' = tw_triggers w1" using x by (auto simp: same_fire_def)
  from launch_effect[OF assms(1) x] show ?thesis
  proof (elim disjE conjE exE)
    assume "x \<noteq> Launched" "w1 = w"
    with xr same show ?thesis by (simp add: same_fire_def)
  next
    fix own
    assume l: "x = Launched" "launched env trg plan fi w w1" "launch_check env plan (fi_firedAt fi) w = Inr own"
    then have "launched env trg plan fi w w'" unfolding launched_def same by blast
    with l xr plan show ?thesis by blast
  qed
qed (simp add: same_fire_def)

lemma jset_new: "jget m k = None \<Longrightarrow> jset k v m = m @ [(k, v)]"
  by (induction m) (auto split: if_splits)

definition new_row :: "create_params \<Rightarrow> create_plan \<Rightarrow> create_ids \<Rightarrow> loop_row" where
  "new_row p pl ids = (review_loop p pl ids)\<lparr>lo_state := Building_Context, lo_updatedAt := lw_now (ci_world ids)\<rparr>"

lemma new_row_sel [simp]:
  "lo_state (new_row p pl ids) = Building_Context" "lo_maxRounds (new_row p pl ids) = review_rounds p"
  "lo_repoPath (new_row p pl ids) = pl_repo pl"
  by (simp_all add: new_row_def review_loop_def)

lemma created_rows:
  "review_created env p ids pl db db' \<Longrightarrow> getLoop (lc_store (rd_ctl db)) (ci_loopId ids) = None \<Longrightarrow>
   ls_loops (lc_store (rd_ctl db')) = ls_loops (lc_store (rd_ctl db)) @ [(ci_loopId ids, new_row p pl ids)] \<and>
   rd_passports db' = jset (ci_loopId ids) (review_passport env p pl ids) (rd_passports db)"
  by (simp add: review_created_def getLoop_def new_row_def) (simp add: jset_new)

lemma clamp_one [simp]: "review_rounds (plan_params env trg plan t own) = 1"
  by (simp add: review_rounds_def plan_params_def clampRounds_def)

text \<open>
  C13: every fire of a trigger is accounted for. The fired counter and the number of loops grow together, by one for a
  launch and by nothing otherwise; the suppressed counter grows exactly when a guard held the launch back; and a launched
  loop is review-only, one round, with the trigger in its passport.
\<close>

theorem fire_accounts_exactly:
  assumes "ready (fi_ids fi) w" "fireTrigger env trg payload fi w = Some (r, w')"
  shows "\<exists>row row'. jget (tw_triggers w) (tg_id trg) = Some row \<and> jget (tw_triggers w') (tg_id trg) = Some row' \<and>
    tg_firedCount row' = tg_firedCount row + (if r = Launched then 1 else 0) \<and>
    tg_lastFiredAt row' = (if r = Launched then Some (fi_firedAt fi) else tg_lastFiredAt row) \<and>
    tg_suppressedCount row' = tg_suppressedCount row + (if r \<in> {Skipped_Dedup, Skipped_Budget, Skipped_Cascade} then 1 else 0) \<and>
    (if r = Launched
     then \<exists>l p v. ls_loops (lc_store (rd_ctl (tw_db w'))) = ls_loops (lc_store (rd_ctl (tw_db w))) @ [(ci_loopId (fi_ids fi), l)] \<and>
            lo_maxRounds l = 1 \<and> lo_state l = Building_Context \<and> jget (rd_passports (tw_db w')) (ci_loopId (fi_ids fi)) = Some p \<and>
            present (tg_projectId trg) = Some (pp_projectId p) \<and> pp_provenance p = Some v \<and> tv_triggerId v = tg_id trg \<and>
            tv_firedAt v = toISOString (fi_firedAt fi)
     else tw_db w' = tw_db w)"
proof -
  let ?i = "tg_id trg" and ?sup = "{Skipped_Dedup, Skipped_Budget, Skipped_Cascade}"
  obtain row w1 where row: "jget (tw_triggers w) ?i = Some row"
    and w1: "w1 = w\<lparr>tw_triggers := jset ?i (row\<lparr>tg_lastTriggeredAt := Some (fi_now fi), tg_updatedAt := fi_now fi\<rparr>) (tw_triggers w)\<rparr>"
    using assms(2) by (auto simp: fireTrigger_def update_trigger_def split: option.splits)
  have up: "update_trigger (fi_now fi) ?i (\<lambda>r. r\<lparr>tg_lastTriggeredAt := Some (fi_now fi)\<rparr>) w = Some w1"
    by (simp add: update_trigger_def row w1)
  obtain w2 where w2: "fires_as env trg fi w1 (r, w2)" "r \<notin> ?sup \<Longrightarrow> w' = w2"
    "r \<in> ?sup \<Longrightarrow> w' = incrementTriggerSuppressed (fi_now fi) ?i w2"
    using assms(2) dispatch_fires[of env trg fi w1 payload] fires_as_none[of Recorded env trg fi w1]
    by (auto simp: fireTrigger_def up Let_def split: if_splits prod.splits)
  have ready: "ready (fi_ids fi) w1" and db: "tw_db w1 = tw_db w" using assms(1) by (simp_all add: ready_def w1)
  have row1: "jget (tw_triggers w1) ?i = Some (row\<lparr>tg_lastTriggeredAt := Some (fi_now fi), tg_updatedAt := fi_now fi\<rparr>)" by (simp add: w1)
  from fire_effect[OF ready w2(1)] show ?thesis
  proof (elim disjE conjE exE)
    assume "r \<noteq> Launched" "same_fire w1 w2"
    then show ?thesis using row row1 db w2(2,3) by (cases "r \<in> ?sup") (auto simp: same_fire_def increment_get)
  next
    fix plan own
    assume r: "r = Launched" and l: "launched env trg plan fi w1 w2" and p: "present (tg_projectId trg) = Some (lp_projectId plan)"
    then have w': "w' = w2" using w2(2) by simp
    obtain own' pl where c: "review_created (de_create env) (plan_params env trg plan (fi_firedAt fi) own') (fi_ids fi) pl (tw_db w) (tw_db w')"
      using l unfolding launched_def db w' by blast
    have i: "getLoop (lc_store (rd_ctl (tw_db w))) (ci_loopId (fi_ids fi)) = None"
      using assms(1) by (simp add: ready_def ids_fresh_def)
    have "jget (tw_triggers w') ?i = map_option
        (\<lambda>r. r\<lparr>tg_lastFiredAt := Some (fi_firedAt fi), tg_firedCount := tg_firedCount r + 1, tg_updatedAt := ci_now (fi_ids fi)\<rparr>)
        (jget (tw_triggers w1) ?i)" using l unfolding launched_def w' by blast
    with row1 r row created_rows[OF c i] p show ?thesis
      by (simp add: review_passport_def) (simp add: plan_params_def plan_provenance_def)
  qed
qed

section \<open>Counting loops\<close>

definition listed_with :: "(listed_loop \<Rightarrow> bool) \<Rightarrow> string \<Rightarrow> review_db \<Rightarrow> nat" where
  "listed_with Q project db = length (filter Q (getLoops project db))"

definition active_on :: "string \<Rightarrow> listed_loop \<Rightarrow> bool" where
  "active_on repo x \<longleftrightarrow> listed_active x \<and> lo_repoPath (fst x) = repo"

lemma listed_unsorted:
  "listed_with Q project db = length (filter Q (List.map_filter (\<lambda>(i, l). case jget (rd_passports db) i of
       Some p \<Rightarrow> if pp_projectId p = project then Some (l, p) else None | None \<Rightarrow> None) (ls_loops (lc_store (rd_ctl db)))))"
  by (simp add: listed_with_def getLoops_def filter_sort[symmetric] del: filter_sort) (simp add: filter_sort)

lemma listed_none: "filter Q (getLoops project db) = [] \<longleftrightarrow> listed_with Q project db = 0"
  by (simp add: listed_with_def)

lemma map_filter_append: "List.map_filter f (xs @ ys) = List.map_filter f xs @ List.map_filter f ys"
  by (simp add: List.map_filter_def)

lemma listed_created:
  assumes "review_created env p ids pl db db'" "getLoop (lc_store (rd_ctl db)) (ci_loopId ids) = None"
  shows "listed_with Q project db' = listed_with Q project db +
     (if cr_projectId p = project \<and> Q (new_row p pl ids, review_passport env p pl ids) then 1 else 0)"
proof -
  let ?i = "ci_loopId ids" and ?ls = "ls_loops (lc_store (rd_ctl db))"
  let ?f = "\<lambda>ps (i, l :: loop_row). case jget ps i of Some p \<Rightarrow> if pp_projectId p = project then Some (l, p) else None | None \<Rightarrow> None"
  have rows: "ls_loops (lc_store (rd_ctl db')) = ?ls @ [(?i, new_row p pl ids)]"
    "rd_passports db' = jset ?i (review_passport env p pl ids) (rd_passports db)"
    using created_rows[OF assms] by simp_all
  have "List.map_filter (?f (rd_passports db')) ?ls = List.map_filter (?f (rd_passports db)) ?ls"
    unfolding List.map_filter_def rows(2)
    using assms(2) by (intro arg_cong2[where f = map] filter_cong map_cong arg_cong[where f = "map _"])
      (auto simp: getLoop_def jget_None_iff image_iff)
  moreover have "pp_projectId (review_passport env p pl ids) = cr_projectId p" by (simp add: review_passport_def)
  ultimately show ?thesis by (simp add: listed_unsorted rows map_filter_append List.map_filter_simps)
qed

section \<open>The rails of a role\<close>

definition role_active :: "string \<Rightarrow> listed_loop \<Rightarrow> bool" where
  "role_active rid x \<longleftrightarrow> of_role rid x \<and> listed_active x"

definition concern_active :: "string \<Rightarrow> string \<Rightarrow> listed_loop \<Rightarrow> bool" where
  "concern_active rid k x \<longleftrightarrow> of_role rid x \<and> listed_active x \<and> of_concern k x"

definition role_created_in :: "string \<Rightarrow> int \<Rightarrow> int \<Rightarrow> listed_loop \<Rightarrow> bool" where
  "role_created_in rid a b x \<longleftrightarrow> of_role rid x \<and> a \<le> pp_createdAt (snd x) \<and> pp_createdAt (snd x) \<le> b"

text \<open>What the rails promise of the loops of a role, at one moment and over every day.\<close>

definition day_budget_kept :: "string \<Rightarrow> standing_role \<Rightarrow> review_db \<Rightarrow> bool" where
  "day_budget_kept project role db \<longleftrightarrow>
     (\<forall>t. int (listed_with (role_created_in (sr_id role) (t - role_budget_window_ms) t) project db)
            \<le> max 0 (rl_budgetPerDay (rails_of role [])))"

definition activity_kept :: "string \<Rightarrow> standing_role \<Rightarrow> review_db \<Rightarrow> bool" where
  "activity_kept project role db \<longleftrightarrow>
     int (listed_with (role_active (sr_id role)) project db) \<le> max 0 (rl_cascadeCeiling (rails_of role [])) \<and>
     (\<forall>k. listed_with (concern_active (sr_id role) k) project db \<le> 1)"

lemma rails_pass:
  assumes "evaluateRoleRails (getLoops project db) (rails_of role k) now = None"
  shows "listed_with (concern_active (sr_id role) k) project db = 0"
    and "int (listed_with (role_active (sr_id role)) project db) < rl_cascadeCeiling (rails_of role [])"
    and "int (listed_with (\<lambda>x. of_role (sr_id role) x \<and> now - role_budget_window_ms \<le> pp_createdAt (snd x)) project db)
           < rl_budgetPerDay (rails_of role [])"
proof -
  let ?xs = "getLoops project db"
  have r: "find (\<lambda>x. listed_active x \<and> of_concern k x) (filter (of_role (sr_id role)) ?xs) = None"
    "int (length (filter listed_active (filter (of_role (sr_id role)) ?xs))) < rl_cascadeCeiling (rails_of role [])"
    "int (length (filter (\<lambda>x. now - role_budget_window_ms \<le> pp_createdAt (snd x)) (filter (of_role (sr_id role)) ?xs)))
       < rl_budgetPerDay (rails_of role [])"
    using assms by (auto simp: evaluateRoleRails_def rails_of_def Let_def not_le split: option.splits if_splits)
  show "listed_with (concern_active (sr_id role) k) project db = 0"
    using r(1) by (auto simp: listed_with_def concern_active_def find_None_iff filter_empty_conv)
  show "int (listed_with (role_active (sr_id role)) project db) < rl_cascadeCeiling (rails_of role [])"
    using r(2) by (simp add: listed_with_def role_active_def[abs_def] conj_commute)
  show "int (listed_with (\<lambda>x. of_role (sr_id role) x \<and> now - role_budget_window_ms \<le> pp_createdAt (snd x)) project db)
      < rl_budgetPerDay (rails_of role [])"
    using r(3) by (simp add: listed_with_def conj_commute)
qed

lemma filter_length_mono: "(\<And>x. Q x \<Longrightarrow> R x) \<Longrightarrow> length (filter Q xs) \<le> length (filter R xs)"
  by (induction xs) (auto simp: le_SucI)

lemma listed_mono: "(\<And>x. Q x \<Longrightarrow> R x) \<Longrightarrow> listed_with Q project db \<le> listed_with R project db"
  unfolding listed_with_def by (rule filter_length_mono)

lemma check_rails:
  "launch_check env plan t w = Inr own \<Longrightarrow> lp_rails plan = Some rails \<Longrightarrow>
   evaluateRoleRails (getLoops (lp_projectId plan) (tw_db w)) rails t = None"
  by (auto simp: launch_check_def Let_def split: if_splits sum.splits option.splits rail.splits)

definition roles_by_id :: "dispatch_env \<Rightarrow> bool" where
  "roles_by_id env \<longleftrightarrow> (\<forall>project rid role. de_role env project rid = Some role \<longrightarrow> sr_id role = rid)"

lemma kept_otherwise:
  assumes "\<And>Q. (\<And>x. Q x \<Longrightarrow> of_role (sr_id role) x) \<Longrightarrow> listed_with Q project db' = listed_with Q project db"
  shows "day_budget_kept project role db' = day_budget_kept project role db" "activity_kept project role db' = activity_kept project role db"
proof -
  have "listed_with (role_created_in (sr_id role) a b) project db' = listed_with (role_created_in (sr_id role) a b) project db" for a b
    by (rule assms) (simp add: role_created_in_def)
  then show "day_budget_kept project role db' = day_budget_kept project role db" by (simp add: day_budget_kept_def)
  have "listed_with (concern_active (sr_id role) k) project db' = listed_with (concern_active (sr_id role) k) project db" for k
    by (rule assms) (simp add: concern_active_def)
  moreover have "listed_with (role_active (sr_id role)) project db' = listed_with (role_active (sr_id role)) project db"
    by (rule assms) (simp add: role_active_def)
  ultimately show "activity_kept project role db' = activity_kept project role db" by (simp add: activity_kept_def)
qed

lemma kept_by_rails:
  assumes c: "review_created e p ids pl db db'" and i: "getLoop (lc_store (rd_ctl db)) (ci_loopId ids) = None"
    and pr: "cr_projectId p = project" and new: "listed_role (new_row p pl ids, review_passport e p pl ids) = Some v" "rq_concernId v = k"
    and r: "evaluateRoleRails (getLoops project db) (rails_of role k) now = None" and now: "now \<le> ci_now ids"
  shows "day_budget_kept project role db \<Longrightarrow> day_budget_kept project role db'"
    and "activity_kept project role db \<Longrightarrow> activity_kept project role db'"
proof -
  let ?x = "(new_row p pl ids, review_passport e p pl ids)" and ?r = "sr_id role"
  have plus_le: "listed_with Q project db' \<le> listed_with Q project db + 1" for Q using listed_created[OF c i] by simp
  have same: "listed_with Q project db' = listed_with Q project db" if "\<not> Q ?x" for Q using listed_created[OF c i] that by simp
  have pass: "listed_with (concern_active ?r k) project db = 0"
    "int (listed_with (role_active ?r) project db) < rl_cascadeCeiling (rails_of role [])"
    "int (listed_with (\<lambda>x. of_role ?r x \<and> now - role_budget_window_ms \<le> pp_createdAt (snd x)) project db)
       < rl_budgetPerDay (rails_of role [])"
    using rails_pass[OF r] by simp_all
  show "day_budget_kept project role db'" if b: "day_budget_kept project role db"
    unfolding day_budget_kept_def
  proof
    fix t
    let ?Q = "role_created_in ?r (t - role_budget_window_ms) t"
    show "int (listed_with ?Q project db') \<le> max 0 (rl_budgetPerDay (rails_of role []))"
    proof (cases "?Q ?x")
      case False
      then show ?thesis using b same[of ?Q] by (simp add: day_budget_kept_def)
    next
      case True
      then have "now \<le> t" using now by (simp add: role_created_in_def review_passport_def)
      then have "listed_with ?Q project db \<le> listed_with (\<lambda>x. of_role ?r x \<and> now - role_budget_window_ms \<le> pp_createdAt (snd x)) project db"
        by (intro listed_mono) (auto simp: role_created_in_def)
      with plus_le[of ?Q] pass(3) show ?thesis by linarith
    qed
  qed
  show "activity_kept project role db'" if a: "activity_kept project role db"
    unfolding activity_kept_def
  proof (intro conjI allI)
    show "int (listed_with (role_active ?r) project db') \<le> max 0 (rl_cascadeCeiling (rails_of role []))"
      using plus_le[of "role_active ?r"] pass(2) by linarith
    fix j
    show "listed_with (concern_active ?r j) project db' \<le> 1"
    proof (cases "j = k")
      case True
      then show ?thesis using plus_le[of "concern_active ?r j"] pass(1) by simp
    next
      case False
      then have "\<not> concern_active ?r j ?x" using new by (simp add: concern_active_def of_concern_def)
      then show ?thesis using same[of "concern_active ?r j"] a by (simp add: activity_kept_def)
    qed
  qed
qed

lemma kept_by_launch:
  assumes plan: "plan_of env plan" and look: "launch_check env plan (fi_firedAt fi) w = Inr own"
    and l: "launched env trg plan fi w w'" and "ready (fi_ids fi) w" and now: "fi_firedAt fi \<le> ci_now (fi_ids fi)"
    and ids: "roles_by_id env" and role: "de_role env project rid = Some role"
  shows "day_budget_kept project role (tw_db w) \<Longrightarrow> day_budget_kept project role (tw_db w')"
    and "activity_kept project role (tw_db w) \<Longrightarrow> activity_kept project role (tw_db w')"
proof -
  obtain own' pl where c: "review_created (de_create env) (plan_params env trg plan (fi_firedAt fi) own') (fi_ids fi) pl (tw_db w) (tw_db w')"
    using l unfolding launched_def by blast
  let ?p = "plan_params env trg plan (fi_firedAt fi) own'"
  let ?x = "(new_row ?p pl (fi_ids fi), review_passport (de_create env) ?p pl (fi_ids fi))"
  have i: "getLoop (lc_store (rd_ctl (tw_db w))) (ci_loopId (fi_ids fi)) = None" using assms(4) by (simp add: ready_def ids_fresh_def)
  have pr: "cr_projectId ?p = lp_projectId plan" by (simp add: plan_params_def)
  have lr: "listed_role ?x = lp_role plan" by (simp add: listed_role_def review_passport_def plan_params_def plan_provenance_def)
  have "(day_budget_kept project role (tw_db w) \<longrightarrow> day_budget_kept project role (tw_db w')) \<and>
    (activity_kept project role (tw_db w) \<longrightarrow> activity_kept project role (tw_db w'))"
  proof (cases "lp_projectId plan = project \<and> of_role (sr_id role) ?x")
    case False
    then have "\<And>Q. (\<And>x. Q x \<Longrightarrow> of_role (sr_id role) x) \<Longrightarrow> listed_with Q project (tw_db w') = listed_with Q project (tw_db w)"
      using listed_created[OF c i] pr by auto
    from kept_otherwise[OF this] show ?thesis by blast
  next
    case True
    then obtain rid' role' v where v: "de_role env project rid' = Some role'" "lp_rails plan = Some (rails_of role' (rq_concernId v))"
      "lp_role plan = Some v" "rq_roleId v = sr_id role'" "rq_roleId v = sr_id role"
      using plan lr by (auto simp: plan_of_def of_role_def split: option.splits)
    then have "role' = role" using ids role unfolding roles_by_id_def by (metis option.inject)
    with v True check_rails[OF look] have "evaluateRoleRails (getLoops project (tw_db w)) (rails_of role (rq_concernId v)) (fi_firedAt fi) = None"
      by simp
    from kept_by_rails[OF c i _ _ refl this now] True pr lr v(3) show ?thesis by auto
  qed
  then show "day_budget_kept project role (tw_db w) \<Longrightarrow> day_budget_kept project role (tw_db w')"
    and "activity_kept project role (tw_db w) \<Longrightarrow> activity_kept project role (tw_db w')" by blast+
qed

section \<open>Runs\<close>

text \<open>
  Between fires loops advance, end and are created by people. \<open>works\<close> lets them change in any way that keeps who they are;
  with the flag set none that has ended becomes active again.
\<close>

definition works :: "bool \<Rightarrow> review_db \<Rightarrow> review_db \<Rightarrow> bool" where
  "works quiet db db' \<longleftrightarrow>
     rd_passports db' = rd_passports db \<and> editor_ok (or_store (lc_orch (rd_ctl db'))) \<and>
     list_all2 (\<lambda>(i, l) (j, l'). i = j \<and> (quiet \<longrightarrow> is_terminal (lo_state l) \<longrightarrow> is_terminal (lo_state l')))
       (ls_loops (lc_store (rd_ctl db))) (ls_loops (lc_store (rd_ctl db')))"

inductive trigger_run :: "dispatch_env \<Rightarrow> bool \<Rightarrow> trigger_world \<Rightarrow> bool" for env where
  start: "editor_ok (or_store (lc_orch (rd_ctl (tw_db w)))) \<Longrightarrow> ls_loops (lc_store (rd_ctl (tw_db w))) = [] \<Longrightarrow> trigger_run env True w"
| fire: "trigger_run env quiet w \<Longrightarrow> ids_fresh (fi_ids fi) (tw_db w) \<Longrightarrow> fi_firedAt fi \<le> ci_now (fi_ids fi) \<Longrightarrow>
    fireTrigger env trg payload fi w = Some (r, w') \<Longrightarrow> trigger_run env quiet w'"
| ticket: "trigger_run env quiet w \<Longrightarrow> ids_fresh (fi_ids fi) (tw_db w) \<Longrightarrow> fi_firedAt fi \<le> ci_now (fi_ids fi) \<Longrightarrow>
    launchTicketReview env trg t fi w = (r, w') \<Longrightarrow> trigger_run env quiet w'"
| by_hand: "trigger_run env quiet w \<Longrightarrow> ids_fresh ids (tw_db w) \<Longrightarrow> cr_provenance p = None \<Longrightarrow>
    createConsiliumReview (de_create env) p ids (tw_db w) = (res, db') \<Longrightarrow> trigger_run env quiet (w\<lparr>tw_db := db'\<rparr>)"
| work: "trigger_run env quiet w \<Longrightarrow> works quiet' (tw_db w) (tw_db w') \<Longrightarrow> trigger_run env (quiet \<and> quiet') w'"

definition rails_kept :: "dispatch_env \<Rightarrow> bool \<Rightarrow> review_db \<Rightarrow> bool" where
  "rails_kept env quiet db \<longleftrightarrow>
     editor_ok (or_store (lc_orch (rd_ctl db))) \<and>
     (\<forall>project rid role. de_role env project rid = Some role \<longrightarrow>
        day_budget_kept project role db \<and> (quiet \<longrightarrow> activity_kept project role db))"

lemma works_count:
  assumes "works quiet db db'" "\<And>l l' p. Q' (l', p) \<Longrightarrow> (quiet \<longrightarrow> is_terminal (lo_state l) \<longrightarrow> is_terminal (lo_state l')) \<Longrightarrow> Q (l, p)"
  shows "listed_with Q' project db' \<le> listed_with Q project db"
proof -
  have ps: "rd_passports db' = rd_passports db" using assms(1) by (simp add: works_def)
  have "list_all2 (\<lambda>(i, l) (j, l'). i = j \<and> (quiet \<longrightarrow> is_terminal (lo_state l) \<longrightarrow> is_terminal (lo_state l')))
       (ls_loops (lc_store (rd_ctl db))) (ls_loops (lc_store (rd_ctl db')))" using assms(1) by (simp add: works_def)
  then show ?thesis unfolding listed_unsorted ps
  proof (induction rule: list_all2_induct)
    case (Cons x xs y ys)
    then show ?case using assms(2)[of "snd y" _ "snd x"]
      by (cases "jget (rd_passports db) (fst x)") (auto simp: List.map_filter_simps split_def le_SucI)
  qed simp
qed

lemma works_keeps:
  assumes w: "works quiet db db'"
  shows "day_budget_kept project role db \<Longrightarrow> day_budget_kept project role db'"
    and "quiet \<Longrightarrow> activity_kept project role db \<Longrightarrow> activity_kept project role db'"
proof -
  have role: "of_role r (l, p) \<longleftrightarrow> of_role r (l', p)" "of_concern k (l, p) \<longleftrightarrow> of_concern k (l', p)" for r k l l' p
    by (simp_all add: of_role_def of_concern_def listed_role_def)
  show "day_budget_kept project role db'" if b: "day_budget_kept project role db"
    unfolding day_budget_kept_def
  proof
    fix t
    let ?Q = "role_created_in (sr_id role) (t - role_budget_window_ms) t"
    have "listed_with ?Q project db' \<le> listed_with ?Q project db"
      by (rule works_count[OF w]) (auto simp: role_created_in_def intro: role(1)[THEN iffD1])
    moreover have "int (listed_with ?Q project db) \<le> max 0 (rl_budgetPerDay (rails_of role []))" using b by (simp add: day_budget_kept_def)
    ultimately show "int (listed_with ?Q project db') \<le> max 0 (rl_budgetPerDay (rails_of role []))" by linarith
  qed
  show "activity_kept project role db'" if quiet and a: "activity_kept project role db"
  proof -
    have "listed_with (role_active (sr_id role)) project db' \<le> listed_with (role_active (sr_id role)) project db"
      by (rule works_count[OF w]) (use that(1) in \<open>auto simp: role_active_def listed_active_def intro: role(1)[THEN iffD1]\<close>)
    moreover have "listed_with (concern_active (sr_id role) k) project db' \<le> listed_with (concern_active (sr_id role) k) project db" for k
      by (rule works_count[OF w])
        (use that(1) in \<open>auto simp: concern_active_def listed_active_def intro: role(1)[THEN iffD1] role(2)[THEN iffD1]\<close>)
    ultimately show ?thesis using a unfolding activity_kept_def by (meson le_trans nat_int_comparison(3) order_trans)
  qed
qed

lemma kept_without_role:
  assumes c: "review_created e p ids pl db db'" and i: "getLoop (lc_store (rd_ctl db)) (ci_loopId ids) = None"
    and "\<And>x. listed_role (x, review_passport e p pl ids) = None" and k: "rails_kept env quiet db"
  shows "rails_kept env quiet db'"
proof -
  have "listed_with Q project db' = listed_with Q project db" if "\<And>x. Q x \<Longrightarrow> of_role r x" for Q project r
  proof -
    have "\<not> Q (new_row p pl ids, review_passport e p pl ids)"
      using that[of "(new_row p pl ids, review_passport e p pl ids)"] assms(3) by (auto simp: of_role_def)
    then show ?thesis using listed_created[OF c i] by simp
  qed
  then have "day_budget_kept project role db' = day_budget_kept project role db" "activity_kept project role db' = activity_kept project role db"
    for project role by (intro kept_otherwise; blast)+
  moreover have "editor_ok (or_store (lc_orch (rd_ctl db')))" using c by (simp add: review_created_def)
  ultimately show ?thesis using k by (simp add: rails_kept_def)
qed

lemma launched_keeps:
  assumes "plan_of env plan" "launch_check env plan (fi_firedAt fi) w = Inr own" "launched env trg plan fi w w'"
    and "ready (fi_ids fi) w" "fi_firedAt fi \<le> ci_now (fi_ids fi)" "roles_by_id env" "rails_kept env quiet (tw_db w)"
  shows "rails_kept env quiet (tw_db w')"
proof -
  have "editor_ok (or_store (lc_orch (rd_ctl (tw_db w'))))" using assms(3) by (auto simp: launched_def review_created_def)
  moreover have "day_budget_kept project role (tw_db w') \<and> (quiet \<longrightarrow> activity_kept project role (tw_db w'))"
    if "de_role env project rid = Some role" for project rid role
    using kept_by_launch[OF assms(1-6) that] assms(7) that by (auto simp: rails_kept_def)
  ultimately show ?thesis by (auto simp: rails_kept_def)
qed

lemma fire_parts:
  assumes "fireTrigger env trg payload fi w = Some (r, w')"
  shows "\<exists>w1 w2. tw_db w1 = tw_db w \<and> fires_as env trg fi w1 (r, w2) \<and> tw_db w' = tw_db w2"
proof -
  obtain w1 where w1: "update_trigger (fi_now fi) (tg_id trg) (\<lambda>r. r\<lparr>tg_lastTriggeredAt := Some (fi_now fi)\<rparr>) w = Some w1"
    using assms by (auto simp: fireTrigger_def split: option.splits)
  then have "tw_db w1 = tw_db w" by (auto simp: update_trigger_def split: option.splits)
  moreover have "\<exists>w2. fires_as env trg fi w1 (r, w2) \<and> tw_db w' = tw_db w2"
    using assms dispatch_fires[of env trg fi w1 payload] fires_as_none[of Recorded env trg fi w1]
    by (auto simp: fireTrigger_def w1 Let_def split: if_splits prod.splits)
  ultimately show ?thesis by blast
qed

lemma run_keeps: "trigger_run env quiet w \<Longrightarrow> roles_by_id env \<Longrightarrow> rails_kept env quiet (tw_db w)"
proof (induction rule: trigger_run.induct)
  case (start w)
  then have "listed_with Q project (tw_db w) = 0" for Q project by (simp add: listed_unsorted List.map_filter_simps)
  then show ?case using start by (simp add: rails_kept_def day_budget_kept_def activity_kept_def)
next
  case (fire quiet w fi trg payload r w')
  then have k: "rails_kept env quiet (tw_db w)" by blast
  obtain w1 w2 where w1: "tw_db w1 = tw_db w" and w2: "fires_as env trg fi w1 (r, w2)" "tw_db w' = tw_db w2"
    using fire_parts[OF fire.hyps(4)] by blast
  have ready: "ready (fi_ids fi) w1" using k fire.hyps(2) by (simp add: ready_def w1 rails_kept_def)
  from fire_effect[OF ready w2(1)] show ?case
    using launched_keeps[OF _ _ _ ready fire.hyps(3) fire.prems] k w1 w2(2) by (auto simp: same_fire_def)
next
  case (ticket quiet w fi trg t r w')
  then have k: "rails_kept env quiet (tw_db w)" by blast
  then have ready: "ready (fi_ids fi) w" using ticket.hyps(2) by (simp add: ready_def rails_kept_def)
  have plan: "plan_of env (ticket_plan t)" by (rule plain_plan_of) (simp_all add: ticket_plan_def plain_plan_def Let_def)
  show ?case
  proof (cases "de_loopEnabled env")
    case True
    then have "launchReviewWithDedup env trg (ticket_plan t) fi w = (r, w')" using ticket.hyps(4) by (simp add: launchTicketReview_def)
    from launch_effect[OF ready this] show ?thesis
      using launched_keeps[OF plan _ _ ready ticket.hyps(3) ticket.prems] k by auto
  qed (use ticket.hyps(4) k in \<open>simp add: launchTicketReview_def\<close>)
next
  case (by_hand quiet w ids p res db')
  then have k: "rails_kept env quiet (tw_db w)" by blast
  then have "editor_ok (or_store (lc_orch (rd_ctl (tw_db w))))" by (simp add: rails_kept_def)
  note cs = create_cases[OF by_hand.hyps(2) this, of "de_create env" p]
  show ?case
  proof (cases "check_create (de_create env) p")
    case (Inl e)
    with cs by_hand.hyps(4) k show ?thesis by simp
  next
    case (Inr pl)
    with cs by_hand.hyps(4) have c: "review_created (de_create env) p ids pl (tw_db w) db'" by auto
    have "getLoop (lc_store (rd_ctl (tw_db w))) (ci_loopId ids) = None" using by_hand.hyps(2) by (simp add: ids_fresh_def)
    from kept_without_role[OF c this _ k] by_hand.hyps(3) show ?thesis by (simp add: listed_role_def review_passport_def)
  qed
next
  case (work quiet w quiet' w')
  then have "rails_kept env quiet (tw_db w)" by blast
  with works_keeps[OF work.hyps(2)] work.hyps(2) show ?case unfolding rails_kept_def works_def by blast
qed


section \<open>A service with one role\<close>

definition sample_role :: standing_role where
  "sample_role =
     \<lparr>sr_id = ''r1'', sr_name = ''keeper'', sr_enabled = True, sr_persona = ''You keep the service.'', sr_skills = [],
      sr_preset = Sdlc_Cross_Review, sr_reviewMode = None,
      sr_concerns = [\<lparr>rc_id = ''k1'', rc_repoPath = ''/srv/api'', rc_focus = ''errors'', rc_enabled = None\<rparr>],
      sr_budgetPerDay = None, sr_cascadeDepth = Some 1\<rparr>"

definition sample_dispatch_env :: dispatch_env where
  "sample_dispatch_env =
     \<lparr>de_create = sample_create_env, de_loopEnabled = True, de_triggersEnabled = True, de_gitlabEvents = True, de_specWatch = True,
      de_specGlobs = [], de_owner = (\<lambda>p. Inr (Some ''u1'')), de_role = (\<lambda>p r. if r = ''r1'' then Some sample_role else None),
      de_sha256 = (\<lambda>t. t), de_yaml = (\<lambda>t. None), de_file = (\<lambda>p. (None, None))\<rparr>"

definition sample_trigger :: trigger_row where
  "sample_trigger =
     \<lparr>tg_id = ''t1'', tg_projectId = Some ''p1'', tg_type = Trg_Schedule,
      tg_config = \<lparr>tc_watchPath = None, tc_action = None,
        tc_roleConcern = Some (JObj [(''roleId'', JStr ''r1''), (''concernId'', JStr ''k1'')]), tc_events = [],
        tc_repository = None, tc_pollState = None\<rparr>,
      tg_lastTriggeredAt = None, tg_suppressedCount = 0, tg_lastFiredAt = None, tg_firedCount = 0, tg_updatedAt = 0\<rparr>"

definition sample_fire :: "char \<Rightarrow> fire_inputs" where
  "sample_fire c = \<lparr>fi_now = 0, fi_firedAt = 0, fi_ids = sample_ids c\<rparr>"

definition sample_trigger_world :: trigger_world where
  "sample_trigger_world = \<lparr>tw_db = no_reviews, tw_triggers = [(''t1'', sample_trigger)], tw_flips = []\<rparr>"

text \<open>The first fire launches, the second finds the loop of the concern.\<close>

definition sample_fires :: "(fire_result \<times> fire_result \<times> trigger_world) option" where
  "sample_fires =
     (case fireTrigger sample_dispatch_env sample_trigger JNull (sample_fire CHR ''0'') sample_trigger_world of
        None \<Rightarrow> None
      | Some (r, w) \<Rightarrow>
          (case fireTrigger sample_dispatch_env sample_trigger JNull (sample_fire CHR ''1'') w of
             None \<Rightarrow> None | Some (r', w') \<Rightarrow> Some (r, r', w')))"

lemma sample_fires_result: "map_option (\<lambda>(r, r', w). (r, r')) sample_fires = Some (Launched, Skipped_Dedup)"
  by code_simp

lemma sample_ready: "ready (sample_ids CHR ''0'') sample_trigger_world"
  using no_reviews_ready by (simp add: ready_def sample_trigger_world_def)

lemma fire_accounts_exactly_witness:
  "\<exists>w' row'. fireTrigger sample_dispatch_env sample_trigger JNull (sample_fire CHR ''0'') sample_trigger_world = Some (Launched, w') \<and>
     jget (tw_triggers w') ''t1'' = Some row' \<and> tg_firedCount row' = 1 \<and> tg_suppressedCount row' = 0"
proof -
  obtain w' where w': "fireTrigger sample_dispatch_env sample_trigger JNull (sample_fire CHR ''0'') sample_trigger_world = Some (Launched, w')"
    using sample_fires_result by (auto simp: sample_fires_def split: option.splits prod.splits)
  have "ready (fi_ids (sample_fire CHR ''0'')) sample_trigger_world" using sample_ready by (simp add: sample_fire_def)
  from fire_accounts_exactly[OF this w'] w' show ?thesis by (auto simp: sample_trigger_world_def sample_trigger_def)
qed


end
