(* ===== verification/Github_Poller.thy ===== *)
theory Github_Poller
  imports Trigger_Dispatch
begin

text \<open>
  Polling for GitHub triggers (\<open>server/services/github-poller.ts\<close>): what a webhook would have delivered is pulled, put
  into the same envelope and fired, and the heads that were seen are kept in the configuration of the trigger. The answers
  of \<open>gh\<close> and \<open>git\<close> are arguments, \<open>None\<close> when they degrade; keys of the heads are pull request numbers.
\<close>

section \<open>Names of repositories\<close>

definition name_char :: "char \<Rightarrow> bool" where
  "name_char c \<longleftrightarrow> ascii_alnum c \<or> c = CHR ''_'' \<or> c = CHR ''.'' \<or> c = CHR ''-''"

definition name_text :: "string \<Rightarrow> bool" where
  "name_text t \<longleftrightarrow> t \<noteq> [] \<and> list_all name_char t"

definition cut_at :: "char \<Rightarrow> string \<Rightarrow> (string \<times> string) option" where
  "cut_at c t = (let a = takeWhile (\<lambda>x. x \<noteq> c) t in if length a < length t then Some (a, drop (length a + 1) t) else None)"

definition owner_repo_shape :: "string \<Rightarrow> bool" where
  "owner_repo_shape t = (case cut_at slash t of None \<Rightarrow> False | Some (a, b) \<Rightarrow> name_text a \<and> name_text b)"

definition normalizeOwnerRepo :: "string \<Rightarrow> string \<Rightarrow> string option" where
  "normalizeOwnerRepo owner repo = (let t = owner @ slash # repo in if owner_repo_shape t then Some t else None)"

text \<open>The tail of both expressions: owner, repository, and an optional \<open>.git\<close> and slash.\<close>

definition owner_and_repo :: "string \<Rightarrow> (string \<times> string) option" where
  "owner_and_repo t =
     (case cut_at slash t of
        None \<Rightarrow> None
      | Some (owner, r) \<Rightarrow>
          (let u = (if r \<noteq> [] \<and> last r = slash then butlast r else r);
               repo = (if 4 < length u \<and> drop (length u - 4) u = ''.git'' then take (length u - 4) u else u)
           in if name_text owner \<and> name_text repo then Some (owner, repo) else None))"

definition scp_remote :: "string \<Rightarrow> (string \<times> string) option" where
  "scp_remote s =
     (case cut_at (CHR ''@'') s of
        None \<Rightarrow> None
      | Some (user, r) \<Rightarrow>
          (case cut_at (CHR '':'') r of
             None \<Rightarrow> None | Some (host, path) \<Rightarrow> if name_text user \<and> name_text host then owner_and_repo path else None))"

definition scheme_text :: "string \<Rightarrow> bool" where
  "scheme_text t =
     (case t of
        [] \<Rightarrow> False
      | c # cs \<Rightarrow> c \<in> set ''abcdefghijklmnopqrstuvwxyz'' \<and> list_all (\<lambda>d. d \<in> set ''abcdefghijklmnopqrstuvwxyz0123456789+.-'') cs)"

definition url_remote :: "string \<Rightarrow> (string \<times> string) option" where
  "url_remote s =
     (case cut_at (CHR '':'') s of
        None \<Rightarrow> None
      | Some (scheme, r) \<Rightarrow>
          if scheme_text scheme \<and> starts ''//'' r
          then (case cut_at slash (drop 2 r) of
                  None \<Rightarrow> None
                | Some (host, path) \<Rightarrow>
                    if (case cut_at (CHR ''@'') host of None \<Rightarrow> name_text host | Some (user, h) \<Rightarrow> name_text user \<and> name_text h)
                    then owner_and_repo path else None)
          else None)"

definition parseOwnerRepo :: "string \<Rightarrow> string option" where
  "parseOwnerRepo remoteUrl =
     (let s = trim remoteUrl
      in if s = [] then None
         else
           (case scp_remote s of
              Some (owner, repo) \<Rightarrow> normalizeOwnerRepo owner repo
            | None \<Rightarrow> (case url_remote s of Some (owner, repo) \<Rightarrow> normalizeOwnerRepo owner repo | None \<Rightarrow> None)))"

section \<open>What is pulled\<close>

record pr_item =
  pi_number :: nat
  pi_title :: "string option"
  pi_headRefOid :: "string option"
  pi_baseRefOid :: "string option"

record gh_answers =
  gh_prs :: "string \<Rightarrow> pr_item list option"
  gh_defaultBranch :: "string \<Rightarrow> string option"
  gh_branchHead :: "string \<Rightarrow> string \<Rightarrow> string option"
  gh_remote :: "string \<Rightarrow> string option"

definition max_tracked_prs :: nat where "max_tracked_prs = 200"

definition pollable_sha :: "string option \<Rightarrow> bool" where
  "pollable_sha v = (case v of None \<Rightarrow> False | Some t \<Rightarrow> sha_text t \<and> \<not> list_all (\<lambda>c. c = CHR ''0'') t)"

definition resolveOwnerRepo :: "gh_answers \<Rightarrow> trigger_config \<Rightarrow> string option" where
  "resolveOwnerRepo gh cfg =
     (let declared = trim (text_or [] (tc_repository cfg))
      in if declared \<noteq> [] then (if owner_repo_shape declared then Some declared else None)
         else
           (case (case tc_action cfg of None \<Rightarrow> None | Some a \<Rightarrow> present (ta_repoPath a)) of
              None \<Rightarrow> None
            | Some path \<Rightarrow> (case present (gh_remote gh path) of None \<Rightarrow> None | Some url \<Rightarrow> parseOwnerRepo url)))"

section \<open>Envelopes\<close>

definition prEnvelope :: "string \<Rightarrow> pr_item \<Rightarrow> string \<Rightarrow> string \<Rightarrow> string \<Rightarrow> json" where
  "prEnvelope ownerRepo pr head base action =
     JObj [(''event'', JStr ''pull_request''),
       (''delivery'', JStr (''poll-pr-'' @ show_nat (pi_number pr) @ ''-'' @ take 7 head)),
       (''payload'', JObj [(''action'', JStr action), (''number'', JNum (of_nat (pi_number pr))),
          (''pull_request'', JObj [(''number'', JNum (of_nat (pi_number pr))), (''title'', JStr (text_or [] (pi_title pr))),
             (''head'', JObj [(''sha'', JStr head)]), (''base'', JObj [(''sha'', JStr base)])]),
          (''repository'', JObj [(''full_name'', JStr ownerRepo)])])]"

definition pushEnvelope :: "string \<Rightarrow> string \<Rightarrow> string \<Rightarrow> string \<Rightarrow> json" where
  "pushEnvelope ownerRepo branch before aft =
     JObj [(''event'', JStr ''push''), (''delivery'', JStr (''poll-push-'' @ take 7 aft)),
       (''payload'', JObj [(''ref'', JStr (''refs/heads/'' @ branch)), (''before'', JStr before), (''after'', JStr aft),
          (''repository'', JObj [(''full_name'', JStr ownerRepo), (''default_branch'', JStr branch)])])]"

section \<open>Pull requests\<close>

text \<open>The heads, what was fired for which number, and the world; \<open>None\<close> when a fire throws.\<close>

fun poll_prs :: "dispatch_env \<Rightarrow> trigger_row \<Rightarrow> (nat \<Rightarrow> fire_inputs) \<Rightarrow> string \<Rightarrow> (nat, string) jsmap \<Rightarrow> pr_item list \<Rightarrow>
    (nat, string) jsmap \<Rightarrow> trigger_world \<Rightarrow> ((nat, string) jsmap \<times> (nat \<times> fire_result) list) option \<times> trigger_world" where
  "poll_prs env trg fi repo prev [] next w = (Some (next, []), w)"
| "poll_prs env trg fi repo prev (pr # prs) next w =
     (let n = pi_number pr; lastHead = present (jget prev n);
          held = (case lastHead of Some h \<Rightarrow> jset n h next | None \<Rightarrow> next);
          head = text_or [] (pi_headRefOid pr); base = text_or [] (pi_baseRefOid pr)
      in if \<not> pollable_sha (pi_headRefOid pr) \<or> \<not> pollable_sha (pi_baseRefOid pr) then poll_prs env trg fi repo prev prs held w
         else if lastHead = Some head then poll_prs env trg fi repo prev prs (jset n head next) w
         else
           (case fireTrigger env trg (prEnvelope repo pr head base (if lastHead \<noteq> None then ''synchronize'' else ''opened'')) (fi n) w of
              None \<Rightarrow> (None, w)
            | Some (r, w1) \<Rightarrow>
                (case poll_prs env trg fi repo prev prs (if r = Skipped_Dedup then held else jset n head next) w1 of
                   (None, w2) \<Rightarrow> (None, w2)
                 | (Some (heads, fired), w2) \<Rightarrow> (Some (heads, (n, r) # fired), w2))))"

definition boundHeads :: "(nat, string) jsmap \<Rightarrow> (nat, string) jsmap" where
  "boundHeads heads =
     (if length (jkeys heads) \<le> max_tracked_prs then heads
      else filter (\<lambda>(k, h). k \<in> set (take max_tracked_prs (rev (sort (jkeys heads))))) heads)"

definition pollPullRequests :: "dispatch_env \<Rightarrow> gh_answers \<Rightarrow> trigger_row \<Rightarrow> (nat \<Rightarrow> fire_inputs) \<Rightarrow> string \<Rightarrow> poll_state \<Rightarrow>
    trigger_world \<Rightarrow> (poll_state \<times> (nat \<times> fire_result) list) option \<times> trigger_world" where
  "pollPullRequests env gh trg fi repo st w =
     (case gh_prs gh repo of
        None \<Rightarrow> (Some (st, []), w)
      | Some prs \<Rightarrow>
          (case poll_prs env trg fi repo (case gp_prHeads st of None \<Rightarrow> [] | Some m \<Rightarrow> m) (sort_key pi_number prs) [] w of
             (None, w') \<Rightarrow> (None, w')
           | (Some (heads, fired), w') \<Rightarrow> (Some (st\<lparr>gp_prHeads := Some (boundHeads heads)\<rparr>, fired), w')))"

section \<open>Pushes\<close>

definition pollPush :: "dispatch_env \<Rightarrow> gh_answers \<Rightarrow> trigger_row \<Rightarrow> fire_inputs \<Rightarrow> string \<Rightarrow> poll_state \<Rightarrow> trigger_world \<Rightarrow>
    (poll_state \<times> fire_result option) option \<times> trigger_world" where
  "pollPush env gh trg fi repo st w =
     (case present (gh_defaultBranch gh repo) of
        None \<Rightarrow> (Some (st, None), w)
      | Some branch \<Rightarrow>
          (let found = gh_branchHead gh repo branch; head = text_or [] found
           in if \<not> pollable_sha found then (Some (st, None), w)
              else
                (case present (gp_lastPushSha st) of
                   None \<Rightarrow> (Some (st\<lparr>gp_lastPushSha := Some head\<rparr>, None), w)
                 | Some seen \<Rightarrow>
                     if seen = head then (Some (st, None), w)
                     else
                       (case fireTrigger env trg (pushEnvelope repo branch seen head) fi w of
                          None \<Rightarrow> (None, w)
                        | Some (r, w1) \<Rightarrow>
                            (Some (if r = Skipped_Dedup then st else st\<lparr>gp_lastPushSha := Some head\<rparr>, Some r), w1)))))"

section \<open>A cycle\<close>

record poll_inputs =
  pq_now :: int
  pq_pr :: "nat \<Rightarrow> fire_inputs"
  pq_push :: fire_inputs

definition persistWatermark :: "int \<Rightarrow> string \<Rightarrow> poll_state \<Rightarrow> trigger_world \<Rightarrow> trigger_world" where
  "persistWatermark now i st w =
     (case update_trigger now i (\<lambda>r. r\<lparr>tg_config := (tg_config r)\<lparr>tc_pollState := Some st\<rparr>\<rparr>) w of None \<Rightarrow> w | Some w' \<Rightarrow> w')"

definition no_poll_state :: poll_state where
  "no_poll_state = \<lparr>gp_lastPolledAt = None, gp_prHeads = None, gp_lastPushSha = None\<rparr>"

definition pollTrigger :: "dispatch_env \<Rightarrow> gh_answers \<Rightarrow> trigger_row \<Rightarrow> poll_inputs \<Rightarrow> trigger_world \<Rightarrow> trigger_world" where
  "pollTrigger env gh trg inp w =
     (let cfg = tg_config trg
      in if tc_events cfg = [] then w
         else
           (case (present (tg_projectId trg), resolveOwnerRepo gh cfg) of
              (Some project, Some repo) \<Rightarrow>
                (let st = (case tc_pollState cfg of None \<Rightarrow> no_poll_state | Some s \<Rightarrow> s)
                 in case (if ''pull_request'' \<in> set (tc_events cfg)
                          then (case pollPullRequests env gh trg (pq_pr inp) repo st w of
                                  (None, w1) \<Rightarrow> (None, w1) | (Some (s, fired), w1) \<Rightarrow> (Some s, w1))
                          else (Some st, w)) of
                      (None, w1) \<Rightarrow> w1
                    | (Some s1, w1) \<Rightarrow>
                        (case (if ''push'' \<in> set (tc_events cfg)
                               then (case pollPush env gh trg (pq_push inp) repo s1 w1 of
                                       (None, w2) \<Rightarrow> (None, w2) | (Some (s, fired), w2) \<Rightarrow> (Some s, w2))
                               else (Some s1, w1)) of
                           (None, w2) \<Rightarrow> w2
                         | (Some s2, w2) \<Rightarrow>
                             persistWatermark (pq_now inp) (tg_id trg) (s2\<lparr>gp_lastPolledAt := Some (toISOString (pq_now inp))\<rparr>) w2))
            | _ \<Rightarrow> w))"

definition pollAll :: "dispatch_env \<Rightarrow> gh_answers \<Rightarrow> (string \<Rightarrow> poll_inputs) \<Rightarrow> trigger_row list \<Rightarrow> trigger_world \<Rightarrow> trigger_world" where
  "pollAll env gh inp triggers w =
     (if de_triggersEnabled env then foldl (\<lambda>acc trg. pollTrigger env gh trg (inp (tg_id trg)) acc) w triggers else w)"

section \<open>The timer\<close>

record github_poller =
  po_timer :: "int option"
  po_polling :: bool

definition poller_start :: "bool \<Rightarrow> int \<Rightarrow> github_poller \<Rightarrow> github_poller" where
  "poller_start enabled intervalSec p =
     (if po_timer p \<noteq> None \<or> \<not> enabled then p else p\<lparr>po_timer := Some (intervalSec * 1000)\<rparr>)"

definition poller_stop :: "github_poller \<Rightarrow> github_poller" where
  "poller_stop p = p\<lparr>po_timer := None\<rparr>"

text \<open>\<open>pollAllSafe\<close>: a cycle begins unless one is under way, and ends whether it throws or not.\<close>

definition poller_begin :: "github_poller \<Rightarrow> github_poller option" where
  "poller_begin p = (if po_polling p then None else Some (p\<lparr>po_polling := True\<rparr>))"

definition poller_end :: "github_poller \<Rightarrow> github_poller" where
  "poller_end p = p\<lparr>po_polling := False\<rparr>"

end
