(* ===== verification/Poller_Facts.thy ===== *)
theory Poller_Facts
  imports Github_Poller Trigger_Facts
begin

text \<open>
  What polling promises: a pulled change maps to the review its webhook maps to, the heads that are kept decide exactly what
  is fired again, and the pull requests of one cycle launch one review of the repository at most.
\<close>

section \<open>Pulled and delivered\<close>

lemma real_pollable: "pollable_sha v \<longleftrightarrow> isRealSha v"
  by (simp add: pollable_sha_def isRealSha_def)

text \<open>
  C28: polling and webhook agree. For whatever else the delivered payload holds, a pull request that was pulled maps to the
  review that its delivery maps to, and so does a push to the default branch.
\<close>

theorem poll_matches_webhook:
  assumes "jget m ''action'' = Some (JStr a)" "a \<in> set pr_reviewable_actions" "b \<in> {''opened'', ''synchronize''}"
    and "jget m ''number'' = Some (JNum (of_nat (pi_number pr)))" "jget m ''pull_request'' = Some (JObj p)"
    and "jget p ''title'' = Some (JStr (text_or [] (pi_title pr)))"
    and "jget p ''head'' = Some (JObj h)" "jget h ''sha'' = Some (JStr head)"
    and "jget p ''base'' = Some (JObj c)" "jget c ''sha'' = Some (JStr base)"
    and "jget q ''ref'' = Some (JStr (''refs/heads/'' @ branch))" "jget q ''before'' = Some (JStr before)" "jget q ''after'' = Some (JStr aft)"
    and "jget q ''repository'' = Some (JObj r)" "jget r ''default_branch'' = Some (JStr branch)"
  shows "mapGitHubEventToReview (event_type (prEnvelope repo pr head base b)) (eventBody (prEnvelope repo pr head base b)) =
      mapGitHubEventToReview ''pull_request'' (Some (JObj m)) \<and>
    mapGitHubEventToReview (event_type (pushEnvelope repo branch before aft)) (eventBody (pushEnvelope repo branch before aft)) =
      mapGitHubEventToReview ''push'' (Some (JObj q))"
proof
  have e: "event_type (prEnvelope repo pr head base b) = ''pull_request''" "event_type (pushEnvelope repo branch before aft) = ''push''"
    by (simp_all add: event_type_def prEnvelope_def pushEnvelope_def text_or_def)
  have "b \<in> set pr_reviewable_actions" using assms(3) by (auto simp: pr_reviewable_actions_def)
  with assms(1-10) show "mapGitHubEventToReview (event_type (prEnvelope repo pr head base b)) (eventBody (prEnvelope repo pr head base b)) =
      mapGitHubEventToReview ''pull_request'' (Some (JObj m))"
    unfolding e by (simp add: mapGitHubEventToReview_def prEnvelope_def rec_str_def rec_get_def rec_num_def text_or_def Let_def)
  show "mapGitHubEventToReview (event_type (pushEnvelope repo branch before aft)) (eventBody (pushEnvelope repo branch before aft)) =
      mapGitHubEventToReview ''push'' (Some (JObj q))"
    unfolding e using assms(11-15)
    by (simp add: mapGitHubEventToReview_def map_push_def pushEnvelope_def rec_str_def rec_get_def text_or_def Let_def)
qed

lemma poll_matches_webhook_witness:
  "mapGitHubEventToReview ''pull_request'' (Some (JObj [(''sender'', JNull), (''action'', JStr ''reopened''), (''number'', JNum 7),
       (''pull_request'', JObj [(''title'', JStr ''fix''), (''head'', JObj [(''sha'', JStr ''abcdef1'')]), (''base'', JObj [(''sha'', JStr ''abcdef2'')])])])) =
     Map_Review \<lparr>mp_preset = Diff_Pr_Review, mp_ref = ''abcdef1'', mp_baseline = Some ''abcdef2'', mp_label = ''PR #7: fix''\<rparr>"
proof -
  let ?pr = "\<lparr>pi_number = 7, pi_title = Some ''fix'', pi_headRefOid = Some ''abcdef1'', pi_baseRefOid = Some ''abcdef2''\<rparr>"
  let ?p = "[(''title'', JStr ''fix''), (''head'', JObj [(''sha'', JStr ''abcdef1'')]), (''base'', JObj [(''sha'', JStr ''abcdef2'')])]"
  let ?m = "[(''sender'', JNull), (''action'', JStr ''reopened''), (''number'', JNum 7), (''pull_request'', JObj ?p)]"
  let ?e = "prEnvelope ''o/r'' ?pr ''abcdef1'' ''abcdef2'' ''opened''"
  have "mapGitHubEventToReview (event_type ?e) (eventBody ?e) = mapGitHubEventToReview ''pull_request'' (Some (JObj ?m))"
    by (rule poll_matches_webhook[of ?m "''reopened''" "''opened''" ?pr ?p "[(''sha'', JStr ''abcdef1'')]" "''abcdef1''"
          "[(''sha'', JStr ''abcdef2'')]" "''abcdef2''"
          "[(''ref'', JStr ''refs/heads/main''), (''before'', JStr []), (''after'', JStr []),
            (''repository'', JObj [(''default_branch'', JStr ''main'')])]" "''main''" "[]" "[]" "[(''default_branch'', JStr ''main'')]", THEN conjunct1])
      (simp_all add: pr_reviewable_actions_def text_or_def)
  moreover have "mapGitHubEventToReview (event_type ?e) (eventBody ?e) =
    Map_Review \<lparr>mp_preset = Diff_Pr_Review, mp_ref = ''abcdef1'', mp_baseline = Some ''abcdef2'', mp_label = ''PR #7: fix''\<rparr>" by code_simp
  ultimately show ?thesis by simp
qed

section \<open>Heads\<close>

definition due :: "(nat, string) jsmap \<Rightarrow> pr_item \<Rightarrow> bool" where
  "due heads pr \<longleftrightarrow> pollable_sha (pi_headRefOid pr) \<and> pollable_sha (pi_baseRefOid pr) \<and> jget heads (pi_number pr) \<noteq> pi_headRefOid pr"

lemma pollable_present: "pollable_sha v \<Longrightarrow> \<exists>t. v = Some t \<and> t \<noteq> [] \<and> text_or [] v = t"
  by (cases v) (auto simp: pollable_sha_def text_or_def)

lemma poll_prs_heads:
  "poll_prs env trg fi repo prev prs nxt w = (Some (heads, fired), w') \<Longrightarrow> distinct (map pi_number prs) \<Longrightarrow>
   (\<forall>k. k \<notin> pi_number ` set prs \<longrightarrow> jget heads k = jget nxt k \<and> (\<forall>r. (k, r) \<notin> set fired)) \<and>
   (\<forall>pr \<in> set prs. jget nxt (pi_number pr) = None \<longrightarrow> (due heads pr \<longleftrightarrow> (pi_number pr, Skipped_Dedup) \<in> set fired))"
proof (induction prs arbitrary: nxt w fired)
  case (Cons pr prs)
  let ?n = "pi_number pr" and ?last = "present (jget prev (pi_number pr))"
  let ?held = "case ?last of Some h \<Rightarrow> jset ?n h nxt | None \<Rightarrow> nxt" and ?head = "text_or [] (pi_headRefOid pr)"
  have new: "?n \<notin> pi_number ` set prs" "distinct (map pi_number prs)" using Cons.prems(2) by auto
  have step: "(\<forall>k. k \<notin> pi_number ` set (pr # prs) \<longrightarrow> jget heads k = jget nxt k \<and> (\<forall>r. (k, r) \<notin> set fired)) \<and>
      (\<forall>p \<in> set (pr # prs). jget nxt (pi_number p) = None \<longrightarrow> (due heads p \<longleftrightarrow> (pi_number p, Skipped_Dedup) \<in> set fired))"
    if h: "poll_prs env trg fi repo prev prs nx w1 = (Some (heads, f), w')" and nx: "\<And>k. k \<noteq> ?n \<Longrightarrow> jget nx k = jget nxt k"
      and f: "\<And>k r. k \<noteq> ?n \<Longrightarrow> (k, r) \<in> set fired \<longleftrightarrow> (k, r) \<in> set f"
      and own: "(\<forall>r. (?n, r) \<notin> set f) \<Longrightarrow> jget nxt ?n = None \<Longrightarrow> jget heads ?n = jget nx ?n \<Longrightarrow>
        due heads pr \<longleftrightarrow> (?n, Skipped_Dedup) \<in> set fired" for nx w1 f
  proof -
    have ih: "\<And>k. k \<notin> pi_number ` set prs \<Longrightarrow> jget heads k = jget nx k \<and> (\<forall>r. (k, r) \<notin> set f)"
      "\<And>p. p \<in> set prs \<Longrightarrow> jget nx (pi_number p) = None \<Longrightarrow> due heads p \<longleftrightarrow> (pi_number p, Skipped_Dedup) \<in> set f"
      using Cons.IH[OF h new(2)] by blast+
    have other: "pi_number p \<noteq> ?n" if "p \<in> set prs" for p using new(1) that by (metis image_eqI)
    show ?thesis using ih other new(1) nx f own by auto
  qed
  consider (unusable) "\<not> pollable_sha (pi_headRefOid pr) \<or> \<not> pollable_sha (pi_baseRefOid pr)"
    "poll_prs env trg fi repo prev prs ?held w = (Some (heads, fired), w')"
  | (seen) "pollable_sha (pi_headRefOid pr)" "?last = Some ?head"
    "poll_prs env trg fi repo prev prs (jset ?n ?head nxt) w = (Some (heads, fired), w')"
  | (fires) r fired' w1 where "pollable_sha (pi_headRefOid pr)" "pollable_sha (pi_baseRefOid pr)" "?last \<noteq> Some ?head"
    "fired = (?n, r) # fired'"
    "poll_prs env trg fi repo prev prs (if r = Skipped_Dedup then ?held else jset ?n ?head nxt) w1 = (Some (heads, fired'), w')"
    using Cons.prems(1) by (auto simp: Let_def split: if_splits option.splits prod.splits)
  then show ?case
  proof cases
    case unusable
    show ?thesis by (rule step[OF unusable(2)]) (use unusable(1) in \<open>auto simp: due_def split: option.split\<close>)
  next
    case seen
    show ?thesis by (rule step[OF seen(3)]) (use pollable_present[OF seen(1)] in \<open>auto simp: due_def\<close>)
  next
    case fires
    show ?thesis
      by (rule step[OF fires(5)])
        (use pollable_present[OF fires(1)] fires(1-4) in \<open>auto simp: due_def present_def split: option.splits if_splits\<close>)
  qed
qed simp

lemma boundHeads_small: "length (jkeys heads) \<le> max_tracked_prs \<Longrightarrow> boundHeads heads = heads"
  by (simp add: boundHeads_def)

lemma poll_prs_length:
  "poll_prs env trg fi repo prev prs nxt w = (Some (heads, fired), w') \<Longrightarrow> length heads \<le> length nxt + length prs"
proof (induction prs arbitrary: nxt w fired)
  case (Cons pr prs)
  obtain nx w1 f where nx: "length nx \<le> Suc (length nxt)" "poll_prs env trg fi repo prev prs nx w1 = (Some (heads, f), w')"
    using Cons.prems
    by (auto simp: Let_def split: if_splits option.splits prod.splits intro: that[OF length_jset] that[OF le_SucI[OF le_refl]])
  from Cons.IH[OF nx(2)] nx(1) show ?case by simp
qed simp

text \<open>
  C29: the heads that a poll keeps decide exactly what the next one fires: a pull request that stays as it is comes up again
  if and only if its fire was held back because a loop was active. Every other outcome counts as seen - also a fire that
  failed, or that the budget or the ceiling of a role suppressed.
\<close>

theorem poll_retries_dedup_only:
  assumes "gh_prs gh repo = Some prs" "distinct (map pi_number prs)" "length prs \<le> 200"
    and "pollPullRequests env gh trg fi repo st w = (Some (st', fired), w')"
  shows "\<exists>heads. gp_prHeads st' = Some heads \<and> (\<forall>k. k \<notin> pi_number ` set prs \<longrightarrow> jget heads k = None) \<and>
    (\<forall>pr \<in> set prs. due heads pr \<longleftrightarrow> (pi_number pr, Skipped_Dedup) \<in> set fired)"
proof -
  let ?prs = "sort_key pi_number prs" and ?prev = "case gp_prHeads st of None \<Rightarrow> [] | Some m \<Rightarrow> m"
  obtain heads where h: "poll_prs env trg fi repo ?prev ?prs [] w = (Some (heads, fired), w')" "st' = st\<lparr>gp_prHeads := Some (boundHeads heads)\<rparr>"
    using assms(1,4) by (auto simp: pollPullRequests_def split: option.splits prod.splits)
  have "distinct (map pi_number ?prs)"
    using assms(2) by (simp add: distinct_map)
  from poll_prs_heads[OF h(1) this] have k: "\<forall>k. k \<notin> pi_number ` set prs \<longrightarrow> jget heads k = None"
    "\<forall>pr \<in> set prs. due heads pr \<longleftrightarrow> (pi_number pr, Skipped_Dedup) \<in> set fired" by auto
  have "length (jkeys heads) \<le> max_tracked_prs"
    using poll_prs_length[OF h(1)] assms(3) by (simp add: max_tracked_prs_def)
  then have "gp_prHeads st' = Some heads" by (simp add: h(2) boundHeads_small)
  with k show ?thesis by blast
qed

section \<open>One launch per poll\<close>

definition repo_trigger :: "dispatch_env \<Rightarrow> trigger_row \<Rightarrow> string \<Rightarrow> string \<Rightarrow> bool" where
  "repo_trigger env trg project dir \<longleftrightarrow>
     tg_type trg = Trg_Github \<and> tc_roleConcern (tg_config trg) = None \<and> present (tg_projectId trg) = Some project \<and>
     (case tc_action (tg_config trg) of None \<Rightarrow> False
      | Some a \<Rightarrow> (case present (ta_repoPath a) of None \<Rightarrow> False | Some p \<Rightarrow> fe_realpath (ce_fs (de_create env)) p = Some dir))"

lemma look_repo:
  assumes "launch_check env plan t w = Inr own" "lp_rails plan = None" "lp_specDedupKey plan = None"
  shows "listed_with (active_on (canonicalRepoPath (ce_fs (de_create env)) (lp_repoPath plan))) (lp_projectId plan) (tw_db w) = 0"
proof -
  have "\<not> list_ex (blocks_fire (ce_fs (de_create env)) plan) (getLoops (lp_projectId plan) (tw_db w))"
    using assms by (auto simp: launch_check_def Let_def split: if_splits sum.splits option.splits)
  then show ?thesis using assms(3) by (auto simp: listed_with_def filter_empty_conv active_on_def blocks_fire_def list_ex_iff)
qed

lemma repo_fire_plan:
  assumes "tg_type trg = Trg_Github" "tc_roleConcern (tg_config trg) = None" "present (tg_projectId trg) = Some project"
    and "tc_action (tg_config trg) = Some a" "present (ta_repoPath a) = Some p" and f: "fireTrigger env trg payload fi w = Some (r, w')"
  shows "\<exists>w1 w2. tw_db w1 = tw_db w \<and> tw_db w' = tw_db w2 \<and>
    ((r \<noteq> Launched \<and> w2 = w1) \<or> (\<exists>plan. lp_projectId plan = project \<and> lp_repoPath plan = p \<and> lp_rails plan = None \<and>
      lp_specDedupKey plan = None \<and> launchReviewWithDedup env trg plan fi w1 = (r, w2)))"
proof -
  obtain w1 where w1: "update_trigger (fi_now fi) (tg_id trg) (\<lambda>r. r\<lparr>tg_lastTriggeredAt := Some (fi_now fi)\<rparr>) w = Some w1"
    using f by (auto simp: fireTrigger_def split: option.splits)
  then have db: "tw_db w1 = tw_db w" by (auto simp: update_trigger_def split: option.splits)
  have m: "(x \<noteq> Launched \<and> v = w1) \<or> (\<exists>plan. lp_projectId plan = project \<and> lp_repoPath plan = p \<and> lp_rails plan = None \<and>
      lp_specDedupKey plan = None \<and> launchReviewWithDedup env trg plan fi w1 = (x, v))"
    if "launch_mapped env trg payload mapped fi w1 = (x, v)" for mapped x v
    using that assms(3-5)
    by (auto simp: launch_mapped_def Let_def plain_plan_def split: map_result.splits if_splits intro!: exI)
  have "\<exists>w2. tw_db w' = tw_db w2 \<and> ((r \<noteq> Launched \<and> w2 = w1) \<or>
      dispatch_fire env trg payload fi w1 = (r, w2))"
    using f by (auto simp: fireTrigger_def w1 Let_def split: if_splits prod.splits)
  then obtain w2 where w2: "tw_db w' = tw_db w2" "(r \<noteq> Launched \<and> w2 = w1) \<or> dispatch_fire env trg payload fi w1 = (r, w2)" by blast
  have "dispatch_fire env trg payload fi w1 =
      launch_mapped env trg payload (mapGitHubEventToReview (event_type payload) (eventBody payload)) fi w1"
    by (simp add: dispatch_fire_def assms(1,2) truthy_def maybeLaunchGitHubReview_def)
  with w2(2) m have "(r \<noteq> Launched \<and> w2 = w1) \<or> (\<exists>plan. lp_projectId plan = project \<and> lp_repoPath plan = p \<and> lp_rails plan = None \<and>
      lp_specDedupKey plan = None \<and> launchReviewWithDedup env trg plan fi w1 = (r, w2))" by metis
  with w2(1) db show ?thesis by blast
qed

lemma repo_fire:
  assumes t: "repo_trigger env trg project dir" and fresh: "ids_fresh (fi_ids fi) (tw_db w)"
    and ok: "editor_ok (or_store (lc_orch (rd_ctl (tw_db w))))" and f: "fireTrigger env trg payload fi w = Some (r, w')"
  shows "(r \<noteq> Launched \<and> tw_db w' = tw_db w) \<or>
    (r = Launched \<and> listed_with (active_on dir) project (tw_db w) = 0 \<and> listed_with (active_on dir) project (tw_db w') = 1 \<and>
     editor_ok (or_store (lc_orch (rd_ctl (tw_db w')))))"
proof -
  obtain a p where a: "tc_action (tg_config trg) = Some a" "present (ta_repoPath a) = Some p"
    and p: "fe_realpath (ce_fs (de_create env)) p = Some dir"
    using t by (auto simp: repo_trigger_def split: option.splits)
  have trg: "tg_type trg = Trg_Github" "tc_roleConcern (tg_config trg) = None" "present (tg_projectId trg) = Some project"
    using t by (simp_all add: repo_trigger_def)
  obtain w1 w2 where w1: "tw_db w1 = tw_db w" and w2: "tw_db w' = tw_db w2"
    and d: "(r \<noteq> Launched \<and> w2 = w1) \<or> (\<exists>plan. lp_projectId plan = project \<and> lp_repoPath plan = p \<and> lp_rails plan = None \<and>
      lp_specDedupKey plan = None \<and> launchReviewWithDedup env trg plan fi w1 = (r, w2))"
    using repo_fire_plan[OF trg a f] by blast
  have ready: "ready (fi_ids fi) w1" using fresh ok by (simp add: ready_def w1)
  from d show ?thesis
  proof (elim disjE exE conjE)
    assume "r \<noteq> Launched" "w2 = w1"
    then show ?thesis by (simp add: w1 w2)
  next
    fix plan
    assume plan: "lp_projectId plan = project" "lp_repoPath plan = p" "lp_rails plan = None" "lp_specDedupKey plan = None"
      and l: "launchReviewWithDedup env trg plan fi w1 = (r, w2)"
    from launch_effect[OF ready l] show ?thesis
    proof (elim disjE conjE exE)
      assume "r \<noteq> Launched" "w2 = w1"
      then show ?thesis by (simp add: w1 w2)
    next
      fix own
      assume r: "r = Launched" and c: "launched env trg plan fi w1 w2" and look: "launch_check env plan (fi_firedAt fi) w1 = Inr own"
      obtain own' pl where pl: "check_create (de_create env) (plan_params env trg plan (fi_firedAt fi) own') = Inr pl"
        "review_created (de_create env) (plan_params env trg plan (fi_firedAt fi) own') (fi_ids fi) pl (tw_db w1) (tw_db w2)"
        using c unfolding launched_def by blast
      have "pl_repo pl = dir"
        using check_create_repo[OF pl(1)] p
        by (auto simp: plan_params_def plan assertAllowedRepoPath_def realResolve_def Let_def split: if_splits option.splits)
      moreover have "getLoop (lc_store (rd_ctl (tw_db w1))) (ci_loopId (fi_ids fi)) = None" using ready by (simp add: ready_def ids_fresh_def)
      ultimately have "listed_with (active_on dir) project (tw_db w2) = listed_with (active_on dir) project (tw_db w1) + 1"
        using listed_created[OF pl(2), of "active_on dir" project] plan(1) by (simp add: active_on_def listed_active_def plan_params_def)
      moreover have "listed_with (active_on dir) project (tw_db w1) = 0" using look_repo[OF look plan(3,4)] plan p by (simp add: canonicalRepoPath_def)
      moreover have "editor_ok (or_store (lc_orch (rd_ctl (tw_db w2))))" using pl(2) by (simp add: review_created_def)
      ultimately show ?thesis using r w1 w2 by simp
    qed
  qed
qed

text \<open>Fresh ids at every fire of the cycle.\<close>

fun fresh_polled :: "dispatch_env \<Rightarrow> trigger_row \<Rightarrow> (nat \<Rightarrow> fire_inputs) \<Rightarrow> string \<Rightarrow> (nat, string) jsmap \<Rightarrow> pr_item list \<Rightarrow>
    trigger_world \<Rightarrow> bool" where
  "fresh_polled env trg fi repo prev [] w = True"
| "fresh_polled env trg fi repo prev (pr # prs) w =
     (let n = pi_number pr; seen = present (jget prev n); head = text_or [] (pi_headRefOid pr); base = text_or [] (pi_baseRefOid pr)
      in if \<not> pollable_sha (pi_headRefOid pr) \<or> \<not> pollable_sha (pi_baseRefOid pr) \<or> seen = Some head
         then fresh_polled env trg fi repo prev prs w
         else ids_fresh (fi_ids (fi n)) (tw_db w) \<and>
           (case fireTrigger env trg (prEnvelope repo pr head base (if seen \<noteq> None then ''synchronize'' else ''opened'')) (fi n) w of
              None \<Rightarrow> True | Some (r, w1) \<Rightarrow> fresh_polled env trg fi repo prev prs w1))"

lemma polled_launches:
  assumes t: "repo_trigger env trg project dir"
  shows "poll_prs env trg fi repo prev prs nxt w = (Some (heads, fired), w') \<Longrightarrow> fresh_polled env trg fi repo prev prs w \<Longrightarrow>
    editor_ok (or_store (lc_orch (rd_ctl (tw_db w)))) \<Longrightarrow>
    length (filter (\<lambda>x. snd x = Launched) fired) \<le> (if listed_with (active_on dir) project (tw_db w) = 0 then 1 else 0)"
proof (induction prs arbitrary: nxt w fired)
  case (Cons pr prs)
  let ?n = "pi_number pr" and ?last = "present (jget prev (pi_number pr))"
  let ?head = "text_or [] (pi_headRefOid pr)" and ?base = "text_or [] (pi_baseRefOid pr)"
  show ?case
  proof (cases "\<not> pollable_sha (pi_headRefOid pr) \<or> \<not> pollable_sha (pi_baseRefOid pr) \<or> ?last = Some ?head")
    case True
    then have "\<exists>nx. poll_prs env trg fi repo prev prs nx w = (Some (heads, fired), w')" using Cons.prems(1)
      by (auto simp: Let_def split: if_splits)
    moreover have "fresh_polled env trg fi repo prev prs w" using Cons.prems(2) True by (auto simp: Let_def)
    ultimately show ?thesis using Cons.IH Cons.prems(3) by blast
  next
    case False
    let ?fire = "fireTrigger env trg (prEnvelope repo pr ?head ?base (if ?last \<noteq> None then ''synchronize'' else ''opened'')) (fi ?n) w"
    obtain r w1 where f: "?fire = Some (r, w1)" using Cons.prems(1) False by (cases ?fire) (auto simp: Let_def)
    obtain nx fired' where nx: "poll_prs env trg fi repo prev prs nx w1 = (Some (heads, fired'), w')" "fired = (?n, r) # fired'"
      using Cons.prems(1) False f by (auto simp: Let_def split: prod.splits option.splits)
    have fresh: "ids_fresh (fi_ids (fi ?n)) (tw_db w)" "fresh_polled env trg fi repo prev prs w1"
      using Cons.prems(2) False f by (auto simp: Let_def)
    from repo_fire[OF t fresh(1) Cons.prems(3) f] show ?thesis
    proof (elim disjE conjE)
      assume "r \<noteq> Launched" and db: "tw_db w1 = tw_db w"
      moreover have "editor_ok (or_store (lc_orch (rd_ctl (tw_db w1))))" using Cons.prems(3) by (simp add: db)
      from Cons.IH[OF nx(1) fresh(2) this] have "length (filter (\<lambda>x. snd x = Launched) fired')
          \<le> (if listed_with (active_on dir) project (tw_db w) = 0 then 1 else 0)" by (simp add: db)
      ultimately show ?thesis by (simp add: nx(2))
    next
      assume "r = Launched" and n: "listed_with (active_on dir) project (tw_db w) = 0" "listed_with (active_on dir) project (tw_db w1) = 1"
        and ok: "editor_ok (or_store (lc_orch (rd_ctl (tw_db w1))))"
      from Cons.IH[OF nx(1) fresh(2) ok] n show ?thesis by (simp add: nx(2))
    qed
  qed
qed simp


section \<open>A pull request\<close>

definition polled_pr :: pr_item where
  "polled_pr = \<lparr>pi_number = 1, pi_title = None, pi_headRefOid = Some ''aaaaaaa'', pi_baseRefOid = Some ''ccccccc''\<rparr>"

definition one_pr :: gh_answers where
  "one_pr = \<lparr>gh_prs = (\<lambda>r. Some [polled_pr]), gh_defaultBranch = (\<lambda>r. None), gh_branchHead = (\<lambda>r b. None), gh_remote = (\<lambda>p. None)\<rparr>"

definition polled_env :: dispatch_env where
  "polled_env =
     sample_dispatch_env\<lparr>de_create := sample_create_env\<lparr>ce_fs := \<lparr>fe_realpath = Some, fe_exists = (\<lambda>p. True), fe_cwd = ''/srv''\<rparr>\<rparr>\<rparr>"

definition polled_trigger :: trigger_row where
  "polled_trigger =
     sample_trigger\<lparr>tg_type := Trg_Github,
       tg_config := \<lparr>tc_watchPath = None,
         tc_action = Some \<lparr>ta_kind = ''consilium_review'', ta_preset = Sdlc_Cross_Review, ta_repoPath = Some ''/srv/api'', ta_instruction = None\<rparr>,
         tc_roleConcern = None, tc_events = [''pull_request''], tc_repository = Some ''o/r'', tc_pollState = None\<rparr>\<rparr>"

lemma polled_launch:
  "map_option fst (fireTrigger polled_env polled_trigger (prEnvelope ''o/r'' polled_pr ''aaaaaaa'' ''ccccccc'' ''opened'')
     (sample_fire CHR ''0'') sample_trigger_world) = Some Launched"
  by code_simp

lemma polled_shas: "pollable_sha (Some ''aaaaaaa'')" "pollable_sha (Some ''ccccccc'')"
  by code_simp+

lemma polled_result:
  "\<exists>st' w'. pollPullRequests polled_env one_pr polled_trigger (\<lambda>n. sample_fire CHR ''0'') ''o/r'' no_poll_state sample_trigger_world =
     (Some (st', [(1, Launched)]), w')"
proof -
  obtain w1 where "fireTrigger polled_env polled_trigger (prEnvelope ''o/r'' polled_pr ''aaaaaaa'' ''ccccccc'' ''opened'')
     (sample_fire CHR ''0'') sample_trigger_world = Some (Launched, w1)" using polled_launch by auto
  moreover have "pi_number polled_pr = 1" "pi_headRefOid polled_pr = Some ''aaaaaaa''" "pi_baseRefOid polled_pr = Some ''ccccccc''"
    "gh_prs one_pr ''o/r'' = Some [polled_pr]" by (simp_all add: polled_pr_def one_pr_def)
  ultimately show ?thesis
    by (simp add: pollPullRequests_def no_poll_state_def polled_shas present_def text_or_def Let_def)
qed

lemma poll_retries_dedup_only_witness:
  "\<exists>st' w' heads. pollPullRequests polled_env one_pr polled_trigger (\<lambda>n. sample_fire CHR ''0'') ''o/r'' no_poll_state sample_trigger_world =
       (Some (st', [(1, Launched)]), w') \<and>
     gp_prHeads st' = Some heads \<and> jget heads 1 = Some ''aaaaaaa'' \<and> jget heads 3 = None"
proof -
  obtain st' w' where p: "pollPullRequests polled_env one_pr polled_trigger (\<lambda>n. sample_fire CHR ''0'') ''o/r'' no_poll_state sample_trigger_world =
      (Some (st', [(1, Launched)]), w')" using polled_result by blast
  have prs: "gh_prs one_pr ''o/r'' = Some [polled_pr]" and n: "pi_number polled_pr = 1" by (simp_all add: one_pr_def polled_pr_def)
  from poll_retries_dedup_only[OF prs _ _ p] obtain heads where h: "gp_prHeads st' = Some heads"
    "\<forall>k. k \<noteq> 1 \<longrightarrow> jget heads k = None" "due heads polled_pr \<longleftrightarrow> (1, Skipped_Dedup) \<in> set [(1 :: nat, Launched)]" by (auto simp: n)
  have "jget heads 1 = Some ''aaaaaaa''" using h(3) polled_shas by (simp add: polled_pr_def due_def)
  moreover have "jget heads 3 = None" using h(2) by simp
  ultimately show ?thesis using p h(1) by blast
qed


text \<open>
  the note at the expression says no leading dash, which would be read as an option. The expression lets it through:
  in the declared repository and in one read from a remote.
\<close>

theorem leading_dash_accepted:
  "owner_repo_shape ''--web/x'' \<and> parseOwnerRepo ''git@github.com:--web/x.git'' = Some ''--web/x'' \<and>
   parseOwnerRepo ''https://github.com/acme/app.git'' = Some ''acme/app''"
  by code_simp

end
