(* ===== verification/Trigger_Races.thy ===== *)
theory Trigger_Races
  imports Trigger_Facts
begin

text \<open>
  Fires of triggers that overlap: each looks for an active loop and creates one, and between the two steps other fires
  may look (\<open>launchReviewWithDedup\<close> of \<open>server/services/consilium/trigger-dispatch.ts\<close>).
\<close>

section \<open>Fires that overlap\<close>

text \<open>Each has looked before the first of them creates.\<close>

fun interleaved :: "dispatch_env \<Rightarrow> trigger_row \<Rightarrow> launch_plan \<Rightarrow> (fire_inputs \<times> (fire_result + string)) list \<Rightarrow> trigger_world \<Rightarrow>
    fire_result list \<times> trigger_world" where
  "interleaved env trg plan [] w = ([], w)"
| "interleaved env trg plan ((fi, look) # xs) w =
     (let (r, w1) = (case look of Inl r \<Rightarrow> (r, w) | Inr own \<Rightarrow> launch_create env trg plan fi own w);
          (rs, w2) = interleaved env trg plan xs w1
      in (r # rs, w2))"

definition concurrent_fires :: "dispatch_env \<Rightarrow> trigger_row \<Rightarrow> launch_plan \<Rightarrow> fire_inputs list \<Rightarrow> trigger_world \<Rightarrow>
    fire_result list \<times> trigger_world" where
  "concurrent_fires env trg plan fis w = interleaved env trg plan (map (\<lambda>fi. (fi, launch_check env plan (fi_firedAt fi) w)) fis) w"

fun fresh_along :: "dispatch_env \<Rightarrow> trigger_row \<Rightarrow> launch_plan \<Rightarrow> string \<Rightarrow> fire_inputs list \<Rightarrow> trigger_world \<Rightarrow> bool" where
  "fresh_along env trg plan own [] w = True"
| "fresh_along env trg plan own (fi # fis) w =
     (ids_fresh (fi_ids fi) (tw_db w) \<and> fresh_along env trg plan own fis (snd (launch_create env trg plan fi own w)))"

lemma interleaved_launch:
  assumes "editor_ok (or_store (lc_orch (rd_ctl (tw_db w))))" "fresh_along env trg plan own fis w"
    and "list_all (\<lambda>fi. case check_create (de_create env) (plan_params env trg plan (fi_firedAt fi) own) of
      Inl e \<Rightarrow> False | Inr pl \<Rightarrow> pl_repo pl = repo) fis"
    and "interleaved env trg plan (map (\<lambda>fi. (fi, Inr own)) fis) w = (rs, w')"
  shows "rs = replicate (length fis) Launched \<and>
    listed_with (active_on repo) (lp_projectId plan) (tw_db w') = listed_with (active_on repo) (lp_projectId plan) (tw_db w) + length fis"
  using assms
proof (induction fis arbitrary: w rs)
  case (Cons fi fis)
  let ?p = "plan_params env trg plan (fi_firedAt fi) own"
  obtain r w1 where c: "launch_create env trg plan fi own w = (r, w1)" by force
  obtain rs1 where rs1: "interleaved env trg plan (map (\<lambda>fi. (fi, Inr own)) fis) w1 = (rs1, w')" "rs = r # rs1"
    using Cons.prems(4) by (auto simp: c Let_def split: prod.splits)
  have fresh: "ids_fresh (fi_ids fi) (tw_db w)" and later: "fresh_along env trg plan own fis w1" using Cons.prems(2) by (simp_all add: c)
  obtain pl where pl: "check_create (de_create env) ?p = Inr pl" "pl_repo pl = repo" using Cons.prems(3) by (auto split: sum.splits)
  obtain db' where db: "createConsiliumReview (de_create env) ?p (fi_ids fi) (tw_db w) = (Inr (ci_loopId (fi_ids fi)), db')"
    "review_created (de_create env) ?p (fi_ids fi) pl (tw_db w) db'"
    using create_cases[OF fresh Cons.prems(1), of "de_create env" ?p] pl by auto
  then have r: "r = Launched" "tw_db w1 = db'" using c by (auto simp: launch_create_def)
  have "getLoop (lc_store (rd_ctl (tw_db w))) (ci_loopId (fi_ids fi)) = None" using fresh by (simp add: ids_fresh_def)
  from listed_created[OF db(2) this, of "active_on repo" "lp_projectId plan"]
  have one: "listed_with (active_on repo) (lp_projectId plan) db' = listed_with (active_on repo) (lp_projectId plan) (tw_db w) + 1"
    by (simp add: active_on_def listed_active_def pl(2) plan_params_def)
  have ok: "editor_ok (or_store (lc_orch (rd_ctl (tw_db w1))))" using db(2) by (simp add: review_created_def r(2))
  have "list_all (\<lambda>fi. case check_create (de_create env) (plan_params env trg plan (fi_firedAt fi) own) of
      Inl e \<Rightarrow> False | Inr pl \<Rightarrow> pl_repo pl = repo) fis" using Cons.prems(3) by simp
  from Cons.IH[OF ok later this rs1(1)] show ?case by (simp add: rs1(2) r one)
qed simp

text \<open>
  C30: the look and the creation are two steps. Of fires that have all looked before the first of them creates, every one
  launches, and the repository has as many active loops more as there are fires; the note at the guard says at most two.
\<close>

theorem concurrent_fires_all_launch:
  assumes "editor_ok (or_store (lc_orch (rd_ctl (tw_db w))))" "fresh_along env trg plan own fis w"
    and "list_all (\<lambda>fi. launch_check env plan (fi_firedAt fi) w = Inr own) fis"
    and "list_all (\<lambda>fi. case check_create (de_create env) (plan_params env trg plan (fi_firedAt fi) own) of
      Inl e \<Rightarrow> False | Inr pl \<Rightarrow> pl_repo pl = repo) fis"
    and "concurrent_fires env trg plan fis w = (rs, w')"
  shows "rs = replicate (length fis) Launched \<and>
    listed_with (active_on repo) (lp_projectId plan) (tw_db w') = listed_with (active_on repo) (lp_projectId plan) (tw_db w) + length fis"
proof -
  have "map (\<lambda>fi. (fi, launch_check env plan (fi_firedAt fi) w)) fis = map (\<lambda>fi. (fi, Inr own)) fis"
    using assms(3) by (simp add: list_all_iff)
  with assms(5) have "interleaved env trg plan (map (\<lambda>fi. (fi, Inr own)) fis) w = (rs, w')" by (simp add: concurrent_fires_def)
  from interleaved_launch[OF assms(1,2,4) this] show ?thesis .
qed

definition sample_plan :: launch_plan where
  "sample_plan = plain_plan ''p1'' ''/srv/api'' Sdlc_Cross_Review JNull"

lemma concurrent_fires_all_launch_witness:
  "\<exists>w'. concurrent_fires sample_dispatch_env sample_trigger sample_plan (map sample_fire ''012'') sample_trigger_world =
       ([Launched, Launched, Launched], w') \<and>
     listed_with (active_on ''/srv/api'') ''p1'' (tw_db w') = 3"
proof -
  let ?fs = "map sample_fire ''012''"
  obtain rs w' where w': "concurrent_fires sample_dispatch_env sample_trigger sample_plan ?fs sample_trigger_world = (rs, w')" by force
  have ok: "editor_ok (or_store (lc_orch (rd_ctl (tw_db sample_trigger_world))))"
    using no_reviews_ready(2) by (simp add: sample_trigger_world_def)
  have fresh: "fresh_along sample_dispatch_env sample_trigger sample_plan ''u1'' ?fs sample_trigger_world" by code_simp
  have look: "list_all (\<lambda>fi. launch_check sample_dispatch_env sample_plan (fi_firedAt fi) sample_trigger_world = Inr ''u1'') ?fs" by code_simp
  have check: "list_all (\<lambda>fi. case check_create (de_create sample_dispatch_env)
      (plan_params sample_dispatch_env sample_trigger sample_plan (fi_firedAt fi) ''u1'') of
      Inl e \<Rightarrow> False | Inr pl \<Rightarrow> pl_repo pl = ''/srv/api'') ?fs" by code_simp
  have "listed_with (active_on ''/srv/api'') ''p1'' (tw_db sample_trigger_world) = 0" by code_simp
  moreover have "lp_projectId sample_plan = ''p1''" "length ?fs = 3" by (simp_all add: sample_plan_def plain_plan_def)
  ultimately have "rs = [Launched, Launched, Launched]" "listed_with (active_on ''/srv/api'') ''p1'' (tw_db w') = 3"
    using concurrent_fires_all_launch[OF ok fresh look check w'] by (simp_all add: numeral_3_eq_3)
  with w' show ?thesis by blast
qed

end
