(* ===== verification/Spec2Isabelle.thy ===== *)
theory Spec2Isabelle
  imports Crdt_Peer_Sync Config_Sync Conflict_Resolution Approval_Voting Session_Sharing
    Wave_Schedule Orchestrator_Runs Failure_Sweep Loop_Slots Worker_Pool Symbol_Extraction Workspace_Watcher Review_Outcomes Event_Map Review_Create_Facts Spec_Facts Trigger_Dispatch Trigger_Facts Github_Poller Poller_Facts Trigger_Races
begin

text \<open>
  A verification library of multiqlti, a server that plans work with language models, runs it as graphs of tasks,
  reviews and develops it in loops, indexes the workspaces it works on and shares sessions with federated instances.

  \<^bold>\<open>The parts and how they interact.\<close> A task group (\<open>server/services/task-group-editor.ts\<close>) is a graph of tasks the
  editor keeps acyclic (\<open>task-graph.ts\<close>); the orchestrator (\<open>task-orchestrator.ts\<close>) launches a task once its
  dependencies are done and sweeps away what a failure cuts off. A consilium loop
  (\<open>server/services/consilium/consilium-loop-controller.ts\<close>) runs such groups as reviews, reads the judge's verdict
  (\<open>orchestrator/convergence.ts\<close>), orders its action points into waves, and decides between another round,
  development, a human gate and an end. The workspace index (\<open>server/workspace\<close>) follows the files of a repository:
  watcher, incremental indexer, parse workers, graph, snapshot and log. The federation (\<open>server/federation\<close>) shares
  sessions with permissions, approval votes and disputes, replicates session documents as mergeable types and sends
  configuration events through an outbox and a per-peer queue, with conflict detection at the receiver.

  \<^bold>\<open>Shared vocabulary.\<close> \<open>Prelude\<close>: a \<open>Map\<close> or an object used as a record is an association list in insertion order, a
  \<open>Set\<close> a distinct list. \<open>Js_Text\<close>, \<open>Js_Path\<close>, \<open>Js_Date\<close>: the string, path and date functions the sources call.
  \<open>Json\<close>, \<open>Json_Parse\<close>: JSON values, \<open>JSON.stringify\<close> and \<open>JSON.parse\<close>. A class is a record of its fields; a method
  takes it and returns it changed; what another system answers (a model, git, a clock, a uuid, a random number) is an
  argument; a thrown error is a value of a sum or option type; an \<open>await\<close> during which other calls may run splits an
  operation in two.

  \<^bold>\<open>Replicated session documents.\<close> \<open>Vector_Clock\<close>, \<open>Counters\<close>, \<open>Lww\<close>, \<open>Or_Set\<close> (\<open>crdt/vector-clock.ts\<close>,
  \<open>g-counter.ts\<close>, \<open>pn-counter.ts\<close>, \<open>lww-register.ts\<close>, \<open>lww-map.ts\<close>, \<open>or-set.ts\<close>) instantiate the locale
  of \<open>Crdt_Interface\<close>: observations form a join semilattice that merge joins and local writes only raise.
  \<open>Crdt_Document\<close> is their product (\<open>document.ts\<close>); its lemmas give convergence under every order and repetition of
  merges. \<open>Crdt_Sync\<close> and \<open>Crdt_Peer_Sync\<close> are the manager and its bridge to the peers (\<open>sync.ts\<close>, \<open>peer-sync.ts\<close>):
  an exchange of two instances makes them equal.

  \<^bold>\<open>Configuration events.\<close> \<open>Peer_Queue_Store\<close> and \<open>Peer_Queue\<close> (\<open>peer-queue.ts\<close>): the queue with coalescing refines a
  map from entities to their latest event, and a flush keeps what is enqueued while it sends. \<open>Conflict_Store\<close> and
  \<open>Config_Conflict\<close> (\<open>config-conflict.ts\<close>): the outcome of the detector for each strategy. \<open>Config_Sync\<close>
  (\<open>config-sync.ts\<close>): a published event parses back to what was published, and is applied at most once.

  \<^bold>\<open>Shared sessions.\<close> \<open>Permissions\<close>, \<open>Session_Sharing\<close>, \<open>Approval_Voting\<close>, \<open>Conflict_Resolution\<close> (the files of the same
  names): only permitted events are forwarded, the outcome of a gate vote, the invariant of disputes, the finality of
  closed ones and the exact quorum.

  \<^bold>\<open>Task groups.\<close> \<open>Task_Graph\<close>: the explicit-stack search accepts exactly the acyclic graphs; the fuel of the search
  is one more than the work left on its stack, which every step lowers. \<open>Task_Store\<close>: the rows of \<open>MemStorage\<close>
  (\<open>server/storage.ts\<close>). \<open>Task_Editor\<close>, \<open>Task_Editor_Facts\<close>: every edit keeps every group acyclic. \<open>Llm_Response\<close>:
  the direct model call of a task with its retry. \<open>Execution_Claims\<close>: an execution is claimed once.
  \<open>Task_Orchestrator\<close>: starting, launching, running, resolving, failing, cancelling, retrying. \<open>Orchestrator_Facts\<close>,
  \<open>Orchestrator_Runs\<close>: in every interleaving a task starts after its dependencies. \<open>Failure_Sweep\<close>: the fixpoint loop
  ends and cancels exactly what depends on the failure.

  \<^bold>\<open>Consilium loops.\<close> \<open>Convergence\<close> bounds and checks the judge's reply, \<open>Wave_Schedule\<close> orders the action points,
  \<open>Rate_Limit\<close> (\<open>server/gateway/rate-limit.ts\<close>) classifies provider errors. \<open>Loop_Fsm\<close> is the pure reducer,
  \<open>Loop_Store\<close> the loop rows with their compare-and-swap, \<open>Loop_Controller\<close> ticks, commands and the sweep over both.
  \<open>Loop_Facts\<close>: the shape of transitions, the decision table and a gated loop that can not be developed.
  \<open>Loop_Slots\<close>: in every interleaving at most three human developments run. \<open>Loop_Bounds\<close>: two announced bounds that
  do not hold.

  \<^bold>\<open>Workspace index.\<close> \<open>Workspace_Watcher\<close> (\<open>file-watcher.ts\<close>): debouncing loses no file. \<open>Worker_Pool\<close> and
  \<open>Symbol_Extraction\<close> (\<open>indexer.ts\<close>): at most four parsers, every task in one place; every symbol well typed.
  \<open>Patchable_Graph\<close> (\<open>patchable-graph.ts\<close>): nodes, edges, two adjacency indices, counts, patches.
  \<open>Incremental_Indexer\<close> (\<open>incremental-indexer.ts\<close>, \<open>index-snapshot.ts\<close>): batches of events over graph, snapshot and
  log. \<open>Index_Facts\<close>: the graph stays exact under edits, and a restart recovers it from disk; three defects of counts,
  importers and cached failures. \<open>Index_Equivalence\<close>: indexing file by file gives the graph of a full rebuild.

  \<^bold>\<open>Reviews.\<close> \<open>Review_Panel\<close> (\<open>review-factory.ts\<close>) builds the graph of a panel's review tasks and the bounded
  instruction they get: untrusted text can not leave its fence, skills fit the byte budget. \<open>Review_Runner\<close>
  (\<open>review-runner.ts\<close>) runs such a graph wave by wave; each answer of the gateway is a step, so the answers of a wave
  come in any order. \<open>Review_Runs\<close>: calls follow the dependencies, every run ends, no failure becomes a verdict.
  \<open>Review_Outcomes\<close>: a graph the validation of \<open>Task_Graph\<close> accepts never blocks its review, the panels' graphs are
  such graphs, and two limited seats can end up on one model. \<open>Event_Map\<close> (\<open>github-event-map.ts\<close>,
  \<open>gitlab-event-map.ts\<close>): a webhook is mapped to a review of a real commit or to none.

  \<^bold>\<open>Launching reviews.\<close> \<open>Repo_Guard\<close> (\<open>repo-allowlist.ts\<close>, \<open>ref-validator.ts\<close>): which paths and references are let through.
  \<open>Review_Create\<close> is \<open>createConsiliumReview\<close> of \<open>review-factory.ts\<close>, over the state of the loop controller and its
  task groups; \<open>Review_Create_Facts\<close>: it writes everything or nothing, and what it writes passes the editor's validation.
  \<open>Spec_Parser\<close>, \<open>Spec_Facts\<close> (\<open>spec-parser.ts\<close>): which committed document is a task, and that its criteria reach the
  reviewers. \<open>Trigger_Dispatch\<close> (\<open>trigger-dispatch.ts\<close>, \<open>role-compose.ts\<close>, \<open>fireTrigger\<close> of \<open>server/routes.ts\<close>):
  every way from a fired trigger to a review, with the check for active loops and the creation as two steps.
  \<open>Trigger_Facts\<close>: the counters account for every fire and the rails of a role hold while fires do not overlap;
  \<open>Trigger_Races\<close>: fires that do overlap all launch. \<open>Github_Poller\<close> (\<open>server/services/github-poller.ts\<close>) fires what it
  pulls; \<open>Poller_Facts\<close>: as a webhook would, one review per poll at most, and what comes up again is exactly what an
  active loop held back.

  \<^bold>\<open>Bounds.\<close> JavaScript numbers that count or measure are \<open>nat\<close> or \<open>int\<close>: no counter here comes near \<open>2 ^ 53\<close>.
  Fractions (quorum shares, scores) are rationals, where the code has doubles. A loop over fuel is given the measure it
  lowers, so the fuel never runs out; the lemmas that say so stand beside the loops.

  \<^bold>\<open>Not modelled.\<close> HTTP routes and the web client (glue and display); SQL storage (the in-memory implementation of the
  same interface is modelled); provider clients, git, sandboxes, trackers and sockets (other systems: their answers are
  arguments); prompts and logs (texts nothing reads back). Timers are not run: a firing is an operation. Text is a list
  of characters, each one UTF-16 unit; beyond Latin-1 only the few signs \<open>Js_Text\<close> names are
  represented. Of a review's objective the digest of the
  repository is an argument; of the loop controller, the planner, the archetype columns, prior findings, experience and the close-out are left out; of the indexer, the full run and its
  broadcasts; of the storage, the rows no modelled service touches.
\<close>

end
